(* ===== verification/Prelude.thy ===== *)
theory Prelude
  imports Complex_Main "HOL-Library.Char_ord" "HOL-Library.List_Lexorder"
begin

text \<open>
  The shared ground of the development: results and transactions as explicit state passing,
  the Python values and exception classes the components exchange, the text helpers that error
  messages and journal payloads use, and the generic lemmas every component's proofs rest on.
\<close>

named_theorems tx_simps \<open>evaluation rules of the transaction combinators\<close>
named_theorems tx_iff \<open>characterisations of a successful transaction\<close>

section \<open>Results and transactions\<close>

text \<open>
  A Python call that returns or raises is a sum: \<open>Inl\<close> the exception, \<open>Inr\<close> the value.
  \<open>bindR\<close> is the sequencing of two such calls: the first exception ends the sequence.
\<close>

definition bindR :: "'e + 'a \<Rightarrow> ('a \<Rightarrow> 'e + 'b) \<Rightarrow> 'e + 'b" where
  "bindR m f = (case m of Inl e \<Rightarrow> Inl e | Inr x \<Rightarrow> f x)"

definition refuse_if :: "bool \<Rightarrow> 'e \<Rightarrow> 'e + unit" where
  "refuse_if b e = (if b then Inl e else Inr ())"

lemma bindR_simps [simp]: "bindR (Inl e) f = Inl e" "bindR (Inr x) f = f x"
  by (simp_all add: bindR_def)

lemma bindR_Inr_iff [tx_iff]: "bindR m f = Inr y \<longleftrightarrow> (\<exists>x. m = Inr x \<and> f x = Inr y)"
  by (simp add: bindR_def split: sum.splits)

lemma bindR_Inl_iff: "bindR m f = Inl e \<longleftrightarrow> m = Inl e \<or> (\<exists>x. m = Inr x \<and> f x = Inl e)"
  by (auto simp: bindR_def split: sum.splits)

lemma refuse_if_Inr [simp]: "refuse_if b e = Inr u \<longleftrightarrow> \<not> b"
  by (simp add: refuse_if_def)

lemma refuse_if_Inl [simp]: "refuse_if b e = Inl e' \<longleftrightarrow> b \<and> e' = e"
  by (auto simp: refuse_if_def)

lemma refuse_if_simps [simp]: "refuse_if True e = Inl e" "refuse_if False e = Inr ()"
  by (simp_all add: refuse_if_def)

text \<open>
  A transaction reads and writes a state and either raises, which rolls the state back because
  the raising branch carries none, or returns a value with the state it leaves.
\<close>

type_synonym ('s, 'e, 'a) tx = "'s \<Rightarrow> 'e + ('a \<times> 's)"

definition retT :: "'a \<Rightarrow> ('s, 'e, 'a) tx" where
  "retT x = (\<lambda>s. Inr (x, s))"

definition failT :: "'e \<Rightarrow> ('s, 'e, 'a) tx" where
  "failT e = (\<lambda>s. Inl e)"

definition bindT :: "('s, 'e, 'a) tx \<Rightarrow> ('a \<Rightarrow> ('s, 'e, 'b) tx) \<Rightarrow> ('s, 'e, 'b) tx" where
  "bindT m f = (\<lambda>s. case m s of Inl e \<Rightarrow> Inl e | Inr (x, t) \<Rightarrow> f x t)"

definition seqT :: "('s, 'e, 'a) tx \<Rightarrow> ('s, 'e, 'b) tx \<Rightarrow> ('s, 'e, 'b) tx" where
  "seqT m n = bindT m (\<lambda>_. n)"

definition getT :: "('s \<Rightarrow> 'a) \<Rightarrow> ('s, 'e, 'a) tx" where
  "getT f = (\<lambda>s. Inr (f s, s))"

definition modT :: "('s \<Rightarrow> 's) \<Rightarrow> ('s, 'e, unit) tx" where
  "modT f = (\<lambda>s. Inr ((), f s))"

definition liftT :: "'e + 'a \<Rightarrow> ('s, 'e, 'a) tx" where
  "liftT r = (\<lambda>s. case r of Inl e \<Rightarrow> Inl e | Inr x \<Rightarrow> Inr (x, s))"

definition whenT :: "bool \<Rightarrow> ('s, 'e, unit) tx \<Rightarrow> ('s, 'e, unit) tx" where
  "whenT b m = (if b then m else retT ())"

text \<open>What is left of the state after a transaction: a raised one is rolled back.\<close>

definition state_after :: "('s, 'e, 'a) tx \<Rightarrow> 's \<Rightarrow> 's" where
  "state_after m s = (case m s of Inl _ \<Rightarrow> s | Inr (_, t) \<Rightarrow> t)"

lemma retT_apply [tx_simps]: "retT x s = Inr (x, s)"
  by (simp add: retT_def)

lemma failT_apply [tx_simps]: "failT e s = Inl e"
  by (simp add: failT_def)

lemma getT_apply [tx_simps]: "getT f s = Inr (f s, s)"
  by (simp add: getT_def)

lemma modT_apply [tx_simps]: "modT f s = Inr ((), f s)"
  by (simp add: modT_def)

lemma liftT_apply [tx_simps]: "liftT (Inl e) s = Inl e" "liftT (Inr x) s = Inr (x, s)"
  by (simp_all add: liftT_def)

lemma whenT_apply [tx_simps]: "whenT b m s = (if b then m s else Inr ((), s))"
  by (simp add: whenT_def retT_def)

lemma bindT_apply [tx_simps]:
  "bindT m f s = (case m s of Inl e \<Rightarrow> Inl e | Inr (x, t) \<Rightarrow> f x t)"
  by (simp add: bindT_def)

lemma seqT_apply [tx_simps]:
  "seqT m n s = (case m s of Inl e \<Rightarrow> Inl e | Inr (x, t) \<Rightarrow> n t)"
  by (simp add: seqT_def bindT_def)

lemma bindT_Inr_iff [tx_iff]:
  "bindT m f s = Inr r \<longleftrightarrow> (\<exists>x t. m s = Inr (x, t) \<and> f x t = Inr r)"
  by (auto simp: bindT_def split: sum.splits prod.splits)

lemma bindT_Inl_iff:
  "bindT m f s = Inl e \<longleftrightarrow> m s = Inl e \<or> (\<exists>x t. m s = Inr (x, t) \<and> f x t = Inl e)"
  by (auto simp: bindT_def split: sum.splits prod.splits)

lemma seqT_Inr_iff [tx_iff]:
  "seqT m n s = Inr r \<longleftrightarrow> (\<exists>x t. m s = Inr (x, t) \<and> n t = Inr r)"
  by (simp add: seqT_def bindT_Inr_iff)

lemma seqT_Inl_iff:
  "seqT m n s = Inl e \<longleftrightarrow> m s = Inl e \<or> (\<exists>x t. m s = Inr (x, t) \<and> n t = Inl e)"
  by (simp add: seqT_def bindT_Inl_iff)

lemma liftT_Inr_iff [tx_iff]: "liftT r s = Inr (x, t) \<longleftrightarrow> r = Inr x \<and> t = s"
  by (auto simp: liftT_def split: sum.splits)

lemma retT_Inr_iff [tx_iff]: "retT v s = Inr (x, t) \<longleftrightarrow> x = v \<and> t = s"
  by (auto simp: retT_def)

lemma modT_Inr_iff [tx_iff]: "modT f s = Inr (x, t) \<longleftrightarrow> t = f s"
  by (auto simp: modT_def)

lemma getT_Inr_iff [tx_iff]: "getT f s = Inr (x, t) \<longleftrightarrow> x = f s \<and> t = s"
  by (auto simp: getT_def)

lemma failT_Inr_iff [tx_iff]: "failT e s \<noteq> Inr r"
  by (simp add: failT_def)

lemma state_after_Inl: "m s = Inl e \<Longrightarrow> state_after m s = s"
  by (simp add: state_after_def)

lemma state_after_Inr: "m s = Inr (x, t) \<Longrightarrow> state_after m s = t"
  by (simp add: state_after_def)

text \<open>
  A relation between the state before and after that is reflexive and holds for every successful
  outcome holds across the transaction boundary, whichever way the transaction ends.
\<close>

lemma state_afterI:
  assumes "P s s" and "\<And>x t. m s = Inr (x, t) \<Longrightarrow> P s t"
  shows "P s (state_after m s)"
  using assms by (auto simp: state_after_def split: sum.splits)

text \<open>\<open>x is not None and P(x)\<close>, the guard of an optional argument.\<close>

definition given :: "('a \<Rightarrow> bool) \<Rightarrow> 'a option \<Rightarrow> bool" where
  "given P x = (case x of None \<Rightarrow> False | Some v \<Rightarrow> P v)"

lemma given_iff: "given P x \<longleftrightarrow> (\<exists>v. x = Some v \<and> P v)"
  by (simp add: given_def split: option.splits)

lemma given_simps [simp]: "\<not> given P None" "given P (Some v) = P v"
  by (simp_all add: given_def)

text \<open>\<open>d[k] = v\<close> on a dictionary in insertion order: a key that is there keeps its place.\<close>

fun dict_set :: "('k \<times> 'v) list \<Rightarrow> 'k \<Rightarrow> 'v \<Rightarrow> ('k \<times> 'v) list" where
  "dict_set [] k v = [(k, v)]"
| "dict_set ((k', v') # kvs) k v = (if k' = k then (k, v) # kvs else (k', v') # dict_set kvs k v)"

lemma map_of_dict_set [simp]: "map_of (dict_set kvs k v) = (map_of kvs)(k \<mapsto> v)"
  by (induction kvs) (auto simp: fun_eq_iff)

lemma keys_dict_set: "map fst (dict_set kvs k v) = map fst kvs @ (if k \<in> set (map fst kvs) then [] else [k])"
  by (induction kvs) (force simp: image_iff)+

lemma dict_set_new: "k \<notin> set (map fst kvs) \<Longrightarrow> dict_set kvs k v = kvs @ [(k, v)]"
  by (induction kvs) auto

section \<open>Relations kept by transactions\<close>

text \<open>
  \<open>keeps R m\<close>: whenever \<open>m\<close> commits, the states before and after are related by \<open>R\<close>. For a
  reflexive and transitive \<open>R\<close> (\<open>evolution\<close>) this composes along the transaction combinators, so a
  property of an operation follows from the same property of its statements. A state predicate
  \<open>I\<close> is preserved when \<open>\<lambda>s t. I s \<longrightarrow> I t\<close> is kept.
\<close>

definition keeps :: "('s \<Rightarrow> 's \<Rightarrow> bool) \<Rightarrow> ('s, 'e, 'a) tx \<Rightarrow> bool" where
  "keeps R m \<longleftrightarrow> (\<forall>s x t. m s = Inr (x, t) \<longrightarrow> R s t)"

lemma keepsI: "(\<And>s x t. m s = Inr (x, t) \<Longrightarrow> R s t) \<Longrightarrow> keeps R m"
  by (auto simp: keeps_def)

lemma keepsD: "keeps R m \<Longrightarrow> m s = Inr (x, t) \<Longrightarrow> R s t"
  by (auto simp: keeps_def)

lemma keeps_mod: "(\<And>s. R s (f s)) \<Longrightarrow> keeps R (modT f)"
  by (auto simp: keeps_def modT_def)

lemma keeps_fail: "keeps R (failT e)"
  by (simp add: keeps_def failT_def)

lemma keeps_conj: "keeps R m \<Longrightarrow> keeps S m \<Longrightarrow> keeps (\<lambda>s t. R s t \<and> S s t) m"
  by (simp add: keeps_def)

lemma keeps_mono: "keeps R m \<Longrightarrow> (\<And>s t. R s t \<Longrightarrow> S s t) \<Longrightarrow> keeps S m"
  by (auto simp: keeps_def)

locale evolution =
  fixes R :: "'s \<Rightarrow> 's \<Rightarrow> bool"
  assumes refl: "R s s"
    and trans: "R s t \<Longrightarrow> R t u \<Longrightarrow> R s u"
begin

lemma ret: "keeps R (retT x)"
  by (simp add: keeps_def retT_def refl)

lemma get: "keeps R (getT f)"
  by (simp add: keeps_def getT_def refl)

lemma lift: "keeps R (liftT r)"
  by (auto simp: keeps_def liftT_Inr_iff refl)

lemma bind: "keeps R m \<Longrightarrow> (\<And>x. keeps R (f x)) \<Longrightarrow> keeps R (bindT m f)"
  by (fastforce simp: keeps_def bindT_Inr_iff intro: trans)

lemma seq: "keeps R m \<Longrightarrow> keeps R n \<Longrightarrow> keeps R (seqT m n)"
  by (fastforce simp: keeps_def seqT_Inr_iff intro: trans)

lemma branch: "(b \<Longrightarrow> keeps R m) \<Longrightarrow> (\<not> b \<Longrightarrow> keeps R n) \<Longrightarrow> keeps R (if b then m else n)"
  by simp

lemma after: "keeps R m \<Longrightarrow> R s (state_after m s)"
  by (rule state_afterI) (auto simp: refl keeps_def)

lemmas composition = ret get lift bind seq branch keeps_fail

end

end
