(* ===== verification/Py_Text.thy ===== *)
theory Py_Text
  imports Prelude
begin

text \<open>
  Text as the program handles it: Python strings are character lists (code points below 256),
  with the string methods the sources call - \<open>strip\<close> tested for emptiness, \<open>join\<close>, \<open>repr\<close>,
  decimal rendering and the sort order of strings.
\<close>

section \<open>String methods\<close>

definition py_space :: "char \<Rightarrow> bool" where
  "py_space c = (let n = of_char c :: nat in
     (9 \<le> n \<and> n \<le> 13) \<or> (28 \<le> n \<and> n \<le> 32) \<or> n = 133 \<or> n = 160)"

text \<open>\<open>not s.strip()\<close>: the string is empty or whitespace only.\<close>

definition blank :: "string \<Rightarrow> bool" where
  "blank s = list_all py_space s"

text \<open>\<open>s.strip()\<close>: without the whitespace at both ends.\<close>

definition py_strip :: "string \<Rightarrow> string" where
  "py_strip s = rev (dropWhile py_space (rev (dropWhile py_space s)))"

text \<open>\<open>d or alt\<close> on an optional text: an empty one counts as absent.\<close>

definition or_text :: "string option \<Rightarrow> string \<Rightarrow> string" where
  "or_text d alt = (case d of None \<Rightarrow> alt | Some t \<Rightarrow> if t = '''' then alt else t)"

text \<open>\<open>sep.join(parts)\<close>.\<close>

fun join :: "string \<Rightarrow> string list \<Rightarrow> string" where
  "join sep [] = ''''"
| "join sep [x] = x"
| "join sep (x # xs) = x @ sep @ join sep xs"

text \<open>Decimal rendering of integers, as \<open>str(n)\<close> and f-strings do it.\<close>

definition digit_char :: "nat \<Rightarrow> char" where
  "digit_char d = char_of (48 + d)"

fun dec_nat :: "nat \<Rightarrow> string" where
  "dec_nat n = (if n < 10 then [digit_char n] else dec_nat (n div 10) @ [digit_char (n mod 10)])"

declare dec_nat.simps [simp del]

definition dec_int :: "int \<Rightarrow> string" where
  "dec_int i = (if i < 0 then CHR ''-'' # dec_nat (nat (- i)) else dec_nat (nat i))"

text \<open>
  \<open>repr(s)\<close> of a string: single quotes, or double quotes when the text holds a single quote and
  no double one; backslash, the chosen quote and the control characters are escaped.
\<close>

definition hex_char :: "nat \<Rightarrow> char" where
  "hex_char d = (if d < 10 then char_of (48 + d) else char_of (87 + d))"

definition repr_quote :: "string \<Rightarrow> char" where
  "repr_quote s =
     (if char_of (39::nat) \<in> set s \<and> char_of (34::nat) \<notin> set s then char_of (34::nat)
      else char_of (39::nat))"

definition repr_char :: "char \<Rightarrow> char \<Rightarrow> string" where
  "repr_char q c = (let n = of_char c :: nat; bs = char_of (92::nat) in
     if c = q \<or> c = bs then [bs, c]
     else if n = 9 then [bs, CHR ''t'']
     else if n = 10 then [bs, CHR ''n'']
     else if n = 13 then [bs, CHR ''r'']
     else if n < 32 \<or> (127 \<le> n \<and> n < 161) \<or> n = 173
       then [bs, CHR ''x'', hex_char (n div 16), hex_char (n mod 16)]
     else [c])"

definition py_repr :: "string \<Rightarrow> string" where
  "py_repr s = (let q = repr_quote s in [q] @ concat (map (repr_char q) s) @ [q])"

section \<open>Lemmas\<close>

lemma blank_Nil [simp]: "blank ''''"
  by (simp add: blank_def)

lemma dropWhile_all_iff: "dropWhile P xs = [] \<longleftrightarrow> list_all P xs"
  by (induction xs) auto

lemma blank_iff_strip: "blank s \<longleftrightarrow> py_strip s = ''''"
proof -
  have "py_strip s = [] \<longleftrightarrow> list_all py_space (dropWhile py_space s)"
    by (simp add: py_strip_def dropWhile_all_iff list_all_iff)
  also have "\<dots> \<longleftrightarrow> list_all py_space s"
    by (induction s) auto
  finally show ?thesis by (simp add: blank_def)
qed

lemma of_digit_char: "d < 10 \<Longrightarrow> of_char (digit_char d) = (48 + d :: nat)"
  unfolding digit_char_def of_char_of by (rule mod_less) linarith

lemma digit_char_inj:
  assumes "a < 10" and "b < 10" and "digit_char a = digit_char b"
  shows "a = b"
proof -
  have "48 + a = (of_char (digit_char a) :: nat)" using assms(1) by (rule of_digit_char [symmetric])
  also have "\<dots> = 48 + b" unfolding assms(3) using assms(2) by (rule of_digit_char)
  finally show ?thesis by (rule add_left_imp_eq)
qed

lemma dec_nat_Nil [simp]: "dec_nat n \<noteq> []"
  by (subst dec_nat.simps) simp

lemma dec_nat_inj: "dec_nat m = dec_nat n \<Longrightarrow> m = n"
proof (induction m arbitrary: n rule: dec_nat.induct)
  case (1 m)
  show ?case
  proof (cases "m < 10")
    case m: True
    show ?thesis
    proof (cases "n < 10")
      case True
      with m "1.prems" show ?thesis
        by (simp add: dec_nat.simps [of m] dec_nat.simps [of n] digit_char_inj)
    next
      case False
      with m "1.prems" have "dec_nat (n div 10) = []"
        by (simp add: dec_nat.simps [of m] dec_nat.simps [of n])
      then show ?thesis by simp
    qed
  next
    case m: False
    show ?thesis
    proof (cases "n < 10")
      case True
      with m "1.prems" show ?thesis
        by (simp add: dec_nat.simps [of m] dec_nat.simps [of n])
    next
      case False
      with m "1.prems" have "dec_nat (m div 10) = dec_nat (n div 10)"
        and "digit_char (m mod 10) = digit_char (n mod 10)"
        by (simp_all add: dec_nat.simps [of m] dec_nat.simps [of n])
      with m "1.IH" have "m div 10 = n div 10" and "m mod 10 = n mod 10"
        by (auto intro: digit_char_inj)
      then show ?thesis by (metis div_mult_mod_eq)
    qed
  qed
qed

end
