(* ===== verification/Errors.thy ===== *)
theory Errors
  imports Py_Text
begin

text \<open>
  The exception classes of \<open>errors.py\<close> with the Python classes above them, the subclass
  relation \<open>isinstance\<close> and \<open>except\<close> decide by, and exception values: a class, the text
  \<open>str(error)\<close> gives, and the attributes some classes carry. A framework or Python class is
  its name; a class the application defines is \<open>UserClass\<close> with its name and bases.
\<close>

section \<open>The class hierarchy\<close>

text \<open>The bases of each class, as its \<open>class\<close> statement lists them.\<close>

definition python_classes :: "(string \<times> string list) list" where
  "python_classes = [
    (''BaseException'', []),
    (''Exception'', [''BaseException'']),
    (''CancelledError'', [''BaseException'']),
    (''KeyboardInterrupt'', [''BaseException'']),
    (''TypeError'', [''Exception'']),
    (''ValueError'', [''Exception'']),
    (''KeyError'', [''Exception'']),
    (''AttributeError'', [''Exception'']),
    (''RuntimeError'', [''Exception'']),
    (''AssertionError'', [''Exception'']),
    (''OSError'', [''Exception'']),
    (''TimeoutError'', [''OSError''])]"

definition xyberos_classes :: "(string \<times> string list) list" where
  "xyberos_classes = [
    (''XyberosError'', [''Exception'']),
    (''ConfigurationError'', [''XyberosError'']),
    (''RegistrationError'', [''XyberosError'']),
    (''DependencyError'', [''XyberosError'']),
    (''MissingProviderError'', [''DependencyError'']),
    (''DependencyCycleError'', [''DependencyError'']),
    (''ScopeViolationError'', [''DependencyError'']),
    (''DependencyResolutionError'', [''DependencyError'']),
    (''LifecycleError'', [''XyberosError'']),
    (''LifecycleStateError'', [''LifecycleError'']),
    (''ShutdownError'', [''LifecycleError'']),
    (''HttpError'', [''XyberosError'']),
    (''RouteRegistrationError'', [''HttpError'']),
    (''CSRFError'', [''HttpError'']),
    (''RequestValidationError'', [''HttpError'']),
    (''DatabaseError'', [''XyberosError'']),
    (''DatabaseConfigurationError'', [''DatabaseError'']),
    (''DatabaseConnectionError'', [''DatabaseError'']),
    (''TransactionError'', [''DatabaseError'']),
    (''TransientDatabaseError'', [''DatabaseError'']),
    (''PluginError'', [''XyberosError'']),
    (''PluginValidationError'', [''PluginError'']),
    (''PluginCompatibilityError'', [''PluginValidationError'']),
    (''PluginConfigurationError'', [''PluginValidationError'']),
    (''PluginDependencyError'', [''PluginValidationError'']),
    (''PluginLifecycleError'', [''PluginError'']),
    (''TransientError'', [''XyberosError'']),
    (''WorkflowError'', [''XyberosError'']),
    (''WorkflowValidationError'', [''WorkflowError'']),
    (''WorkflowExecutionError'', [''WorkflowError'']),
    (''RetryExhaustedError'', [''WorkflowExecutionError'']),
    (''StepTimeoutError'', [''WorkflowExecutionError'']),
    (''WorkflowTimeoutError'', [''WorkflowExecutionError'']),
    (''WorkflowCancelledError'', [''WorkflowExecutionError'']),
    (''AIError'', [''XyberosError'']),
    (''AIConfigurationError'', [''AIError'']),
    (''AIRequestError'', [''AIError'']),
    (''AITransportError'', [''AIError'', ''TransientError'']),
    (''AITimeoutError'', [''AITransportError'']),
    (''AIRateLimitError'', [''AITransportError'']),
    (''AIInvalidPayloadError'', [''AITransportError'']),
    (''AIModelNotFoundError'', [''AIError'']),
    (''AIUnsupportedCapabilityError'', [''AIError'']),
    (''AIRefusalError'', [''AIError'']),
    (''AISchemaError'', [''AIError'']),
    (''AIToolError'', [''AIError'']),
    (''DurableError'', [''XyberosError'']),
    (''DurableConfigurationError'', [''DurableError'']),
    (''DurableSchemaError'', [''DurableError'']),
    (''DurableStateError'', [''DurableError'']),
    (''DurableLeaseError'', [''DurableError'']),
    (''DurableConflictError'', [''DurableError'']),
    (''DurableVersionError'', [''DurableError'']),
    (''DurablePayloadError'', [''DurableError'']),
    (''DurableOutcomeUnknownError'', [''DurableError'']),
    (''StorageError'', [''XyberosError'']),
    (''StorageConfigurationError'', [''StorageError'']),
    (''StorageKeyError'', [''StorageError'']),
    (''StorageNotFoundError'', [''StorageError'']),
    (''StorageSizeLimitError'', [''StorageError'']),
    (''McpError'', [''XyberosError'']),
    (''McpConfigurationError'', [''McpError'']),
    (''McpProtocolError'', [''McpError'']),
    (''McpTransportError'', [''McpError'', ''TransientError''])]"

definition fw_bases :: "string \<Rightarrow> string list" where
  "fw_bases c = (case map_of (python_classes @ xyberos_classes) c of Some bs \<Rightarrow> bs | None \<Rightarrow> [])"

text \<open>
  No chain of framework classes is longer than six, so five rounds of \<open>fw_bases\<close> reach every
  ancestor.
\<close>

definition fw_up :: "string list \<Rightarrow> string list" where
  "fw_up cs = concat (map fw_bases cs)"

definition fw_ancestors :: "string \<Rightarrow> string list" where
  "fw_ancestors c =
     [c] @ fw_up [c] @ fw_up (fw_up [c]) @ fw_up (fw_up (fw_up [c])) @
     fw_up (fw_up (fw_up (fw_up [c]))) @ fw_up (fw_up (fw_up (fw_up (fw_up [c]))))"

datatype exn_class = Fw string | UserClass string "exn_class list"

fun derives :: "exn_class \<Rightarrow> exn_class \<Rightarrow> bool" where
  "derives (Fw c) d = (case d of Fw e \<Rightarrow> e \<in> set (fw_ancestors c) | UserClass _ _ \<Rightarrow> False)"
| "derives (UserClass n bs) d = (UserClass n bs = d \<or> (\<exists>b \<in> set bs. derives b d))"

text \<open>\<open>type(error).__name__\<close>.\<close>

fun type_name :: "exn_class \<Rightarrow> string" where
  "type_name (Fw n) = n"
| "type_name (UserClass n bs) = n"

text \<open>
  What some classes carry beside their text: a dependency path, by the names of its contracts; the
  failures of a shutdown, by resource; a plugin with the phase it failed in; the tool of a call.
\<close>

datatype exn_attr =
    NoAttr
  | LeaseAttr string "int option"
  | StatusAttr int
  | PathAttr "string list"
  | FailuresAttr "(string \<times> exn) list"
  | PluginAttr string string
  | ToolAttr string
and exn = Exn (class_of: exn_class) (str_of: string) (attr_of: exn_attr)

definition raised :: "string \<Rightarrow> string \<Rightarrow> exn" where
  "raised c msg = Exn (Fw c) msg NoAttr"

definition lease_error :: "string \<Rightarrow> string \<Rightarrow> int option \<Rightarrow> exn" where
  "lease_error msg eid fence = Exn (Fw ''DurableLeaseError'') msg (LeaseAttr eid fence)"

definition dependency_error :: "string \<Rightarrow> string \<Rightarrow> string list \<Rightarrow> exn" where
  "dependency_error c msg path = Exn (Fw c) msg (PathAttr path)"

definition shutdown_error :: "(string \<times> exn) list \<Rightarrow> exn" where
  "shutdown_error failures =
     (let joined = join '', '' (map fst failures) in
      Exn (Fw ''ShutdownError'')
        (dec_nat (length failures) @ '' shutdown problem(s): '' @
         (if joined = '''' then ''unknown resource'' else joined))
        (FailuresAttr failures))"

definition plugin_error :: "string \<Rightarrow> string \<Rightarrow> string \<Rightarrow> string \<Rightarrow> exn" where
  "plugin_error c msg plugin phase = Exn (Fw c) msg (PluginAttr plugin phase)"

definition is_instance :: "exn \<Rightarrow> exn_class list \<Rightarrow> bool" where
  "is_instance e cs = list_ex (derives (class_of e)) cs"

definition instance_of :: "exn \<Rightarrow> string \<Rightarrow> bool" where
  "instance_of e c = derives (class_of e) (Fw c)"

section \<open>Lemmas\<close>

lemma derives_refl [simp]: "derives c c"
  by (cases c) (simp_all add: fw_ancestors_def)

lemma class_of_raised [simp]: "class_of (raised c m) = Fw c"
  by (simp add: raised_def)

lemma str_of_raised [simp]: "str_of (raised c m) = m"
  by (simp add: raised_def)

lemma raised_inject [simp]: "raised c m = raised d n \<longleftrightarrow> c = d \<and> m = n"
  by (simp add: raised_def)

lemma class_of_lease_error [simp]: "class_of (lease_error m eid f) = Fw ''DurableLeaseError''"
  by (simp add: lease_error_def)

lemma is_instance_Nil [simp]: "\<not> is_instance e []"
  by (simp add: is_instance_def)

lemma is_instance_subclass:
  "\<lbrakk>c \<in> set cs; derives (class_of e) c\<rbrakk> \<Longrightarrow> is_instance e cs"
  by (auto simp: is_instance_def list_ex_iff)

end
