(* ===== verification/Json.thy ===== *)
theory Json
  imports Errors
begin

text \<open>
  Python values as payloads, and the canonical JSON text the program writes:
  \<open>json.dumps(value, sort_keys=True, separators=(",", ":"), default=...)\<close>. A float is carried
  as its shortest decimal text, which is what \<open>float.__repr__\<close> puts into the JSON; the program
  never computes with payload floats. Dictionary keys are strings. A value of any other class
  is a \<open>PObject\<close> of that class with an identity.
\<close>

datatype pyval =
    PNone
  | PBool bool
  | PInt int
  | PFloat string
  | PStr string
  | PList "pyval list"
  | PTuple "pyval list"
  | PDict "(string \<times> pyval) list"
  | PObject string nat

text \<open>\<open>type(value).__name__\<close>.\<close>

fun py_type :: "pyval \<Rightarrow> string" where
  "py_type PNone = ''NoneType''"
| "py_type (PBool b) = ''bool''"
| "py_type (PInt i) = ''int''"
| "py_type (PFloat f) = ''float''"
| "py_type (PStr s) = ''str''"
| "py_type (PList xs) = ''list''"
| "py_type (PTuple xs) = ''tuple''"
| "py_type (PDict kvs) = ''dict''"
| "py_type (PObject c n) = c"

section \<open>Writing\<close>

text \<open>\<open>ensure_ascii\<close> escapes: short forms, and \<open>u00xx\<close> for what is left outside 32..126.\<close>

definition json_escape :: "char \<Rightarrow> string" where
  "json_escape c = (let n = of_char c :: nat; bs = char_of (92::nat) in
     if n = 34 \<or> n = 92 then [bs, c]
     else if n = 10 then [bs, CHR ''n'']
     else if n = 13 then [bs, CHR ''r'']
     else if n = 9 then [bs, CHR ''t'']
     else if n = 12 then [bs, CHR ''f'']
     else if n = 8 then [bs, CHR ''b'']
     else if n < 32 \<or> 126 < n
       then [bs, CHR ''u'', CHR ''0'', CHR ''0'', hex_char (n div 16), hex_char (n mod 16)]
     else [c])"

definition json_string :: "string \<Rightarrow> string" where
  "json_string s = [char_of (34::nat)] @ concat (map json_escape s) @ [char_of (34::nat)]"

text \<open>Left to right, the first failure ends the encoding.\<close>

fun sequenceR :: "('e + 'a) list \<Rightarrow> 'e + 'a list" where
  "sequenceR [] = Inr []"
| "sequenceR (r # rs) = bindR r (\<lambda>x. bindR (sequenceR rs) (\<lambda>xs. Inr (x # xs)))"

definition encode_array :: "(exn + string) list \<Rightarrow> exn + string" where
  "encode_array rs = bindR (sequenceR rs) (\<lambda>ts. Inr (''['' @ join '','' ts @ '']''))"

definition encode_object :: "(string \<times> (exn + string)) list \<Rightarrow> exn + string" where
  "encode_object krs =
     (let sorted = sort_key fst krs in
      bindR (sequenceR (map snd sorted))
        (\<lambda>ts. Inr (''{'' @ join '','' (map2 (\<lambda>k t. json_string k @ '':'' @ t) (map fst sorted) ts)
                 @ ''}'')))"

text \<open>\<open>reject\<close> is the \<open>default=\<close> hook: it raises for a value JSON has no form for.\<close>

primrec json_dumps :: "(string \<Rightarrow> exn) \<Rightarrow> pyval \<Rightarrow> exn + string" where
  "json_dumps reject PNone = Inr ''null''"
| "json_dumps reject (PBool b) = Inr (if b then ''true'' else ''false'')"
| "json_dumps reject (PInt i) = Inr (dec_int i)"
| "json_dumps reject (PFloat f) = Inr f"
| "json_dumps reject (PStr s) = Inr (json_string s)"
| "json_dumps reject (PList xs) = encode_array (map (json_dumps reject) xs)"
| "json_dumps reject (PTuple xs) = encode_array (map (json_dumps reject) xs)"
| "json_dumps reject (PDict kvs) = encode_object (map (map_prod id (json_dumps reject)) kvs)"
| "json_dumps reject (PObject c n) = Inl (reject c)"

lemma sequenceR_Inr_iff: "sequenceR rs = Inr xs \<longleftrightarrow> rs = map Inr xs"
  by (induction rs arbitrary: xs) (auto simp: bindR_Inr_iff Cons_eq_map_conv)

lemma sequenceR_map_Inr [simp]: "sequenceR (map Inr xs) = Inr xs"
  by (simp add: sequenceR_Inr_iff)

section \<open>Reading\<close>

text \<open>
  \<open>json.loads\<close>: the same grammar with optional whitespace. A number with a fraction or an
  exponent is a float and keeps its text. The nesting of values is bounded by the fuel, and the
  length of the text is always enough (theory \<open>Json_Roundtrip\<close>).
\<close>

definition json_ws :: "char \<Rightarrow> bool" where
  "json_ws c = (let n = of_char c :: nat in n = 32 \<or> n = 9 \<or> n = 10 \<or> n = 13)"

definition skip_ws :: "string \<Rightarrow> string" where
  "skip_ws s = dropWhile json_ws s"

definition is_digit :: "char \<Rightarrow> bool" where
  "is_digit c = (let n = of_char c :: nat in 48 \<le> n \<and> n \<le> 57)"

definition digit_value :: "char \<Rightarrow> nat" where
  "digit_value c = of_char c - 48"

definition dec_value :: "string \<Rightarrow> nat" where
  "dec_value s = foldl (\<lambda>a c. 10 * a + digit_value c) 0 s"

definition hex_value :: "char \<Rightarrow> nat option" where
  "hex_value c = (let n = of_char c :: nat in
     if 48 \<le> n \<and> n \<le> 57 then Some (n - 48)
     else if 97 \<le> n \<and> n \<le> 102 then Some (n - 87)
     else if 65 \<le> n \<and> n \<le> 70 then Some (n - 55)
     else None)"

definition unescape :: "char \<Rightarrow> char option" where
  "unescape c = (let n = of_char c :: nat in
     if n = 34 \<or> n = 92 \<or> n = 47 then Some c
     else if c = CHR ''n'' then Some (char_of (10::nat))
     else if c = CHR ''r'' then Some (char_of (13::nat))
     else if c = CHR ''t'' then Some (char_of (9::nat))
     else if c = CHR ''f'' then Some (char_of (12::nat))
     else if c = CHR ''b'' then Some (char_of (8::nat))
     else None)"

definition hex4 :: "char \<Rightarrow> char \<Rightarrow> char \<Rightarrow> char \<Rightarrow> nat option" where
  "hex4 a b c d =
     (case (hex_value a, hex_value b, hex_value c, hex_value d) of
        (Some w, Some x, Some y, Some z) \<Rightarrow> Some (((w * 16 + x) * 16 + y) * 16 + z)
      | _ \<Rightarrow> None)"

text \<open>The rest of a string literal after its opening quote.\<close>

fun parse_string :: "string \<Rightarrow> (string \<times> string) option" where
  "parse_string [] = None"
| "parse_string (c # cs) =
     (if c = char_of (34::nat) then Some ([], cs)
      else if c = char_of (92::nat) then
        (case cs of
           [] \<Rightarrow> None
         | e # r \<Rightarrow>
             if e = CHR ''u'' then
               (case r of
                  h1 # h2 # h3 # h4 # r' \<Rightarrow>
                    (case hex4 h1 h2 h3 h4 of
                       None \<Rightarrow> None
                     | Some n \<Rightarrow>
                         if n < 256 then map_option (apfst ((#) (char_of n))) (parse_string r')
                         else None)
                | _ \<Rightarrow> None)
             else
               (case unescape e of
                  None \<Rightarrow> None
                | Some ch \<Rightarrow> map_option (apfst ((#) ch)) (parse_string r)))
      else if of_char c < (32::nat) then None
      else map_option (apfst ((#) c)) (parse_string cs))"

definition parse_frac :: "string \<Rightarrow> string \<times> string" where
  "parse_frac s =
     (case s of
        c # r \<Rightarrow> if c = CHR ''.'' \<and> takeWhile is_digit r \<noteq> []
               then (c # takeWhile is_digit r, dropWhile is_digit r) else ([], s)
      | [] \<Rightarrow> ([], s))"

definition exp_body :: "string \<Rightarrow> string \<times> string" where
  "exp_body r =
     (case r of
        g # r' \<Rightarrow> if g = CHR ''+'' \<or> g = CHR ''-'' then ([g], r') else ([], r)
      | [] \<Rightarrow> ([], r))"

definition parse_exp :: "string \<Rightarrow> string \<times> string" where
  "parse_exp s =
     (case s of
        c # r \<Rightarrow>
          (let (g, r') = exp_body r in
           if (c = CHR ''e'' \<or> c = CHR ''E'') \<and> takeWhile is_digit r' \<noteq> []
           then (c # g @ takeWhile is_digit r', dropWhile is_digit r') else ([], s))
      | [] \<Rightarrow> ([], s))"

definition parse_number :: "string \<Rightarrow> (pyval \<times> string) option" where
  "parse_number s =
     (let neg = (s \<noteq> [] \<and> hd s = CHR ''-'');
          s1 = (if neg then tl s else s);
          ds = (if s1 \<noteq> [] \<and> hd s1 = CHR ''0'' then [CHR ''0''] else takeWhile is_digit s1);
          s2 = drop (length ds) s1;
          (fr, s3) = parse_frac s2;
          (ex, s4) = parse_exp s3
      in if ds = [] then None
         else if fr = [] \<and> ex = [] then
           Some (PInt (if neg then - int (dec_value ds) else int (dec_value ds)), s2)
         else Some (PFloat ((if neg then [CHR ''-''] else []) @ ds @ fr @ ex), s4))"

definition strip_prefix :: "string \<Rightarrow> string \<Rightarrow> string option" where
  "strip_prefix p s = (if take (length p) s = p then Some (drop (length p) s) else None)"

definition parse_literal :: "string \<Rightarrow> (pyval \<times> string) option" where
  "parse_literal s =
     (case strip_prefix ''null'' s of Some r \<Rightarrow> Some (PNone, r) | None \<Rightarrow>
     (case strip_prefix ''true'' s of Some r \<Rightarrow> Some (PBool True, r) | None \<Rightarrow>
     (case strip_prefix ''false'' s of Some r \<Rightarrow> Some (PBool False, r) | None \<Rightarrow>
     parse_number s)))"

text \<open>A repeated key keeps its first place and takes the last value.\<close>

definition dict_of :: "(string \<times> pyval) list \<Rightarrow> pyval" where
  "dict_of kvs = PDict (map (\<lambda>k. (k, the (map_of (rev kvs) k))) (rev (remdups (rev (map fst kvs)))))"

fun parse_value :: "nat \<Rightarrow> string \<Rightarrow> (pyval \<times> string) option"
and parse_elems :: "nat \<Rightarrow> string \<Rightarrow> (pyval list \<times> string) option"
and parse_members :: "nat \<Rightarrow> string \<Rightarrow> ((string \<times> pyval) list \<times> string) option" where
  "parse_value 0 s = None"
| "parse_value (Suc n) [] = None"
| "parse_value (Suc n) (c # cs) =
     (if c = char_of (34::nat) then map_option (apfst PStr) (parse_string cs)
      else if c = CHR ''['' then
        (case skip_ws cs of
           d # ds \<Rightarrow> if d = CHR '']'' then Some (PList [], ds)
                   else map_option (apfst PList) (parse_elems n (d # ds))
         | [] \<Rightarrow> None)
      else if c = CHR ''{'' then
        (case skip_ws cs of
           d # ds \<Rightarrow> if d = CHR ''}'' then Some (PDict [], ds)
                   else map_option (apfst dict_of) (parse_members n (d # ds))
         | [] \<Rightarrow> None)
      else parse_literal (c # cs))"
| "parse_elems 0 s = None"
| "parse_elems (Suc n) s =
     (case parse_value n s of
        None \<Rightarrow> None
      | Some (v, r) \<Rightarrow>
          (case skip_ws r of
             d # ds \<Rightarrow> if d = CHR '']'' then Some ([v], ds)
                     else if d = CHR '','' then
                       map_option (apfst ((#) v)) (parse_elems n (skip_ws ds))
                     else None
           | [] \<Rightarrow> None))"
| "parse_members 0 s = None"
| "parse_members (Suc n) s =
     (case s of
        [] \<Rightarrow> None
      | q # qs \<Rightarrow>
          if q \<noteq> char_of (34::nat) then None
          else (case parse_string qs of
            None \<Rightarrow> None
          | Some (k, r) \<Rightarrow>
              (case skip_ws r of
                 [] \<Rightarrow> None
               | d # ds \<Rightarrow>
                   if d \<noteq> CHR '':'' then None
                   else (case parse_value n (skip_ws ds) of
                     None \<Rightarrow> None
                   | Some (v, r') \<Rightarrow>
                       (case skip_ws r' of
                          [] \<Rightarrow> None
                        | f # fs \<Rightarrow>
                            if f = CHR ''}'' then Some ([(k, v)], fs)
                            else if f = CHR '','' then
                              map_option (apfst ((#) (k, v))) (parse_members n (skip_ws fs))
                            else None)))))"

definition json_loads :: "string \<Rightarrow> exn + pyval" where
  "json_loads s =
     (case parse_value (Suc (length s)) (skip_ws s) of
        Some (v, r) \<Rightarrow>
          if skip_ws r = [] then Inr v else Inl (raised ''ValueError'' ''Extra data'')
      | None \<Rightarrow> Inl (raised ''ValueError'' ''Expecting value''))"

end
