(* ===== verification/Durable_Models.thy ===== *)
theory Durable_Models
  imports Json
begin

text \<open>
  \<open>durable/models.py\<close>: the persisted statuses of executions and steps, the transition tables
  every status change is checked against, and the records the store hands out.
\<close>

section \<open>Statuses\<close>

datatype execution_status =
    X_PENDING | X_RUNNING | X_RETRYING | X_WAITING | X_COMPLETED | X_FAILED | X_CANCELLED
  | X_TIMED_OUT

fun execution_value :: "execution_status \<Rightarrow> string" where
  "execution_value X_PENDING = ''pending''"
| "execution_value X_RUNNING = ''running''"
| "execution_value X_RETRYING = ''retrying''"
| "execution_value X_WAITING = ''waiting''"
| "execution_value X_COMPLETED = ''completed''"
| "execution_value X_FAILED = ''failed''"
| "execution_value X_CANCELLED = ''cancelled''"
| "execution_value X_TIMED_OUT = ''timed_out''"

datatype step_state = S_PENDING | S_RUNNING | S_SUCCEEDED | S_SKIPPED | S_FAILED | S_OUTCOME_UNKNOWN

fun step_value :: "step_state \<Rightarrow> string" where
  "step_value S_PENDING = ''pending''"
| "step_value S_RUNNING = ''running''"
| "step_value S_SUCCEEDED = ''succeeded''"
| "step_value S_SKIPPED = ''skipped''"
| "step_value S_FAILED = ''failed''"
| "step_value S_OUTCOME_UNKNOWN = ''outcome_unknown''"

datatype failure_kind =
    FK_STEP_FAILED | FK_INCOMPATIBLE_DEFINITION | FK_DEFINITION_CONFLICT | FK_OUTCOME_UNKNOWN
  | FK_TIMED_OUT | FK_CANCELLED | FK_INTERNAL

fun failure_value :: "failure_kind \<Rightarrow> string" where
  "failure_value FK_STEP_FAILED = ''step_failed''"
| "failure_value FK_INCOMPATIBLE_DEFINITION = ''incompatible_definition''"
| "failure_value FK_DEFINITION_CONFLICT = ''definition_conflict''"
| "failure_value FK_OUTCOME_UNKNOWN = ''outcome_unknown''"
| "failure_value FK_TIMED_OUT = ''timed_out''"
| "failure_value FK_CANCELLED = ''cancelled''"
| "failure_value FK_INTERNAL = ''internal''"

datatype event_kind =
    E_SUBMITTED | E_CLAIMED | E_LEASE_RENEWED | E_RECOVERED | E_STEP_STARTED | E_STEP_SUCCEEDED
  | E_STEP_SKIPPED | E_STEP_FAILED | E_STEP_OUTCOME_UNKNOWN | E_RETRY_SCHEDULED | E_YIELDED
  | E_CANCELLATION_REQUESTED | E_WAITING | E_COMPLETED | E_FAILED | E_CANCELLED | E_TIMED_OUT

text \<open>The enumerations derive from \<open>str\<close>: they compare and sort by their value.\<close>

instantiation execution_status :: linorder
begin

definition less_eq_execution_status :: "execution_status \<Rightarrow> execution_status \<Rightarrow> bool" where
  "less_eq_execution_status a b \<longleftrightarrow> execution_value a \<le> execution_value b"

definition less_execution_status :: "execution_status \<Rightarrow> execution_status \<Rightarrow> bool" where
  "less_execution_status a b \<longleftrightarrow> execution_value a < execution_value b"

instance
proof
  fix a b c :: execution_status
  show "a < b \<longleftrightarrow> a \<le> b \<and> \<not> b \<le> a"
    by (auto simp: less_eq_execution_status_def less_execution_status_def)
  show "a \<le> a" by (simp add: less_eq_execution_status_def)
  show "a \<le> b \<Longrightarrow> b \<le> c \<Longrightarrow> a \<le> c" by (simp add: less_eq_execution_status_def)
  show "a \<le> b \<or> b \<le> a" by (auto simp: less_eq_execution_status_def)
  assume "a \<le> b" "b \<le> a"
  then have "execution_value a = execution_value b"
    by (simp add: less_eq_execution_status_def)
  then show "a = b" by (cases a; cases b) simp_all
qed

end

instantiation step_state :: linorder
begin

definition less_eq_step_state :: "step_state \<Rightarrow> step_state \<Rightarrow> bool" where
  "less_eq_step_state a b \<longleftrightarrow> step_value a \<le> step_value b"

definition less_step_state :: "step_state \<Rightarrow> step_state \<Rightarrow> bool" where
  "less_step_state a b \<longleftrightarrow> step_value a < step_value b"

instance
proof
  fix a b c :: step_state
  show "a < b \<longleftrightarrow> a \<le> b \<and> \<not> b \<le> a"
    by (auto simp: less_eq_step_state_def less_step_state_def)
  show "a \<le> a" by (simp add: less_eq_step_state_def)
  show "a \<le> b \<Longrightarrow> b \<le> c \<Longrightarrow> a \<le> c" by (simp add: less_eq_step_state_def)
  show "a \<le> b \<or> b \<le> a" by (auto simp: less_eq_step_state_def)
  assume "a \<le> b" "b \<le> a"
  then have "step_value a = step_value b"
    by (simp add: less_eq_step_state_def)
  then show "a = b" by (cases a; cases b) simp_all
qed

end

section \<open>Transition tables\<close>

definition terminal_execution_states :: "execution_status list" where
  "terminal_execution_states = [X_COMPLETED, X_FAILED, X_CANCELLED, X_TIMED_OUT]"

definition terminal_step_states :: "step_state list" where
  "terminal_step_states = [S_SUCCEEDED, S_SKIPPED, S_FAILED]"

definition claimable_execution_states :: "execution_status list" where
  "claimable_execution_states = [X_PENDING, X_RETRYING]"

fun execution_transitions :: "execution_status \<Rightarrow> execution_status list" where
  "execution_transitions X_PENDING = [X_RUNNING, X_CANCELLED, X_TIMED_OUT, X_FAILED]"
| "execution_transitions X_RUNNING =
     [X_RUNNING, X_PENDING, X_RETRYING, X_WAITING, X_COMPLETED, X_FAILED, X_CANCELLED, X_TIMED_OUT]"
| "execution_transitions X_RETRYING =
     [X_RUNNING, X_WAITING, X_FAILED, X_CANCELLED, X_TIMED_OUT]"
| "execution_transitions X_WAITING = [X_RUNNING, X_FAILED, X_CANCELLED, X_TIMED_OUT]"
| "execution_transitions X_COMPLETED = []"
| "execution_transitions X_FAILED = []"
| "execution_transitions X_CANCELLED = []"
| "execution_transitions X_TIMED_OUT = []"

fun step_transitions :: "step_state \<Rightarrow> step_state list" where
  "step_transitions S_PENDING = [S_RUNNING, S_SKIPPED, S_FAILED, S_OUTCOME_UNKNOWN]"
| "step_transitions S_RUNNING =
     [S_RUNNING, S_PENDING, S_SUCCEEDED, S_FAILED, S_OUTCOME_UNKNOWN]"
| "step_transitions S_OUTCOME_UNKNOWN = [S_PENDING, S_SUCCEEDED, S_FAILED]"
| "step_transitions S_SUCCEEDED = []"
| "step_transitions S_SKIPPED = []"
| "step_transitions S_FAILED = []"

definition execution_is_terminal :: "execution_status \<Rightarrow> bool" where
  "execution_is_terminal st = (st \<in> set terminal_execution_states)"

definition step_is_terminal :: "step_state \<Rightarrow> bool" where
  "step_is_terminal st = (st \<in> set terminal_step_states)"

definition execution_transition_allowed :: "execution_status \<Rightarrow> execution_status \<Rightarrow> bool" where
  "execution_transition_allowed cur tgt = (tgt \<in> set (execution_transitions cur))"

definition step_transition_allowed :: "step_state \<Rightarrow> step_state \<Rightarrow> bool" where
  "step_transition_allowed cur tgt = (tgt \<in> set (step_transitions cur))"

definition msg_execution_move :: "execution_status \<Rightarrow> execution_status \<Rightarrow> string" where
  "msg_execution_move a b = ''an execution cannot move from '' @ py_repr (execution_value a) @
     '' to '' @ py_repr (execution_value b)"

definition msg_step_move :: "step_state \<Rightarrow> step_state \<Rightarrow> string" where
  "msg_step_move a b = ''a step cannot move from '' @ py_repr (step_value a) @
     '' to '' @ py_repr (step_value b)"

definition require_execution_transition ::
    "execution_status \<Rightarrow> execution_status \<Rightarrow> exn + unit" where
  "require_execution_transition cur tgt =
     refuse_if (\<not> execution_transition_allowed cur tgt)
       (raised ''DurableStateError'' (msg_execution_move cur tgt))"

definition require_step_transition :: "step_state \<Rightarrow> step_state \<Rightarrow> exn + unit" where
  "require_step_transition cur tgt =
     refuse_if (\<not> step_transition_allowed cur tgt)
       (raised ''DurableStateError'' (msg_step_move cur tgt))"

section \<open>Activity policies and reconciliations\<close>

record reconciliation =
  rc_state :: step_state
  rc_output :: pyval
  rc_detail :: "string option"

definition msg_reconciler_cannot :: "step_state \<Rightarrow> string" where
  "msg_reconciler_cannot st = ''a reconciler cannot decide '' @ py_repr (step_value st) @
     ''; it reports succeeded, pending, failed, or outcome_unknown''"

definition make_reconciliation ::
    "step_state \<Rightarrow> pyval \<Rightarrow> string option \<Rightarrow> exn + reconciliation" where
  "make_reconciliation st out det =
     (if st \<notin> {S_SUCCEEDED, S_PENDING, S_FAILED, S_OUTCOME_UNKNOWN}
      then Inl (raised ''DurableStateError'' (msg_reconciler_cannot st))
      else Inr \<lparr>rc_state = st, rc_output = out, rc_detail = det\<rparr>)"

text \<open>
  What a reconciler answers: a reconciliation, a value of another class (which the recovery
  refuses by its class name), or an exception of its own.
\<close>

datatype reconcile_answer =
    Decided reconciliation
  | NotAReconciliation string
  | ReconcilerRaised exn

record activity_policy =
  ap_idempotent :: bool
  ap_reconcile :: "(string \<Rightarrow> pyval \<Rightarrow> reconcile_answer) option"

definition default_activity_policy :: activity_policy where
  "default_activity_policy = \<lparr>ap_idempotent = False, ap_reconcile = None\<rparr>"

definition msg_policy_both :: string where
  "msg_policy_both = ''an activity policy takes either idempotent=True or a reconciler, not both: ''
     @ ''an idempotent step is retried, a reconciler is asked what happened''"

definition make_activity_policy ::
    "bool \<Rightarrow> (string \<Rightarrow> pyval \<Rightarrow> reconcile_answer) option \<Rightarrow> exn + activity_policy" where
  "make_activity_policy idem recon =
     (if idem \<and> recon \<noteq> None then Inl (raised ''DurableStateError'' msg_policy_both)
      else Inr \<lparr>ap_idempotent = idem, ap_reconcile = recon\<rparr>)"

section \<open>Records handed to callers\<close>

text \<open>
  Instants are whole microseconds since the epoch, the resolution of \<open>datetime\<close>; the theory
  \<open>Iso_Time\<close> shows that the text the journal stores orders as the instants do.
\<close>

type_synonym time = int

record execution_handle =
  h_execution_id :: string
  h_workflow :: string
  h_version :: string
  h_status :: execution_status

record claim =
  c_execution :: string
  c_owner :: string
  c_fence :: int
  c_workflow :: string
  c_version :: string
  c_fingerprint :: string
  c_input :: pyval
  c_status :: execution_status
  c_expires :: time
  c_deadline :: "time option"
  c_cancel :: bool

record step_view =
  sv_step :: string
  sv_state :: step_state
  sv_attempts :: int
  sv_output :: pyval
  sv_error_type :: "string option"
  sv_error_message :: "string option"
  sv_detail :: "string option"
  sv_started :: "time option"
  sv_finished :: "time option"
  sv_key :: "string option"

record event_view =
  ev_sequence :: nat
  ev_kind :: event_kind
  ev_at :: time
  ev_step :: "string option"
  ev_attempt :: "int option"
  ev_detail :: "string option"

record execution_view =
  xv_execution :: string
  xv_workflow :: string
  xv_version :: string
  xv_fingerprint :: string
  xv_status :: execution_status
  xv_input :: pyval
  xv_submitted :: time
  xv_updated :: time
  xv_deadline :: "time option"
  xv_current :: "string option"
  xv_result :: pyval
  xv_failure_kind :: "failure_kind option"
  xv_failure_message :: "string option"
  xv_cancel_at :: "time option"
  xv_steps :: "step_view list"
  xv_events :: "event_view list"
  xv_retry_due :: "time option"

record journal_stats =
  js_queued :: nat
  js_running :: nat
  js_retrying :: nat
  js_waiting :: nat
  js_completed :: nat
  js_failed :: nat
  js_cancelled :: nat
  js_timed_out :: nat
  js_expired_leases :: nat
  js_incompatible :: nat
  js_oldest_lease_age :: "int option"

section \<open>The tables agree with the terminal sets\<close>

lemmas transition_defs =
  execution_transition_allowed_def step_transition_allowed_def execution_is_terminal_def
  step_is_terminal_def terminal_execution_states_def terminal_step_states_def

lemma terminal_no_transition:
  "execution_is_terminal a \<Longrightarrow> \<not> execution_transition_allowed a b"
  by (cases a) (simp_all add: transition_defs)

lemma step_terminal_no_transition: "step_is_terminal a \<Longrightarrow> \<not> step_transition_allowed a b"
  by (cases a) (simp_all add: transition_defs)

lemma require_execution_Inr [simp]:
  "require_execution_transition a b = Inr u \<longleftrightarrow> execution_transition_allowed a b"
  by (simp add: require_execution_transition_def)

lemma require_step_Inr [simp]:
  "require_step_transition a b = Inr u \<longleftrightarrow> step_transition_allowed a b"
  by (simp add: require_step_transition_def)

lemma running_may_finish [simp]:
  "execution_transition_allowed X_RUNNING b"
  by (cases b) (simp_all add: transition_defs)

end
