(* ===== verification/Iso_Time.thy ===== *)
theory Iso_Time
  imports Durable_Models
begin

text \<open>
  The timestamps of \<open>durable/journal.py\<close>: \<open>to_iso\<close> renders an instant as UTC text with
  microseconds, \<open>from_iso\<close> reads it back. SQLite compares the text of the columns, the model
  compares instants; the theorems below say that this is the same thing for the years 1 to 9999,
  the range of \<open>datetime\<close>.

  Instants count microseconds from 1970-01-01; \<open>datetime\<close> counts days from 0001-01-01, which is
  day 719162 before it.
\<close>

section \<open>Dates\<close>

definition leap :: "int \<Rightarrow> bool" where
  "leap y = (y mod 4 = 0 \<and> (y mod 100 \<noteq> 0 \<or> y mod 400 = 0))"

definition days_before_year :: "int \<Rightarrow> int" where
  "days_before_year y = (let z = y - 1 in z * 365 + z div 4 - z div 100 + z div 400)"

fun month_lengths :: "bool \<Rightarrow> int list" where
  "month_lengths l = [31, if l then 29 else 28, 31, 30, 31, 30, 31, 31, 30, 31, 30, 31]"

text \<open>The month (from \<open>m\<close>) and day a zero-based day of the year falls into.\<close>

fun month_day :: "int \<Rightarrow> int list \<Rightarrow> int \<Rightarrow> int \<times> int" where
  "month_day m [] n = (m, n + 1)"
| "month_day m (d # ds) n = (if n < d then (m, n + 1) else month_day (m + 1) ds (n - d))"

fun days_before_month :: "int \<Rightarrow> int list \<Rightarrow> int \<Rightarrow> int" where
  "days_before_month m [] k = 0"
| "days_before_month m (d # ds) k = (if k \<le> m then 0 else d + days_before_month (m + 1) ds k)"

text \<open>The year of a day, found by whole cycles of 400, 100, 4 and 1 years.\<close>

definition year_of :: "int \<Rightarrow> int" where
  "year_of n =
     (let c = n div 146097; r = n mod 146097;
          h = min 3 (r div 36524); r = r - h * 36524;
          q = r div 1461; r = r mod 1461;
          y = min 3 (r div 365)
      in 400 * c + 100 * h + 4 * q + y + 1)"

definition date_of :: "int \<Rightarrow> int \<times> int \<times> int" where
  "date_of n = (let y = year_of n in (y, month_day 1 (month_lengths (leap y)) (n - days_before_year y)))"

definition day_number :: "int \<Rightarrow> int \<Rightarrow> int \<Rightarrow> int" where
  "day_number y m d =
     days_before_year y + days_before_month 1 (month_lengths (leap y)) m + (d - 1)"

section \<open>The text\<close>

fun digits :: "nat \<Rightarrow> nat \<Rightarrow> string" where
  "digits 0 n = []"
| "digits (Suc w) n = digits w (n div 10) @ [digit_char (n mod 10)]"

fun number :: "nat \<Rightarrow> string \<Rightarrow> nat" where
  "number acc [] = acc"
| "number acc (c # cs) = number (10 * acc + (of_char c - 48)) cs"

definition epoch_day :: int where
  "epoch_day = 719162"

definition date_text :: "int \<Rightarrow> string" where
  "date_text n = (case date_of n of (y, m, d) \<Rightarrow>
     digits 4 (nat y) @ ''-'' @ digits 2 (nat m) @ ''-'' @ digits 2 (nat d))"

definition clock_text :: "int \<Rightarrow> string" where
  "clock_text u = (let s = u div 1000000 in
     digits 2 (nat (s div 60 div 60)) @ '':'' @ digits 2 (nat (s div 60 mod 60)) @ '':'' @
     digits 2 (nat (s mod 60)) @ ''.'' @ digits 6 (nat (u mod 1000000)))"

definition day_length :: int where
  "day_length = 86400000000"

definition to_iso :: "time \<Rightarrow> string" where
  "to_iso t = date_text (t div day_length + epoch_day) @ ''T'' @ clock_text (t mod day_length) @
     ''+00:00''"

definition field :: "nat \<Rightarrow> nat \<Rightarrow> string \<Rightarrow> int" where
  "field i w t = int (number 0 (take w (drop i t)))"

definition from_iso :: "string \<Rightarrow> time" where
  "from_iso t =
     (day_number (field 0 4 t) (field 5 2 t) (field 8 2 t) - epoch_day) * day_length +
     (field 11 2 t * 3600 + field 14 2 t * 60 + field 17 2 t) * 1000000 + field 20 6 t"

text \<open>The instants \<open>datetime\<close> can hold: year 1 to year 9999.\<close>

definition representable :: "time \<Rightarrow> bool" where
  "representable t \<longleftrightarrow> 0 \<le> t div day_length + epoch_day \<and> t div day_length + epoch_day < 3652059"

section \<open>The calendar\<close>

lemma div_step: "0 < k \<Longrightarrow> (y::int) div k = (y - 1) div k + (if k dvd y then 1 else 0)"
proof -
  assume k: "0 < k"
  obtain q r where y: "y = k * q + r" and r: "0 \<le> r" "r < k"
    using k by (metis mult_div_mod_eq pos_mod_sign pos_mod_bound)
  have yd: "y div k = q" using y r by simp
  show ?thesis
  proof (cases "r = 0")
    case True
    have "y - 1 = (k - 1) + k * (q - 1)" using y True by (simp add: algebra_simps)
    moreover have "((k - 1) + k * (q - 1)) div k = q - 1"
      using k by (subst div_mult_self2) simp_all
    ultimately have "(y - 1) div k = q - 1" by (simp only:)
    then show ?thesis using y yd True by simp
  next
    case False
    have "y - 1 = (r - 1) + k * q" using y by simp
    moreover have "((r - 1) + k * q) div k = q"
      using r False k by (subst div_mult_self2) simp_all
    ultimately have "(y - 1) div k = q" by (simp only:)
    moreover have "\<not> k dvd y" using y r False k by (simp add: dvd_add_right_iff zdvd_not_zless)
    ultimately show ?thesis using yd by simp
  qed
qed

lemma leap_dvd: "leap y \<longleftrightarrow> 4 dvd y \<and> (\<not> 100 dvd y \<or> 400 dvd y)"
  by (simp add: leap_def dvd_eq_mod_eq_0)

lemma days_before_year_Suc:
  "days_before_year (y + 1) = days_before_year y + (if leap y then 366 else 365)"
proof -
  have d: "400 dvd y \<Longrightarrow> 100 dvd y" "100 dvd y \<Longrightarrow> 4 dvd y"
    by (auto elim: dvd_trans [rotated])
  obtain a b c where abc: "a = (y - 1) div 4" "b = (y - 1) div 100" "c = (y - 1) div 400" by simp
  have e: "y div 4 = a + (if 4 dvd y then 1 else 0)" "y div 100 = b + (if 100 dvd y then 1 else 0)"
    "y div 400 = c + (if 400 dvd y then 1 else 0)"
    unfolding abc by (simp_all only: div_step [of 4 y] div_step [of 100 y] div_step [of 400 y])
  show ?thesis
    unfolding days_before_year_def leap_dvd Let_def add_diff_cancel_right' e abc [symmetric]
    using d by (cases "4 dvd y"; cases "100 dvd y"; cases "400 dvd y") simp_all
qed

lemma dvd_shift: "0 < b \<Longrightarrow> b \<le> k \<Longrightarrow> (k::int) dvd k * a + b \<longleftrightarrow> b = k"
  using zdvd_not_zless [of b k] by (cases "b = k") (auto simp: dvd_add_right_iff)

lemma cycles:
  fixes c h q y :: int
  assumes h: "0 \<le> h" "h \<le> 3" and q: "0 \<le> q" "q \<le> 24" and y: "0 \<le> y" "y \<le> 3"
  shows "days_before_year (400 * c + 100 * h + 4 * q + y + 1) =
           146097 * c + 36524 * h + 1461 * q + 365 * y" (is "?D")
    and "leap (400 * c + 100 * h + 4 * q + y + 1) \<longleftrightarrow> y = 3 \<and> (q \<noteq> 24 \<or> h = 3)" (is "?L")
proof -
  let ?z = "400 * c + 100 * h + 4 * q + y"
  have "?z = (100 * c + 25 * h + q) * 4 + y" by simp
  then have a: "?z div 4 = 100 * c + 25 * h + q" using y by linarith
  have "?z = (4 * c + h) * 100 + (4 * q + y)" by simp
  then have b: "?z div 100 = 4 * c + h" using q y by linarith
  have "?z = c * 400 + (100 * h + 4 * q + y)" by simp
  then have d: "?z div 400 = c" using h q y by linarith
  show ?D unfolding days_before_year_def Let_def using a b d by simp
  have "4 dvd ?z + 1 \<longleftrightarrow> y = 3"
    using dvd_shift [of "y + 1" 4 "100 * c + 25 * h + q"] y by (simp add: algebra_simps)
  moreover have "100 dvd ?z + 1 \<longleftrightarrow> q = 24 \<and> y = 3"
    using dvd_shift [of "4 * q + y + 1" 100 "4 * c + h"] q y by (simp add: algebra_simps) linarith
  moreover have "400 dvd ?z + 1 \<longleftrightarrow> h = 3 \<and> q = 24 \<and> y = 3"
    using dvd_shift [of "100 * h + 4 * q + y + 1" 400 c] h q y by (simp add: algebra_simps) linarith
  ultimately show ?L unfolding leap_dvd by auto
qed

lemma year_of_bounds:
  "days_before_year (year_of n) \<le> n" "n < days_before_year (year_of n + 1)"
proof -
  obtain c r0 where c: "c = n div 146097" and r0: "r0 = n mod 146097" by simp
  obtain h r1 where h: "h = min 3 (r0 div 36524)" and r1: "r1 = r0 - h * 36524" by simp
  obtain q r2 where q: "q = r1 div 1461" and r2: "r2 = r1 mod 1461" by simp
  obtain y where y: "y = min 3 (r2 div 365)" by simp
  have n: "n = 146097 * c + r0" and r0b: "0 \<le> r0" "r0 < 146097"
    using c r0 by simp_all
  have hb: "0 \<le> h" "h \<le> 3" using h r0b by simp_all
  have r1b: "0 \<le> r1" "r1 \<le> 36524" "h < 3 \<Longrightarrow> r1 < 36524"
    using h r1 r0b by (auto simp: min_def split: if_splits)
  have qb: "0 \<le> q" "q \<le> 24" using q r1b by simp_all
  have r1e: "r1 = 1461 * q + r2" and r2b: "0 \<le> r2" "r2 < 1461" using q r2 by simp_all
  have yb: "0 \<le> y" "y \<le> 3" using y r2b by simp_all
  have res: "365 * y \<le> r2" "y < 3 \<Longrightarrow> r2 < 365 * y + 365"
    using y r2b by (auto simp: min_def split: if_splits)
  have Y: "year_of n = 400 * c + 100 * h + 4 * q + y + 1"
    unfolding year_of_def Let_def c r0 h r1 q r2 y by simp
  note cyc = cycles [OF hb qb yb, of c]
  show "days_before_year (year_of n) \<le> n"
    unfolding Y cyc(1) using n r1 r1e res(1) by linarith
  have next_year: "days_before_year (year_of n + 1) = 146097 * c + 36524 * h + 1461 * q + 365 * y +
      (if y = 3 \<and> (q \<noteq> 24 \<or> h = 3) then 366 else 365)"
    by (subst days_before_year_Suc) (simp only: Y cyc)
  show "n < days_before_year (year_of n + 1)"
  proof (cases "y = 3")
    case True
    then have "r2 < 1460 \<or> q \<noteq> 24 \<or> h = 3" using r1e r1b hb by auto
    then show ?thesis using True next_year n r1 r1e r2b by auto
  next
    case False
    then show ?thesis using next_year n r1 r1e res(2) yb by auto
  qed
qed

lemma days_before_year_less: "y < z \<Longrightarrow> days_before_year (y + 1) \<le> days_before_year z"
proof (induction "nat (z - y)" arbitrary: z)
  case (Suc n)
  show ?case
  proof (cases "z = y + 1")
    case False
    then have "days_before_year (y + 1) \<le> days_before_year (z - 1)"
      using Suc by (intro Suc.hyps) auto
    also have "\<dots> \<le> days_before_year ((z - 1) + 1)" by (subst days_before_year_Suc) simp
    finally show ?thesis by simp
  qed simp
qed simp

lemma month_day_bounds:
  assumes "0 \<le> n" "n < sum_list ds" and "month_day m ds n = (k, d)"
  shows "m \<le> k \<and> k < m + int (length ds) \<and> 1 \<le> d \<and> d \<le> ds ! nat (k - m) \<and>
         days_before_month m ds k + (d - 1) = n"
  using assms
proof (induction m ds n rule: month_day.induct)
  case (2 m d' ds n)
  show ?case
  proof (cases "n < d'")
    case False
    with 2 have "m + 1 \<le> k \<and> k < m + 1 + int (length ds) \<and> 1 \<le> d \<and> d \<le> ds ! nat (k - (m + 1)) \<and>
         days_before_month (m + 1) ds k + (d - 1) = n - d'" by auto
    moreover from this have "nat (k - m) = Suc (nat (k - (m + 1)))" by auto
    ultimately show ?thesis using False by auto
  qed (use 2 in auto)
qed simp

lemma month_lengths_sum: "sum_list (month_lengths l) = (if l then 366 else 365)"
  by simp

lemma date_of_bounds:
  assumes "date_of n = (y, m, d)"
  shows "y = year_of n \<and> 1 \<le> m \<and> m \<le> 12 \<and> 1 \<le> d \<and> d \<le> 31 \<and> day_number y m d = n"
proof -
  let ?r = "n - days_before_year y"
  have y: "y = year_of n" and md: "month_day 1 (month_lengths (leap y)) ?r = (m, d)"
    using assms by (auto simp: date_of_def Let_def)
  have "0 \<le> ?r" "?r < sum_list (month_lengths (leap y))"
    using year_of_bounds [of n] y
    by (auto simp: month_lengths_sum days_before_year_Suc simp del: month_lengths.simps)
  note b = month_day_bounds [OF this md]
  then have m: "1 \<le> m" "m \<le> 12" by auto
  then have "month_lengths (leap y) ! nat (m - 1) \<in> set (month_lengths (leap y))"
    by (intro nth_mem) simp
  moreover have "\<forall>x \<in> set (month_lengths (leap y)). x \<le> 31" by simp
  ultimately have "month_lengths (leap y) ! nat (m - 1) \<le> 31" by blast
  with b y m show ?thesis by (auto simp: day_number_def simp del: month_lengths.simps)
qed

lemma date_inverse: "date_of n = (y, m, d) \<Longrightarrow> day_number y m d = n"
  by (blast dest: date_of_bounds)

section \<open>Order and round trip of the text\<close>

lemma digits_length [simp]: "length (digits w n) = w"
  by (induction w n rule: digits.induct) simp_all

lemma append_less_iff:
  fixes a b :: "'a::order list"
  shows "length a = length b \<Longrightarrow> a @ x < b @ y \<longleftrightarrow> a < b \<or> a = b \<and> x < y"
  by (induction a b rule: list_induct2) (auto simp: Cons_less_Cons)

lemma digit_char_less: "a < b \<Longrightarrow> b < 10 \<Longrightarrow> digit_char a < digit_char b"
  by (simp add: less_char_def of_digit_char)

lemma digits_less: "m < n \<Longrightarrow> n < 10 ^ w \<Longrightarrow> digits w m < digits w n"
proof (induction w n arbitrary: m rule: digits.induct)
  case (2 w n)
  have dm: "m = 10 * (m div 10) + m mod 10" "n = 10 * (n div 10) + n mod 10" by simp_all
  have b: "n div 10 < 10 ^ w" using "2.prems"(2) by (simp add: less_mult_imp_div_less)
  show ?case
  proof (cases "m div 10 < n div 10")
    case True
    then show ?thesis using "2.IH" b by (simp add: append_less_iff)
  next
    case False
    then have "m div 10 = n div 10" using "2.prems"(1) by (simp add: div_le_mono leD le_neq_implies_less order_antisym)
    moreover have "m mod 10 < n mod 10" using dm calculation "2.prems"(1) by linarith
    ultimately show ?thesis by (simp add: append_less_iff digit_char_less)
  qed
qed simp

lemma number_append: "number acc (a @ b) = number (number acc a) b"
  by (induction a arbitrary: acc) simp_all

lemma number_digits: "number acc (digits w n) = acc * 10 ^ w + n mod 10 ^ w"
proof (induction w n arbitrary: acc rule: digits.induct)
  case (2 w n)
  have "n mod (10 * 10 ^ w) = 10 * (n div 10 mod 10 ^ w) + n mod 10"
    by (rule mod_mult2_eq)
  then show ?case by (simp add: number_append 2 of_digit_char algebra_simps)
qed simp

lemma month_day_less:
  assumes "a < b" "month_day m ds a = (k, d)" "month_day m ds b = (k', d')"
  shows "k < k' \<or> k = k' \<and> d < d'"
proof -
  have le: "m \<le> k" if "month_day m ds b = (k, d)" for m ds b k d
    using that by (induction m ds b rule: month_day.induct) (auto split: if_splits)
  show ?thesis using assms
  proof (induction m ds a arbitrary: b rule: month_day.induct)
    case (2 m x ds n)
    show ?case
    proof (cases "n < x")
      case True
      then show ?thesis using 2 le [of "m + 1" ds "b - x" k' d'] by (cases "b < x") auto
    next
      case False
      then have "n - x < b - x" "month_day (m + 1) ds (n - x) = (k, d)"
        "month_day (m + 1) ds (b - x) = (k', d')" using 2 by auto
      then show ?thesis using "2.IH" False by blast
    qed
  qed simp
qed

lemma year_of_mono: "a \<le> b \<Longrightarrow> year_of a \<le> year_of b"
  using year_of_bounds(2) [of b] year_of_bounds(1) [of a]
    days_before_year_less [of "year_of b" "year_of a"] by linarith

lemma split_less:
  "0 < k \<Longrightarrow> (a::int) < b \<Longrightarrow> a div k < b div k \<or> a div k = b div k \<and> a mod k < b mod k"
  using zdiv_mono1 [of a b k]
  by (cases "a div k = b div k") (auto simp: minus_mult_div_eq_mod [symmetric])

lemma nat_digits_less:
  "0 \<le> a \<Longrightarrow> a < b \<Longrightarrow> b < 10 ^ w \<Longrightarrow> digits w (nat a) < digits w (nat b)"
  by (rule digits_less) (simp_all add: nat_less_iff)

lemma year_range:
  assumes "0 \<le> n" "n < 3652059"
  shows "1 \<le> year_of n" "year_of n \<le> 9999"
proof -
  have e: "days_before_year 1 = 0" "days_before_year (9999 + 1) = 3652059"
    by (simp_all add: days_before_year_def)
  show "1 \<le> year_of n"
    using days_before_year_less [of "year_of n" 1] year_of_bounds(2) [of n] e assms by linarith
  show "year_of n \<le> 9999"
    using days_before_year_less [of 9999 "year_of n"] year_of_bounds(1) [of n] e assms by linarith
qed

lemma date_text_length [simp]: "length (date_text n) = 10"
  by (simp add: date_text_def split: prod.splits)

lemma clock_text_length [simp]: "length (clock_text n) = 15"
  by (simp add: clock_text_def Let_def)

lemma date_text_less:
  assumes "0 \<le> a" "a < b" "b < 3652059"
  shows "date_text a < date_text b"
proof -
  obtain y m d y' m' d' where ab: "date_of a = (y, m, d)" "date_of b = (y', m', d')"
    by (metis prod_cases3)
  note A = date_of_bounds [OF ab(1)] and B = date_of_bounds [OF ab(2)]
  have "year_of a \<le> year_of b" using assms by (intro year_of_mono) simp
  moreover have "m < m' \<or> m = m' \<and> d < d'" if "y = y'"
  proof (rule month_day_less)
    show "a - days_before_year y < b - days_before_year y" using assms(2) by simp
    show "month_day 1 (month_lengths (leap y)) (a - days_before_year y) = (m, d)"
      and "month_day 1 (month_lengths (leap y)) (b - days_before_year y) = (m', d')"
      using that ab by (auto simp: date_of_def Let_def simp del: month_lengths.simps)
  qed
  ultimately have "y < y' \<or> y = y' \<and> (m < m' \<or> m = m' \<and> d < d')"
    using A B by auto
  moreover have "y < y' \<Longrightarrow> digits 4 (nat y) < digits 4 (nat y')"
    using year_range [of a] year_range [of b] assms A B by (intro nat_digits_less) simp_all
  moreover have "m < m' \<Longrightarrow> digits 2 (nat m) < digits 2 (nat m')"
    and "d < d' \<Longrightarrow> digits 2 (nat d) < digits 2 (nat d')"
    using A B by (auto intro!: nat_digits_less)
  ultimately show ?thesis
    unfolding date_text_def ab by (auto simp: append_less_iff)
qed

lemma clock_lex:
  fixes h h' m m' s s' u u' :: string
  assumes "length h = length h'" "length m = length m'" "length s = length s'"
    and "h < h' \<or> h = h' \<and> (m < m' \<or> m = m' \<and> (s < s' \<or> s = s' \<and> u < u'))"
  shows "h @ '':'' @ m @ '':'' @ s @ ''.'' @ u < h' @ '':'' @ m' @ '':'' @ s' @ ''.'' @ u'"
  using assms by (auto simp: append_less_iff Cons_less_Cons)

lemma clock_text_less:
  assumes "0 \<le> a" "a < b" "b < day_length"
  shows "clock_text a < clock_text b"
proof -
  let ?s = "a div 1000000" and ?s' = "b div 1000000"
  let ?H = "digits 2 (nat (?s div 60 div 60))" and ?H' = "digits 2 (nat (?s' div 60 div 60))"
  let ?M = "digits 2 (nat (?s div 60 mod 60))" and ?M' = "digits 2 (nat (?s' div 60 mod 60))"
  let ?S = "digits 2 (nat (?s mod 60))" and ?S' = "digits 2 (nat (?s' mod 60))"
  let ?U = "digits 6 (nat (a mod 1000000))" and ?U' = "digits 6 (nat (b mod 1000000))"
  have h: "0 \<le> ?s div 60 div 60" "?s' div 60 div 60 < 10 ^ 2"
    using assms by (simp_all add: day_length_def)
  have c: "?s < ?s' \<or> ?s = ?s' \<and> a mod 1000000 < b mod 1000000"
    using assms by (intro split_less) simp_all
  have m: "?s div 60 < ?s' div 60 \<or> ?s div 60 = ?s' div 60 \<and> ?s mod 60 < ?s' mod 60" if "?s < ?s'"
    using that by (intro split_less) simp_all
  have k: "?s div 60 div 60 < ?s' div 60 div 60 \<or>
      ?s div 60 div 60 = ?s' div 60 div 60 \<and> ?s div 60 mod 60 < ?s' div 60 mod 60"
    if "?s div 60 < ?s' div 60"
    using that by (intro split_less) simp_all
  have two: "digits 2 (nat (i mod 60)) < digits 2 (nat (j mod 60))"
    if "i mod 60 < j mod 60" for i j :: int
  proof (rule nat_digits_less)
    show "0 \<le> i mod 60" by simp
    have "j mod 60 < 60" by simp
    then show "j mod 60 < 10 ^ 2" by simp
  qed (rule that)
  have six: "digits 6 (nat (a mod 1000000)) < digits 6 (nat (b mod 1000000))"
    if "a mod 1000000 < b mod 1000000"
    using that by (intro nat_digits_less) simp_all
  have hh: "digits 2 (nat (?s div 60 div 60)) < digits 2 (nat (?s' div 60 div 60))"
    if "?s div 60 div 60 < ?s' div 60 div 60"
    using h(1) that h(2) by (rule nat_digits_less)
  have l: "?s < ?s' \<Longrightarrow> ?H < ?H' \<or> ?H = ?H' \<and> (?M < ?M' \<or> ?M = ?M' \<and> ?S < ?S')"
  proof -
    assume "?s < ?s'"
    from m [OF this] show ?thesis
    proof
      assume "?s div 60 < ?s' div 60"
      from k [OF this] show ?thesis
      proof
        assume "?s div 60 div 60 < ?s' div 60 div 60"
        then show ?thesis using hh by blast
      next
        assume e: "?s div 60 div 60 = ?s' div 60 div 60 \<and> ?s div 60 mod 60 < ?s' div 60 mod 60"
        then have "?M < ?M'" using two by blast
        moreover have "?H = ?H'" using e by (simp only:)
        ultimately show ?thesis by blast
      qed
    next
      assume e: "?s div 60 = ?s' div 60 \<and> ?s mod 60 < ?s' mod 60"
      then have "?S < ?S'" using two by blast
      moreover have "?H = ?H'" "?M = ?M'" using e by (simp_all only:)
      ultimately show ?thesis by blast
    qed
  qed
  have "?H < ?H' \<or> ?H = ?H' \<and> (?M < ?M' \<or> ?M = ?M' \<and> (?S < ?S' \<or> ?S = ?S' \<and> ?U < ?U'))"
    using c
  proof
    assume "?s < ?s'"
    then show ?thesis using l by blast
  next
    assume e: "?s = ?s' \<and> a mod 1000000 < b mod 1000000"
    then have "?U < ?U'" using six by blast
    moreover have "?H = ?H'" "?M = ?M'" "?S = ?S'" using e by (simp_all only:)
    ultimately show ?thesis by blast
  qed
  then show ?thesis
    unfolding clock_text_def Let_def by (intro clock_lex) simp_all
qed

lemma to_iso_mono:
  assumes "representable t" "representable u" "t < u"
  shows "to_iso t < to_iso u"
proof -
  let ?n = "t div day_length + epoch_day" and ?m = "u div day_length + epoch_day"
  have pos: "0 < day_length" by (simp add: day_length_def)
  have "?n < ?m \<or> ?n = ?m \<and> t mod day_length < u mod day_length"
    using split_less [OF pos assms(3)] by simp
  moreover have "?n < ?m \<Longrightarrow> date_text ?n < date_text ?m"
    using assms by (intro date_text_less) (simp_all add: representable_def)
  moreover have "t mod day_length < u mod day_length \<Longrightarrow>
      clock_text (t mod day_length) < clock_text (u mod day_length)"
    using pos by (intro clock_text_less) simp_all
  ultimately show ?thesis
    unfolding to_iso_def by (auto simp: append_less_iff Cons_less_Cons)
qed

lemma from_to_iso:
  assumes "representable t"
  shows "from_iso (to_iso t) = t"
proof -
  let ?n = "t div day_length + epoch_day" and ?u = "t mod day_length"
  obtain y m d where ymd: "date_of ?n = (y, m, d)" by (metis prod_cases3)
  note b = date_of_bounds [OF ymd]
  have yb: "1 \<le> y" "y \<le> 9999" using b year_range [of ?n] assms by (auto simp: representable_def)
  obtain s where s: "s = ?u div 1000000" by simp
  have u: "0 \<le> ?u" "?u < day_length" by (simp_all add: day_length_def)
  then have sb: "0 \<le> s" "s div 60 div 60 < 24" unfolding s by (simp_all add: day_length_def)
  have "m < 100" "d < 100" using b by linarith+
  then have "nat y < 10000" "nat m < 100" "nat d < 100" "nat (s div 60 div 60) < 100"
    using yb sb by simp_all
  moreover have "nat (i mod 60) < 100" for i :: int
  proof -
    have "i mod 60 < 60" by simp
    then show ?thesis by linarith
  qed
  ultimately have dig: "nat y mod 10000 = nat y" "nat m mod 100 = nat m" "nat d mod 100 = nat d"
    "nat (s div 60 div 60) mod 100 = nat (s div 60 div 60)"
    "\<And>i::int. nat (i mod 60) mod 100 = nat (i mod 60)" by simp_all
  have us: "nat (?u mod 1000000) mod 1000000 = nat (?u mod 1000000)" by simp
  have f: "field 0 4 (to_iso t) = y" "field 5 2 (to_iso t) = m" "field 8 2 (to_iso t) = d"
    "field 11 2 (to_iso t) = s div 60 div 60" "field 14 2 (to_iso t) = s div 60 mod 60"
    "field 17 2 (to_iso t) = s mod 60" "field 20 6 (to_iso t) = ?u mod 1000000"
    using yb b sb unfolding field_def to_iso_def date_text_def ymd clock_text_def Let_def s [symmetric]
    by (simp_all add: number_digits dig us)
  have "s div 60 div 60 * 3600 + s div 60 mod 60 * 60 + s mod 60 = s" by presburger
  moreover have "s * 1000000 + ?u mod 1000000 = ?u" unfolding s by simp
  ultimately have "from_iso (to_iso t) = (day_number y m d - epoch_day) * day_length + ?u"
    unfolding from_iso_def f by (simp only: add.assoc)
  also have "day_number y m d = ?n" using b by blast
  also have "(?n - epoch_day) * day_length + ?u = t" by simp
  finally show ?thesis .
qed

end
