(* ===== verification/Policies.thy ===== *)
theory Policies
  imports Json
begin

text \<open>
  \<open>execution/policies.py\<close>: duration helpers, backoff delays, retry budgets, cancellation tokens
  and the step context. Seconds are real numbers (the rounding of floats is not modelled); the
  random source is the value its next \<open>random()\<close> call gives; the tokens, which reference each
  other, live in an explicit store and are named by their position in it.
\<close>

section \<open>Durations\<close>

definition seconds :: "real \<Rightarrow> real" where "seconds v = v"

definition milliseconds :: "real \<Rightarrow> real" where "milliseconds v = v / 1000"

definition minutes :: "real \<Rightarrow> real" where "minutes v = v * 60"

section \<open>Backoff\<close>

record backoff =
  b_initial :: real
  b_multiplier :: real
  b_max_delay :: real
  b_jitter :: real

definition invalid :: "string \<Rightarrow> exn" where
  "invalid msg = raised ''WorkflowValidationError'' msg"

definition make_backoff :: "real \<Rightarrow> real \<Rightarrow> real \<Rightarrow> real \<Rightarrow> exn + backoff" where
  "make_backoff initial multiplier max_delay jitter =
     (if initial < 0 then Inl (invalid ''backoff initial delay cannot be negative'')
      else if multiplier < 1 then Inl (invalid ''backoff multiplier must be at least 1'')
      else if max_delay < 0 then Inl (invalid ''backoff max_delay cannot be negative'')
      else if \<not> (0 \<le> jitter \<and> jitter \<le> 1)
        then Inl (invalid ''backoff jitter must be between 0 and 1'')
      else Inr \<lparr>b_initial = initial, b_multiplier = multiplier, b_max_delay = max_delay,
                b_jitter = jitter\<rparr>)"

definition default_backoff :: backoff where
  "default_backoff = \<lparr>b_initial = 1 / 10, b_multiplier = 2, b_max_delay = 5, b_jitter = 0\<rparr>"

text \<open>The random source is consulted only when there is jitter.\<close>

definition uncapped_delay :: "backoff \<Rightarrow> int \<Rightarrow> real" where
  "uncapped_delay b attempt = b_initial b * b_multiplier b ^ nat (attempt - 1)"

definition delay_for :: "backoff \<Rightarrow> int \<Rightarrow> real \<Rightarrow> exn + real" where
  "delay_for b attempt rnd =
     (if attempt < 1 then Inl (invalid ''attempt numbers start at 1'')
      else
        let delay = min (uncapped_delay b attempt) (b_max_delay b);
            delay = (if b_jitter b \<noteq> 0 then delay * (1 - b_jitter b * rnd) else delay)
        in Inr (max delay 0))"

definition backoff_ok :: "backoff \<Rightarrow> bool" where
  "backoff_ok b \<longleftrightarrow> 0 \<le> b_initial b \<and> 1 \<le> b_multiplier b \<and> 0 \<le> b_max_delay b \<and>
     0 \<le> b_jitter b \<and> b_jitter b \<le> 1"

section \<open>Retry\<close>

record retry =
  r_max_attempts :: int
  r_retry_on :: "exn_class list"
  r_backoff :: backoff

definition make_retry :: "int \<Rightarrow> exn_class list \<Rightarrow> backoff \<Rightarrow> exn + retry" where
  "make_retry max_attempts retry_on bo =
     (if max_attempts < 1 then Inl (invalid ''retry max_attempts must be at least 1'')
      else if retry_on = [] then
        Inl (invalid ''retry retry_on must name at least one exception type'')
      else if list_ex (\<lambda>c. \<not> derives c (Fw ''BaseException'')) retry_on then
        Inl (invalid ''retry retry_on entries must be exception types'')
      else Inr \<lparr>r_max_attempts = max_attempts, r_retry_on = retry_on, r_backoff = bo\<rparr>)"

definition allows :: "retry \<Rightarrow> exn \<Rightarrow> bool" where
  "allows r e = is_instance e (r_retry_on r)"

definition retry_ok :: "retry \<Rightarrow> bool" where
  "retry_ok r \<longleftrightarrow> 1 \<le> r_max_attempts r \<and> r_retry_on r \<noteq> [] \<and> backoff_ok (r_backoff r)"

section \<open>Cancellation tokens\<close>

record token =
  t_cancelled :: bool
  t_reason :: "string option"
  t_children :: "nat list"

type_synonym tokens = "token list"

definition new_token :: token where
  "new_token = \<lparr>t_cancelled = False, t_reason = None, t_children = []\<rparr>"

text \<open>
  \<open>cancel\<close> marks the token, then calls itself on every child. The calls still to make are a
  list: a token's children come before its later siblings, the order of the recursion. A name
  outside the store (which the program never makes) is skipped.
\<close>

function cancel_all :: "tokens \<Rightarrow> nat list \<Rightarrow> string option \<Rightarrow> tokens" where
  "cancel_all h [] r = h"
| "cancel_all h (t # ts) r =
     (if t < length h \<and> \<not> t_cancelled (h ! t)
      then cancel_all (h[t := (h ! t)\<lparr>t_cancelled := True, t_reason := r\<rparr>])
             (t_children (h ! t) @ ts) r
      else cancel_all h ts r)"
  by pat_completeness auto

definition live_count :: "tokens \<Rightarrow> nat" where
  "live_count h = length (filter (\<lambda>t. \<not> t_cancelled t) h)"

lemma live_count_update:
  "\<lbrakk>t < length h; \<not> t_cancelled (h ! t); t_cancelled x\<rbrakk> \<Longrightarrow> live_count (h[t := x]) < live_count h"
proof (induction h arbitrary: t)
  case Nil
  then show ?case by simp
next
  case (Cons a h)
  then show ?case by (cases t) (auto simp: live_count_def)
qed

termination cancel_all
  by (relation "measures [\<lambda>(h, ts, r). live_count h, \<lambda>(h, ts, r). length ts]")
     (auto simp: live_count_update)

definition cancel :: "tokens \<Rightarrow> nat \<Rightarrow> string option \<Rightarrow> tokens" where
  "cancel h t r = cancel_all h [t] r"

definition child :: "tokens \<Rightarrow> nat \<Rightarrow> tokens \<times> nat" where
  "child h t =
     (let c = length h in
      if t_cancelled (h ! t)
      then (h @ [new_token\<lparr>t_cancelled := True, t_reason := t_reason (h ! t)\<rparr>], c)
      else ((h @ [new_token])[t := (h ! t)\<lparr>t_children := t_children (h ! t) @ [c]\<rparr>], c))"

section \<open>The step context\<close>

record step_context =
  sc_workflow :: string
  sc_version :: string
  sc_step :: string
  sc_attempt :: int
  sc_deadline :: "real option"

text \<open>The clock's reading and the token's state are arguments.\<close>

definition remaining :: "step_context \<Rightarrow> real \<Rightarrow> real option" where
  "remaining sc now = map_option (\<lambda>d. max (d - now) 0) (sc_deadline sc)"

definition expired :: "step_context \<Rightarrow> real \<Rightarrow> bool" where
  "expired sc now = (case remaining sc now of None \<Rightarrow> False | Some r \<Rightarrow> r \<le> 0)"

definition msg_check_cancelled :: "step_context \<Rightarrow> string option \<Rightarrow> string" where
  "msg_check_cancelled sc reason = ''workflow '' @ py_repr (sc_workflow sc) @
     '' was cancelled before step '' @ py_repr (sc_step sc) @ '' ('' @
     (case reason of Some r \<Rightarrow> if r = '''' then ''cancellation requested'' else r
      | None \<Rightarrow> ''cancellation requested'') @ '')''"

definition msg_check_deadline :: "step_context \<Rightarrow> string" where
  "msg_check_deadline sc = ''workflow '' @ py_repr (sc_workflow sc) @
     '' exceeded its deadline at step '' @ py_repr (sc_step sc)"

definition check :: "step_context \<Rightarrow> token \<Rightarrow> real \<Rightarrow> exn + unit" where
  "check sc t now =
     (if t_cancelled t then
        Inl (raised ''WorkflowCancelledError'' (msg_check_cancelled sc (t_reason t)))
      else if expired sc now then
        Inl (raised ''WorkflowTimeoutError'' (msg_check_deadline sc))
      else Inr ())"

end
