(* ===== verification/Workflow_Model.thy ===== *)
theory Workflow_Model
  imports Policies
begin

text \<open>
  \<open>execution/models.py\<close>: workflow definitions as immutable values. A step function and a branch
  predicate come with what \<open>inspect\<close> and \<open>typing\<close> report of them (\<open>callable_info\<close>), which is
  all validation reads; the body of a step function is of a type parameter that the executor
  instantiates, and the journal never looks at it. A predicate returns the truth of its result
  or raises.
\<close>

section \<open>Callables and type expressions\<close>

datatype param_kind = POSITIONAL_ONLY | POSITIONAL_OR_KEYWORD | VAR_POSITIONAL | KEYWORD_ONLY | VAR_KEYWORD

text \<open>
  Type annotations as \<open>get_origin\<close> and \<open>get_args\<close> take them apart: a class, a generic with its
  origin class and arguments, a union, \<open>Any\<close>, and any other typing construct by its text.
\<close>

datatype ty =
    TAny
  | TClass string
  | TGeneric string "ty list"
  | TUnion "ty list"
  | TOther string

text \<open>
  \<open>ci_params\<close> is \<open>None\<close> when \<open>inspect.signature\<close> raises, \<open>ci_hints\<close> when \<open>get_type_hints\<close> does.
\<close>

record callable_info =
  ci_callable :: bool
  ci_coroutine :: bool
  ci_name :: string
  ci_type :: string
  ci_params :: "(string \<times> param_kind) list option"
  ci_hints :: "(string \<times> ty) list option"

record predicate =
  pr_info :: callable_info
  pr_test :: "pyval \<Rightarrow> exn + bool"

section \<open>Definitions\<close>

type_synonym metadata = "(pyval \<times> pyval) list"

record 'b wf_step =
  st_id :: string
  st_fn :: callable_info
  st_body :: 'b
  st_retry :: "retry option"
  st_timeout :: "real option"
  st_metadata :: metadata

record edge =
  e_source :: string
  e_target :: string
  e_when :: "predicate option"

record 'b workflow =
  w_name :: string
  w_version :: string
  w_input_type :: "ty list option"
  w_steps :: "'b wf_step list"
  w_edges :: "edge list"
  w_metadata :: metadata
  w_validated :: bool

definition new_workflow :: "string \<Rightarrow> string \<Rightarrow> ty list option \<Rightarrow> metadata \<Rightarrow> 'b workflow" where
  "new_workflow name version input_type md =
     \<lparr>w_name = name, w_version = version, w_input_type = input_type, w_steps = [], w_edges = [],
      w_metadata = md, w_validated = False\<rparr>"

definition with_step :: "'b workflow \<Rightarrow> 'b wf_step \<Rightarrow> 'b workflow" where
  "with_step w s = w\<lparr>w_steps := w_steps w @ [s], w_validated := False\<rparr>"

definition with_edge :: "'b workflow \<Rightarrow> edge \<Rightarrow> 'b workflow" where
  "with_edge w e = w\<lparr>w_edges := w_edges w @ [e], w_validated := False\<rparr>"

definition step_ids :: "'b workflow \<Rightarrow> string list" where
  "step_ids w = map st_id (w_steps w)"

definition outgoing :: "'b workflow \<Rightarrow> string \<Rightarrow> edge list" where
  "outgoing w sid = filter (\<lambda>e. e_source e = sid) (w_edges w)"

definition incoming :: "'b workflow \<Rightarrow> string \<Rightarrow> edge list" where
  "incoming w sid = filter (\<lambda>e. e_target e = sid) (w_edges w)"

definition entries :: "'b workflow \<Rightarrow> 'b wf_step list" where
  "entries w = filter (\<lambda>s. incoming w (st_id s) = []) (w_steps w)"

definition exits :: "'b workflow \<Rightarrow> 'b wf_step list" where
  "exits w = filter (\<lambda>s. outgoing w (st_id s) = []) (w_steps w)"

definition msg_no_step :: "'b workflow \<Rightarrow> string \<Rightarrow> string" where
  "msg_no_step w sid = ''workflow '' @ py_repr (w_name w) @ '' has no step '' @ py_repr sid @
     ''; declared steps: '' @ (if step_ids w = [] then ''none'' else join '', '' (step_ids w))"

definition step_by_id :: "'b workflow \<Rightarrow> string \<Rightarrow> exn + 'b wf_step" where
  "step_by_id w sid =
     (case find (\<lambda>s. st_id s = sid) (w_steps w) of
        Some s \<Rightarrow> Inr s
      | None \<Rightarrow> Inl (invalid (msg_no_step w sid)))"

section \<open>Results\<close>

datatype step_status = SUCCEEDED | FAILED | SKIPPED | TIMED_OUT | CANCELLED

record attempt =
  at_number :: int
  at_status :: step_status
  at_duration :: real
  at_error_type :: "string option"

record step_outcome =
  so_step :: string
  so_status :: step_status
  so_attempts :: "attempt list"
  so_output :: pyval
  so_duration :: real
  so_error_type :: "string option"

definition attempt_count :: "step_outcome \<Rightarrow> nat" where
  "attempt_count so = length (so_attempts so)"

definition skipped_outcome :: "string \<Rightarrow> step_outcome" where
  "skipped_outcome sid = \<lparr>so_step = sid, so_status = SKIPPED, so_attempts = [],
     so_output = PNone, so_duration = 0, so_error_type = None\<rparr>"

text \<open>The dictionaries of a result keep their insertion order, as Python's do.\<close>

record workflow_result =
  wr_workflow :: string
  wr_version :: string
  wr_outputs :: "(string \<times> pyval) list"
  wr_steps :: "(string \<times> step_outcome) list"
  wr_duration :: real

definition msg_no_outcome :: "workflow_result \<Rightarrow> string \<Rightarrow> string" where
  "msg_no_outcome r sid = ''workflow '' @ py_repr (wr_workflow r) @ '' has no outcome for step '' @
     py_repr sid @ ''; resolved steps: '' @
     (let n = join '', '' (sort (map fst (wr_steps r))) in if n = '''' then ''none'' else n)"

definition outcome :: "workflow_result \<Rightarrow> string \<Rightarrow> exn + step_outcome" where
  "outcome r sid =
     (case map_of (wr_steps r) sid of
        Some so \<Rightarrow> Inr so
      | None \<Rightarrow> Inl (raised ''WorkflowError'' (msg_no_outcome r sid)))"

definition msg_several_outputs :: "workflow_result \<Rightarrow> string" where
  "msg_several_outputs r = ''workflow '' @ py_repr (wr_workflow r) @ '' produced '' @
     dec_nat (length (wr_outputs r)) @ '' outputs ('' @
     (let n = join '', '' (sort (map fst (wr_outputs r))) in if n = '''' then ''none'' else n) @
     ''); use result.outputs to read them by step''"

definition result_value :: "workflow_result \<Rightarrow> exn + pyval" where
  "result_value r =
     (case wr_outputs r of
        [(sid, v)] \<Rightarrow> Inr v
      | _ \<Rightarrow> Inl (raised ''WorkflowError'' (msg_several_outputs r)))"

section \<open>Edge selection\<close>

text \<open>
  Shared by the executor (\<open>_select_edge\<close>) and the durable scheduler (\<open>select_edge\<close>), whose two
  functions have the same body: the first edge without a condition, or with one that holds.
\<close>

fun select_edge :: "edge list \<Rightarrow> pyval \<Rightarrow> exn + edge option" where
  "select_edge [] output = Inr None"
| "select_edge (e # es) output =
     (case e_when e of
        None \<Rightarrow> Inr (Some e)
      | Some p \<Rightarrow> bindR (pr_test p output)
          (\<lambda>b. if b then Inr (Some e) else select_edge es output))"

section \<open>Lemmas\<close>

lemma find_by_id: "find (\<lambda>s. st_id s = sid) ss = Some s \<Longrightarrow> s \<in> set ss \<and> st_id s = sid"
  by (auto simp: find_Some_iff)

lemma step_by_id_Inr: "step_by_id w sid = Inr s \<Longrightarrow> s \<in> set (w_steps w) \<and> st_id s = sid"
  by (auto simp: step_by_id_def dest: find_by_id split: option.splits)

lemma step_by_id_total:
  assumes "sid \<in> set (step_ids w)"
  shows "\<exists>s. step_by_id w sid = Inr s"
proof -
  from assms obtain s where "s \<in> set (w_steps w)" "st_id s = sid"
    by (auto simp: step_ids_def)
  then have "find (\<lambda>s. st_id s = sid) (w_steps w) \<noteq> None"
    by (auto simp: find_None_iff)
  then show ?thesis by (auto simp: step_by_id_def)
qed

lemma find_distinct:
  "\<lbrakk>distinct (map st_id ss); s \<in> set ss\<rbrakk> \<Longrightarrow> find (\<lambda>t. st_id t = st_id s) ss = Some s"
proof (induction ss)
  case Nil
  then show ?case by simp
next
  case (Cons a ss)
  then show ?case by (cases "s = a") (auto simp: rev_image_eqI)
qed

lemma step_by_id_distinct:
  "\<lbrakk>distinct (step_ids w); s \<in> set (w_steps w)\<rbrakk> \<Longrightarrow> step_by_id w (st_id s) = Inr s"
  by (simp add: step_by_id_def step_ids_def find_distinct)

lemma select_edge_in: "select_edge es v = Inr (Some e) \<Longrightarrow> e \<in> set es"
  by (induction es) (auto simp: bindR_Inr_iff split: option.splits if_splits)

lemma set_outgoing [simp]: "e \<in> set (outgoing w sid) \<longleftrightarrow> e \<in> set (w_edges w) \<and> e_source e = sid"
  by (auto simp: outgoing_def)

lemma set_incoming [simp]: "e \<in> set (incoming w sid) \<longleftrightarrow> e \<in> set (w_edges w) \<and> e_target e = sid"
  by (auto simp: incoming_def)

lemma incoming_Nil_iff: "incoming w sid = [] \<longleftrightarrow> (\<forall>e \<in> set (w_edges w). e_target e \<noteq> sid)"
  by (auto simp: incoming_def filter_empty_conv)

lemma outgoing_Nil_iff: "outgoing w sid = [] \<longleftrightarrow> (\<forall>e \<in> set (w_edges w). e_source e \<noteq> sid)"
  by (auto simp: outgoing_def filter_empty_conv)

end
