(* ===== verification/Kahn.thy ===== *)
theory Kahn
  imports Prelude
begin

text \<open>
  The queue loop that validation (\<open>_validate_acyclic\<close>) and the executor (\<open>run\<close>) share: take a
  ready node, lower the counters of its successors, and append those that reach zero. The loop
  is given here once, with the facts both components need: it stops, it visits each node at most
  once and only after all its predecessors, and it visits every node exactly when the edges form
  no cycle.
\<close>

section \<open>The loop\<close>

text \<open>
  \<open>for target in successors: counter[target] -= 1; if counter[target] == 0: ready.append(target)\<close>
\<close>

fun relax :: "'a list \<Rightarrow> ('a \<Rightarrow> int) \<Rightarrow> ('a \<Rightarrow> int) \<times> 'a list" where
  "relax [] d = (d, [])"
| "relax (t # ts) d =
     (let d1 = d(t := d t - 1); (d2, new) = relax ts d1
      in (d2, if d1 t = 0 then t # new else new))"

text \<open>
  The state is the counters, the queue and the nodes taken so far. Each turn spends one unit of
  fuel; \<open>None\<close> would mean that the fuel did not last, which \<open>kahn_total\<close> rules out.
\<close>

fun kahn :: "nat \<Rightarrow> ('a \<Rightarrow> 'a list) \<Rightarrow> ('a \<Rightarrow> int) \<Rightarrow> 'a list \<Rightarrow> 'a list
    \<Rightarrow> ('a list \<times> ('a \<Rightarrow> int)) option" where
  "kahn 0 succ d ready visited = None"
| "kahn (Suc n) succ d [] visited = Some (visited, d)"
| "kahn (Suc n) succ d (c # ready) visited =
     (let (d1, new) = relax (succ c) d in kahn n succ d1 (ready @ new) (visited @ [c]))"

definition succs :: "('a \<times> 'a) list \<Rightarrow> 'a \<Rightarrow> 'a list" where
  "succs E c = map snd (filter (\<lambda>e. fst e = c) E)"

definition indegree :: "('a \<times> 'a) list \<Rightarrow> 'a \<Rightarrow> int" where
  "indegree E t = int (length (filter (\<lambda>e. snd e = t) E))"

section \<open>One turn\<close>

lemma relax_counts: "fst (relax ts d) t = d t - int (count_list ts t)"
proof (induction ts arbitrary: d)
  case Nil
  then show ?case by simp
next
  case (Cons a ts)
  obtain d' where d': "d(a := d a - 1) = d'" by simp
  then have d'_at: "d' x = (if x = a then d a - 1 else d x)" for x by auto
  have "fst (relax ts d') t = d' t - int (count_list ts t)" by (rule Cons.IH)
  then show ?case by (simp add: Let_def split_beta d' d'_at)
qed

lemma relax_new: "set (snd (relax ts d)) = {t. 0 < d t \<and> d t \<le> int (count_list ts t)}"
proof (induction ts arbitrary: d)
  case Nil
  then show ?case by auto
next
  case (Cons a ts)
  obtain d' where d': "d(a := d a - 1) = d'" by simp
  then have d'_at: "d' x = (if x = a then d a - 1 else d x)" for x by auto
  have "set (snd (relax ts d')) = {t. 0 < d' t \<and> d' t \<le> int (count_list ts t)}"
    by (rule Cons.IH)
  moreover have "set (snd (relax (a # ts) d)) =
      (if d' a = 0 then insert a (set (snd (relax ts d'))) else set (snd (relax ts d')))"
    by (simp add: Let_def split_beta d')
  ultimately have "t \<in> set (snd (relax (a # ts) d)) \<longleftrightarrow>
      (t = a \<and> d a = 1) \<or> (0 < d' t \<and> d' t \<le> int (count_list ts t))" for t
    by (auto simp: d'_at)
  also have "\<dots> t \<longleftrightarrow> 0 < d t \<and> d t \<le> int (count_list (a # ts) t)" for t
    by (cases "t = a") (auto simp: d'_at)
  finally show ?case by blast
qed

lemma relax_distinct: "distinct (snd (relax ts d))"
proof (induction ts arbitrary: d)
  case Nil
  then show ?case by simp
next
  case (Cons a ts)
  obtain d' where d': "d(a := d a - 1) = d'" by simp
  then have d'_at: "d' x = (if x = a then d a - 1 else d x)" for x by auto
  have "distinct (snd (relax ts d'))" by (rule Cons.IH)
  moreover have "snd (relax (a # ts) d) =
      (if d' a = 0 then a # snd (relax ts d') else snd (relax ts d'))"
    by (simp add: Let_def split_beta d')
  ultimately show ?case by (simp add: relax_new)
qed

lemma count_succs: "count_list (succs E c) t = length (filter (\<lambda>e. snd e = t \<and> fst e = c) E)"
  by (induction E) (auto simp: succs_def)

section \<open>The invariant\<close>

text \<open>Every node of the list comes after all its predecessors.\<close>

inductive topo :: "('a \<times> 'a) list \<Rightarrow> 'a list \<Rightarrow> bool" for E where
  topo_Nil: "topo E []"
| topo_snoc: "\<lbrakk>topo E xs; c \<notin> set xs; \<forall>s. (s, c) \<in> set E \<longrightarrow> s \<in> set xs\<rbrakk> \<Longrightarrow> topo E (xs @ [c])"

definition open_in :: "('a \<times> 'a) list \<Rightarrow> 'a set \<Rightarrow> 'a \<Rightarrow> nat" where
  "open_in E V t = length (filter (\<lambda>e. snd e = t \<and> fst e \<notin> V) E)"

definition kahn_inv ::
    "'a list \<Rightarrow> ('a \<times> 'a) list \<Rightarrow> ('a \<Rightarrow> int) \<Rightarrow> 'a list \<Rightarrow> 'a list \<Rightarrow> bool" where
  "kahn_inv ids E d ready visited \<longleftrightarrow>
     (\<forall>t. d t = int (open_in E (set visited) t)) \<and>
     distinct (visited @ ready) \<and> set (visited @ ready) = {t \<in> set ids. d t = 0} \<and>
     topo E visited"

lemma open_in_0: "open_in E V t = 0 \<longleftrightarrow> (\<forall>s. (s, t) \<in> set E \<longrightarrow> s \<in> V)"
  by (auto simp: open_in_def filter_empty_conv)

lemma open_in_insert:
  assumes "c \<notin> V"
  shows "open_in E V t = open_in E (insert c V) t + count_list (succs E c) t"
  using assms by (induction E) (auto simp: open_in_def succs_def)

lemma kahn_inv_start:
  assumes "distinct ids"
  shows "kahn_inv ids E (indegree E) (filter (\<lambda>i. indegree E i = 0) ids) []"
  using assms by (auto simp: kahn_inv_def indegree_def open_in_def topo_Nil)

lemma kahn_inv_step:
  assumes inv: "kahn_inv ids E d (c # ready) visited"
    and targets: "\<And>s t. (s, t) \<in> set E \<Longrightarrow> t \<in> set ids"
    and rel: "relax (succs E c) d = (d1, new)"
  shows "kahn_inv ids E d1 (ready @ new) (visited @ [c])"
proof -
  from inv have d: "\<And>t. d t = int (open_in E (set visited) t)"
    and dist: "distinct (visited @ c # ready)"
    and nodes: "set (visited @ c # ready) = {t \<in> set ids. d t = 0}"
    and order: "topo E visited"
    by (auto simp: kahn_inv_def)
  from dist have c: "c \<notin> set visited" by auto
  have d1: "d1 t = int (open_in E (insert c (set visited)) t)" for t
    using relax_counts [of "succs E c" d t] open_in_insert [OF c, of E t] rel d by simp
  have new: "set new = {t. 0 < d t \<and> d1 t = 0}"
  proof -
    have "set new = {t. 0 < d t \<and> d t \<le> int (count_list (succs E c) t)}"
      using relax_new [of "succs E c" d] rel by simp
    moreover have "d1 t = d t - int (count_list (succs E c) t)" for t
      using relax_counts [of "succs E c" d t] rel by simp
    moreover have "0 \<le> d1 t" for t using d1 [of t] by simp
    ultimately show ?thesis by (auto intro: order_antisym)
  qed
  have zero: "d1 t = 0" if "d t = 0" for t
    using that d1 [of t] d [of t] open_in_insert [OF c, of E t] by simp
  have "distinct new" using relax_distinct [of "succs E c" d] rel by simp
  moreover have "set (visited @ c # ready) \<inter> set new = {}"
    using nodes new by auto
  ultimately have dist': "distinct ((visited @ [c]) @ ready @ new)"
    using dist by auto
  have inids: "t \<in> set ids" if "0 < d t" for t
  proof -
    from that d have "open_in E (set visited) t \<noteq> 0" by simp
    then show ?thesis using targets by (auto simp: open_in_0)
  qed
  have "d t = 0 \<or> 0 < d t" for t using d [of t] by auto
  then have nodes': "set ((visited @ [c]) @ ready @ new) = {t \<in> set ids. d1 t = 0}"
    using nodes new zero inids by auto
  have "d c = 0" using nodes by auto
  then have "\<forall>s. (s, c) \<in> set E \<longrightarrow> s \<in> set visited"
    using d [of c] by (simp add: open_in_0)
  with order c have "topo E (visited @ [c])" by (intro topo_snoc)
  with d1 dist' nodes' show ?thesis by (auto simp: kahn_inv_def)
qed

section \<open>The whole loop\<close>

lemma kahn_run:
  assumes "kahn_inv ids E d ready visited"
    and "\<And>s t. (s, t) \<in> set E \<Longrightarrow> t \<in> set ids"
    and "length ids < n + length visited"
  shows "\<exists>vs d1. kahn n (succs E) d ready visited = Some (vs, d1) \<and> kahn_inv ids E d1 [] vs"
  using assms
proof (induction n arbitrary: d ready visited)
  case 0
  then have "distinct visited" "set visited \<subseteq> set ids" by (auto simp: kahn_inv_def)
  then have "length visited \<le> length ids"
    by (metis card_length card_mono distinct_card finite_set le_trans)
  with 0 show ?case by simp
next
  case (Suc n)
  show ?case
  proof (cases ready)
    case Nil
    with Suc.prems show ?thesis by simp
  next
    case (Cons c rest)
    obtain d1 new where rel: "relax (succs E c) d = (d1, new)" by fastforce
    have "kahn_inv ids E d1 (rest @ new) (visited @ [c])"
      using Suc.prems(1) unfolding Cons by (rule kahn_inv_step [OF _ Suc.prems(2) rel])
    from Suc.IH [OF this Suc.prems(2)] Suc.prems(3) Cons rel show ?thesis by simp
  qed
qed

lemma kahn_total:
  assumes "distinct ids" and "\<And>s t. (s, t) \<in> set E \<Longrightarrow> t \<in> set ids"
  shows "\<exists>vs d. kahn (Suc (length ids)) (succs E) (indegree E)
      (filter (\<lambda>i. indegree E i = 0) ids) [] = Some (vs, d) \<and> kahn_inv ids E d [] vs"
  using kahn_run [OF kahn_inv_start [OF assms(1)] assms(2), where n = "Suc (length ids)"] by simp

section \<open>Topological orders and cycles\<close>

lemma topo_distinct: "topo E xs \<Longrightarrow> distinct xs"
  by (induction rule: topo.induct) auto

lemma topo_closed: "\<lbrakk>topo E xs; t \<in> set xs; (s, t) \<in> set E\<rbrakk> \<Longrightarrow> s \<in> set xs"
  by (induction rule: topo.induct) auto

lemma topo_no_self_path: "topo E xs \<Longrightarrow> c \<in> set xs \<Longrightarrow> (c, c) \<notin> (set E)\<^sup>+"
proof (induction arbitrary: c rule: topo.induct)
  case topo_Nil
  then show ?case by simp
next
  case (topo_snoc xs d)
  have pred: "(a, b) \<in> (set E)\<^sup>+ \<Longrightarrow> b \<in> set xs \<Longrightarrow> a \<in> set xs" for a b
    by (induction rule: trancl_induct) (auto intro: topo_closed [OF topo_snoc.hyps(1)])
  show ?case
  proof (cases "c \<in> set xs")
    case True
    then show ?thesis by (rule topo_snoc.IH)
  next
    case False
    with topo_snoc.prems have "c = d" by simp
    show ?thesis
    proof
      assume "(c, c) \<in> (set E)\<^sup>+"
      then obtain p where "(c, p) \<in> (set E)\<^sup>*" "(p, c) \<in> set E"
        by (auto dest: tranclD2)
      with topo_snoc.hyps(3) \<open>c = d\<close> have "p \<in> set xs" by blast
      with \<open>(c, p) \<in> (set E)\<^sup>*\<close> False have "c \<in> set xs"
        by (metis pred rtranclD)
      with False show False ..
    qed
  qed
qed

lemma all_blocked_cycle:
  assumes "finite R" and "R \<noteq> {}" and "\<And>t. t \<in> R \<Longrightarrow> \<exists>s \<in> R. (s, t) \<in> E"
  shows "\<not> acyclic E"
proof
  assume "acyclic E"
  let ?F = "E \<inter> R \<times> R"
  have "acyclic ?F" using \<open>acyclic E\<close> by (rule acyclic_subset) auto
  moreover have "finite ?F" using assms(1) by (intro finite_Int) simp
  ultimately have "wf ?F" by (rule finite_acyclic_wf [rotated])
  then obtain t where "t \<in> R" "\<And>s. (s, t) \<in> ?F \<Longrightarrow> s \<notin> R"
    using assms(2) by (metis all_not_in_conv wfE_min)
  with assms(3) show False by blast
qed

lemma kahn_complete_iff_acyclic:
  assumes inv: "kahn_inv ids E d [] vs" and sub: "set E \<subseteq> set ids \<times> set ids"
  shows "length vs = length ids \<and> distinct ids \<longleftrightarrow> acyclic (set E) \<and> distinct ids"
proof (cases "distinct ids")
  case True
  from inv have order: "topo E vs" and d: "\<And>t. d t = int (open_in E (set vs) t)"
    unfolding kahn_inv_def by blast+
  from inv have vs: "set vs = {t \<in> set ids. d t = 0}" and "distinct vs"
    unfolding kahn_inv_def append_Nil2 by blast+
  have "length vs = length ids \<longleftrightarrow> set vs = set ids"
  proof -
    have "length vs = card (set vs)" "length ids = card (set ids)"
      using True \<open>distinct vs\<close> by (simp_all add: distinct_card)
    moreover have "set vs \<subseteq> set ids" using vs by simp
    ultimately show ?thesis by (metis List.finite_set card_subset_eq)
  qed
  moreover have "set vs = set ids \<longleftrightarrow> acyclic (set E)"
  proof
    assume all: "set vs = set ids"
    show "acyclic (set E)"
    proof (rule acyclicI, rule allI)
      fix x
      show "(x, x) \<notin> (set E)\<^sup>+"
      proof (cases "x \<in> set ids")
        case True
        with all order show ?thesis by (simp add: topo_no_self_path)
      next
        case False
        with sub show ?thesis by (auto dest: tranclD)
      qed
    qed
  next
    assume acyc: "acyclic (set E)"
    show "set vs = set ids"
    proof (rule ccontr)
      assume "set vs \<noteq> set ids"
      with vs have ne: "set ids - set vs \<noteq> {}" by auto
      have "\<exists>s \<in> set ids - set vs. (s, t) \<in> set E" if "t \<in> set ids - set vs" for t
      proof -
        from that vs d [of t] have "open_in E (set vs) t \<noteq> 0" by auto
        then obtain s where "(s, t) \<in> set E" "s \<notin> set vs" by (auto simp: open_in_0)
        with sub show ?thesis by auto
      qed
      with all_blocked_cycle [of "set ids - set vs" "set E"] ne acyc show False by auto
    qed
  qed
  ultimately show ?thesis by simp
qed simp

end
