(* ===== verification/Validation.thy ===== *)
theory Validation
  imports Workflow_Model Kahn
begin

text \<open>
  \<open>execution/validation.py\<close>: every rule that decides whether a definition is executable, in the
  order the code applies them, each raising \<open>WorkflowValidationError\<close>. What \<open>issubclass\<close> and
  \<open>isinstance\<close> answer for the classes of an application is a parameter (\<open>class_env\<close>). The text
  of a message leaves out the \<open>repr\<close> of a number.
\<close>

section \<open>Identity\<close>

text \<open>\<open>str.isidentifier\<close> on code points below 256.\<close>

definition ident_start :: "char \<Rightarrow> bool" where
  "ident_start c = (let n = of_char c :: nat in
     (65 \<le> n \<and> n \<le> 90) \<or> n = 95 \<or> (97 \<le> n \<and> n \<le> 122) \<or> n = 170 \<or> n = 181 \<or> n = 186 \<or>
     (192 \<le> n \<and> n \<noteq> 215 \<and> n \<noteq> 247))"

definition ident_char :: "char \<Rightarrow> bool" where
  "ident_char c = (let n = of_char c :: nat in ident_start c \<or> (48 \<le> n \<and> n \<le> 57) \<or> n = 183)"

definition is_identifier :: "string \<Rightarrow> bool" where
  "is_identifier s = (case s of [] \<Rightarrow> False | c # cs \<Rightarrow> ident_start c \<and> list_all ident_char cs)"

definition dashes_to_underscores :: "string \<Rightarrow> string" where
  "dashes_to_underscores s = map (\<lambda>c. if c = CHR ''-'' then CHR ''_'' else c) s"

definition validate_identity :: "'b workflow \<Rightarrow> exn + unit" where
  "validate_identity w =
     (if blank (w_name w) then Inl (invalid ''a workflow needs a non-empty name'')
      else if \<not> is_identifier (dashes_to_underscores (w_name w)) then
        Inl (invalid (''workflow name '' @ py_repr (w_name w) @
          '' must be an identifier so events and configuration can name it''))
      else if blank (w_version w) then
        Inl (invalid (''workflow '' @ py_repr (w_name w) @
          '' needs a non-empty version: a definition is versioned because a durable executor'' @
          '' records the version it ran''))
      else Inr ())"

section \<open>Steps\<close>

definition positional_count :: "(string \<times> param_kind) list \<Rightarrow> nat" where
  "positional_count ps =
     length (filter (\<lambda>p. snd p = POSITIONAL_ONLY \<or> snd p = POSITIONAL_OR_KEYWORD) ps)"

definition is_variadic :: "(string \<times> param_kind) list \<Rightarrow> bool" where
  "is_variadic ps = list_ex (\<lambda>p. snd p = VAR_POSITIONAL) ps"

definition require_parameters :: "callable_info \<Rightarrow> nat \<Rightarrow> string \<Rightarrow> exn + unit" where
  "require_parameters ci count label =
     (case ci_params ci of
        None \<Rightarrow> Inr ()
      | Some ps \<Rightarrow> refuse_if (\<not> is_variadic ps \<and> positional_count ps < count)
          (invalid (label @ '' must accept at least '' @ dec_nat count @
            '' positional parameters, the declared input and the execution context, but accepts ''
            @ dec_nat (positional_count ps))))"

definition validate_step_callable :: "'b wf_step \<Rightarrow> exn + unit" where
  "validate_step_callable s =
     (if \<not> ci_callable (st_fn s) then
        Inl (invalid (''step '' @ py_repr (st_id s) @ '' needs a callable, got '' @
          ci_type (st_fn s)))
      else if \<not> ci_coroutine (st_fn s) then
        Inl (invalid (''step '' @ py_repr (st_id s) @
          '' must be an async function: blocking or CPU-bound work would stall the event loop and'' @
          '' could not be cancelled; await asyncio.to_thread(...) inside an async step instead''))
      else require_parameters (st_fn s) 2 (''the function of step '' @ py_repr (st_id s)))"

fun validate_steps_from :: "string \<Rightarrow> string list \<Rightarrow> 'b wf_step list \<Rightarrow> exn + unit" where
  "validate_steps_from name seen [] = Inr ()"
| "validate_steps_from name seen (s # ss) =
     (if blank (st_id s) then
        Inl (invalid (''every step of workflow '' @ py_repr name @ '' needs a non-empty id''))
      else if st_id s \<in> set seen then
        Inl (invalid (''workflow '' @ py_repr name @ '' declares step '' @ py_repr (st_id s) @
          '' more than once''))
      else bindR (validate_step_callable s) (\<lambda>_.
        bindR (refuse_if (case st_timeout s of None \<Rightarrow> False | Some t \<Rightarrow> t \<le> 0)
          (invalid (''step '' @ py_repr (st_id s) @ '' timeout must be greater than zero''))) (\<lambda>_.
        validate_steps_from name (st_id s # seen) ss)))"

definition validate_steps :: "'b workflow \<Rightarrow> exn + unit" where
  "validate_steps w =
     (if w_steps w = [] then
        Inl (invalid (''workflow '' @ py_repr (w_name w) @ '' declares no steps''))
      else validate_steps_from (w_name w) [] (w_steps w))"

section \<open>Edges\<close>

definition edge_text :: "edge \<Rightarrow> string" where
  "edge_text e = py_repr (e_source e) @ '' -> '' @ py_repr (e_target e)"

definition require_declared :: "'b workflow \<Rightarrow> edge \<Rightarrow> string \<Rightarrow> string \<Rightarrow> exn + unit" where
  "require_declared w e role sid =
     refuse_if (sid \<notin> set (step_ids w))
       (invalid (''edge '' @ edge_text e @ '' names '' @ role @ '' '' @ py_repr sid @
         '', which is not a step of workflow '' @ py_repr (w_name w)))"

definition validate_condition :: "edge \<Rightarrow> predicate \<Rightarrow> string list \<Rightarrow> exn + unit" where
  "validate_condition e p fallback =
     (if \<not> ci_callable (pr_info p) then
        Inl (invalid (''the branch condition on '' @ edge_text e @ '' must be callable''))
      else if ci_coroutine (pr_info p) then
        Inl (invalid (''the branch condition on '' @ edge_text e @ '' must be synchronous: '' @
          ''the executor evaluates conditions before the step's output is passed on''))
      else bindR (require_parameters (pr_info p) 1 (''the branch condition on '' @ edge_text e)) (\<lambda>_.
        refuse_if (e_source e \<in> set fallback)
          (invalid (''step '' @ py_repr (e_source e) @ '' declares the branch condition '' @
            edge_text e @ '' after its unconditional fallback edge; declare conditional edges'' @
            '' first so the fallback is considered last''))))"

fun validate_edges_from ::
    "'b workflow \<Rightarrow> (string \<times> string) list \<Rightarrow> string list \<Rightarrow> edge list \<Rightarrow> exn + unit" where
  "validate_edges_from w seen fallback [] = Inr ()"
| "validate_edges_from w seen fallback (e # es) =
     bindR (require_declared w e ''source'' (e_source e)) (\<lambda>_.
     bindR (require_declared w e ''target'' (e_target e)) (\<lambda>_.
       if e_source e = e_target e then
         Inl (invalid (''edge '' @ edge_text e @ '' is a self-loop; cycles are not supported''))
       else if (e_source e, e_target e) \<in> set seen then
         Inl (invalid (''workflow '' @ py_repr (w_name w) @ '' declares the edge '' @ edge_text e @
           '' more than once''))
       else
         let seen = (e_source e, e_target e) # seen in
         (case e_when e of
            None \<Rightarrow>
              if e_source e \<in> set fallback then
                Inl (invalid (''step '' @ py_repr (e_source e) @
                  '' has more than one edge without a condition; only one unconditional edge can'' @
                  '' act as the fallback''))
              else validate_edges_from w seen (e_source e # fallback) es
          | Some p \<Rightarrow>
              bindR (validate_condition e p fallback)
                (\<lambda>_. validate_edges_from w seen fallback es))))"

definition validate_edges :: "'b workflow \<Rightarrow> exn + unit" where
  "validate_edges w = validate_edges_from w [] [] (w_edges w)"

section \<open>Cycles\<close>

definition edge_pairs :: "'b workflow \<Rightarrow> (string \<times> string) list" where
  "edge_pairs w = map (\<lambda>e. (e_source e, e_target e)) (w_edges w)"

text \<open>
  The walk that names a cycle: from the smallest node left over, always to the first successor
  that is left over too, until a node repeats or there is none.
\<close>

function describe_from :: "(string \<Rightarrow> string list) \<Rightarrow> string list \<Rightarrow> string list \<Rightarrow> string \<Rightarrow> string list"
where
  "describe_from succ rest path current =
     (case filter (\<lambda>t. t \<in> set rest) (succ current) of
        [] \<Rightarrow> path
      | t # _ \<Rightarrow>
          if t \<in> set path then dropWhile (\<lambda>x. x \<noteq> t) path @ [t]
          else describe_from succ rest (path @ [t]) t)"
  by pat_completeness auto
termination
proof (relation "measure (\<lambda>(succ, rest, path, current). card (set rest - set path))", goal_cases)
  case 1
  show ?case by simp
next
  case (2 succ rest path current t ts)
  then have "t \<in> set rest - set path" by (auto simp: filter_eq_Cons_iff)
  then have "set rest - set (path @ [t]) \<subset> set rest - set path" by auto
  then show ?case by (simp add: psubset_card_mono)
qed

declare describe_from.simps [simp del]

definition describe_cycle :: "(string \<Rightarrow> string list) \<Rightarrow> string list \<Rightarrow> string list" where
  "describe_cycle succ rest =
     (case sort rest of [] \<Rightarrow> [] | start # _ \<Rightarrow> describe_from succ rest [start] start)"

text \<open>The node count bounds the turns of the queue loop (theory \<open>Kahn\<close>); the fuel is one more.\<close>

definition acyclic_run :: "'b workflow \<Rightarrow> (string list \<times> (string \<Rightarrow> int)) option" where
  "acyclic_run w =
     kahn (Suc (length (step_ids w))) (succs (edge_pairs w)) (indegree (edge_pairs w))
       (filter (\<lambda>i. indegree (edge_pairs w) i = 0) (step_ids w)) []"

definition validate_acyclic :: "'b workflow \<Rightarrow> exn + unit" where
  "validate_acyclic w =
     (case acyclic_run w of
        None \<Rightarrow> Inl (invalid ''out of fuel'')
      | Some (visited, d) \<Rightarrow>
          if length visited \<noteq> length (step_ids w) then
            Inl (invalid (''workflow '' @ py_repr (w_name w) @ '' contains a cycle: '' @
              join '' -> '' (describe_cycle (succs (edge_pairs w))
                 (filter (\<lambda>i. 0 < d i) (step_ids w))) @
              ''; sequential and conditional execution does not support loops''))
          else Inr ())"

section \<open>Declared types\<close>

text \<open>
  \<open>ce_issubclass\<close> answers \<open>issubclass\<close> on two class names; \<open>ce_isinstance\<close> tells whether
  \<open>isinstance\<close> accepts the class (a protocol that is not runtime-checkable is refused).
\<close>

record class_env =
  ce_issubclass :: "string \<Rightarrow> string \<Rightarrow> bool"
  ce_isinstance :: "string \<Rightarrow> bool"

fun origin_class :: "ty \<Rightarrow> string option" where
  "origin_class (TClass c) = Some c"
| "origin_class (TGeneric c args) = Some c"
| "origin_class t = None"

function compatible :: "class_env \<Rightarrow> ty \<Rightarrow> ty \<Rightarrow> bool" where
  "compatible ce source target =
     (if source = TAny \<or> target = TAny \<or> source = target then True
      else case source of
        TUnion (m # ms) \<Rightarrow> list_all (\<lambda>m. compatible ce m target) (m # ms)
      | _ \<Rightarrow>
        (case target of
           TUnion (m # ms) \<Rightarrow> list_ex (\<lambda>m. compatible ce source m) (m # ms)
         | _ \<Rightarrow>
           (case (origin_class source, origin_class target) of
              (Some a, Some b) \<Rightarrow> ce_issubclass ce a b \<or> ce_issubclass ce b a
            | _ \<Rightarrow> True)))"
  by pat_completeness auto
termination
  by (relation "measure (\<lambda>(ce, s, t). size s + size t)")
     (auto simp: less_Suc_eq_le intro: le_SucI trans_le_add2 size_list_estimation' [OF _ order_refl])

definition compatible_opt :: "class_env \<Rightarrow> ty option \<Rightarrow> ty option \<Rightarrow> bool" where
  "compatible_opt ce s t = (case (s, t) of (Some a, Some b) \<Rightarrow> compatible ce a b | _ \<Rightarrow> True)"

definition first_positional :: "(string \<times> param_kind) list \<Rightarrow> string option" where
  "first_positional ps =
     map_option fst (find (\<lambda>p. snd p = POSITIONAL_ONLY \<or> snd p = POSITIONAL_OR_KEYWORD) ps)"

definition declared_signature :: "callable_info \<Rightarrow> ty option \<times> ty option" where
  "declared_signature ci =
     (case ci_hints ci of
        None \<Rightarrow> (None, None)
      | Some hints \<Rightarrow>
          (case ci_params ci of
             None \<Rightarrow> (None, map_of hints ''return'')
           | Some ps \<Rightarrow>
               (Option.bind (first_positional ps) (map_of hints), map_of hints ''return'')))"

fun describe_ty :: "ty \<Rightarrow> string" where
  "describe_ty TAny = ''Any''"
| "describe_ty (TClass c) = c"
| "describe_ty (TGeneric c args) = c"
| "describe_ty (TUnion ms) = join '' | '' (map describe_ty ms)"
| "describe_ty (TOther s) = s"

definition describe_opt :: "ty option \<Rightarrow> string" where
  "describe_opt t = (case t of None \<Rightarrow> ''None'' | Some t \<Rightarrow> describe_ty t)"

text \<open>
  An \<open>input_type\<close> of one class is the class; a tuple is not a type to \<open>_compatible\<close>, which then
  accepts it.
\<close>

definition input_compatible :: "class_env \<Rightarrow> ty list \<Rightarrow> ty \<Rightarrow> bool" where
  "input_compatible ce tys t = (case tys of [s] \<Rightarrow> compatible ce s t | _ \<Rightarrow> True)"

definition require_isinstance_capable :: "class_env \<Rightarrow> ty list \<Rightarrow> string \<Rightarrow> exn + unit" where
  "require_isinstance_capable ce tys label =
     (if list_ex (\<lambda>t. case t of TClass _ \<Rightarrow> False | _ \<Rightarrow> True) tys then
        Inl (invalid (label @ '' must be a class or a tuple of classes usable with isinstance''))
      else if tys = [] then Inl (invalid (label @ '' must name at least one class''))
      else if list_ex (\<lambda>t. case t of TClass c \<Rightarrow> \<not> ce_isinstance ce c | _ \<Rightarrow> False) tys then
        Inl (invalid (label @ '' cannot be used with isinstance''))
      else Inr ())"

fun require_compatible_inputs ::
    "class_env \<Rightarrow> string \<Rightarrow> (string \<times> ty) option \<Rightarrow> (string \<times> ty option) list \<Rightarrow> exn + unit" where
  "require_compatible_inputs ce name reference [] = Inr ()"
| "require_compatible_inputs ce name reference ((sid, None) # rest) =
     require_compatible_inputs ce name reference rest"
| "require_compatible_inputs ce name None ((sid, Some t) # rest) =
     require_compatible_inputs ce name (Some (sid, t)) rest"
| "require_compatible_inputs ce name (Some (rid, rt)) ((sid, Some t) # rest) =
     (if \<not> compatible ce rt t then
        Inl (invalid (''workflow '' @ py_repr name @ '' sends the same input to entry steps '' @
          py_repr rid @ '' and '' @ py_repr sid @ '', which declare '' @ describe_ty rt @
          '' and '' @ describe_ty t))
      else require_compatible_inputs ce name (Some (rid, rt)) rest)"

definition declared_input :: "'b wf_step \<Rightarrow> ty option" where
  "declared_input s = fst (declared_signature (st_fn s))"

text \<open>\<open>declared[step_id]\<close>: a dictionary over the steps, so a later step of the same id wins.\<close>

definition declared_of :: "'b workflow \<Rightarrow> string \<Rightarrow> ty option \<times> ty option" where
  "declared_of w sid =
     (case map_of (rev (map (\<lambda>s. (st_id s, declared_signature (st_fn s))) (w_steps w))) sid of
        None \<Rightarrow> (None, None) | Some d \<Rightarrow> d)"

fun check_entries :: "class_env \<Rightarrow> string \<Rightarrow> ty list \<Rightarrow> 'b wf_step list \<Rightarrow> exn + unit" where
  "check_entries ce name tys [] = Inr ()"
| "check_entries ce name tys (s # ss) =
     (case declared_input s of
        None \<Rightarrow> check_entries ce name tys ss
      | Some t \<Rightarrow>
          if \<not> input_compatible ce tys t then
            Inl (invalid (''entry step '' @ py_repr (st_id s) @ '' declares an input of '' @
              describe_ty t @ '' but workflow '' @ py_repr name @ '' declares input_type='' @
              join '' | '' (map describe_ty tys)))
          else check_entries ce name tys ss)"

fun check_edge_types :: "class_env \<Rightarrow> 'b workflow \<Rightarrow> edge list \<Rightarrow> exn + unit" where
  "check_edge_types ce w [] = Inr ()"
| "check_edge_types ce w (e # es) =
     (let out = snd (declared_of w (e_source e)); inp = fst (declared_of w (e_target e)) in
      if compatible_opt ce out inp then check_edge_types ce w es
      else Inl (invalid (''edge '' @ edge_text e @ '' is incompatible: step '' @
        py_repr (e_source e) @ '' declares '' @ describe_opt out @ '' while step '' @
        py_repr (e_target e) @ '' declares '' @ describe_opt inp)))"

definition validate_declared_types :: "class_env \<Rightarrow> 'b workflow \<Rightarrow> exn + unit" where
  "validate_declared_types ce w =
     bindR (case w_input_type w of
              None \<Rightarrow> Inr ()
            | Some tys \<Rightarrow> require_isinstance_capable ce tys
                (''workflow '' @ py_repr (w_name w) @ '' input_type'')) (\<lambda>_.
     bindR (require_compatible_inputs ce (w_name w) None
              (map (\<lambda>s. (st_id s, declared_input s)) (entries w))) (\<lambda>_.
     bindR (case w_input_type w of
              None \<Rightarrow> Inr ()
            | Some tys \<Rightarrow> check_entries ce (w_name w) tys (entries w)) (\<lambda>_.
     check_edge_types ce w (w_edges w))))"

section \<open>Metadata\<close>

definition is_PStr :: "pyval \<Rightarrow> bool" where
  "is_PStr v = (case v of PStr _ \<Rightarrow> True | _ \<Rightarrow> False)"

definition the_PStr :: "pyval \<Rightarrow> string" where
  "the_PStr v = (case v of PStr s \<Rightarrow> s | _ \<Rightarrow> '''')"

definition metadata_value :: "metadata \<Rightarrow> pyval" where
  "metadata_value md = PDict (map (\<lambda>(k, v). (the_PStr k, v)) md)"

definition not_serializable :: "string \<Rightarrow> exn" where
  "not_serializable c =
     raised ''TypeError'' (''Object of type '' @ c @ '' is not JSON serializable'')"

definition require_serializable :: "metadata \<Rightarrow> string \<Rightarrow> exn + unit" where
  "require_serializable md label =
     (if list_ex (\<lambda>(k, v). \<not> is_PStr k) md then
        Inl (invalid (label @ '' keys must be strings''))
      else case json_dumps not_serializable (metadata_value md) of
        Inl e \<Rightarrow> Inl (invalid (label @ '' must be JSON-serializable: '' @ str_of e))
      | Inr _ \<Rightarrow> Inr ())"

fun validate_step_metadata :: "'b wf_step list \<Rightarrow> exn + unit" where
  "validate_step_metadata [] = Inr ()"
| "validate_step_metadata (s # ss) =
     bindR (require_serializable (st_metadata s) (''step '' @ py_repr (st_id s) @ '' metadata''))
       (\<lambda>_. validate_step_metadata ss)"

definition validate_metadata :: "'b workflow \<Rightarrow> exn + unit" where
  "validate_metadata w =
     bindR (require_serializable (w_metadata w)
              (''workflow '' @ py_repr (w_name w) @ '' metadata''))
       (\<lambda>_. validate_step_metadata (w_steps w))"

section \<open>The whole check\<close>

definition validate_workflow :: "class_env \<Rightarrow> 'b workflow \<Rightarrow> exn + unit" where
  "validate_workflow ce w =
     bindR (validate_identity w) (\<lambda>_.
     bindR (validate_steps w) (\<lambda>_.
     bindR (validate_edges w) (\<lambda>_.
     bindR (validate_acyclic w) (\<lambda>_.
     bindR (validate_declared_types ce w) (\<lambda>_.
     validate_metadata w)))))"

text \<open>\<open>Workflow.validate\<close>: the check and its memo.\<close>

definition validate :: "class_env \<Rightarrow> 'b workflow \<Rightarrow> exn + 'b workflow" where
  "validate ce w =
     (if w_validated w then Inr w
      else bindR (validate_workflow ce w) (\<lambda>_. Inr (w\<lparr>w_validated := True\<rparr>)))"

section \<open>What an accepted definition guarantees\<close>

text \<open>An edge without a condition has no later edge of the same source.\<close>

fun fallback_last :: "edge list \<Rightarrow> bool" where
  "fallback_last [] = True"
| "fallback_last (e # es) =
     ((e_when e = None \<longrightarrow> (\<forall>f \<in> set es. e_source f \<noteq> e_source e)) \<and> fallback_last es)"

definition steps_ok :: "'b workflow \<Rightarrow> bool" where
  "steps_ok w \<longleftrightarrow> w_steps w \<noteq> [] \<and> distinct (step_ids w) \<and>
     (\<forall>s \<in> set (w_steps w). \<not> blank (st_id s) \<and> ci_coroutine (st_fn s) \<and>
        (case st_timeout s of None \<Rightarrow> True | Some t \<Rightarrow> 0 < t))"

definition edges_ok :: "'b workflow \<Rightarrow> bool" where
  "edges_ok w \<longleftrightarrow>
     (\<forall>e \<in> set (w_edges w). e_source e \<in> set (step_ids w) \<and> e_target e \<in> set (step_ids w) \<and>
        e_source e \<noteq> e_target e) \<and>
     distinct (edge_pairs w) \<and> fallback_last (w_edges w)"

definition executable :: "'b workflow \<Rightarrow> bool" where
  "executable w \<longleftrightarrow> steps_ok w \<and> edges_ok w \<and> acyclic (set (edge_pairs w))"

lemma validate_steps_from_Inr:
  "validate_steps_from name seen ss = Inr u \<Longrightarrow>
     distinct (map st_id ss) \<and> set (map st_id ss) \<inter> set seen = {} \<and>
     (\<forall>s \<in> set ss. \<not> blank (st_id s) \<and> ci_coroutine (st_fn s) \<and>
        (case st_timeout s of None \<Rightarrow> True | Some t \<Rightarrow> 0 < t))"
proof (induction ss arbitrary: seen)
  case Nil
  then show ?case by simp
next
  case (Cons s ss)
  from Cons.prems have here: "\<not> blank (st_id s)" "st_id s \<notin> set seen" "ci_coroutine (st_fn s)"
      "case st_timeout s of None \<Rightarrow> True | Some t \<Rightarrow> 0 < t"
    and rest: "validate_steps_from name (st_id s # seen) ss = Inr u"
    by (auto simp: bindR_Inr_iff validate_step_callable_def split: if_splits option.splits)
  from Cons.IH [OF rest] here show ?case by auto
qed

lemma validate_steps_ok: "validate_steps w = Inr u \<Longrightarrow> steps_ok w"
  using validate_steps_from_Inr [of "w_name w" "[]" "w_steps w" u]
  by (auto simp: validate_steps_def steps_ok_def step_ids_def split: if_splits)

lemma validate_condition_Inr:
  "validate_condition e p fallback = Inr u \<Longrightarrow> e_source e \<notin> set fallback"
  unfolding validate_condition_def by (simp add: bindR_Inr_iff split: if_splits)

lemma validate_edges_from_Inr:
  "validate_edges_from w seen fallback es = Inr u \<Longrightarrow>
     (\<forall>e \<in> set es. e_source e \<in> set (step_ids w) \<and> e_target e \<in> set (step_ids w) \<and>
        e_source e \<noteq> e_target e \<and> e_source e \<notin> set fallback) \<and>
     distinct (map (\<lambda>e. (e_source e, e_target e)) es) \<and>
     (\<lambda>e. (e_source e, e_target e)) ` set es \<inter> set seen = {} \<and> fallback_last es"
proof (induction es arbitrary: seen fallback)
  case Nil
  then show ?case by simp
next
  case (Cons e es)
  let ?seen = "(e_source e, e_target e) # seen"
  have here: "e_source e \<in> set (step_ids w)" "e_target e \<in> set (step_ids w)"
      "e_source e \<noteq> e_target e" "(e_source e, e_target e) \<notin> set seen"
    using Cons.prems by (simp_all add: bindR_Inr_iff require_declared_def Let_def split: if_splits)
  have free: "e_source e \<notin> set fallback"
    using Cons.prems
    by (cases "e_when e")
       (auto simp: bindR_Inr_iff Let_def dest: validate_condition_Inr split: if_splits)
  show ?case
  proof (cases "e_when e")
    case None
    with Cons.prems have "validate_edges_from w ?seen (e_source e # fallback) es = Inr u"
      by (simp add: bindR_Inr_iff Let_def split: if_splits)
    from Cons.IH [OF this] here free None show ?thesis by auto
  next
    case (Some p)
    with Cons.prems have "validate_edges_from w ?seen fallback es = Inr u"
      by (simp add: bindR_Inr_iff Let_def split: if_splits)
    from Cons.IH [OF this] here free Some show ?thesis by auto
  qed
qed

lemma validate_edges_ok: "validate_edges w = Inr u \<Longrightarrow> edges_ok w"
  using validate_edges_from_Inr [of w "[]" "[]" "w_edges w" u]
  by (auto simp: validate_edges_def edges_ok_def edge_pairs_def)

lemma edge_pairs_declared: "edges_ok w \<Longrightarrow> set (edge_pairs w) \<subseteq> set (step_ids w) \<times> set (step_ids w)"
  by (auto simp: edges_ok_def edge_pairs_def)

lemma acyclic_run_total:
  assumes "steps_ok w" and "edges_ok w"
  shows "\<exists>vs d. acyclic_run w = Some (vs, d) \<and> kahn_inv (step_ids w) (edge_pairs w) d [] vs"
  unfolding acyclic_run_def
  using assms edge_pairs_declared [OF assms(2)] by (intro kahn_total) (auto simp: steps_ok_def)

lemma validate_acyclic_iff:
  assumes "steps_ok w" and "edges_ok w"
  shows "validate_acyclic w = Inr () \<longleftrightarrow> acyclic (set (edge_pairs w))"
proof -
  obtain vs d where run: "acyclic_run w = Some (vs, d)"
    and inv: "kahn_inv (step_ids w) (edge_pairs w) d [] vs"
    using acyclic_run_total [OF assms] by blast
  have "distinct (step_ids w)" using assms(1) by (simp add: steps_ok_def)
  with kahn_complete_iff_acyclic [OF inv edge_pairs_declared [OF assms(2)]] run show ?thesis
    by (auto simp: validate_acyclic_def)
qed

lemma validate_workflow_executable: "validate_workflow ce w = Inr u \<Longrightarrow> executable w"
  by (auto simp: validate_workflow_def executable_def bindR_Inr_iff validate_acyclic_iff
      dest!: validate_steps_ok validate_edges_ok)

text \<open>The memo is only ever set by a validation that succeeded, and a builder clears it.\<close>

definition memo_ok :: "'b workflow \<Rightarrow> bool" where
  "memo_ok w \<longleftrightarrow> (w_validated w \<longrightarrow> executable w)"

lemma validate_executable: "validate ce w = Inr w' \<Longrightarrow> memo_ok w \<Longrightarrow> executable w"
  by (auto simp: validate_def memo_ok_def bindR_Inr_iff split: if_splits
      dest: validate_workflow_executable)

text \<open>The other direction: a definition that breaks one of these rules is refused.\<close>

lemma validate_workflow_refuses:
  assumes "\<not> executable w"
  shows "\<exists>e. validate_workflow ce w = Inl e"
  using assms validate_workflow_executable [of ce w] by (cases "validate_workflow ce w") auto

text \<open>In an accepted definition the first matching condition decides, and the fallback waits.\<close>

lemma fallback_last_filter: "fallback_last es \<Longrightarrow> fallback_last (filter P es)"
  by (induction es) auto

definition no_match :: "pyval \<Rightarrow> edge \<Rightarrow> bool" where
  "no_match v e = (\<exists>q. e_when e = Some q \<and> pr_test q v = Inr False)"

lemma select_edge_skip: "list_all (no_match v) xs \<Longrightarrow> select_edge (xs @ ys) v = select_edge ys v"
  by (induction xs) (auto simp: no_match_def)

lemma fallback_last_conditional:
  "\<lbrakk>fallback_last (xs @ e # ys); x \<in> set xs; e_source x = e_source e\<rbrakk> \<Longrightarrow> e_when x \<noteq> None"
  by (induction xs) auto

end
