(* ===== verification/Journal_Db.thy ===== *)
theory Journal_Db
  imports Iso_Time Validation
begin

text \<open>
  The journal's tables (\<open>durable/journal.py\<close>, \<open>_SCHEMA\<close>) as the state of a transaction, and the
  private helpers of \<open>durable/store.py\<close> every operation is built from: payload encoding, event
  append, the lease guard, the guarded status and state updates, and the explanation of a refused
  write.

  A table with a primary key is a map from its key to the rest of the row, with the list of its
  keys in rowid order where a query depends on that order. \<open>UPDATE ... WHERE key = ... AND P\<close>
  touches the row of that key when \<open>P\<close> holds of it; its row count is 1 then and 0 otherwise.
  Timestamps are instants, see \<open>Iso_Time\<close>; JSON columns hold the encoded text.
\<close>

section \<open>Rows and tables\<close>

record def_row =
  d_fingerprint :: string
  d_metadata :: string
  d_registered :: time

record exec_row =
  x_workflow :: string
  x_version :: string
  x_fingerprint :: string
  x_status :: execution_status
  x_input :: string
  x_result :: "string option"
  x_failure_kind :: "failure_kind option"
  x_failure_message :: "string option"
  x_current :: "string option"
  x_attempts :: int
  x_submitted :: time
  x_updated :: time
  x_deadline :: "time option"
  x_cancel_at :: "time option"
  x_cancel_reason :: "string option"

record step_row =
  s_state :: step_state
  s_detail :: "string option"
  s_attempts :: int
  s_output :: "string option"
  s_error_type :: "string option"
  s_error_message :: "string option"
  s_started :: "time option"
  s_finished :: "time option"
  s_key :: "string option"

record event_row =
  v_id :: nat
  v_execution :: string
  v_kind :: event_kind
  v_step :: "string option"
  v_attempt :: "int option"
  v_detail :: "string option"
  v_at :: time

record lease_row =
  l_owner :: string
  l_fence :: int
  l_acquired :: time
  l_heartbeat :: time
  l_expires :: time

record retry_row =
  y_step :: string
  y_attempt :: int
  y_due :: time
  y_error_type :: "string option"
  y_reason :: "string option"

record db =
  definitions :: "(string \<times> string) \<rightharpoonup> def_row"
  executions :: "string \<rightharpoonup> exec_row"
  exec_order :: "string list"
  steps :: "(string \<times> string) \<rightharpoonup> step_row"
  step_order :: "(string \<times> string) list"
  events :: "event_row list"
  next_event :: nat
  leases :: "string \<rightharpoonup> lease_row"
  retries :: "string \<rightharpoonup> retry_row"

definition empty_db :: db where
  "empty_db = \<lparr>definitions = Map.empty, executions = Map.empty, exec_order = [],
     steps = Map.empty, step_order = [], events = [], next_event = 1,
     leases = Map.empty, retries = Map.empty\<rparr>"

type_synonym 'a jtx = "(db, exn, 'a) tx"

text \<open>
  What the store gets from its environment: \<open>hashlib.sha256(...).hexdigest()\<close>, the decimal text
  of a float, the answers of \<open>issubclass\<close>, and the two journal settings it reads.
\<close>

record store_env =
  sha256_hex :: "string \<Rightarrow> string"
  float_repr :: "real \<Rightarrow> string"
  classes :: class_env
  lease_ttl_seconds :: real
  max_payload_bytes :: int

section \<open>Durations and payloads\<close>

text \<open>\<open>timedelta(seconds=x)\<close> rounds to whole microseconds, halves to even.\<close>

definition round_half_even :: "real \<Rightarrow> int" where
  "round_half_even x =
     (let f = \<lfloor>x\<rfloor>; r = x - of_int f in
      if r < 1 / 2 then f else if 1 / 2 < r then f + 1 else if even f then f else f + 1)"

definition timedelta :: "real \<Rightarrow> time" where
  "timedelta s = round_half_even (s * 1000000)"

definition not_json :: "string \<Rightarrow> string \<Rightarrow> exn" where
  "not_json what c = raised ''DurablePayloadError'' (what @ '' contains '' @ c @
     '', which is not JSON-serializable; durable execution persists inputs, outputs, and results'' @
     '' so a run can be resumed'')"

definition too_large :: "string \<Rightarrow> nat \<Rightarrow> int \<Rightarrow> exn" where
  "too_large what bytes limit = raised ''DurablePayloadError'' (what @ '' is '' @ dec_nat bytes @
     '' bytes, over the '' @ dec_int limit @ ''-byte journal payload limit'')"

text \<open>The JSON text is ASCII, so its bytes are its characters.\<close>

definition dump :: "pyval \<Rightarrow> int \<Rightarrow> string \<Rightarrow> exn + string" where
  "dump value limit what =
     bindR (json_dumps (not_json what) value) (\<lambda>text.
       if limit < int (length text) then Inl (too_large what (length text) limit) else Inr text)"

definition load :: "string option \<Rightarrow> exn + pyval" where
  "load value = (case value of None \<Rightarrow> Inr PNone | Some text \<Rightarrow> json_loads text)"

section \<open>The fingerprint of a definition\<close>

definition step_shape :: "store_env \<Rightarrow> 'b workflow \<Rightarrow> 'b wf_step \<Rightarrow> pyval" where
  "step_shape env w s = PDict
     [(''id'', PStr (st_id s)),
      (''timeout'', case st_timeout s of None \<Rightarrow> PNone | Some t \<Rightarrow> PFloat (float_repr env t)),
      (''sources'', PList (map PStr (sort (map e_source (incoming w (st_id s))))))]"

definition edge_shape :: "edge \<Rightarrow> pyval" where
  "edge_shape e = PDict
     [(''source'', PStr (e_source e)), (''target'', PStr (e_target e)),
      (''conditioned'', PBool (e_when e \<noteq> None))]"

definition definition_shape :: "store_env \<Rightarrow> 'b workflow \<Rightarrow> pyval" where
  "definition_shape env w = PDict
     [(''name'', PStr (w_name w)), (''version'', PStr (w_version w)),
      (''steps'', PList (map (step_shape env w) (w_steps w))),
      (''edges'', PList (map edge_shape (w_edges w)))]"

definition shape_text :: "store_env \<Rightarrow> 'b workflow \<Rightarrow> string" where
  "shape_text env w =
     (case json_dumps not_serializable (definition_shape env w) of Inl _ \<Rightarrow> [] | Inr t \<Rightarrow> t)"

definition definition_fingerprint :: "store_env \<Rightarrow> 'b workflow \<Rightarrow> string" where
  "definition_fingerprint env w = sha256_hex env (shape_text env w)"

section \<open>Rows by key, and events\<close>

definition state_error :: "string \<Rightarrow> exn" where
  "state_error msg = raised ''DurableStateError'' msg"

definition msg_not_in_journal :: "string \<Rightarrow> string" where
  "msg_not_in_journal eid = ''execution '' @ eid @ '' is not in the journal''"

definition msg_no_longer :: "string \<Rightarrow> string" where
  "msg_no_longer eid = ''execution '' @ eid @ '' is no longer in the journal''"

definition msg_not_a_step :: "string \<Rightarrow> string \<Rightarrow> string" where
  "msg_not_a_step eid sid = ''step '' @ py_repr sid @ '' is not part of execution '' @ eid"

definition execution_row :: "string \<Rightarrow> exec_row jtx" where
  "execution_row eid = (\<lambda>s. case executions s eid of
     None \<Rightarrow> Inl (state_error (msg_not_in_journal eid)) | Some row \<Rightarrow> Inr (row, s))"

definition get_step_row :: "string \<Rightarrow> string \<Rightarrow> step_row jtx" where
  "get_step_row eid sid = (\<lambda>s. case steps s (eid, sid) of
     None \<Rightarrow> Inl (state_error (msg_not_a_step eid sid)) | Some row \<Rightarrow> Inr (row, s))"

definition append_event ::
    "string \<Rightarrow> event_kind \<Rightarrow> time \<Rightarrow> string option \<Rightarrow> int option \<Rightarrow> string option \<Rightarrow> unit jtx" where
  "append_event eid kind moment sid attempt det = modT (\<lambda>s. s\<lparr>
     events := events s @ [\<lparr>v_id = next_event s, v_execution = eid, v_kind = kind, v_step = sid,
       v_attempt = attempt, v_detail = det, v_at = moment\<rparr>],
     next_event := Suc (next_event s)\<rparr>)"

section \<open>The lease guard\<close>

text \<open>\<open>_LEASE_GUARD\<close>: the claim's own lease row, unexpired at the time of the write.\<close>

definition lease_guard :: "claim \<Rightarrow> time \<Rightarrow> db \<Rightarrow> bool" where
  "lease_guard c now s = (case leases s (c_execution c) of
     None \<Rightarrow> False
   | Some l \<Rightarrow> l_owner l = c_owner c \<and> l_fence l = c_fence c \<and> now < l_expires l)"

definition msg_cancelled_while :: "string \<Rightarrow> execution_status \<Rightarrow> string \<Rightarrow> string" where
  "msg_cancelled_while eid st expected = ''execution '' @ eid @ '' was cancelled while in state '' @
     py_repr (execution_value st) @ ''; '' @ expected @
     '' cannot be recorded after a cancellation request''"

definition msg_no_lease :: "string \<Rightarrow> string" where
  "msg_no_lease eid = ''execution '' @ eid @ '' has no lease; the claim is no longer valid''"

definition msg_owned_by :: "string \<Rightarrow> string \<Rightarrow> int \<Rightarrow> int \<Rightarrow> string" where
  "msg_owned_by eid owner fence held = ''execution '' @ eid @ '' is owned by '' @ py_repr owner @
     '' at fence '' @ dec_int fence @ ''; this worker holds fence '' @ dec_int held"

definition msg_lease_expired :: "string \<Rightarrow> time \<Rightarrow> time \<Rightarrow> string" where
  "msg_lease_expired eid expires now = ''the lease for execution '' @ eid @ '' expired at '' @
     to_iso expires @ '' (now '' @ to_iso now @ ''); the work has been taken over''"

text \<open>\<open>_explain_refused_write\<close> always raises.\<close>

definition explain_refused_write ::
    "claim \<Rightarrow> time \<Rightarrow> string \<Rightarrow> bool \<Rightarrow> 'a jtx" where
  "explain_refused_write c now expected allow_cancelled = (\<lambda>s.
     case executions s (c_execution c) of
       None \<Rightarrow> Inl (state_error (msg_no_longer (c_execution c)))
     | Some row \<Rightarrow>
         if x_cancel_at row \<noteq> None \<and> \<not> allow_cancelled then
           Inl (state_error (msg_cancelled_while (c_execution c) (x_status row) expected))
         else (case leases s (c_execution c) of
           None \<Rightarrow> Inl (lease_error (msg_no_lease (c_execution c)) (c_execution c) (Some (c_fence c)))
         | Some l \<Rightarrow>
             if l_owner l \<noteq> c_owner c \<or> l_fence l \<noteq> c_fence c then
               Inl (lease_error (msg_owned_by (c_execution c) (l_owner l) (l_fence l) (c_fence c))
                      (c_execution c) (Some (c_fence c)))
             else
               Inl (lease_error (msg_lease_expired (c_execution c) (l_expires l) now)
                      (c_execution c) (Some (c_fence c)))))"

text \<open>\<open>_release_lease\<close>: mark the claim's lease as finished.\<close>

definition release_lease_row :: "claim \<Rightarrow> time \<Rightarrow> unit jtx" where
  "release_lease_row c now = modT (\<lambda>s.
     case leases s (c_execution c) of
       Some l \<Rightarrow>
         if l_owner l = c_owner c \<and> l_fence l = c_fence c
         then s\<lparr>leases := (leases s)(c_execution c \<mapsto> l\<lparr>l_expires := now\<rparr>)\<rparr> else s
     | None \<Rightarrow> s)"

section \<open>Guarded updates\<close>

text \<open>
  \<open>_set_execution_status\<close>: the source status is read from the journal, the transition checked
  against the table, and the update applied only under the lease guard and (unless allowed) with
  no cancellation request. \<open>extra\<close> is the rest of the \<open>SET\<close> clause.
\<close>

definition set_execution_status ::
    "claim \<Rightarrow> execution_status \<Rightarrow> time \<Rightarrow> (exec_row \<Rightarrow> exec_row) \<Rightarrow> bool \<Rightarrow> unit jtx" where
  "set_execution_status c target now extra allow_cancelled =
     bindT (execution_row (c_execution c)) (\<lambda>row.
     bindT (liftT (require_execution_transition (x_status row) target)) (\<lambda>_. \<lambda>s.
       if (allow_cancelled \<or> x_cancel_at row = None) \<and> lease_guard c now s
       then Inr ((), s\<lparr>executions := (executions s)(c_execution c \<mapsto>
                       extra (row\<lparr>x_status := target, x_updated := now\<rparr>))\<rparr>)
       else explain_refused_write c now (execution_value target) allow_cancelled s))"

text \<open>
  \<open>_set_step_state\<close>: as above for a step. The persisted state must be one of \<open>allowed\<close>; without
  such a set the only allowed source is the state just read.
\<close>

definition msg_step_transition :: "string \<Rightarrow> string" where
  "msg_step_transition sid = ''step '' @ py_repr sid @ '' transition''"

definition set_step_state ::
    "claim \<Rightarrow> string \<Rightarrow> step_state \<Rightarrow> time \<Rightarrow> (step_row \<Rightarrow> step_row) \<Rightarrow> step_state list option
      \<Rightarrow> unit jtx" where
  "set_step_state c sid target now extra allowed =
     bindT (get_step_row (c_execution c) sid) (\<lambda>row.
     bindT (liftT (require_step_transition (s_state row) target)) (\<lambda>_. \<lambda>s.
       if (case allowed of None \<Rightarrow> True | Some sts \<Rightarrow> s_state row \<in> set sts) \<and> lease_guard c now s
       then Inr ((), s\<lparr>steps := (steps s)((c_execution c, sid) \<mapsto>
                       extra (row\<lparr>s_state := target\<rparr>))\<rparr>)
       else explain_refused_write c now (msg_step_transition sid) False s))"

text \<open>
  The plain guarded update of an execution row (\<open>start_step\<close> and \<open>complete_step\<close>); the
  value tells whether the row count was 1.
\<close>

definition guarded_exec_update ::
    "claim \<Rightarrow> time \<Rightarrow> (exec_row \<Rightarrow> exec_row) \<Rightarrow> bool jtx" where
  "guarded_exec_update c now f = (\<lambda>s.
     case executions s (c_execution c) of
       Some row \<Rightarrow>
         if lease_guard c now s
         then Inr (True, s\<lparr>executions := (executions s)(c_execution c \<mapsto> f row)\<rparr>)
         else Inr (False, s)
     | None \<Rightarrow> Inr (False, s))"

definition delete_retry :: "string \<Rightarrow> unit jtx" where
  "delete_retry eid = modT (\<lambda>s. s\<lparr>retries := (retries s)(eid := None)\<rparr>)"

end
