(* ===== verification/Store.thy ===== *)
theory Store
  imports Journal_Db
begin

text \<open>
  \<open>JournalStore\<close> of \<open>durable/store.py\<close>: submission, claims, leases, step and execution
  transitions. Every operation is one transaction over the journal's tables: it reads \<open>now\<close> from
  the wall clock (a parameter here), and either raises, leaving the tables as they were, or
  commits. What an operation computes before it opens the transaction (the payload's JSON text,
  the deadline) comes first here too.
\<close>

section \<open>Definitions and submission\<close>

definition what_metadata :: "string \<Rightarrow> string" where
  "what_metadata w = ''metadata of workflow '' @ py_repr w"

definition what_input :: "string \<Rightarrow> string" where
  "what_input eid = ''input of execution '' @ eid"

definition what_output :: "string \<Rightarrow> string" where
  "what_output sid = ''output of step '' @ py_repr sid"

definition what_result :: "string \<Rightarrow> string" where
  "what_result eid = ''result of execution '' @ eid"

definition msg_registered :: "string \<Rightarrow> string \<Rightarrow> string" where
  "msg_registered w v = ''workflow '' @ py_repr w @ '' version '' @ py_repr v @
     '' is already registered with a different definition; a definition cannot be changed '' @
     ''in place, because persisted executions resume against the version they saw''"

definition register_definition :: "store_env \<Rightarrow> time \<Rightarrow> 'b workflow \<Rightarrow> string jtx" where
  "register_definition env now w =
     bindT (liftT (validate (classes env) w)) (\<lambda>_.
     bindT (liftT (dump (metadata_value (w_metadata w)) (max_payload_bytes env) (what_metadata (w_name w))))
       (\<lambda>meta. \<lambda>s.
     let key = (w_name w, w_version w); fp = definition_fingerprint env w in
     case definitions s key of
       Some row \<Rightarrow>
         if d_fingerprint row \<noteq> fp
         then Inl (raised ''DurableVersionError'' (msg_registered (w_name w) (w_version w)))
         else Inr (fp, s)
     | None \<Rightarrow>
         Inr (fp, s\<lparr>definitions := (definitions s)(key \<mapsto>
           \<lparr>d_fingerprint = fp, d_metadata = meta, d_registered = now\<rparr>)\<rparr>)))"

definition new_execution ::
    "store_env \<Rightarrow> time \<Rightarrow> 'b workflow \<Rightarrow> string \<Rightarrow> time option \<Rightarrow> exec_row" where
  "new_execution env now w payload deadline =
     \<lparr>x_workflow = w_name w, x_version = w_version w, x_fingerprint = definition_fingerprint env w,
      x_status = X_PENDING, x_input = payload, x_result = None, x_failure_kind = None,
      x_failure_message = None, x_current = None, x_attempts = 0, x_submitted = now,
      x_updated = now, x_deadline = deadline, x_cancel_at = None, x_cancel_reason = None\<rparr>"

definition new_step :: step_row where
  "new_step = \<lparr>s_state = S_PENDING, s_detail = None, s_attempts = 0, s_output = None,
     s_error_type = None, s_error_message = None, s_started = None, s_finished = None,
     s_key = None\<rparr>"

definition insert_step :: "string \<Rightarrow> string \<Rightarrow> db \<Rightarrow> db" where
  "insert_step eid sid s =
     s\<lparr>steps := (steps s)((eid, sid) \<mapsto> new_step), step_order := step_order s @ [(eid, sid)]\<rparr>"

definition insert_execution :: "string \<Rightarrow> exec_row \<Rightarrow> db \<Rightarrow> db" where
  "insert_execution eid row s =
     s\<lparr>executions := (executions s)(eid \<mapsto> row), exec_order := exec_order s @ [eid]\<rparr>"

definition submitted_detail :: "nat \<Rightarrow> string option \<Rightarrow> string" where
  "submitted_detail n key = ''steps='' @ dec_nat n @
     (case key of None \<Rightarrow> '''' | Some k \<Rightarrow> '' key='' @ k)"

definition msg_different_work :: "string \<Rightarrow> string" where
  "msg_different_work eid = ''execution '' @ eid @
     '' already exists with different work; use a new execution id''"

text \<open>
  The transaction of \<open>submit\<close>. An id that exists with the same workflow, version, fingerprint and
  input is answered with the persisted status; with anything else it is a conflict.
\<close>

definition submit_tx ::
    "store_env \<Rightarrow> time \<Rightarrow> 'b workflow \<Rightarrow> string \<Rightarrow> string \<Rightarrow> time option \<Rightarrow> string option \<Rightarrow>
      execution_handle jtx" where
  "submit_tx env now w eid payload deadline key = (\<lambda>s. case executions s eid of
     Some row \<Rightarrow>
       if x_workflow row = w_name w \<and> x_version row = w_version w \<and>
          x_fingerprint row = definition_fingerprint env w \<and> x_input row = payload
       then Inr (\<lparr>h_execution_id = eid, h_workflow = x_workflow row, h_version = x_version row,
                  h_status = x_status row\<rparr>, s)
       else Inl (raised ''DurableConflictError'' (msg_different_work eid))
   | None \<Rightarrow>
       seqT (modT (insert_execution eid (new_execution env now w payload deadline)))
      (seqT (modT (fold (insert_step eid) (step_ids w)))
      (seqT (append_event eid E_SUBMITTED now None None
               (Some (submitted_detail (length (w_steps w)) key)))
      (retT \<lparr>h_execution_id = eid, h_workflow = w_name w, h_version = w_version w,
             h_status = X_PENDING\<rparr>))) s)"

text \<open>
  \<open>submit\<close>: \<open>fresh\<close> is the \<open>uuid4().hex\<close> used when no identifier (or the empty one) is given. The
  definition is registered in a transaction of its own, so it stays registered when the rest is
  refused: \<open>submit\<close> returns the outcome with the state it leaves behind.
\<close>

definition submit ::
    "store_env \<Rightarrow> time \<Rightarrow> string \<Rightarrow> 'b workflow \<Rightarrow> pyval \<Rightarrow> real option \<Rightarrow> string option \<Rightarrow>
      string option \<Rightarrow> db \<Rightarrow> (exn + execution_handle) \<times> db" where
  "submit env now fresh w inp timeout eid key s =
     (if given (\<lambda>t. t \<le> 0) timeout
      then (Inl (state_error ''timeout must be greater than zero''), s)
      else let identifier = (case eid of None \<Rightarrow> fresh | Some e \<Rightarrow> if e = '''' then fresh else e) in
      case register_definition env now w s of
        Inl e \<Rightarrow> (Inl e, s)
      | Inr (_, s1) \<Rightarrow>
          (case dump inp (max_payload_bytes env) (what_input identifier) of
             Inl e \<Rightarrow> (Inl e, s1)
           | Inr payload \<Rightarrow>
               if given blank key
               then (Inl (state_error ''submission_key must not be blank''), s1)
               else (case submit_tx env now w identifier payload
                            (map_option (\<lambda>t. now + timedelta t) timeout) key s1 of
                       Inl e \<Rightarrow> (Inl e, s1)
                     | Inr (h, s2) \<Rightarrow> (Inr h, s2))))"

section \<open>Claims and leases\<close>

fun oldest_by :: "('a \<Rightarrow> int) \<Rightarrow> 'a list \<Rightarrow> 'a option" where
  "oldest_by f [] = None"
| "oldest_by f (x # xs) =
     (case oldest_by f xs of None \<Rightarrow> Some x | Some y \<Rightarrow> if f x \<le> f y then Some x else Some y)"

definition retry_due :: "db \<Rightarrow> time \<Rightarrow> string \<Rightarrow> bool" where
  "retry_due s now eid = (case retries s eid of None \<Rightarrow> True | Some r \<Rightarrow> y_due r \<le> now)"

definition lease_free :: "db \<Rightarrow> time \<Rightarrow> string \<Rightarrow> bool" where
  "lease_free s now eid = (case leases s eid of None \<Rightarrow> True | Some l \<Rightarrow> l_expires l \<le> now)"

text \<open>The \<open>WHERE\<close> clause of the candidate query.\<close>

definition claimable_row :: "db \<Rightarrow> time \<Rightarrow> string \<Rightarrow> exec_row \<Rightarrow> bool" where
  "claimable_row s now eid row \<longleftrightarrow>
     (x_cancel_at row = None \<or> x_status row = X_RUNNING) \<and>
     (case x_deadline row of None \<Rightarrow> True | Some d \<Rightarrow> now < d) \<and>
     (x_status row \<in> set claimable_execution_states \<and> retry_due s now eid \<or>
      x_status row = X_RUNNING \<and> lease_free s now eid)"

definition claimable :: "db \<Rightarrow> time \<Rightarrow> string \<Rightarrow> bool" where
  "claimable s now eid =
     (case executions s eid of None \<Rightarrow> False | Some row \<Rightarrow> claimable_row s now eid row)"

definition submitted_at :: "db \<Rightarrow> string \<Rightarrow> time" where
  "submitted_at s eid = (case executions s eid of None \<Rightarrow> 0 | Some row \<Rightarrow> x_submitted row)"

text \<open>
  \<open>ORDER BY submitted_at LIMIT 1\<close>. SQL leaves open which of two rows with the same time comes
  first; the model takes the one inserted first.
\<close>

definition candidate :: "db \<Rightarrow> time \<Rightarrow> string option" where
  "candidate s now = oldest_by (submitted_at s) (filter (claimable s now) (exec_order s))"

text \<open>The \<open>WHERE\<close> clause of the claiming update.\<close>

definition claim_guard :: "db \<Rightarrow> time \<Rightarrow> string \<Rightarrow> exec_row \<Rightarrow> bool" where
  "claim_guard s now eid row \<longleftrightarrow>
     x_status row \<in> {X_PENDING, X_RETRYING, X_RUNNING} \<and>
     (x_cancel_at row = None \<or> x_status row = X_RUNNING) \<and>
     (x_status row \<in> {X_PENDING, X_RETRYING} \<or> lease_free s now eid)"

definition upsert_lease :: "string \<Rightarrow> string \<Rightarrow> time \<Rightarrow> time \<Rightarrow> db \<Rightarrow> db" where
  "upsert_lease eid owner now expires s =
     s\<lparr>leases := (leases s)(eid \<mapsto>
       \<lparr>l_owner = owner,
        l_fence = (case leases s eid of None \<Rightarrow> 1 | Some l \<Rightarrow> l_fence l + 1),
        l_acquired = now, l_heartbeat = now, l_expires = expires\<rparr>)\<rparr>"

definition read_claim :: "string \<Rightarrow> string \<Rightarrow> claim jtx" where
  "read_claim eid owner = (\<lambda>s. case leases s eid of
     None \<Rightarrow> Inl (lease_error (''execution '' @ eid @ '' lost its lease during the claim'') eid None)
   | Some l \<Rightarrow>
       bindT (execution_row eid) (\<lambda>row.
       bindT (liftT (load (Some (x_input row)))) (\<lambda>inp.
       retT \<lparr>c_execution = eid, c_owner = owner, c_fence = l_fence l,
             c_workflow = x_workflow row, c_version = x_version row,
             c_fingerprint = x_fingerprint row, c_input = inp, c_status = x_status row,
             c_expires = l_expires l, c_deadline = x_deadline row,
             c_cancel = (x_cancel_at row \<noteq> None)\<rparr>)) s)"

definition claimed_detail :: "string \<Rightarrow> int \<Rightarrow> string" where
  "claimed_detail owner fence = ''owner='' @ owner @ '' fence='' @ dec_int fence"

definition claim_execution :: "string \<Rightarrow> string \<Rightarrow> time \<Rightarrow> time \<Rightarrow> claim option jtx" where
  "claim_execution eid owner now expires = (\<lambda>s. case executions s eid of
     None \<Rightarrow> Inr (None, s)
   | Some row \<Rightarrow>
       if \<not> claim_guard s now eid row then Inr (None, s)
       else
         seqT (modT (\<lambda>s. s\<lparr>executions := (executions s)(eid \<mapsto>
                 row\<lparr>x_status := X_RUNNING, x_updated := now\<rparr>)\<rparr>))
        (seqT (modT (upsert_lease eid owner now expires))
        (seqT (delete_retry eid)
        (bindT (read_claim eid owner) (\<lambda>c.
         seqT (append_event eid E_CLAIMED now None None
                 (Some (claimed_detail owner (c_fence c))))
              (retT (Some c)))))) s)"

definition claim_next :: "store_env \<Rightarrow> time \<Rightarrow> string \<Rightarrow> real option \<Rightarrow> claim option jtx" where
  "claim_next env now owner ttl =
     (if blank owner
      then failT (state_error ''a worker claims work under a non-empty owner name'')
      else
        let expires = now + timedelta (case ttl of None \<Rightarrow> lease_ttl_seconds env | Some t \<Rightarrow> t) in
        (\<lambda>s. case candidate s now of
           None \<Rightarrow> Inr (None, s)
         | Some eid \<Rightarrow> claim_execution eid owner now expires s))"

text \<open>The conditional update of a lease row that \<open>renew_lease\<close> and \<open>release_lease\<close> share.\<close>

definition update_own_lease ::
    "claim \<Rightarrow> time \<Rightarrow> string \<Rightarrow> (lease_row \<Rightarrow> lease_row) \<Rightarrow> unit jtx" where
  "update_own_lease c now expected f = (\<lambda>s. case leases s (c_execution c) of
     Some l \<Rightarrow>
       if l_owner l = c_owner c \<and> l_fence l = c_fence c \<and> now < l_expires l
       then Inr ((), s\<lparr>leases := (leases s)(c_execution c \<mapsto> f l)\<rparr>)
       else explain_refused_write c now expected False s
   | None \<Rightarrow> explain_refused_write c now expected False s)"

definition renew_lease :: "store_env \<Rightarrow> time \<Rightarrow> claim \<Rightarrow> real option \<Rightarrow> claim jtx" where
  "renew_lease env now c ttl =
     (let expires = now + timedelta (case ttl of None \<Rightarrow> lease_ttl_seconds env | Some t \<Rightarrow> t) in
      seqT (update_own_lease c now ''lease renewal''
              (\<lambda>l. l\<lparr>l_expires := expires, l_heartbeat := now\<rparr>))
     (seqT (append_event (c_execution c) E_LEASE_RENEWED now None None None)
     (retT (c\<lparr>c_expires := expires\<rparr>))))"

definition release_lease :: "time \<Rightarrow> claim \<Rightarrow> unit jtx" where
  "release_lease now c = update_own_lease c now ''lease release'' (\<lambda>l. l\<lparr>l_expires := now\<rparr>)"

definition msg_deadline :: string where
  "msg_deadline = ''the execution deadline passed before it completed''"

definition overdue :: "time \<Rightarrow> exec_row \<Rightarrow> bool" where
  "overdue now row \<longleftrightarrow> \<not> execution_is_terminal (x_status row) \<and>
     (case x_deadline row of None \<Rightarrow> False | Some d \<Rightarrow> d \<le> now)"

definition expire_one :: "time \<Rightarrow> string \<Rightarrow> unit jtx" where
  "expire_one now eid =
     seqT (modT (\<lambda>s. case executions s eid of
             Some row \<Rightarrow>
               if \<not> execution_is_terminal (x_status row)
               then s\<lparr>executions := (executions s)(eid \<mapsto> row\<lparr>x_status := X_TIMED_OUT,
                      x_failure_kind := Some FK_TIMED_OUT, x_failure_message := Some msg_deadline,
                      x_current := None, x_updated := now\<rparr>)\<rparr>
               else s
           | None \<Rightarrow> s))
    (seqT (delete_retry eid)
    (append_event eid E_TIMED_OUT now None None (Some msg_deadline)))"

fun expire_each :: "time \<Rightarrow> string list \<Rightarrow> unit jtx" where
  "expire_each now [] = retT ()"
| "expire_each now (eid # eids) = seqT (expire_one now eid) (expire_each now eids)"

definition overdue_ids :: "time \<Rightarrow> db \<Rightarrow> string list" where
  "overdue_ids now s = filter (\<lambda>eid. case executions s eid of
     None \<Rightarrow> False | Some row \<Rightarrow> overdue now row) (exec_order s)"

definition expire_deadlines :: "time \<Rightarrow> string list jtx" where
  "expire_deadlines now =
     bindT (getT (overdue_ids now)) (\<lambda>eids. seqT (expire_each now eids) (retT eids))"

section \<open>Steps\<close>

definition msg_start_of :: "string \<Rightarrow> string" where
  "msg_start_of sid = ''start of step '' @ py_repr sid"

definition start_step :: "time \<Rightarrow> claim \<Rightarrow> string \<Rightarrow> string option \<Rightarrow> int jtx" where
  "start_step now c sid key =
     bindT (get_step_row (c_execution c) sid) (\<lambda>row.
       let attempt = s_attempts row + 1 in
       seqT (set_step_state c sid S_RUNNING now
               (\<lambda>r. r\<lparr>s_attempts := attempt, s_started := Some now, s_finished := None,
                      s_key := key\<rparr>)
               (Some [S_PENDING, S_RUNNING]))
      (bindT (guarded_exec_update c now (\<lambda>x. x\<lparr>x_current := Some sid,
                x_attempts := x_attempts x + 1, x_updated := now\<rparr>)) (\<lambda>updated.
       seqT (if updated then retT () else explain_refused_write c now (msg_start_of sid) False)
      (seqT (append_event (c_execution c) E_STEP_STARTED now (Some sid) (Some attempt) None)
      (retT attempt)))))"

definition complete_step ::
    "store_env \<Rightarrow> time \<Rightarrow> claim \<Rightarrow> string \<Rightarrow> pyval \<Rightarrow> unit jtx" where
  "complete_step env now c sid out =
     bindT (liftT (dump out (max_payload_bytes env) (what_output sid))) (\<lambda>payload.
     bindT (get_step_row (c_execution c) sid) (\<lambda>row.
       seqT (set_step_state c sid S_SUCCEEDED now
               (\<lambda>r. r\<lparr>s_output := Some payload, s_finished := Some now, s_error_type := None,
                      s_error_message := None, s_detail := None\<rparr>) None)
      (seqT (guarded_exec_update c now (\<lambda>x. x\<lparr>x_current := None, x_updated := now\<rparr>))
      (append_event (c_execution c) E_STEP_SUCCEEDED now (Some sid)
         (Some (s_attempts row + 1)) None))))"

definition yield_execution :: "time \<Rightarrow> claim \<Rightarrow> string \<Rightarrow> unit jtx" where
  "yield_execution now c reason =
     seqT (set_execution_status c X_PENDING now (\<lambda>x. x\<lparr>x_current := None\<rparr>) False)
    (seqT (release_lease_row c now)
    (append_event (c_execution c) E_YIELDED now None None (Some reason)))"

definition skip_step :: "time \<Rightarrow> claim \<Rightarrow> string \<Rightarrow> string \<Rightarrow> unit jtx" where
  "skip_step now c sid reason =
     seqT (set_step_state c sid S_SKIPPED now
             (\<lambda>r. r\<lparr>s_finished := Some now, s_detail := Some reason\<rparr>) None)
    (append_event (c_execution c) E_STEP_SKIPPED now (Some sid) None (Some reason))"

definition time_out_execution :: "time \<Rightarrow> claim \<Rightarrow> string \<Rightarrow> step_state jtx" where
  "time_out_execution now c msg =
     seqT (set_execution_status c X_TIMED_OUT now
             (\<lambda>x. x\<lparr>x_failure_kind := Some FK_TIMED_OUT, x_failure_message := Some msg,
                    x_current := None\<rparr>) False)
    (seqT (append_event (c_execution c) E_TIMED_OUT now None None (Some msg))
    (retT S_FAILED))"

definition failed_attempt ::
    "time \<Rightarrow> string \<Rightarrow> string \<Rightarrow> string option \<Rightarrow> step_row \<Rightarrow> step_row" where
  "failed_attempt now etype emsg reason r = r\<lparr>s_finished := Some now, s_error_type := Some etype,
     s_error_message := Some emsg, s_detail := reason\<rparr>"

definition upsert_retry :: "string \<Rightarrow> retry_row \<Rightarrow> unit jtx" where
  "upsert_retry eid r = modT (\<lambda>s. s\<lparr>retries := (retries s)(eid \<mapsto> r)\<rparr>)"

definition msg_step_failed :: "string \<Rightarrow> string \<Rightarrow> string" where
  "msg_step_failed sid etype = ''step '' @ py_repr sid @ '' failed: '' @ etype"

definition msg_failed_late :: "string \<Rightarrow> string" where
  "msg_failed_late sid = ''step '' @ py_repr sid @ '' failed with the deadline reached''"

text \<open>A retry at or after the deadline times the execution out instead.\<close>

definition deadline_reached :: "time \<Rightarrow> time option \<Rightarrow> time option \<Rightarrow> bool" where
  "deadline_reached now deadline retry_at = (case deadline of
     None \<Rightarrow> False
   | Some d \<Rightarrow> d \<le> now \<or> (case retry_at of None \<Rightarrow> False | Some r \<Rightarrow> d \<le> r))"

definition fail_for_good ::
    "time \<Rightarrow> claim \<Rightarrow> string \<Rightarrow> string \<Rightarrow> string \<Rightarrow> string option \<Rightarrow> int \<Rightarrow> step_state jtx" where
  "fail_for_good now c sid etype emsg reason attempt =
     seqT (set_step_state c sid S_FAILED now (failed_attempt now etype emsg reason) None)
    (seqT (set_execution_status c X_FAILED now
             (\<lambda>x. x\<lparr>x_failure_kind := Some FK_STEP_FAILED,
                    x_failure_message := Some (msg_step_failed sid etype), x_current := None\<rparr>)
             False)
    (seqT (append_event (c_execution c) E_STEP_FAILED now (Some sid) (Some attempt) (Some etype))
    (seqT (append_event (c_execution c) E_FAILED now (Some sid) None
             (Some (''step_failed: '' @ etype)))
    (retT S_FAILED))))"

definition fail_and_retry ::
    "time \<Rightarrow> claim \<Rightarrow> string \<Rightarrow> string \<Rightarrow> string \<Rightarrow> string option \<Rightarrow> int \<Rightarrow> time \<Rightarrow> step_state jtx" where
  "fail_and_retry now c sid etype emsg reason attempt due =
     seqT (set_step_state c sid S_PENDING now (failed_attempt now etype emsg reason) None)
    (seqT (upsert_retry (c_execution c) \<lparr>y_step = sid, y_attempt = attempt + 1, y_due = due,
             y_error_type = Some etype, y_reason = reason\<rparr>)
    (seqT (set_execution_status c X_RETRYING now (\<lambda>x. x\<lparr>x_current := None\<rparr>) False)
    (seqT (append_event (c_execution c) E_STEP_FAILED now (Some sid) (Some attempt) (Some etype))
    (seqT (release_lease_row c now)
    (seqT (append_event (c_execution c) E_RETRY_SCHEDULED now (Some sid) (Some (attempt + 1))
             (Some (''due='' @ to_iso due)))
    (retT S_PENDING))))))"

definition fail_step ::
    "time \<Rightarrow> claim \<Rightarrow> string \<Rightarrow> string \<Rightarrow> string \<Rightarrow> time option \<Rightarrow> string option \<Rightarrow> step_state jtx" where
  "fail_step now c sid etype emsg retry_at reason =
     (if deadline_reached now (c_deadline c) retry_at
      then time_out_execution now c (msg_failed_late sid)
      else bindT (get_step_row (c_execution c) sid) (\<lambda>row. case retry_at of
             None \<Rightarrow> fail_for_good now c sid etype emsg reason (s_attempts row)
           | Some due \<Rightarrow> fail_and_retry now c sid etype emsg reason (s_attempts row) due))"

definition mark_step_outcome_unknown :: "time \<Rightarrow> claim \<Rightarrow> string \<Rightarrow> string \<Rightarrow> unit jtx" where
  "mark_step_outcome_unknown now c sid reason =
     bindT (get_step_row (c_execution c) sid) (\<lambda>row.
       seqT (set_step_state c sid S_OUTCOME_UNKNOWN now (\<lambda>r. r\<lparr>s_detail := Some reason\<rparr>) None)
      (seqT (set_execution_status c X_WAITING now (\<lambda>x. x\<lparr>x_current := None\<rparr>) False)
      (seqT (append_event (c_execution c) E_STEP_OUTCOME_UNKNOWN now (Some sid)
               (Some (s_attempts row)) (Some reason))
      (append_event (c_execution c) E_WAITING now (Some sid) None (Some ''outcome_unknown'')))))"

definition resolved_detail :: "step_state \<Rightarrow> string option \<Rightarrow> string" where
  "resolved_detail st det = ''resolved '' @ step_value st @
     (case det of None \<Rightarrow> '''' | Some d \<Rightarrow> '': '' @ d)"

definition resolve_step ::
    "store_env \<Rightarrow> time \<Rightarrow> claim \<Rightarrow> string \<Rightarrow> step_state \<Rightarrow> pyval \<Rightarrow> string option \<Rightarrow> unit jtx" where
  "resolve_step env now c sid st out det =
     bindT (if st = S_SUCCEEDED
            then bindT (liftT (dump out (max_payload_bytes env) (what_output sid)))
                   (\<lambda>p. retT (Some p))
            else retT None) (\<lambda>payload.
       seqT (set_step_state c sid st now
               (\<lambda>r. r\<lparr>s_output := payload, s_finished := Some now, s_detail := det\<rparr>) None)
      (seqT (set_execution_status c X_PENDING now (\<lambda>x. x\<lparr>x_current := None\<rparr>) False)
      (seqT (release_lease_row c now)
      (append_event (c_execution c) E_RECOVERED now (Some sid) None
         (Some (resolved_detail st det))))))"

section \<open>Terminal states and cancellation\<close>

definition complete_execution :: "store_env \<Rightarrow> time \<Rightarrow> claim \<Rightarrow> pyval \<Rightarrow> unit jtx" where
  "complete_execution env now c outs =
     bindT (liftT (dump outs (max_payload_bytes env) (what_result (c_execution c)))) (\<lambda>payload.
       seqT (set_execution_status c X_COMPLETED now
               (\<lambda>x. x\<lparr>x_result := Some payload, x_current := None\<rparr>) False)
      (append_event (c_execution c) E_COMPLETED now None None None))"

definition fail_execution :: "time \<Rightarrow> claim \<Rightarrow> failure_kind \<Rightarrow> string \<Rightarrow> unit jtx" where
  "fail_execution now c kind msg =
     seqT (set_execution_status c X_FAILED now
             (\<lambda>x. x\<lparr>x_failure_kind := Some kind, x_failure_message := Some msg,
                    x_current := None\<rparr>) False)
    (append_event (c_execution c) E_FAILED now None None
       (Some (failure_value kind @ '': '' @ msg)))"

definition cancel_message :: "string option \<Rightarrow> string" where
  "cancel_message reason = (case reason of
     Some r \<Rightarrow> if r = '''' then ''cancellation was requested'' else r
   | None \<Rightarrow> ''cancellation was requested'')"

text \<open>\<open>_finish_cancelled\<close>\<close>

definition finish_cancelled :: "string \<Rightarrow> time \<Rightarrow> string option \<Rightarrow> unit jtx" where
  "finish_cancelled eid now reason =
     bindT (execution_row eid) (\<lambda>row.
       if execution_is_terminal (x_status row) then retT ()
       else
         bindT (liftT (require_execution_transition (x_status row) X_CANCELLED)) (\<lambda>_.
         seqT (modT (\<lambda>s. s\<lparr>executions := (executions s)(eid \<mapsto>
                 row\<lparr>x_status := X_CANCELLED, x_failure_kind := Some FK_CANCELLED,
                     x_failure_message := Some (cancel_message reason), x_current := None,
                     x_updated := now,
                     x_cancel_at := (case x_cancel_at row of None \<Rightarrow> Some now | Some t \<Rightarrow> Some t)\<rparr>)\<rparr>))
        (seqT (delete_retry eid)
        (append_event eid E_CANCELLED now None None reason))))"

text \<open>The transaction of \<open>request_cancellation\<close>, which then inspects the execution.\<close>

definition record_request :: "string \<Rightarrow> time \<Rightarrow> string option \<Rightarrow> exec_row \<Rightarrow> unit jtx" where
  "record_request eid now reason row =
     (if x_cancel_at row = None
      then seqT (modT (\<lambda>s. s\<lparr>executions := (executions s)(eid \<mapsto>
                   row\<lparr>x_cancel_at := Some now, x_cancel_reason := reason, x_updated := now\<rparr>)\<rparr>))
                (append_event eid E_CANCELLATION_REQUESTED now None None reason)
      else retT ())"

definition request_cancellation_tx :: "time \<Rightarrow> string \<Rightarrow> string option \<Rightarrow> unit jtx" where
  "request_cancellation_tx now eid reason =
     bindT (execution_row eid) (\<lambda>row.
       if execution_is_terminal (x_status row) then retT ()
       else
         seqT (record_request eid now reason row)
        (bindT (getT (\<lambda>s. lease_free s now eid)) (\<lambda>free.
         if free then finish_cancelled eid now reason else retT ())))"

definition record_acknowledged :: "string \<Rightarrow> time \<Rightarrow> string option \<Rightarrow> exec_row \<Rightarrow> unit jtx" where
  "record_acknowledged eid now reason row =
     (if x_cancel_at row = None
      then seqT (modT (\<lambda>s. s\<lparr>executions := (executions s)(eid \<mapsto>
                   row\<lparr>x_cancel_at := Some now, x_cancel_reason := reason\<rparr>)\<rparr>))
                (append_event eid E_CANCELLATION_REQUESTED now None None reason)
      else retT ())"

definition cancel_owned :: "time \<Rightarrow> claim \<Rightarrow> string option \<Rightarrow> unit jtx" where
  "cancel_owned now c reason =
     seqT (set_execution_status c X_CANCELLED now
             (\<lambda>x. x\<lparr>x_failure_kind := Some FK_CANCELLED,
                    x_failure_message := Some (cancel_message reason), x_current := None\<rparr>) True)
    (seqT (delete_retry (c_execution c))
    (append_event (c_execution c) E_CANCELLED now None None reason))"

definition acknowledge_cancellation :: "time \<Rightarrow> claim \<Rightarrow> string option \<Rightarrow> unit jtx" where
  "acknowledge_cancellation now c reason = (\<lambda>s. case executions s (c_execution c) of
     None \<Rightarrow> Inl (state_error (msg_no_longer (c_execution c)))
   | Some row \<Rightarrow>
       seqT (record_acknowledged (c_execution c) now reason row) (cancel_owned now c reason) s)"

section \<open>Parking\<close>

definition mark_waiting :: "time \<Rightarrow> claim \<Rightarrow> string \<Rightarrow> unit jtx" where
  "mark_waiting now c reason =
     seqT (set_execution_status c X_WAITING now (\<lambda>x. x\<lparr>x_current := None\<rparr>) False)
    (append_event (c_execution c) E_WAITING now None None (Some reason))"

definition msg_not_waiting :: "string \<Rightarrow> execution_status \<Rightarrow> string" where
  "msg_not_waiting eid st = ''execution '' @ eid @ '' is '' @ py_repr (execution_value st) @
     '', not waiting; only a parked execution can be resumed''"

definition resumed_detail :: "string option \<Rightarrow> string" where
  "resumed_detail reason = (case reason of
     Some r \<Rightarrow> if r = '''' then ''resumed'' else ''resumed: '' @ r
   | None \<Rightarrow> ''resumed'')"

definition resume_waiting :: "time \<Rightarrow> string \<Rightarrow> string option \<Rightarrow> unit jtx" where
  "resume_waiting now eid reason =
     bindT (execution_row eid) (\<lambda>row.
       if x_status row \<noteq> X_WAITING
       then failT (state_error (msg_not_waiting eid (x_status row)))
       else
         seqT (modT (\<lambda>s. s\<lparr>executions := (executions s)(eid \<mapsto>
                 row\<lparr>x_status := X_PENDING, x_updated := now\<rparr>)\<rparr>))
        (append_event eid E_RECOVERED now None None (Some (resumed_detail reason))))"

end
