(* ===== verification/Store_Inspect.thy ===== *)
theory Store_Inspect
  imports Store
begin

text \<open>
  The reading half of \<open>JournalStore\<close>: what the scheduler reads of an execution (step states,
  outputs, interrupted steps) and what operators read (views, lists, counters). A read opens a
  transaction of its own and writes nothing.
\<close>

type_synonym 'a jread = "db \<Rightarrow> exn + 'a"

section \<open>What scheduling decisions read\<close>

definition own_steps :: "string \<Rightarrow> db \<Rightarrow> (string \<times> step_row) list" where
  "own_steps eid s = List.map_filter
     (\<lambda>(e, sid). if e = eid then map_option (\<lambda>r. (sid, r)) (steps s (e, sid)) else None)
     (step_order s)"

definition step_states :: "string \<Rightarrow> db \<Rightarrow> (string \<times> step_state) list" where
  "step_states eid s = map (\<lambda>(sid, r). (sid, s_state r)) (own_steps eid s)"

definition running_steps :: "string \<Rightarrow> db \<Rightarrow> string list" where
  "running_steps eid s = map fst (filter (\<lambda>(sid, r). s_state r = S_RUNNING) (own_steps eid s))"

fun load_outputs :: "(string \<times> step_row) list \<Rightarrow> exn + (string \<times> pyval) list" where
  "load_outputs [] = Inr []"
| "load_outputs ((sid, r) # rs) =
     bindR (load (s_output r)) (\<lambda>v. bindR (load_outputs rs) (\<lambda>vs. Inr ((sid, v) # vs)))"

definition completed_outputs :: "string \<Rightarrow> (string \<times> pyval) list jread" where
  "completed_outputs eid s =
     load_outputs (filter (\<lambda>(sid, r). s_state r = S_SUCCEEDED) (own_steps eid s))"

definition cancellation_requested :: "string \<Rightarrow> bool jread" where
  "cancellation_requested eid s = (case executions s eid of
     None \<Rightarrow> Inl (state_error (msg_no_longer eid))
   | Some row \<Rightarrow> Inr (x_cancel_at row \<noteq> None))"

definition step_output :: "string \<Rightarrow> string \<Rightarrow> pyval jread" where
  "step_output eid sid s =
     bindR (get_step_row eid sid s) (\<lambda>(row, _). load (s_output row))"

section \<open>Views\<close>

definition view_of_step :: "string \<Rightarrow> step_row \<Rightarrow> exn + step_view" where
  "view_of_step sid r = bindR (load (s_output r)) (\<lambda>out. Inr
     \<lparr>sv_step = sid, sv_state = s_state r, sv_attempts = s_attempts r, sv_output = out,
      sv_error_type = s_error_type r, sv_error_message = s_error_message r,
      sv_detail = s_detail r, sv_started = s_started r, sv_finished = s_finished r,
      sv_key = s_key r\<rparr>)"

definition view_of_event :: "event_row \<Rightarrow> event_view" where
  "view_of_event v = \<lparr>ev_sequence = v_id v, ev_kind = v_kind v, ev_at = v_at v, ev_step = v_step v,
     ev_attempt = v_attempt v, ev_detail = v_detail v\<rparr>"

definition own_events :: "string \<Rightarrow> db \<Rightarrow> event_row list" where
  "own_events eid s = filter (\<lambda>v. v_execution v = eid) (events s)"

fun view_steps :: "(string \<times> step_row) list \<Rightarrow> exn + step_view list" where
  "view_steps [] = Inr []"
| "view_steps ((sid, r) # rs) =
     bindR (view_of_step sid r) (\<lambda>v. bindR (view_steps rs) (\<lambda>vs. Inr (v # vs)))"

definition inspect :: "string \<Rightarrow> execution_view jread" where
  "inspect eid s =
     bindR (execution_row eid s) (\<lambda>(row, _).
     bindR (load (Some (x_input row))) (\<lambda>inp.
     bindR (load (x_result row)) (\<lambda>res.
     bindR (view_steps (own_steps eid s)) (\<lambda>svs. Inr
       \<lparr>xv_execution = eid, xv_workflow = x_workflow row, xv_version = x_version row,
        xv_fingerprint = x_fingerprint row, xv_status = x_status row, xv_input = inp,
        xv_submitted = x_submitted row, xv_updated = x_updated row, xv_deadline = x_deadline row,
        xv_current = x_current row, xv_result = res, xv_failure_kind = x_failure_kind row,
        xv_failure_message = x_failure_message row, xv_cancel_at = x_cancel_at row,
        xv_steps = svs, xv_events = map view_of_event (own_events eid s),
        xv_retry_due = map_option y_due (retries s eid)\<rparr>))))"

text \<open>\<open>request_cancellation\<close>: the transaction, then a read of what it left.\<close>

definition request_cancellation ::
    "time \<Rightarrow> string \<Rightarrow> string option \<Rightarrow> db \<Rightarrow> (exn + execution_view) \<times> db" where
  "request_cancellation now eid reason s =
     (case request_cancellation_tx now eid reason s of
        Inl e \<Rightarrow> (Inl e, s)
      | Inr (_, t) \<Rightarrow> (inspect eid t, t))"

section \<open>Lists and counters\<close>

definition rows :: "db \<Rightarrow> (string \<times> exec_row) list" where
  "rows s = List.map_filter (\<lambda>eid. map_option (\<lambda>r. (eid, r)) (executions s eid)) (exec_order s)"

text \<open>\<open>ORDER BY submitted_at, execution_id\<close>, by a stable sort on each key in turn.\<close>

definition by_age :: "(string \<times> exec_row) list \<Rightarrow> string list" where
  "by_age rs = map fst (sort_key (\<lambda>(eid, r). x_submitted r) (sort_key fst rs))"

fun inspect_all :: "string list \<Rightarrow> execution_view list jread" where
  "inspect_all [] s = Inr []"
| "inspect_all (eid # eids) s =
     bindR (inspect eid s) (\<lambda>v. bindR (inspect_all eids s) (\<lambda>vs. Inr (v # vs)))"

definition list_executions :: "execution_status option \<Rightarrow> int \<Rightarrow> execution_view list jread" where
  "list_executions status limit s =
     (if limit \<le> 0 then Inl (state_error ''limit must be greater than zero'')
      else inspect_all (take (nat limit) (rev (by_age
             (filter (\<lambda>(eid, r). case status of None \<Rightarrow> True | Some st \<Rightarrow> x_status r = st) (rows s))))) s)"

definition oldest_non_terminal :: "execution_view option jread" where
  "oldest_non_terminal s =
     (case by_age (filter (\<lambda>(eid, r). \<not> execution_is_terminal (x_status r)) (rows s)) of
        [] \<Rightarrow> Inr None
      | eid # _ \<Rightarrow> bindR (inspect eid s) (\<lambda>v. Inr (Some v)))"

text \<open>\<open>expired_leases\<close>: running executions whose lease ran out, oldest expiry first.\<close>

definition running_leases :: "db \<Rightarrow> (string \<times> lease_row) list" where
  "running_leases s = List.map_filter
     (\<lambda>(eid, r). if x_status r = X_RUNNING then map_option (\<lambda>l. (eid, l)) (leases s eid) else None)
     (rows s)"

definition expired_leases :: "time \<Rightarrow> db \<Rightarrow> string list" where
  "expired_leases now s =
     map fst (sort_key (\<lambda>(eid, l). l_expires l)
       (filter (\<lambda>(eid, l). l_expires l \<le> now) (running_leases s)))"

definition count_status :: "db \<Rightarrow> execution_status \<Rightarrow> nat" where
  "count_status s st = length (filter (\<lambda>(eid, r). x_status r = st) (rows s))"

definition stats :: "time \<Rightarrow> db \<Rightarrow> journal_stats" where
  "stats now s =
     \<lparr>js_queued = count_status s X_PENDING, js_running = count_status s X_RUNNING,
      js_retrying = count_status s X_RETRYING, js_waiting = count_status s X_WAITING,
      js_completed = count_status s X_COMPLETED, js_failed = count_status s X_FAILED,
      js_cancelled = count_status s X_CANCELLED, js_timed_out = count_status s X_TIMED_OUT,
      js_expired_leases = length (filter (\<lambda>(eid, l). l_expires l \<le> now) (running_leases s)),
      js_incompatible =
        length (filter (\<lambda>(eid, r). x_failure_kind r = Some FK_INCOMPATIBLE_DEFINITION) (rows s)),
      js_oldest_lease_age =
        (case map (\<lambda>(eid, l). l_acquired l) (running_leases s) of
           [] \<Rightarrow> None
         | t # ts \<Rightarrow> Some (max (now - fold min ts t) 0))\<rparr>"

definition activity_policy_for :: "(string \<times> activity_policy) list \<Rightarrow> string \<Rightarrow> activity_policy" where
  "activity_policy_for policies sid =
     (case map_of policies sid of None \<Rightarrow> default_activity_policy | Some p \<Rightarrow> p)"

end
