(* ===== verification/Store_Facts.thy ===== *)
theory Store_Facts
  imports Store_Inspect
begin

text \<open>
  How the journal evolves. Four relations between the tables before and after a transaction say
  what no operation may do: change the work of an execution or move its status against the
  transition table, move a step's state against its table or forget an attempt, rewrite or
  renumber events, or step a fencing token back. Each is reflexive and transitive, so it is shown
  for the statements the operations share and follows for the operations by composition.
\<close>

named_theorems kept \<open>statements and operations known to respect the evolution of the journal\<close>

section \<open>The four relations\<close>

text \<open>\<open>resume_waiting\<close> writes one move the table does not list: from waiting to pending.\<close>

definition may_move :: "execution_status \<Rightarrow> execution_status \<Rightarrow> bool" where
  "may_move a b \<longleftrightarrow> execution_transition_allowed a b \<or> a = X_WAITING \<and> b = X_PENDING"

definition same_work :: "exec_row \<Rightarrow> exec_row \<Rightarrow> bool" where
  "same_work a b \<longleftrightarrow> x_workflow b = x_workflow a \<and> x_version b = x_version a \<and>
     x_fingerprint b = x_fingerprint a \<and> x_input b = x_input a \<and>
     x_submitted b = x_submitted a \<and> x_deadline b = x_deadline a"

definition same_outcome :: "exec_row \<Rightarrow> exec_row \<Rightarrow> bool" where
  "same_outcome a b \<longleftrightarrow> x_result b = x_result a \<and> x_failure_kind b = x_failure_kind a \<and>
     x_failure_message b = x_failure_message a"

definition row_evolves :: "exec_row \<Rightarrow> exec_row \<Rightarrow> bool" where
  "row_evolves a b \<longleftrightarrow> same_work a b \<and> may_move\<^sup>*\<^sup>* (x_status a) (x_status b) \<and>
     (execution_is_terminal (x_status a) \<longrightarrow> same_outcome a b) \<and>
     (x_cancel_at a \<noteq> None \<longrightarrow> x_cancel_at b = x_cancel_at a \<and> x_cancel_reason b = x_cancel_reason a)"

definition executions_evolve :: "db \<Rightarrow> db \<Rightarrow> bool" where
  "executions_evolve s t \<longleftrightarrow> (\<forall>eid a. executions s eid = Some a \<longrightarrow>
     (\<exists>b. executions t eid = Some b \<and> row_evolves a b))"

definition step_evolves :: "step_row \<Rightarrow> step_row \<Rightarrow> bool" where
  "step_evolves a b \<longleftrightarrow> step_transition_allowed\<^sup>*\<^sup>* (s_state a) (s_state b) \<and>
     s_attempts a \<le> s_attempts b"

definition steps_evolve :: "db \<Rightarrow> db \<Rightarrow> bool" where
  "steps_evolve s t \<longleftrightarrow> (\<forall>k a. steps s k = Some a \<longrightarrow>
     (\<exists>b. steps t k = Some b \<and> step_evolves a b))"

definition events_grow :: "db \<Rightarrow> db \<Rightarrow> bool" where
  "events_grow s t \<longleftrightarrow> next_event s \<le> next_event t \<and>
     (\<exists>vs. events t = events s @ vs \<and> map v_id vs = [next_event s ..< next_event t])"

definition lease_evolves :: "lease_row \<Rightarrow> lease_row \<Rightarrow> bool" where
  "lease_evolves a b \<longleftrightarrow> l_fence a < l_fence b \<or> l_fence a = l_fence b \<and> l_owner a = l_owner b"

definition leases_evolve :: "db \<Rightarrow> db \<Rightarrow> bool" where
  "leases_evolve s t \<longleftrightarrow> (\<forall>eid a. leases s eid = Some a \<longrightarrow>
     (\<exists>b. leases t eid = Some b \<and> lease_evolves a b))"

definition evolves :: "db \<Rightarrow> db \<Rightarrow> bool" where
  "evolves s t \<longleftrightarrow> executions_evolve s t \<and> steps_evolve s t \<and> events_grow s t \<and> leases_evolve s t"

lemmas evolution_defs = evolves_def executions_evolve_def steps_evolve_def events_grow_def
  leases_evolve_def

lemma row_evolves_refl [simp]: "row_evolves a a"
  by (simp add: row_evolves_def same_work_def same_outcome_def)

lemma terminal_stays: "may_move\<^sup>*\<^sup>* a b \<Longrightarrow> execution_is_terminal a \<Longrightarrow> b = a"
proof (induction rule: rtranclp_induct)
  case (step b c)
  then have "\<not> may_move b c"
    using terminal_no_transition [of b c] by (auto simp: may_move_def transition_defs)
  with step show ?case by simp
qed simp

lemma row_evolves_trans:
  assumes "row_evolves a b" and "row_evolves b c"
  shows "row_evolves a c"
proof -
  have "may_move\<^sup>*\<^sup>* (x_status a) (x_status c)"
    using assms rtranclp_trans unfolding row_evolves_def by metis
  moreover have "same_outcome a c" if "execution_is_terminal (x_status a)"
    using that assms terminal_stays unfolding row_evolves_def same_outcome_def by metis
  ultimately show ?thesis
    using assms unfolding row_evolves_def same_work_def by metis
qed

lemma step_evolves_refl [simp]: "step_evolves a a"
  by (simp add: step_evolves_def)

lemma step_evolves_trans: "step_evolves a b \<Longrightarrow> step_evolves b c \<Longrightarrow> step_evolves a c"
  unfolding step_evolves_def by (metis order_trans rtranclp_trans)

lemma lease_evolves_refl [simp]: "lease_evolves a a"
  by (simp add: lease_evolves_def)

lemma lease_evolves_trans: "lease_evolves a b \<Longrightarrow> lease_evolves b c \<Longrightarrow> lease_evolves a c"
  by (auto simp: lease_evolves_def)

lemma executions_evolve_trans:
  "executions_evolve s t \<Longrightarrow> executions_evolve t u \<Longrightarrow> executions_evolve s u"
  unfolding executions_evolve_def by (meson row_evolves_trans)

lemma steps_evolve_trans: "steps_evolve s t \<Longrightarrow> steps_evolve t u \<Longrightarrow> steps_evolve s u"
  unfolding steps_evolve_def by (meson step_evolves_trans)

lemma leases_evolve_trans: "leases_evolve s t \<Longrightarrow> leases_evolve t u \<Longrightarrow> leases_evolve s u"
  unfolding leases_evolve_def by (meson lease_evolves_trans)

lemma upt_split: "i \<le> j \<Longrightarrow> j \<le> k \<Longrightarrow> [i..<k] = [i..<j] @ [j..<k]"
  by (metis le_Suc_ex upt_add_eq_append)

lemma events_grow_trans: "events_grow s t \<Longrightarrow> events_grow t u \<Longrightarrow> events_grow s u"
  unfolding events_grow_def by (metis append_assoc le_trans map_append upt_split)

interpretation journal: evolution evolves
proof
  show "evolves s s" for s
    by (auto simp: evolution_defs)
  show "evolves s u" if "evolves s t" "evolves t u" for s t u
    using that unfolding evolves_def
    by (blast intro: executions_evolve_trans steps_evolve_trans events_grow_trans
        leases_evolve_trans)
qed

section \<open>Statements\<close>

lemma evolves_executions_update:
  assumes "executions s eid = Some a" and "row_evolves a b"
  shows "evolves s (s\<lparr>executions := (executions s)(eid \<mapsto> b)\<rparr>)"
  using assms by (auto simp: evolution_defs)

lemma evolves_steps_update:
  assumes "steps s k = Some a" and "step_evolves a b"
  shows "evolves s (s\<lparr>steps := (steps s)(k \<mapsto> b)\<rparr>)"
  using assms by (auto simp: evolution_defs)

lemma evolves_lease_update:
  assumes "\<And>a. leases s eid = Some a \<Longrightarrow> lease_evolves a b"
  shows "evolves s (s\<lparr>leases := (leases s)(eid \<mapsto> b)\<rparr>)"
  using assms by (auto simp: evolution_defs)

lemma append_event_kept [kept]: "keeps evolves (append_event eid k now sid n det)"
  unfolding append_event_def by (rule keeps_mod) (auto simp: evolution_defs)

lemma delete_retry_kept [kept]: "keeps evolves (delete_retry eid)"
  unfolding delete_retry_def by (rule keeps_mod) (auto simp: evolution_defs)

lemma upsert_retry_kept [kept]: "keeps evolves (upsert_retry eid r)"
  unfolding upsert_retry_def by (rule keeps_mod) (auto simp: evolution_defs)

lemma release_lease_row_kept [kept]: "keeps evolves (release_lease_row c now)"
  unfolding release_lease_row_def
  by (rule keeps_mod)
    (auto simp: journal.refl lease_evolves_def intro!: evolves_lease_update split: option.splits)

lemma explain_refused_write_raises [simp]: "explain_refused_write c now w b s \<noteq> Inr r"
  by (auto simp: explain_refused_write_def split: option.splits)

lemma explain_kept [kept]: "keeps evolves (explain_refused_write c now w b)"
  by (simp add: keeps_def)

lemma execution_row_kept [kept]: "keeps evolves (execution_row eid)"
  by (auto simp: keeps_def execution_row_def journal.refl split: option.splits)

lemma get_step_row_kept [kept]: "keeps evolves (get_step_row eid sid)"
  by (auto simp: keeps_def get_step_row_def journal.refl split: option.splits)

lemma execution_row_Inr: "execution_row eid s = Inr (row, t) \<longleftrightarrow> executions s eid = Some row \<and> t = s"
  by (auto simp: execution_row_def split: option.splits)

lemma get_step_row_Inr: "get_step_row eid sid s = Inr (row, t) \<longleftrightarrow> steps s (eid, sid) = Some row \<and> t = s"
  by (auto simp: get_step_row_def split: option.splits)

text \<open>What a guarded status change commits, and on which condition.\<close>

lemma set_execution_status_Inr:
  "set_execution_status c target now extra allow s = Inr (u, t) \<longleftrightarrow>
     (\<exists>row. executions s (c_execution c) = Some row \<and>
        execution_transition_allowed (x_status row) target \<and>
        (allow \<or> x_cancel_at row = None) \<and> lease_guard c now s \<and>
        t = s\<lparr>executions := (executions s)(c_execution c \<mapsto>
              extra (row\<lparr>x_status := target, x_updated := now\<rparr>))\<rparr>)"
  by (auto simp: set_execution_status_def bindT_Inr_iff execution_row_Inr liftT_Inr_iff)

lemma set_step_state_Inr:
  "set_step_state c sid target now extra allowed s = Inr (u, t) \<longleftrightarrow>
     (\<exists>row. steps s (c_execution c, sid) = Some row \<and>
        step_transition_allowed (s_state row) target \<and>
        (case allowed of None \<Rightarrow> True | Some sts \<Rightarrow> s_state row \<in> set sts) \<and> lease_guard c now s \<and>
        t = s\<lparr>steps := (steps s)((c_execution c, sid) \<mapsto> extra (row\<lparr>s_state := target\<rparr>))\<rparr>)"
  by (auto simp: set_step_state_def bindT_Inr_iff get_step_row_Inr liftT_Inr_iff)

lemma guarded_exec_update_Inr:
  "guarded_exec_update c now f s = Inr (b, t) \<longleftrightarrow>
     (case executions s (c_execution c) of
        Some row \<Rightarrow> if lease_guard c now s
          then b \<and> t = s\<lparr>executions := (executions s)(c_execution c \<mapsto> f row)\<rparr>
          else \<not> b \<and> t = s
      | None \<Rightarrow> \<not> b \<and> t = s)"
  by (auto simp: guarded_exec_update_def split: option.splits)

lemmas [tx_iff] = execution_row_Inr get_step_row_Inr set_execution_status_Inr set_step_state_Inr

text \<open>The lease guard reads the lease table only.\<close>

lemma lease_guard_frame [simp]:
  "lease_guard c now (s\<lparr>executions := e\<rparr>) = lease_guard c now s"
  "lease_guard c now (s\<lparr>steps := st\<rparr>) = lease_guard c now s"
  "lease_guard c now (s\<lparr>retries := r\<rparr>) = lease_guard c now s"
  "lease_guard c now (s\<lparr>events := v, next_event := n\<rparr>) = lease_guard c now s"
  by (simp_all add: lease_guard_def)

text \<open>The rest of a \<open>SET\<close> clause leaves alone what the relations protect.\<close>

definition harmless :: "(exec_row \<Rightarrow> exec_row) \<Rightarrow> bool" where
  "harmless f \<longleftrightarrow> (\<forall>x. same_work x (f x) \<and> x_status (f x) = x_status x \<and>
     x_cancel_at (f x) = x_cancel_at x \<and> x_cancel_reason (f x) = x_cancel_reason x)"

definition harmless_step :: "(step_row \<Rightarrow> step_row) \<Rightarrow> bool" where
  "harmless_step f \<longleftrightarrow> (\<forall>r. s_state (f r) = s_state r \<and> s_attempts (f r) = s_attempts r)"

lemma allowed_may_move: "execution_transition_allowed a b \<Longrightarrow> may_move\<^sup>*\<^sup>* a b"
  by (simp add: may_move_def r_into_rtranclp)

lemma allowed_not_terminal: "execution_transition_allowed a b \<Longrightarrow> \<not> execution_is_terminal a"
  using terminal_no_transition by blast

lemma set_execution_status_kept [kept]:
  "harmless extra \<Longrightarrow> keeps evolves (set_execution_status c target now extra allow)"
  by (rule keepsI)
    (auto simp: set_execution_status_Inr harmless_def row_evolves_def same_work_def
      dest: allowed_not_terminal intro!: evolves_executions_update allowed_may_move)

lemma set_step_state_kept [kept]:
  "harmless_step extra \<Longrightarrow> keeps evolves (set_step_state c sid target now extra allowed)"
  by (rule keepsI)
    (auto simp: set_step_state_Inr harmless_step_def step_evolves_def
      intro!: evolves_steps_update)

lemma guarded_exec_update_kept [kept]:
  "harmless f \<Longrightarrow> (\<And>x. same_outcome x (f x)) \<Longrightarrow> keeps evolves (guarded_exec_update c now f)"
  by (rule keepsI)
    (auto simp: guarded_exec_update_def harmless_def row_evolves_def same_work_def journal.refl
      intro!: evolves_executions_update split: option.splits if_splits)

lemma update_own_lease_kept [kept]:
  assumes "\<And>l. l_fence (f l) = l_fence l \<and> l_owner (f l) = l_owner l"
  shows "keeps evolves (update_own_lease c now what f)"
  using assms by (intro keepsI)
    (auto simp: update_own_lease_def lease_evolves_def intro!: evolves_lease_update
      split: option.splits if_splits)

section \<open>Operations\<close>

lemma harmless_simps [simp]:
  "harmless (\<lambda>x. x\<lparr>x_current := v\<rparr>)"
  "harmless (\<lambda>x. x\<lparr>x_current := v, x_updated := m\<rparr>)"
  "harmless (\<lambda>x. x\<lparr>x_current := v, x_attempts := x_attempts x + 1, x_updated := m\<rparr>)"
  "harmless (\<lambda>x. x\<lparr>x_result := r, x_current := v\<rparr>)"
  "harmless (\<lambda>x. x\<lparr>x_failure_kind := k, x_failure_message := w, x_current := v\<rparr>)"
  by (simp_all add: harmless_def same_work_def)

lemma harmless_step_simps [simp]:
  "harmless_step (failed_attempt now etype emsg reason)"
  "harmless_step (\<lambda>r. r\<lparr>s_detail := d\<rparr>)"
  "harmless_step (\<lambda>r. r\<lparr>s_finished := f, s_detail := d\<rparr>)"
  "harmless_step (\<lambda>r. r\<lparr>s_output := v, s_finished := f, s_detail := d\<rparr>)"
  "harmless_step (\<lambda>r. r\<lparr>s_output := v, s_finished := f, s_error_type := t, s_error_message := m,
     s_detail := d\<rparr>)"
  by (simp_all add: harmless_step_def failed_attempt_def)

lemma yield_kept [kept]: "keeps evolves (yield_execution now c reason)"
  unfolding yield_execution_def by (intro journal.composition kept) simp_all

lemma skip_step_kept [kept]: "keeps evolves (skip_step now c sid reason)"
  unfolding skip_step_def by (intro journal.composition kept) simp_all

lemma time_out_kept [kept]: "keeps evolves (time_out_execution now c msg)"
  unfolding time_out_execution_def by (intro journal.composition kept) simp_all

lemma complete_step_kept [kept]: "keeps evolves (complete_step env now c sid out)"
  unfolding complete_step_def by (intro journal.composition kept) (simp_all add: same_outcome_def)

lemma fail_for_good_kept [kept]: "keeps evolves (fail_for_good now c sid et em reason n)"
  unfolding fail_for_good_def by (intro journal.composition kept) simp_all

lemma fail_and_retry_kept [kept]: "keeps evolves (fail_and_retry now c sid et em reason n due)"
  unfolding fail_and_retry_def by (intro journal.composition kept) simp_all

lemma fail_step_kept [kept]: "keeps evolves (fail_step now c sid et em retry_at reason)"
  unfolding fail_step_def
  by (intro journal.composition kept; cases retry_at; simp add: kept)

lemma mark_unknown_kept [kept]: "keeps evolves (mark_step_outcome_unknown now c sid reason)"
  unfolding mark_step_outcome_unknown_def by (intro journal.composition kept) simp_all

lemma resolve_step_kept [kept]: "keeps evolves (resolve_step env now c sid st out det)"
  unfolding resolve_step_def by (intro journal.composition kept) simp_all

lemma complete_execution_kept [kept]: "keeps evolves (complete_execution env now c outs)"
  unfolding complete_execution_def by (intro journal.composition kept) simp_all

lemma fail_execution_kept [kept]: "keeps evolves (fail_execution now c k msg)"
  unfolding fail_execution_def by (intro journal.composition kept) simp_all

lemma mark_waiting_kept [kept]: "keeps evolves (mark_waiting now c reason)"
  unfolding mark_waiting_def by (intro journal.composition kept) simp_all

lemma renew_lease_kept [kept]: "keeps evolves (renew_lease env now c ttl)"
  unfolding renew_lease_def Let_def by (intro journal.composition kept) simp_all

lemma release_lease_kept [kept]: "keeps evolves (release_lease now c)"
  unfolding release_lease_def by (intro journal.composition kept) simp_all

text \<open>\<open>start_step\<close> spelled out: the attempt is numbered in the step row and counted in the execution.\<close>

lemma start_step_Inr:
  "start_step now c sid key s = Inr (n, t) \<longleftrightarrow>
     (\<exists>row x. steps s (c_execution c, sid) = Some row \<and> s_state row \<in> {S_PENDING, S_RUNNING} \<and>
        executions s (c_execution c) = Some x \<and> lease_guard c now s \<and> n = s_attempts row + 1 \<and>
        t = s\<lparr>steps := (steps s)((c_execution c, sid) \<mapsto>
                row\<lparr>s_state := S_RUNNING, s_attempts := n, s_started := Some now,
                    s_finished := None, s_key := key\<rparr>),
              executions := (executions s)(c_execution c \<mapsto>
                x\<lparr>x_current := Some sid, x_attempts := x_attempts x + 1, x_updated := now\<rparr>),
              events := events s @ [\<lparr>v_id = next_event s, v_execution = c_execution c,
                v_kind = E_STEP_STARTED, v_step = Some sid, v_attempt = Some n, v_detail = None,
                v_at = now\<rparr>],
              next_event := Suc (next_event s)\<rparr>)"
proof -
  have "step_transition_allowed S_PENDING S_RUNNING" "step_transition_allowed S_RUNNING S_RUNNING"
    by (simp_all add: transition_defs)
  then show ?thesis
    unfolding start_step_def Let_def
    by (auto simp: tx_iff guarded_exec_update_Inr append_event_def ex_bool_eq split: if_splits option.splits)
qed

lemma step_transition_allowed_run: "step_transition_allowed\<^sup>*\<^sup>* S_PENDING S_RUNNING"
  by (rule r_into_rtranclp) (simp add: transition_defs)

lemma start_step_kept [kept]: "keeps evolves (start_step now c sid key)"
proof (rule keepsI)
  fix s n t
  assume "start_step now c sid key s = Inr (n, t)"
  then show "evolves s t"
    using step_transition_allowed_run
    by (auto simp: start_step_Inr evolution_defs step_evolves_def row_evolves_def same_work_def
        same_outcome_def)
qed


lemma register_definition_kept [kept]: "keeps evolves (register_definition env now w)"
proof (rule keepsI)
  fix s fp t
  assume "register_definition env now w s = Inr (fp, t)"
  then have "executions t = executions s \<and> steps t = steps s \<and> events t = events s \<and>
      next_event t = next_event s \<and> leases t = leases s"
    unfolding register_definition_def by (auto simp: tx_iff Let_def split: option.splits if_splits)
  then show "evolves s t" by (simp add: evolution_defs)
qed

lemma insert_steps_evolves:
  assumes "\<And>sid. sid \<in> set sids \<Longrightarrow> steps s (eid, sid) = None" and "distinct sids"
  shows "evolves s (fold (insert_step eid) sids s)"
  using assms
proof (induction sids arbitrary: s)
  case Nil
  then show ?case by (simp add: journal.refl)
next
  case (Cons sid sids)
  have "evolves s (insert_step eid sid s)"
    using Cons.prems(1) [of sid] by (auto simp: evolution_defs insert_step_def)
  moreover have "evolves (insert_step eid sid s) (fold (insert_step eid) sids (insert_step eid sid s))"
    using Cons.prems by (intro Cons.IH) (auto simp: insert_step_def)
  ultimately show ?case by (auto intro: journal.trans)
qed

lemma claim_execution_kept [kept]: "keeps evolves (claim_execution eid owner now expires)"
proof (rule keepsI)
  fix s r t
  assume r: "claim_execution eid owner now expires s = Inr (r, t)"
  have kept_rest: "keeps evolves (seqT (modT (upsert_lease eid owner now expires))
        (seqT (delete_retry eid)
        (bindT (read_claim eid owner) (\<lambda>c.
         seqT (append_event eid E_CLAIMED now None None (Some (claimed_detail owner (c_fence c))))
              (retT (Some c))))))"
  proof (intro journal.composition kept keeps_mod)
    show "evolves s (upsert_lease eid owner now expires s)" for s
      unfolding upsert_lease_def by (rule evolves_lease_update) (simp add: lease_evolves_def)
    show "keeps evolves (read_claim eid owner)"
      by (rule keepsI) (auto simp: read_claim_def tx_iff journal.refl split: option.splits)
  qed
  show "evolves s t"
  proof (cases "executions s eid")
    case None
    with r show ?thesis by (simp add: claim_execution_def journal.refl)
  next
    case (Some row)
    show ?thesis
    proof (cases "claim_guard s now eid row")
      case False
      with r Some show ?thesis by (simp add: claim_execution_def journal.refl)
    next
      case True
      then have "execution_transition_allowed (x_status row) X_RUNNING"
        by (auto simp: claim_guard_def transition_defs)
      then have "evolves s (s\<lparr>executions := (executions s)(eid \<mapsto>
          row\<lparr>x_status := X_RUNNING, x_updated := now\<rparr>)\<rparr>)" (is "evolves s ?s1")
        using Some by (intro evolves_executions_update)
          (auto simp: row_evolves_def same_work_def dest: allowed_not_terminal
            intro: allowed_may_move)
      moreover have "evolves ?s1 t"
        using r Some True kept_rest by (auto simp: claim_execution_def seqT_Inr_iff modT_Inr_iff
            keeps_def)
      ultimately show ?thesis by (rule journal.trans)
    qed
  qed
qed

lemma claim_next_kept [kept]: "keeps evolves (claim_next env now owner ttl)"
proof (rule keepsI)
  fix s r t
  assume "claim_next env now owner ttl s = Inr (r, t)"
  then show "evolves s t"
    using claim_execution_kept [THEN keepsD]
    by (auto simp: claim_next_def Let_def journal.refl tx_iff split: if_splits option.splits)
qed

lemma expire_one_kept [kept]: "keeps evolves (expire_one now eid)"
proof -
  have "may_move\<^sup>*\<^sup>* st X_TIMED_OUT" if "\<not> execution_is_terminal st" for st
    using that by (intro allowed_may_move) (cases st; simp add: transition_defs)
  then have "evolves s (case executions s eid of
             Some row \<Rightarrow>
               if \<not> execution_is_terminal (x_status row)
               then s\<lparr>executions := (executions s)(eid \<mapsto> row\<lparr>x_status := X_TIMED_OUT,
                      x_failure_kind := Some FK_TIMED_OUT, x_failure_message := Some msg_deadline,
                      x_current := None, x_updated := now\<rparr>)\<rparr>
               else s
           | None \<Rightarrow> s)" for s
    by (auto simp: journal.refl row_evolves_def same_work_def
        intro!: evolves_executions_update split: option.splits)
  then show ?thesis
    unfolding expire_one_def by (intro journal.composition kept keeps_mod)
qed

lemma expire_each_kept [kept]: "keeps evolves (expire_each now eids)"
  by (induction eids) (auto intro: journal.composition kept)

lemma expire_deadlines_kept [kept]: "keeps evolves (expire_deadlines now)"
  unfolding expire_deadlines_def by (intro journal.composition kept)

lemma update_row_evolves:
  assumes "executions s eid = Some row" and "row_evolves row row'"
    and "keeps evolves m" and "seqT (modT (\<lambda>s. s\<lparr>executions := (executions s)(eid \<mapsto> row')\<rparr>)) m s =
      Inr (x, t)"
  shows "evolves s t"
proof -
  have "evolves (s\<lparr>executions := (executions s)(eid \<mapsto> row')\<rparr>) t"
    using assms(3,4) by (auto simp: seqT_Inr_iff modT_Inr_iff keeps_def)
  then show ?thesis using evolves_executions_update [OF assms(1,2)] journal.trans by blast
qed

lemma finish_cancelled_kept [kept]: "keeps evolves (finish_cancelled eid now reason)"
proof (rule keepsI)
  fix s u t
  assume r: "finish_cancelled eid now reason s = Inr (u, t)"
  show "evolves s t"
  proof (cases "executions s eid")
    case None
    with r show ?thesis by (simp add: finish_cancelled_def tx_iff)
  next
    case (Some row)
    show ?thesis
    proof (cases "execution_is_terminal (x_status row)")
      case True
      with r Some show ?thesis by (simp add: finish_cancelled_def tx_iff journal.refl)
    next
      case False
      with r Some have "execution_transition_allowed (x_status row) X_CANCELLED"
        by (auto simp: finish_cancelled_def tx_iff)
      then have "row_evolves row (row\<lparr>x_status := X_CANCELLED, x_failure_kind := Some FK_CANCELLED,
                     x_failure_message := Some (cancel_message reason), x_current := None,
                     x_updated := now,
                     x_cancel_at := (case x_cancel_at row of None \<Rightarrow> Some now | Some t \<Rightarrow> Some t)\<rparr>)"
        by (auto simp: row_evolves_def same_work_def dest: allowed_not_terminal
            intro: allowed_may_move split: option.splits)
      moreover have "keeps evolves (seqT (delete_retry eid)
          (append_event eid E_CANCELLED now None None reason))"
        by (intro journal.composition kept)
      ultimately show ?thesis
        using r Some False by (auto simp: finish_cancelled_def bindT_Inr_iff liftT_Inr_iff
            execution_row_Inr intro: update_row_evolves)
    qed
  qed
qed

lemma record_request_kept:
  assumes "executions s eid = Some row" and "record_request eid now reason row s = Inr (u, t)"
  shows "evolves s t"
proof (cases "x_cancel_at row")
  case None
  then have "row_evolves row (row\<lparr>x_cancel_at := Some now, x_cancel_reason := reason,
      x_updated := now\<rparr>)"
    by (simp add: row_evolves_def same_work_def same_outcome_def)
  then show ?thesis
    using assms None by (auto simp: record_request_def intro: update_row_evolves kept)
next
  case (Some x)
  then show ?thesis using assms by (simp add: record_request_def tx_iff journal.refl)
qed

lemma request_cancellation_kept [kept]: "keeps evolves (request_cancellation_tx now eid reason)"
proof (rule keepsI)
  fix s u t
  assume r: "request_cancellation_tx now eid reason s = Inr (u, t)"
  then obtain row where row: "executions s eid = Some row"
    by (auto simp: request_cancellation_tx_def bindT_Inr_iff execution_row_Inr)
  show "evolves s t"
  proof (cases "execution_is_terminal (x_status row)")
    case True
    with r row show ?thesis by (auto simp: request_cancellation_tx_def tx_iff journal.refl)
  next
    case False
    with r row obtain u1 s1 where "record_request eid now reason row s = Inr (u1, s1)"
      and "(if lease_free s1 now eid then finish_cancelled eid now reason else retT ()) s1 = Inr (u, t)"
      by (auto simp: request_cancellation_tx_def bindT_Inr_iff seqT_Inr_iff execution_row_Inr
          getT_Inr_iff)
    moreover from this have "evolves s1 t"
      using finish_cancelled_kept [THEN keepsD] by (auto simp: tx_iff journal.refl split: if_splits)
    ultimately show ?thesis using record_request_kept [OF row] journal.trans by blast
  qed
qed

lemma record_acknowledged_kept:
  assumes "executions s eid = Some row" and "record_acknowledged eid now reason row s = Inr (u, t)"
  shows "evolves s t"
proof (cases "x_cancel_at row")
  case None
  then have "row_evolves row (row\<lparr>x_cancel_at := Some now, x_cancel_reason := reason\<rparr>)"
    by (simp add: row_evolves_def same_work_def same_outcome_def)
  then show ?thesis
    using assms None by (auto simp: record_acknowledged_def intro: update_row_evolves kept)
next
  case (Some x)
  then show ?thesis using assms by (simp add: record_acknowledged_def tx_iff journal.refl)
qed

lemma cancel_owned_kept [kept]: "keeps evolves (cancel_owned now c reason)"
  unfolding cancel_owned_def by (intro journal.composition kept) simp_all

lemma acknowledge_cancellation_kept [kept]: "keeps evolves (acknowledge_cancellation now c reason)"
proof (rule keepsI)
  fix s u t
  assume r: "acknowledge_cancellation now c reason s = Inr (u, t)"
  then obtain row v s1 where "executions s (c_execution c) = Some row"
    and "record_acknowledged (c_execution c) now reason row s = Inr (v, s1)"
    and "cancel_owned now c reason s1 = Inr (u, t)"
    by (auto simp: acknowledge_cancellation_def seqT_Inr_iff split: option.splits)
  then show "evolves s t"
    using record_acknowledged_kept cancel_owned_kept [THEN keepsD] journal.trans by blast
qed

lemma resume_waiting_kept [kept]: "keeps evolves (resume_waiting now eid reason)"
proof (rule keepsI)
  fix s u t
  assume r: "resume_waiting now eid reason s = Inr (u, t)"
  then obtain row where row: "executions s eid = Some row" "x_status row = X_WAITING"
    by (auto simp: resume_waiting_def bindT_Inr_iff execution_row_Inr failT_Inr_iff split: if_splits)
  then have "row_evolves row (row\<lparr>x_status := X_PENDING, x_updated := now\<rparr>)"
    by (auto simp: row_evolves_def same_work_def may_move_def same_outcome_def)
  then show "evolves s t"
    using r row by (auto simp: resume_waiting_def bindT_Inr_iff execution_row_Inr
        intro: update_row_evolves kept)
qed

lemma submit_tx_kept:
  assumes distinct: "distinct (step_ids w)"
    and fresh: "\<And>sid. executions s eid = None \<Longrightarrow> steps s (eid, sid) = None"
    and run: "submit_tx env now w eid payload deadline key s = Inr (h, t)"
  shows "evolves s t"
proof (cases "executions s eid")
  case (Some row)
  with run show ?thesis by (auto simp: submit_tx_def journal.refl split: if_splits)
next
  case None
  let ?s1 = "insert_execution eid (new_execution env now w payload deadline) s"
  have "evolves s ?s1"
    using None by (auto simp: evolution_defs insert_execution_def)
  moreover have "evolves ?s1 (fold (insert_step eid) (step_ids w) ?s1)"
    using fresh [OF None] distinct by (intro insert_steps_evolves) (auto simp: insert_execution_def)
  moreover have "evolves (fold (insert_step eid) (step_ids w) ?s1) t"
    using run None append_event_kept [THEN keepsD]
    by (auto simp: submit_tx_def seqT_Inr_iff modT_Inr_iff retT_Inr_iff)
  ultimately show ?thesis using journal.trans by blast
qed

end
