(* ===== verification/Json_Roundtrip.thy ===== *)
theory Json_Roundtrip
  imports Json
begin

text \<open>
  What the journal gives back is what it was given: the reader inverts the writer on every value
  the writer accepts, up to the two things JSON does not keep - a tuple comes back as a list, and
  the keys of a dictionary come back sorted.
\<close>

section \<open>The value that comes back\<close>

primrec canon :: "pyval \<Rightarrow> pyval" where
  "canon PNone = PNone"
| "canon (PBool b) = PBool b"
| "canon (PInt i) = PInt i"
| "canon (PFloat f) = PFloat f"
| "canon (PStr s) = PStr s"
| "canon (PList xs) = PList (map canon xs)"
| "canon (PTuple xs) = PList (map canon xs)"
| "canon (PDict kvs) = PDict (sort_key fst (map (map_prod id canon) kvs))"
| "canon (PObject c n) = PObject c n"

text \<open>
  A storable value: dictionaries have each key once, and the text of a float is one the reader takes for
  a float (Python's \<open>repr\<close> of a finite float).
\<close>

definition float_text :: "string \<Rightarrow> bool" where
  "float_text f \<longleftrightarrow> parse_number f = Some (PFloat f, [])"

primrec storable :: "pyval \<Rightarrow> bool" where
  "storable PNone = True"
| "storable (PBool b) = True"
| "storable (PInt i) = True"
| "storable (PFloat f) = float_text f"
| "storable (PStr s) = True"
| "storable (PList xs) = list_all id (map storable xs)"
| "storable (PTuple xs) = list_all id (map storable xs)"
| "storable (PDict kvs) = (distinct (map fst kvs) \<and> list_all snd (map (map_prod id storable) kvs))"
| "storable (PObject c n) = True"

section \<open>Strings\<close>

lemma quote_chars [simp]: "char_of (34::nat) = CHR 0x22" "char_of (92::nat) = CHR 0x5C"
  by (simp_all add: char_of_def bit_0)

lemma of_char_of_small: "n < 256 \<Longrightarrow> of_char (char_of n :: char) = (n::nat)"
  unfolding of_char_of by (rule mod_less)

lemma hex_value_hex_char: "d < 16 \<Longrightarrow> hex_value (hex_char d) = Some d"
proof (cases "d < 10")
  case True
  then have "of_char (hex_char d) = 48 + d"
    unfolding hex_char_def by (simp only: if_True) (rule of_char_of_small, linarith)
  then show ?thesis using True by (simp add: hex_value_def)
next
  case False
  assume "d < 16"
  with False have "of_char (hex_char d) = 87 + d"
    unfolding hex_char_def by (simp only: if_False) (rule of_char_of_small, linarith)
  then show ?thesis using False \<open>d < 16\<close> by (simp add: hex_value_def)
qed

lemma of_char_less [simp]: "(of_char c :: nat) < 256"
  by (metis nat_of_char_less_256)

lemma char_eq_iff: "c = d \<longleftrightarrow> (of_char c :: nat) = of_char d"
  by simp

lemma hex4_escape:
  fixes n :: nat
  assumes "n < 256"
  shows "hex4 (CHR ''0'') (CHR ''0'') (hex_char (n div 16)) (hex_char (n mod 16)) = Some n"
proof -
  have "hex_value (CHR ''0'') = Some 0" by (simp add: hex_value_def)
  moreover have "n div 16 < 16" "n mod 16 < 16" using assms by simp_all
  ultimately show ?thesis by (simp add: hex4_def hex_value_hex_char)
qed

lemma parse_escape:
  "parse_string (json_escape c @ r) = map_option (apfst ((#) c)) (parse_string r)"
proof -
  let ?bs = "char_of (92::nat)"
  obtain n :: nat where n: "n = of_char c" by simp
  then have c: "c = char_of n" and less: "n < 256" by simp_all
  have u: "parse_string ([?bs, CHR ''u'', CHR ''0'', CHR ''0'', hex_char (n div 16),
      hex_char (n mod 16)] @ r) = map_option (apfst ((#) c)) (parse_string r)"
    using hex4_escape [OF less] less c by simp
  consider "n = 34" | "n = 92" | "n = 10" | "n = 13" | "n = 9" | "n = 12" | "n = 8"
    | "n \<notin> {34, 92, 10, 13, 9, 12, 8}" "n < 32 \<or> 126 < n"
    | "n \<notin> {34, 92}" "32 \<le> n" "n \<le> 126" by force
  then show ?thesis
  proof cases
    case 8
    then have "json_escape c = [?bs, CHR ''u'', CHR ''0'', CHR ''0'', hex_char (n div 16),
        hex_char (n mod 16)]"
      unfolding json_escape_def Let_def n [symmetric] by simp
    then show ?thesis using u by simp
  next
    case 9
    then have "json_escape c = [c]"
      unfolding json_escape_def Let_def n [symmetric] by simp
    moreover have "c \<noteq> char_of (34::nat)" "c \<noteq> char_of (92::nat)"
      using 9(1) unfolding char_eq_iff n [symmetric] by simp_all
    ultimately show ?thesis using 9(2) by (simp add: n [symmetric])
  qed (simp_all add: c json_escape_def unescape_def Let_def)
qed

lemma parse_escapes:
  "parse_string (concat (map json_escape s) @ CHR 0x22 # r) = Some (s, r)"
  by (induction s) (simp_all add: parse_escape)

section \<open>Numbers\<close>

text \<open>What may follow a value inside the written text.\<close>

definition ends :: "string \<Rightarrow> bool" where
  "ends s \<longleftrightarrow> s = [] \<or> hd s = CHR '','' \<or> hd s = CHR '']'' \<or> hd s = CHR ''}''"

lemma ends_simps [simp]: "ends []" "ends (CHR '','' # s)" "ends (CHR '']'' # s)" "ends (CHR ''}'' # s)"
  by (simp_all add: ends_def)

lemma ends_cases:
  assumes "ends s"
  obtains "s = []" | r where "s = CHR '','' # r" | r where "s = CHR '']'' # r"
    | r where "s = CHR ''}'' # r"
  using assms by (cases s) (auto simp: ends_def)

lemma not_digit [simp]: "\<not> is_digit (CHR '','')" "\<not> is_digit (CHR '']'')" "\<not> is_digit (CHR ''}'')"
  "\<not> is_digit (CHR ''-'')"
  by (simp_all add: is_digit_def)

lemma ends_no_digits [simp]: "ends s \<Longrightarrow> takeWhile is_digit s = []" "ends s \<Longrightarrow> dropWhile is_digit s = s"
  by (auto elim: ends_cases)

lemma ends_no_parts [simp]:
  assumes "ends s"
  shows "parse_frac s = ([], s)" "parse_exp s = ([], s)" "exp_body s = ([], s)"
  using assms by (auto elim!: ends_cases simp: parse_frac_def parse_exp_def exp_body_def)

lemma digits_before_end:
  assumes "ends e"
  shows "takeWhile is_digit (s @ e) = takeWhile is_digit s"
    and "dropWhile is_digit (s @ e) = dropWhile is_digit s @ e"
  using assms by (induction s) auto

lemma parse_frac_end: "ends e \<Longrightarrow> parse_frac (s @ e) = apsnd (\<lambda>r. r @ e) (parse_frac s)"
proof (cases s)
  case (Cons c r)
  then show "ends e \<Longrightarrow> ?thesis" by (simp add: parse_frac_def digits_before_end)
qed (simp add: parse_frac_def [of "[]"])

lemma exp_body_end: "ends e \<Longrightarrow> exp_body (s @ e) = apsnd (\<lambda>r. r @ e) (exp_body s)"
proof (cases s)
  case (Cons c r)
  then show "ends e \<Longrightarrow> ?thesis" by (simp add: exp_body_def)
qed (simp add: exp_body_def [of "[]"])

lemma parse_exp_end: "ends e \<Longrightarrow> parse_exp (s @ e) = apsnd (\<lambda>r. r @ e) (parse_exp s)"
proof (cases s)
  case (Cons c r)
  obtain g r' where "exp_body r = (g, r')" by fastforce
  then show "ends e \<Longrightarrow> ?thesis"
    using Cons by (simp add: parse_exp_def exp_body_end digits_before_end)
qed (simp add: parse_exp_def [of "[]"])

definition int_part :: "string \<Rightarrow> string" where
  "int_part s = (if s \<noteq> [] \<and> hd s = CHR ''0'' then [CHR ''0''] else takeWhile is_digit s)"

lemma int_part_end: "ends e \<Longrightarrow> int_part (s @ e) = int_part s"
  by (cases s) (auto simp: int_part_def digits_before_end elim: ends_cases)

lemma int_part_length: "length (int_part s) \<le> length s"
  by (cases s) (auto simp: int_part_def length_takeWhile_le le_SucI)

definition after_sign :: "string \<Rightarrow> string" where
  "after_sign s = (if s \<noteq> [] \<and> hd s = CHR ''-'' then tl s else s)"

lemma parse_number_alt:
  "parse_number s =
     (let neg = (s \<noteq> [] \<and> hd s = CHR ''-''); s1 = after_sign s; ds = int_part s1;
          s2 = drop (length ds) s1; (fr, s3) = parse_frac s2; (ex, s4) = parse_exp s3
      in if ds = [] then None
         else if fr = [] \<and> ex = [] then
           Some (PInt (if neg then - int (dec_value ds) else int (dec_value ds)), s2)
         else Some (PFloat ((if neg then [CHR ''-''] else []) @ ds @ fr @ ex), s4))"
  by (simp add: parse_number_def int_part_def after_sign_def Let_def)

lemma parse_number_end:
  assumes "parse_number s = Some (v, r)" and e: "ends e"
  shows "parse_number (s @ e) = Some (v, r @ e)"
proof -
  have "s \<noteq> []"
    using assms(1) by (auto simp: parse_number_alt after_sign_def int_part_def split: prod.splits)
  then have sign: "(s @ e \<noteq> [] \<and> hd (s @ e) = CHR ''-'') = (s \<noteq> [] \<and> hd s = CHR ''-'')"
    and rest: "after_sign (s @ e) = after_sign s @ e"
    by (auto simp: after_sign_def)
  obtain s1 where s1: "s1 = after_sign s" by simp
  have drop: "drop (length (int_part s1)) (s1 @ e) = drop (length (int_part s1)) s1 @ e"
    using int_part_length [of s1] by simp
  obtain fr s3 where fr: "parse_frac (drop (length (int_part s1)) s1) = (fr, s3)" by fastforce
  obtain ex s4 where ex: "parse_exp s3 = (ex, s4)" by fastforce
  show ?thesis
    using assms(1) unfolding parse_number_alt sign rest Let_def s1 [symmetric] int_part_end [OF e] drop
      parse_frac_end [OF e] fr
    by (auto simp: parse_exp_end [OF e] ex split: if_splits)
qed

lemma zero_char: "CHR ''0'' = digit_char 0"
  by (simp add: digit_char_def char_of_def bit_0)

lemma digit_char_facts:
  assumes "d < 10"
  shows "is_digit (digit_char d)" "digit_value (digit_char d) = d" "digit_char d = CHR ''0'' \<longleftrightarrow> d = 0"
proof -
  show "is_digit (digit_char d)" "digit_value (digit_char d) = d"
    using assms by (simp_all add: is_digit_def digit_value_def of_digit_char)
  show "digit_char d = CHR ''0'' \<longleftrightarrow> d = 0"
    unfolding zero_char using assms digit_char_inj [of d 0] by auto
qed

lemma dec_nat_digits: "list_all is_digit (dec_nat n)"
  by (induction n rule: dec_nat.induct) (subst dec_nat.simps, simp add: digit_char_facts)

lemma dec_nat_value: "dec_value (dec_nat n) = n"
proof (induction n rule: dec_nat.induct)
  case (1 n)
  then show ?case
    by (subst dec_nat.simps) (simp add: dec_value_def digit_char_facts)
qed

lemma dec_nat_hd: "hd (dec_nat n) = CHR ''0'' \<longleftrightarrow> n = 0"
proof (induction n rule: dec_nat.induct)
  case (1 n)
  then show ?case
    by (subst dec_nat.simps) (auto simp: digit_char_facts hd_append)
qed

lemma dec_nat_not_minus: "hd (dec_nat n) \<noteq> CHR ''-''"
proof -
  have "is_digit (hd (dec_nat n))"
    using dec_nat_digits [of n] by (cases "dec_nat n") simp_all
  then show ?thesis by (metis not_digit(4))
qed

lemma int_part_dec: "int_part (dec_nat n) = dec_nat n"
proof (cases "n = 0")
  case True
  then show ?thesis by (simp add: int_part_def dec_nat.simps [of 0] zero_char)
next
  case False
  then show ?thesis
    using dec_nat_digits [of n] by (simp add: int_part_def dec_nat_hd takeWhile_eq_all_conv list_all_iff)
qed

lemma parse_number_int: "parse_number (dec_int i) = Some (PInt i, [])"
proof (cases "i < 0")
  case True
  then show ?thesis
    by (simp add: dec_int_def parse_number_alt after_sign_def int_part_dec dec_nat_value
        parse_frac_def parse_exp_def)
next
  case False
  then show ?thesis
    using dec_nat_not_minus [of "nat i"]
    by (simp add: dec_int_def parse_number_alt after_sign_def int_part_dec dec_nat_value
        parse_frac_def parse_exp_def)
qed

section \<open>Literals and the head of a written value\<close>

text \<open>A number starts with a digit or a sign.\<close>

definition number_start :: "char \<Rightarrow> bool" where
  "number_start c \<longleftrightarrow> is_digit c \<or> c = CHR ''-''"

lemma parse_number_start: "parse_number s = Some p \<Longrightarrow> s \<noteq> [] \<and> number_start (hd s)"
  by (cases s) (auto simp: parse_number_alt after_sign_def int_part_def number_start_def is_digit_def
      Let_def split: prod.splits if_splits)

lemma parse_literal_number:
  assumes "parse_number s = Some p"
  shows "parse_literal s = Some p"
proof -
  obtain c r where s: "s = c # r" and c: "number_start c"
    using parse_number_start [OF assms] by (cases s) auto
  have "c \<noteq> CHR ''n''" "c \<noteq> CHR ''t''" "c \<noteq> CHR ''f''"
    using c by (auto simp: number_start_def is_digit_def)
  then have "strip_prefix ''null'' s = None" "strip_prefix ''true'' s = None"
    "strip_prefix ''false'' s = None"
    by (simp_all add: strip_prefix_def s)
  then show ?thesis using assms by (simp add: parse_literal_def)
qed

lemma parse_literal_words:
  "parse_literal (''null'' @ r) = Some (PNone, r)"
  "parse_literal (''true'' @ r) = Some (PBool True, r)"
  "parse_literal (''false'' @ r) = Some (PBool False, r)"
  by (simp_all add: parse_literal_def strip_prefix_def)

text \<open>The first character of a written value: not white space, and no closing bracket.\<close>

definition opens :: "string \<Rightarrow> bool" where
  "opens s \<longleftrightarrow> s \<noteq> [] \<and> \<not> json_ws (hd s) \<and> hd s \<noteq> CHR '']'' \<and> hd s \<noteq> CHR ''}''"

lemma opens_skip [simp]: "opens s \<Longrightarrow> skip_ws (s @ r) = s @ r"
  by (cases s) (simp_all add: opens_def skip_ws_def)

lemma number_opens: "parse_number s = Some p \<Longrightarrow> opens s"
  using parse_number_start [of s p]
  by (auto simp: opens_def number_start_def is_digit_def json_ws_def Let_def)

lemma encode_array_Inr: "encode_array rs = Inr t \<longleftrightarrow> (\<exists>ts. rs = map Inr ts \<and> t = ''['' @ join '','' ts @ '']'')"
  by (auto simp: encode_array_def bindR_Inr_iff sequenceR_Inr_iff)

lemma dumps_opens: "json_dumps r v = Inr t \<Longrightarrow> storable v \<Longrightarrow> opens t"
proof (induction v arbitrary: t)
  case (PInt i)
  then show ?case using number_opens [OF parse_number_int] by auto
next
  case (PFloat f)
  then show ?case using number_opens by (auto simp: float_text_def)
qed (auto simp: opens_def json_ws_def json_string_def encode_array_Inr encode_object_def
    bindR_Inr_iff Let_def split: if_splits)

section \<open>Arrays and objects\<close>

text \<open>What the main induction gives for the parts of a value.\<close>

definition reads_back :: "pyval \<Rightarrow> string \<Rightarrow> bool" where
  "reads_back w t \<longleftrightarrow> opens t \<and>
     (\<forall>e n. ends e \<longrightarrow> length t \<le> n \<longrightarrow> parse_value n (t @ e) = Some (w, e))"

lemma skip_ws_punct [simp]:
  "skip_ws (CHR '','' # s) = CHR '','' # s" "skip_ws (CHR '']'' # s) = CHR '']'' # s"
  "skip_ws (CHR ''}'' # s) = CHR ''}'' # s" "skip_ws (CHR '':'' # s) = CHR '':'' # s"
  by (simp_all add: skip_ws_def json_ws_def)

lemma opens_join:
  assumes "ts \<noteq> []" and "list_all opens ts"
  shows "opens (join s ts)"
proof -
  obtain t us where "ts = t # us" using assms(1) by (cases ts) auto
  then show ?thesis using assms(2) by (cases us) (auto simp: opens_def)
qed

lemma parse_elems_join:
  assumes "list_all2 reads_back ws ts" and "ws \<noteq> []"
  shows "length (join '','' ts) < n \<Longrightarrow>
    parse_elems n (join '','' ts @ '']'' @ e) = Some (ws, e)"
  using assms
proof (induction ws ts arbitrary: n rule: list_all2_induct)
  case (Cons w ws t ts)
  then obtain m where n: "n = Suc m" by (cases n) auto
  show ?case
  proof (cases "ws = []")
    case True
    then have "ts = []" using Cons.hyps(2) by simp
    then have "parse_value m (t @ '']'' @ e) = Some (w, '']'' @ e)"
      using Cons n unfolding reads_back_def by simp
    then show ?thesis using True \<open>ts = []\<close> n by simp
  next
    case False
    then obtain t' ts' where ts: "ts = t' # ts'" using Cons.hyps(2) by (cases ts) auto
    have j: "join '','' (t # ts) = t @ '','' @ join '','' ts" by (simp add: ts)
    have "opens (join '','' ts)"
      using Cons.hyps(2) False ts
      by (intro opens_join) (auto simp: reads_back_def list_all2_conv_all_nth list_all_length)
    moreover have "parse_value m (t @ '','' @ join '','' ts @ '']'' @ e) =
        Some (w, '','' @ join '','' ts @ '']'' @ e)"
      using Cons.hyps(1) Cons.prems(1) n j unfolding reads_back_def by simp
    moreover have "parse_elems m (join '','' ts @ '']'' @ e) = Some (ws, e)"
      using Cons.prems(1) n j False Cons.hyps(1)
      by (intro Cons.IH) (auto simp: reads_back_def opens_def)
    ultimately show ?thesis using n j by simp
  qed
qed simp

lemma array_reads_back:
  assumes "list_all2 reads_back ws ts"
  shows "reads_back (PList ws) (''['' @ join '','' ts @ '']'')"
  unfolding reads_back_def
proof (intro conjI allI impI)
  show "opens (''['' @ join '','' ts @ '']'')" by (simp add: opens_def json_ws_def)
  fix e n
  assume e: "ends e" and len: "length (''['' @ join '','' ts @ '']'') \<le> n"
  then obtain m where n: "n = Suc m" by (cases n) auto
  show "parse_value n ((''['' @ join '','' ts @ '']'') @ e) = Some (PList ws, e)"
  proof (cases "ws = []")
    case True
    then show ?thesis using assms n by simp
  next
    case False
    then have "ts \<noteq> []" using assms by auto
    then have o: "opens (join '','' ts)"
      using assms by (intro opens_join) (auto simp: reads_back_def list_all2_conv_all_nth list_all_length)
    obtain d ds where d: "join '','' ts = d # ds" "d \<noteq> CHR '']''"
      using o by (cases "join '','' ts") (auto simp: opens_def)
    have "parse_elems m (join '','' ts @ '']'' @ e) = Some (ws, e)"
      using assms False len n by (intro parse_elems_join) auto
    moreover have "skip_ws (join '','' ts @ '']'' @ e) = join '','' ts @ '']'' @ e"
      using o by simp
    ultimately show ?thesis using n d by simp
  qed
qed

definition member :: "string \<Rightarrow> string \<Rightarrow> string" where
  "member k t = json_string k @ '':'' @ t"

lemma parse_member_key:
  "member k t @ e = CHR 0x22 # concat (map json_escape k) @ CHR 0x22 # '':'' @ t @ e"
  by (simp add: member_def json_string_def)

lemma opens_member [simp]: "opens (member k t)"
  by (simp add: member_def json_string_def opens_def json_ws_def)

lemma opens_members: "list_all opens (map2 member ks ts)"
  by (auto simp: list_all_iff)

lemma parse_members_join:
  assumes "list_all2 reads_back ws ts" and "length ks = length ws" and "ws \<noteq> []"
  shows "length (join '','' (map2 member ks ts)) < n \<Longrightarrow>
    parse_members n (join '','' (map2 member ks ts) @ ''}'' @ e) = Some (zip ks ws, e)"
  using assms
proof (induction ws ts arbitrary: n ks rule: list_all2_induct)
  case (Cons w ws t ts)
  then obtain k ks' where ks: "ks = k # ks'" and lks: "length ks' = length ws"
    by (cases ks) auto
  obtain m where n: "n = Suc m" using Cons.prems(1) by (cases n) auto
  have val: "parse_value m (skip_ws (t @ r)) = Some (w, r)"
    if "ends r" "length (member k t) \<le> m" for r
    using Cons.hyps(1) that unfolding reads_back_def by (simp add: member_def)
  show ?case
  proof (cases "ws = []")
    case True
    then have "ts = []" "ks' = []" using Cons.hyps(2) lks by simp_all
    then show ?thesis
      using True n ks val [of "''}'' @ e"] Cons.prems(1)
      by (simp add: parse_member_key parse_escapes)
  next
    case False
    then obtain k' ks'' t' ts' where more: "ks' = k' # ks''" "ts = t' # ts'"
      using Cons.hyps(2) lks by (cases ks'; cases ts) auto
    let ?more = "join '','' (map2 member ks' ts)"
    have j: "join '','' (map2 member ks (t # ts)) = member k t @ '','' @ ?more"
      by (simp add: more ks)
    have "opens ?more" by (rule opens_join [OF _ opens_members]) (simp add: more)
    moreover have "parse_members m (?more @ ''}'' @ e) = Some (zip ks' ws, e)"
      using Cons.prems(1) n j False lks by (intro Cons.IH) auto
    moreover have "length (member k t) \<le> m" using Cons.prems(1) n j by simp
    ultimately show ?thesis
      using n j ks val [of "'','' @ ?more @ ''}'' @ e"]
      by (simp add: parse_member_key parse_escapes)
  qed
qed simp

lemma dict_of_distinct:
  assumes "distinct (map fst kvs)"
  shows "dict_of kvs = PDict kvs"
proof -
  have "rev (remdups (rev (map fst kvs))) = map fst kvs"
    using assms by (simp add: distinct_remdups_id)
  moreover have "the (map_of (rev kvs) (fst kv)) = snd kv" if "kv \<in> set kvs" for kv
  proof -
    have "distinct (map fst (rev kvs))"
      using assms by (simp only: rev_map [symmetric] distinct_rev)
    then have "map_of (rev kvs) (fst kv) = Some (snd kv)"
      using that by (intro map_of_is_SomeI) simp_all
    then show ?thesis by simp
  qed
  ultimately show ?thesis
    by (auto simp: dict_of_def intro!: map_idI)
qed

lemma object_reads_back:
  assumes rb: "list_all2 reads_back ws ts" and lk: "length ks = length ws" and d: "distinct ks"
  shows "reads_back (PDict (zip ks ws)) (''{'' @ join '','' (map2 member ks ts) @ ''}'')"
  unfolding reads_back_def
proof (intro conjI allI impI)
  show "opens (''{'' @ join '','' (map2 member ks ts) @ ''}'')" by (simp add: opens_def json_ws_def)
  fix e n
  let ?t = "join '','' (map2 member ks ts)"
  assume e: "ends e" and len: "length (''{'' @ ?t @ ''}'') \<le> n"
  then obtain m where n: "n = Suc m" by (cases n) auto
  show "parse_value n ((''{'' @ ?t @ ''}'') @ e) = Some (PDict (zip ks ws), e)"
  proof (cases "ws = []")
    case True
    then show ?thesis using rb lk n by simp
  next
    case False
    then have ne: "map2 member ks ts \<noteq> []" using rb lk by (cases ks; cases ts) auto
    have o: "opens ?t" by (rule opens_join [OF ne opens_members])
    obtain c cs where c: "?t = c # cs" "c \<noteq> CHR ''}''"
      using o by (cases ?t) (auto simp: opens_def)
    have "parse_members m (?t @ ''}'' @ e) = Some (zip ks ws, e)"
      using rb lk False len n by (intro parse_members_join) auto
    moreover have "skip_ws (?t @ ''}'' @ e) = ?t @ ''}'' @ e" using o by simp
    moreover have "dict_of (zip ks ws) = PDict (zip ks ws)"
      using d lk by (intro dict_of_distinct) simp
    ultimately show ?thesis using n c by simp
  qed
qed

section \<open>Every written value reads back\<close>

lemma sort_key_map_snd:
  "map (map_prod id f) (sort_key fst kvs) = sort_key fst (map (map_prod id f) kvs)"
proof -
  have ins: "map (map_prod id f) (insort_key fst x xs) =
      insort_key fst (map_prod id f x) (map (map_prod id f) xs)" for x xs
    by (induction xs) auto
  show ?thesis by (induction kvs) (simp_all only: sort_key_simps ins list.map)
qed

lemma encode_object_Inr:
  "encode_object krs = Inr t \<longleftrightarrow> (\<exists>ts. map snd (sort_key fst krs) = map Inr ts \<and>
     t = ''{'' @ join '','' (map2 member (map fst (sort_key fst krs)) ts) @ ''}'')"
  by (auto simp: encode_object_def Let_def bindR_Inr_iff sequenceR_Inr_iff member_def)

lemma leaf_reads_back:
  "reads_back PNone ''null''"
  "reads_back (PBool True) ''true''" "reads_back (PBool False) ''false''"
  "reads_back (PStr s) (json_string s)"
  "parse_number t = Some (v, []) \<Longrightarrow> reads_back v t"
proof -
  have word: "reads_back v t" if "opens t" "hd t \<noteq> CHR 0x22" "hd t \<noteq> CHR ''[''" "hd t \<noteq> CHR ''{''"
    "\<And>e. ends e \<Longrightarrow> parse_literal (t @ e) = Some (v, e)" for v t
    unfolding reads_back_def
  proof (intro conjI allI impI)
    fix e n
    assume e: "ends e" and "length t \<le> n"
    moreover have "t \<noteq> []" using \<open>opens t\<close> by (simp add: opens_def)
    then obtain c r where "t = c # r" by (cases t) simp_all
    moreover from this obtain m where "n = Suc m" using \<open>length t \<le> n\<close> by (cases n) auto
    ultimately show "parse_value n (t @ e) = Some (v, e)" using that(2-4) that(5) [OF e] by simp
  qed (rule that(1))
  show "reads_back PNone ''null''" "reads_back (PBool True) ''true''"
    "reads_back (PBool False) ''false''"
    by (rule word; (rule parse_literal_words | simp add: opens_def json_ws_def))+
  show "reads_back v t" if "parse_number t = Some (v, [])"
  proof (rule word)
    show "opens t" using that by (rule number_opens)
    have "number_start (hd t)" using parse_number_start [OF that] by simp
    then show "hd t \<noteq> CHR 0x22" "hd t \<noteq> CHR ''[''" "hd t \<noteq> CHR ''{''"
      by (auto simp: number_start_def is_digit_def)
    show "parse_literal (t @ e) = Some (v, e)" if "ends e" for e
      using parse_number_end [OF \<open>parse_number t = Some (v, [])\<close> that] parse_literal_number by simp
  qed
  show "reads_back (PStr s) (json_string s)"
    unfolding reads_back_def
  proof (intro conjI allI impI)
    show "opens (json_string s)" by (simp add: json_string_def opens_def json_ws_def)
    fix e n
    assume "length (json_string s) \<le> n"
    then obtain m where "n = Suc m" by (cases n) (auto simp: json_string_def)
    then show "parse_value n (json_string s @ e) = Some (PStr s, e)"
      by (simp add: json_string_def parse_escapes)
  qed
qed

theorem dumps_reads_back: "json_dumps r v = Inr t \<Longrightarrow> storable v \<Longrightarrow> reads_back (canon v) t"
proof (induction v arbitrary: t)
  case (PList vs)
  then obtain ts where ts: "map (json_dumps r) vs = map Inr ts" "t = ''['' @ join '','' ts @ '']''"
    by (auto simp: encode_array_Inr)
  have "list_all2 reads_back (map canon vs) ts"
    using ts(1) PList.IH PList.prems(2)
    by (auto simp: list_all2_conv_all_nth list_all_length list_eq_iff_nth_eq)
  then show ?case using array_reads_back ts(2) by simp
next
  case (PTuple vs)
  then obtain ts where ts: "map (json_dumps r) vs = map Inr ts" "t = ''['' @ join '','' ts @ '']''"
    by (auto simp: encode_array_Inr)
  have "list_all2 reads_back (map canon vs) ts"
    using ts(1) PTuple.IH PTuple.prems(2)
    by (auto simp: list_all2_conv_all_nth list_all_length list_eq_iff_nth_eq)
  then show ?case using array_reads_back ts(2) by simp
next
  case (PDict kvs)
  obtain us where us: "us = sort_key fst kvs" by simp
  have s: "sort_key fst (map (map_prod id (json_dumps r)) kvs) = map (map_prod id (json_dumps r)) us"
    by (simp only: us sort_key_map_snd)
  obtain ts where ts: "map (json_dumps r \<circ> snd) us = map Inr ts"
      "t = ''{'' @ join '','' (map2 member (map fst us) ts) @ ''}''"
    using PDict.prems(1) by (auto simp: encode_object_Inr s comp_def)
  have "reads_back (canon (snd kv)) (projr (json_dumps r (snd kv)))"
    if "kv \<in> set us" "json_dumps r (snd kv) = Inr t'" for kv t'
    using that PDict.IH [of kv "snd kv" t'] PDict.prems(2)
    by (auto simp: us snds.simps list_all_iff split: prod.splits)
  then have "list_all2 reads_back (map (canon \<circ> snd) us) ts"
    using ts(1) by (auto simp: list_all2_conv_all_nth list_eq_iff_nth_eq)
  moreover have "distinct (map fst us)"
    using PDict.prems(2) by (simp add: us distinct_map)
  ultimately have "reads_back (PDict (zip (map fst us) (map (canon \<circ> snd) us))) t"
    using ts(2) object_reads_back by simp
  moreover have "canon (PDict kvs) = PDict (zip (map fst us) (map (canon \<circ> snd) us))"
  proof -
    have "canon (PDict kvs) = PDict (map (map_prod id canon) us)"
      by (simp only: canon.simps sort_key_map_snd us)
    also have "map (map_prod id canon) us = zip (map fst us) (map (canon \<circ> snd) us)"
      by (induction us) auto
    finally show ?thesis .
  qed
  ultimately show ?case by simp
qed (auto simp: leaf_reads_back parse_number_int float_text_def)

theorem loads_dumps:
  assumes "json_dumps r v = Inr t" and "storable v"
  shows "json_loads t = Inr (canon v)"
proof -
  have rb: "reads_back (canon v) t" using assms by (rule dumps_reads_back)
  then have "parse_value (Suc (length t)) (t @ []) = Some (canon v, [])"
    unfolding reads_back_def by (metis ends_simps(1) le_SucI order_refl)
  moreover have "skip_ws (t @ []) = t @ []" using rb unfolding reads_back_def by (intro opens_skip) simp
  ultimately show ?thesis by (simp add: json_loads_def skip_ws_def)
qed

end
