(* ===== verification/Journal_Run.thy ===== *)
theory Journal_Run
  imports Store_Facts Json_Roundtrip
begin

text \<open>
  The journal as a state machine: one rule per operation of the store, histories in which the wall
  clock does not run backwards, and the invariant every reachable journal satisfies. The claims an
  operation is called with are arbitrary: nothing is assumed of the worker that presents them.
  The journal never looks at the body of a step, so a submitted definition carries none; the
  input is a Python value as the model represents one (\<open>storable\<close>).
\<close>

section \<open>Steps and histories\<close>

inductive store_step :: "store_env \<Rightarrow> time \<Rightarrow> db \<Rightarrow> db \<Rightarrow> bool" for env now where
  step_submit: "submit env now fresh w inp timeout eid key s = (r, t) \<Longrightarrow> memo_ok (w :: unit workflow) \<Longrightarrow>
     storable inp \<Longrightarrow> store_step env now s t"
| step_register: "register_definition env now (w :: unit workflow) s = Inr (fp, t) \<Longrightarrow> store_step env now s t"
| step_claim: "claim_next env now owner ttl s = Inr (r, t) \<Longrightarrow> store_step env now s t"
| step_renew: "renew_lease env now c ttl s = Inr (c', t) \<Longrightarrow> store_step env now s t"
| step_release: "release_lease now c s = Inr (u, t) \<Longrightarrow> store_step env now s t"
| step_expire: "expire_deadlines now s = Inr (ids, t) \<Longrightarrow> store_step env now s t"
| step_start: "start_step now c sid ikey s = Inr (n, t) \<Longrightarrow> store_step env now s t"
| step_complete: "complete_step env now c sid out s = Inr (u, t) \<Longrightarrow> store_step env now s t"
| step_yield: "yield_execution now c why s = Inr (u, t) \<Longrightarrow> store_step env now s t"
| step_skip: "skip_step now c sid why s = Inr (u, t) \<Longrightarrow> store_step env now s t"
| step_fail: "fail_step now c sid etype emsg retry_at reason s = Inr (st, t) \<Longrightarrow>
     store_step env now s t"
| step_unknown: "mark_step_outcome_unknown now c sid why s = Inr (u, t) \<Longrightarrow> store_step env now s t"
| step_resolve: "resolve_step env now c sid st out det s = Inr (u, t) \<Longrightarrow> store_step env now s t"
| step_finish: "complete_execution env now c out s = Inr (u, t) \<Longrightarrow> store_step env now s t"
| step_fail_execution: "fail_execution now c kind msg s = Inr (u, t) \<Longrightarrow> store_step env now s t"
| step_time_out: "time_out_execution now c msg s = Inr (st, t) \<Longrightarrow> store_step env now s t"
| step_request: "request_cancellation_tx now eid reason s = Inr (u, t) \<Longrightarrow> store_step env now s t"
| step_acknowledge: "acknowledge_cancellation now c reason s = Inr (u, t) \<Longrightarrow> store_step env now s t"
| step_park: "mark_waiting now c why s = Inr (u, t) \<Longrightarrow> store_step env now s t"
| step_resume: "resume_waiting now eid reason s = Inr (u, t) \<Longrightarrow> store_step env now s t"

inductive reachable :: "store_env \<Rightarrow> time \<Rightarrow> db \<Rightarrow> bool" for env where
  start: "reachable env now empty_db"
| wait: "reachable env now s \<Longrightarrow> now \<le> later \<Longrightarrow> reachable env later s"
| act: "reachable env now s \<Longrightarrow> store_step env now s t \<Longrightarrow> reachable env now t"

section \<open>The keys of the tables\<close>

definition keys_ok :: "db \<Rightarrow> bool" where
  "keys_ok s \<longleftrightarrow>
     distinct (exec_order s) \<and> set (exec_order s) = dom (executions s) \<and>
     distinct (step_order s) \<and> set (step_order s) = dom (steps s) \<and>
     fst ` dom (steps s) \<subseteq> dom (executions s) \<and>
     dom (leases s) \<subseteq> dom (executions s) \<and> dom (retries s) \<subseteq> dom (executions s)"

text \<open>Operations on existing executions leave the keys alone, except for leases and retries.\<close>

definition same_keys :: "db \<Rightarrow> db \<Rightarrow> bool" where
  "same_keys s t \<longleftrightarrow> exec_order t = exec_order s \<and> step_order t = step_order s \<and>
     dom (executions t) = dom (executions s) \<and> dom (steps t) = dom (steps s) \<and>
     dom (leases t) \<subseteq> dom (leases s) \<union> dom (executions s) \<and>
     dom (retries t) \<subseteq> dom (retries s) \<union> dom (executions s)"

lemma same_keys_ok: "same_keys s t \<Longrightarrow> keys_ok s \<Longrightarrow> keys_ok t"
proof -
  assume st: "same_keys s t" and s: "keys_ok s"
  have "dom (leases t) \<subseteq> dom (leases s) \<union> dom (executions s)"
    and "dom (retries t) \<subseteq> dom (retries s) \<union> dom (executions s)"
    using st unfolding same_keys_def by blast+
  moreover have "dom (leases s) \<subseteq> dom (executions s)" "dom (retries s) \<subseteq> dom (executions s)"
    using s unfolding keys_ok_def by blast+
  ultimately have "dom (leases t) \<subseteq> dom (executions s)" "dom (retries t) \<subseteq> dom (executions s)"
    by blast+
  then show "keys_ok t" using s st unfolding keys_ok_def same_keys_def by (simp only:)
qed

interpretation keys: evolution same_keys
  by unfold_locales (simp_all add: same_keys_def, blast)

lemma same_keys_frame [simp]:
  "same_keys s (s\<lparr>events := v, next_event := n\<rparr>)"
  "same_keys s (s\<lparr>retries := (retries s)(eid := None)\<rparr>)"
  "executions s eid = Some x \<Longrightarrow> same_keys s (s\<lparr>executions := (executions s)(eid \<mapsto> x')\<rparr>)"
  "executions s eid = Some x \<Longrightarrow> same_keys s (s\<lparr>leases := (leases s)(eid \<mapsto> l)\<rparr>)"
  "leases s eid = Some l' \<Longrightarrow> same_keys s (s\<lparr>leases := (leases s)(eid \<mapsto> l)\<rparr>)"
  "executions s eid = Some x \<Longrightarrow> same_keys s (s\<lparr>retries := (retries s)(eid \<mapsto> y)\<rparr>)"
  "steps s k = Some r \<Longrightarrow> same_keys s (s\<lparr>steps := (steps s)(k \<mapsto> r')\<rparr>)"
  by (auto simp: same_keys_def)

named_theorems key_kept \<open>statements and operations that leave the keys of the tables alone\<close>

lemma append_event_keys [key_kept]: "keeps same_keys (append_event eid k now sid n det)"
  unfolding append_event_def by (rule keeps_mod) simp

lemma delete_retry_keys [key_kept]: "keeps same_keys (delete_retry eid)"
  unfolding delete_retry_def by (rule keeps_mod) simp

lemma release_lease_row_keys [key_kept]: "keeps same_keys (release_lease_row c now)"
  unfolding release_lease_row_def
  by (rule keeps_mod) (auto simp: keys.refl split: option.splits)

lemma set_execution_status_keys [key_kept]:
  "keeps same_keys (set_execution_status c target now extra allow)"
  by (rule keepsI) (auto simp: set_execution_status_Inr)

lemma set_step_state_keys [key_kept]: "keeps same_keys (set_step_state c sid target now extra allowed)"
  by (rule keepsI) (auto simp: set_step_state_Inr)

lemma guarded_exec_update_keys [key_kept]: "keeps same_keys (guarded_exec_update c now f)"
  by (rule keepsI) (auto simp: guarded_exec_update_Inr keys.refl split: option.splits if_splits)

lemma update_own_lease_keys [key_kept]: "keeps same_keys (update_own_lease c now what f)"
  by (rule keepsI) (auto simp: update_own_lease_def split: option.splits if_splits)

lemma explain_keys [key_kept]: "keeps same_keys (explain_refused_write c now what allow)"
  by (simp add: keeps_def)

lemma read_row_keys [key_kept]: "keeps same_keys (execution_row eid)"
    "keeps same_keys (get_step_row eid sid)"
  by (auto simp: keeps_def execution_row_Inr get_step_row_Inr keys.refl)

lemma expire_one_keys: "keeps same_keys (expire_one now eid)"
proof -
  have "same_keys s (case executions s eid of
             Some row \<Rightarrow> if b row then s\<lparr>executions := (executions s)(eid \<mapsto> f row)\<rparr> else s
           | None \<Rightarrow> s)" for s b f
    by (auto simp: keys.refl split: option.splits)
  then show ?thesis
    unfolding expire_one_def by (intro keys.composition key_kept keeps_mod)
qed

lemma expire_each_keys: "keeps same_keys (expire_each now eids)"
  by (induction eids) (auto intro: keys.composition expire_one_keys)

lemmas operation_defs = renew_lease_def release_lease_def expire_deadlines_def
  complete_step_def yield_execution_def skip_step_def time_out_execution_def fail_for_good_def
  mark_step_outcome_unknown_def resolve_step_def complete_execution_def fail_execution_def
  mark_waiting_def

lemma operation_keys [key_kept]:
  "keeps same_keys (renew_lease env now c ttl)"
  "keeps same_keys (release_lease now c)"
  "keeps same_keys (expire_deadlines now)"
  "keeps same_keys (complete_step env now c sid out)"
  "keeps same_keys (yield_execution now c why)"
  "keeps same_keys (skip_step now c sid why)"
  "keeps same_keys (time_out_execution now c msg)"
  "keeps same_keys (fail_for_good now c sid etype emsg reason n)"
  "keeps same_keys (mark_step_outcome_unknown now c sid why)"
  "keeps same_keys (resolve_step env now c sid st out det)"
  "keeps same_keys (complete_execution env now c out)"
  "keeps same_keys (fail_execution now c kind msg)"
  "keeps same_keys (mark_waiting now c why)"
  "keeps same_keys (cancel_owned now c reason)"
  unfolding operation_defs Let_def cancel_owned_def
  by (intro keys.composition key_kept expire_each_keys)+

lemma start_step_keys [key_kept]: "keeps same_keys (start_step now c sid ikey)"
  unfolding start_step_def Let_def by (intro keys.composition key_kept)

section \<open>What every execution row satisfies\<close>

text \<open>
  \<open>consistent now x l y\<close>: the row \<open>x\<close> of an execution with its lease \<open>l\<close> and scheduled retry
  \<open>y\<close>. A result is there exactly when it completed, a failure kind exactly when it ended without
  completing; a cancelled one carries the request; a retry is scheduled exactly while it is
  retrying, and then no lease is live; a running one has a lease.
\<close>

definition lapsed :: "time \<Rightarrow> lease_row option \<Rightarrow> bool" where
  "lapsed now l = (case l of None \<Rightarrow> True | Some r \<Rightarrow> l_expires r \<le> now)"

definition consistent :: "time \<Rightarrow> exec_row \<Rightarrow> lease_row option \<Rightarrow> retry_row option \<Rightarrow> bool" where
  "consistent now x l y \<longleftrightarrow>
     (x_result x \<noteq> None \<longleftrightarrow> x_status x = X_COMPLETED) \<and>
     (x_failure_kind x \<noteq> None \<longleftrightarrow> x_status x \<in> {X_FAILED, X_CANCELLED, X_TIMED_OUT}) \<and>
     (x_status x = X_CANCELLED \<longrightarrow> x_cancel_at x \<noteq> None \<and> x_failure_kind x = Some FK_CANCELLED) \<and>
     (x_status x = X_TIMED_OUT \<longrightarrow> x_failure_kind x = Some FK_TIMED_OUT) \<and>
     (y \<noteq> None \<longleftrightarrow> x_status x = X_RETRYING) \<and>
     (x_status x = X_RETRYING \<longrightarrow> lapsed now l) \<and>
     (x_status x = X_RUNNING \<longrightarrow> l \<noteq> None) \<and>
     (\<forall>r. l = Some r \<longrightarrow> 1 \<le> l_fence r)"

definition rows_ok :: "time \<Rightarrow> db \<Rightarrow> bool" where
  "rows_ok now s \<longleftrightarrow> (\<forall>eid x. executions s eid = Some x \<longrightarrow>
     consistent now x (leases s eid) (retries s eid))"

definition keeps_rows :: "time \<Rightarrow> db \<Rightarrow> db \<Rightarrow> bool" where
  "keeps_rows now s t \<longleftrightarrow> (rows_ok now s \<longrightarrow> rows_ok now t)"

interpretation rows: evolution "keeps_rows now"
  by unfold_locales (auto simp: keeps_rows_def)

lemma rows_ok_later: "rows_ok now s \<Longrightarrow> now \<le> later \<Longrightarrow> rows_ok later s"
  unfolding rows_ok_def consistent_def lapsed_def by (fastforce split: option.splits)

text \<open>An operation that touches one execution has only that one to answer for.\<close>

lemma rows_ok_focus:
  assumes "rows_ok now s" and "\<And>e. e \<noteq> eid \<Longrightarrow> executions t e = executions s e \<and>
      leases t e = leases s e \<and> retries t e = retries s e"
    and "\<And>x. executions t eid = Some x \<Longrightarrow> consistent now x (leases t eid) (retries t eid)"
  shows "rows_ok now t"
  using assms unfolding rows_ok_def by metis

lemma rows_okD: "rows_ok now s \<Longrightarrow> executions s eid = Some x \<Longrightarrow>
    consistent now x (leases s eid) (retries s eid)"
  by (simp add: rows_ok_def)

lemma rows_ok_frame [simp]:
  "rows_ok now (s\<lparr>events := v, next_event := n\<rparr>) = rows_ok now s"
  "rows_ok now (s\<lparr>steps := st\<rparr>) = rows_ok now s"
  "rows_ok now (s\<lparr>definitions := d\<rparr>) = rows_ok now s"
  by (simp_all add: rows_ok_def)

text \<open>Under a live lease an execution is not retrying, so it has no scheduled retry.\<close>

lemma guard_not_retrying:
  assumes "rows_ok now s" "lease_guard c now s" "executions s (c_execution c) = Some x"
  shows "x_status x \<noteq> X_RETRYING" "retries s (c_execution c) = None"
  using rows_okD [OF assms(1,3)] assms(2)
  by (auto simp: consistent_def lease_guard_def lapsed_def split: option.splits)

named_theorems row_kept \<open>statements and operations that keep every execution row consistent\<close>

lemma append_event_rows [row_kept]: "keeps (keeps_rows now) (append_event eid k m sid n det)"
  by (rule keepsI) (auto simp: append_event_def tx_iff keeps_rows_def)

lemma set_step_state_rows [row_kept]:
  "keeps (keeps_rows now) (set_step_state c sid target m extra allowed)"
  by (rule keepsI) (auto simp: set_step_state_Inr keeps_rows_def)

lemma read_row_rows [row_kept]: "keeps (keeps_rows now) (execution_row eid)"
    "keeps (keeps_rows now) (get_step_row eid sid)"
  by (auto simp: keeps_def execution_row_Inr get_step_row_Inr keeps_rows_def)

lemma explain_rows [row_kept]: "keeps (keeps_rows now) (explain_refused_write c m what allow)"
  by (simp add: keeps_def)

lemma rows_ok_lease:
  assumes ok: "rows_ok now s" and l: "leases s eid = Some l" and f: "l_fence l' = l_fence l"
    and e: "lapsed now (Some l) \<Longrightarrow> lapsed now (Some l')"
  shows "rows_ok now (s\<lparr>leases := (leases s)(eid \<mapsto> l')\<rparr>)"
proof (rule rows_ok_focus [OF ok])
  fix x
  assume "executions (s\<lparr>leases := (leases s)(eid \<mapsto> l')\<rparr>) eid = Some x"
  then have "consistent now x (Some l) (retries s eid)" using rows_okD [OF ok] l by fastforce
  then show "consistent now x (leases (s\<lparr>leases := (leases s)(eid \<mapsto> l')\<rparr>) eid)
      (retries (s\<lparr>leases := (leases s)(eid \<mapsto> l')\<rparr>) eid)"
    using f e by (auto simp: consistent_def)
qed auto

lemma rows_ok_update:
  assumes "rows_ok now s" and "consistent now x' (leases s eid) y'"
  shows "rows_ok now (s\<lparr>executions := (executions s)(eid \<mapsto> x'), retries := (retries s)(eid := y')\<rparr>)"
  using assms by (auto simp: rows_ok_def)

lemma rows_ok_update_row:
  assumes "rows_ok now s" and "consistent now x' (leases s eid) (retries s eid)"
  shows "rows_ok now (s\<lparr>executions := (executions s)(eid \<mapsto> x')\<rparr>)"
  using assms by (auto simp: rows_ok_def)

lemma release_lease_row_rows [row_kept]: "keeps (keeps_rows now) (release_lease_row c now)"
  by (rule keepsI)
    (auto simp: release_lease_row_def tx_iff keeps_rows_def lapsed_def intro: rows_ok_lease
      split: option.splits)

lemma update_own_lease_rows [row_kept]:
  assumes "\<And>l. l_fence (f l) = l_fence l"
  shows "keeps (keeps_rows now) (update_own_lease c now what f)"
  using assms by (intro keepsI)
    (auto simp: update_own_lease_def keeps_rows_def lapsed_def intro!: rows_ok_lease
      split: option.splits if_splits)

text \<open>
  A row that is neither ended nor retrying may take a new status, if the rest of the \<open>SET\<close> clause
  stores the result and the failure kind that belong to it.
\<close>

definition fits :: "execution_status \<Rightarrow> (exec_row \<Rightarrow> exec_row) \<Rightarrow> bool" where
  "fits target f \<longleftrightarrow> target \<notin> {X_RETRYING, X_CANCELLED} \<and>
     (\<forall>x. x_status (f x) = x_status x \<and>
        (x_result x = None \<and> x_failure_kind x = None \<longrightarrow>
          (x_result (f x) \<noteq> None \<longleftrightarrow> target = X_COMPLETED) \<and>
          (x_failure_kind (f x) \<noteq> None \<longleftrightarrow> target \<in> {X_FAILED, X_TIMED_OUT}) \<and>
          (target = X_TIMED_OUT \<longrightarrow> x_failure_kind (f x) = Some FK_TIMED_OUT)))"

lemma open_row:
  assumes "consistent now x l y" and "\<not> execution_is_terminal (x_status x)"
  shows "x_result x = None" "x_failure_kind x = None"
  using assms by (cases "x_status x"; simp add: consistent_def transition_defs)+

lemma allowed_open: "execution_transition_allowed a b \<Longrightarrow> \<not> execution_is_terminal a"
  using terminal_no_transition by blast

lemma set_execution_status_rows [row_kept]:
  assumes "fits target f"
  shows "keeps (keeps_rows now) (set_execution_status c target now f allow)"
proof (rule keepsI)
  fix s u t
  assume "set_execution_status c target now f allow s = Inr (u, t)"
  then obtain x where x: "executions s (c_execution c) = Some x"
    and move: "execution_transition_allowed (x_status x) target" and g: "lease_guard c now s"
    and t: "t = s\<lparr>executions := (executions s)(c_execution c \<mapsto>
        f (x\<lparr>x_status := target, x_updated := now\<rparr>))\<rparr>"
    by (auto simp: set_execution_status_Inr)
  show "keeps_rows now s t"
    unfolding keeps_rows_def t
  proof (intro impI rows_ok_update_row)
    assume ok: "rows_ok now s"
    note con = rows_okD [OF ok x]
    let ?x = "x\<lparr>x_status := target, x_updated := now\<rparr>"
    have "x_result ?x = None" "x_failure_kind ?x = None"
      using open_row [OF con allowed_open [OF move]] by simp_all
    moreover have "x_status (f ?x) = target" using assms by (simp add: fits_def)
    moreover obtain l where "leases s (c_execution c) = Some l"
      using g by (auto simp: lease_guard_def split: option.splits)
    ultimately show "consistent now (f ?x) (leases s (c_execution c)) (retries s (c_execution c))"
      using assms guard_not_retrying [OF ok g x] con unfolding fits_def consistent_def by auto
  qed
qed

lemma guarded_exec_update_rows [row_kept]:
  assumes "\<And>x. x_status (f x) = x_status x \<and> x_result (f x) = x_result x \<and>
      x_failure_kind (f x) = x_failure_kind x \<and> x_cancel_at (f x) = x_cancel_at x"
  shows "keeps (keeps_rows now) (guarded_exec_update c m f)"
proof (rule keepsI)
  fix s b t
  assume run: "guarded_exec_update c m f s = Inr (b, t)"
  have "consistent now (f x) l y = consistent now x l y" for x l y
    using assms [of x] by (simp add: consistent_def)
  then show "keeps_rows now s t"
    using run rows_okD by (auto simp: guarded_exec_update_Inr keeps_rows_def
        intro!: rows_ok_update_row split: option.splits if_splits)
qed

lemma fits_simps [simp]:
  "fits X_PENDING (\<lambda>x. x\<lparr>x_current := v\<rparr>)"
  "fits X_WAITING (\<lambda>x. x\<lparr>x_current := v\<rparr>)"
  "fits X_COMPLETED (\<lambda>x. x\<lparr>x_result := Some r, x_current := v\<rparr>)"
  "fits X_FAILED (\<lambda>x. x\<lparr>x_failure_kind := Some k, x_failure_message := w, x_current := v\<rparr>)"
  "fits X_TIMED_OUT (\<lambda>x. x\<lparr>x_failure_kind := Some FK_TIMED_OUT, x_failure_message := w,
     x_current := v\<rparr>)"
  by (simp_all add: fits_def)

lemma operation_rows [row_kept]:
  "keeps (keeps_rows now) (renew_lease env now c ttl)"
  "keeps (keeps_rows now) (release_lease now c)"
  "keeps (keeps_rows now) (start_step now c sid ikey)"
  "keeps (keeps_rows now) (complete_step env now c sid out)"
  "keeps (keeps_rows now) (yield_execution now c why)"
  "keeps (keeps_rows now) (skip_step now c sid why)"
  "keeps (keeps_rows now) (time_out_execution now c msg)"
  "keeps (keeps_rows now) (fail_for_good now c sid etype emsg reason n)"
  "keeps (keeps_rows now) (mark_step_outcome_unknown now c sid why)"
  "keeps (keeps_rows now) (resolve_step env now c sid st out det)"
  "keeps (keeps_rows now) (complete_execution env now c out)"
  "keeps (keeps_rows now) (fail_execution now c kind msg)"
  "keeps (keeps_rows now) (mark_waiting now c why)"
  unfolding operation_defs start_step_def Let_def
  by (intro rows.composition row_kept; simp)+

lemma release_lease_row_lapsed:
  assumes "release_lease_row c now s = Inr (u, t)" and "lease_guard c now s"
  shows "lapsed now (leases t (c_execution c))" "executions t = executions s" "retries t = retries s"
    "\<And>e. e \<noteq> c_execution c \<Longrightarrow> leases t e = leases s e"
    "\<exists>l. leases t (c_execution c) = Some l \<and> l_fence l = c_fence c"
  using assms by (auto simp: release_lease_row_def lease_guard_def lapsed_def tx_iff
      split: option.splits)

text \<open>A failed attempt with a retry: the retry row, the status and the released lease together.\<close>

lemma fail_and_retry_parts:
  assumes "fail_and_retry now c sid etype emsg reason n due s = Inr (st, t)"
  shows "\<exists>x s3 u4 s4. executions s (c_execution c) = Some x \<and>
    execution_transition_allowed (x_status x) X_RETRYING \<and> lease_guard c now s \<and>
    release_lease_row c now s3 = Inr (u4, s4) \<and>
    executions s3 = (executions s)(c_execution c \<mapsto>
        x\<lparr>x_status := X_RETRYING, x_updated := now, x_current := None\<rparr>) \<and>
    leases s3 = leases s \<and> (\<exists>y. retries s3 = (retries s)(c_execution c \<mapsto> y)) \<and>
    executions t = executions s4 \<and> leases t = leases s4 \<and> retries t = retries s4"
  using assms
  unfolding fail_and_retry_def seqT_Inr_iff set_step_state_Inr set_execution_status_Inr
      upsert_retry_def append_event_def modT_Inr_iff retT_Inr_iff
  apply clarify
  apply (intro exI conjI)
  prefer 4
  apply assumption
  apply simp
  apply assumption
  apply assumption
  apply simp_all
  done

lemma fail_and_retry_rows [row_kept]:
  "keeps (keeps_rows now) (fail_and_retry now c sid etype emsg reason n due)"
proof (rule keepsI)
  fix s st t
  assume "fail_and_retry now c sid etype emsg reason n due s = Inr (st, t)"
  then obtain x s3 u4 s4 where x: "executions s (c_execution c) = Some x"
    and move: "execution_transition_allowed (x_status x) X_RETRYING" and g: "lease_guard c now s"
    and rel: "release_lease_row c now s3 = Inr (u4, s4)"
    and s3: "executions s3 = (executions s)(c_execution c \<mapsto>
        x\<lparr>x_status := X_RETRYING, x_updated := now, x_current := None\<rparr>)"
      "leases s3 = leases s"
      "\<exists>y. retries s3 = (retries s)(c_execution c \<mapsto> y)"
    and t: "executions t = executions s4" "leases t = leases s4" "retries t = retries s4"
    using fail_and_retry_parts by metis
  have "lease_guard c now s3" using g s3 by (simp add: lease_guard_def)
  note rel = release_lease_row_lapsed [OF rel this]
  show "keeps_rows now s t"
    unfolding keeps_rows_def
  proof (rule impI, rule rows_ok_focus [where eid = "c_execution c"])
    assume ok: "rows_ok now s"
    show "rows_ok now s" by (rule ok)
    note con = rows_okD [OF ok x]
    show "executions t e = executions s e \<and> leases t e = leases s e \<and> retries t e = retries s e"
      if "e \<noteq> c_execution c" for e
      using that t rel s3 by auto
    fix x'
    assume "executions t (c_execution c) = Some x'"
    then have x': "x' = x\<lparr>x_status := X_RETRYING, x_updated := now, x_current := None\<rparr>"
      using t rel s3 by simp
    have "1 \<le> c_fence c"
      using con g by (auto simp: consistent_def lease_guard_def split: option.splits)
    then show "consistent now x' (leases t (c_execution c)) (retries t (c_execution c))"
      using open_row [OF con allowed_open [OF move]] rel t s3 unfolding x' consistent_def by auto
  qed
qed

lemma fail_step_rows [row_kept]:
  "keeps (keeps_rows now) (fail_step now c sid etype emsg retry_at reason)"
  unfolding fail_step_def
  by (intro rows.composition row_kept; cases retry_at; simp add: row_kept)

text \<open>Ending an execution from outside clears its retry in the same transaction.\<close>

lemma ended_row:
  assumes "consistent now x l y" and "\<not> execution_is_terminal (x_status x)"
    and "x_status x' \<in> {X_CANCELLED, X_TIMED_OUT}" and "x_result x' = x_result x"
    and "x_status x' = X_CANCELLED \<Longrightarrow> x_failure_kind x' = Some FK_CANCELLED \<and> x_cancel_at x' \<noteq> None"
    and "x_status x' = X_TIMED_OUT \<Longrightarrow> x_failure_kind x' = Some FK_TIMED_OUT"
  shows "consistent now x' l None"
  using assms open_row [OF assms(1,2)] by (auto simp: consistent_def)

lemma expire_one_rows [row_kept]: "keeps (keeps_rows now) (expire_one now eid)"
proof (rule keepsI)
  fix s u t
  assume run: "expire_one now eid s = Inr (u, t)"
  show "keeps_rows now s t"
  proof (cases "\<exists>x. executions s eid = Some x \<and> \<not> execution_is_terminal (x_status x)")
    case True
    then obtain x where x: "executions s eid = Some x" "\<not> execution_is_terminal (x_status x)"
      by blast
    let ?x = "x\<lparr>x_status := X_TIMED_OUT, x_failure_kind := Some FK_TIMED_OUT,
        x_failure_message := Some msg_deadline, x_current := None, x_updated := now\<rparr>"
    have "rows_ok now t = rows_ok now
        (s\<lparr>executions := (executions s)(eid \<mapsto> ?x), retries := (retries s)(eid := None)\<rparr>)"
      using run x by (simp add: expire_one_def delete_retry_def append_event_def tx_iff rows_ok_def)
    then show ?thesis
      unfolding keeps_rows_def
      using x ended_row [OF rows_okD [OF _ x(1)] x(2), where x' = ?x] rows_ok_update by simp
  next
    case False
    then have "rows_ok now t = rows_ok now (s\<lparr>retries := (retries s)(eid := None)\<rparr>)"
      using run by (auto simp: expire_one_def delete_retry_def append_event_def tx_iff rows_ok_def
          split: option.splits)
    moreover have "rows_ok now (s\<lparr>retries := (retries s)(eid := None)\<rparr>)" if ok: "rows_ok now s"
    proof (rule rows_ok_focus [OF ok])
      fix x
      assume "executions (s\<lparr>retries := (retries s)(eid := None)\<rparr>) eid = Some x"
      then have "executions s eid = Some x" by simp
      with False rows_okD [OF ok this]
      show "consistent now x (leases (s\<lparr>retries := (retries s)(eid := None)\<rparr>) eid)
          (retries (s\<lparr>retries := (retries s)(eid := None)\<rparr>) eid)"
        by (auto simp: consistent_def transition_defs)
    qed auto
    ultimately show ?thesis by (simp add: keeps_rows_def)
  qed
qed

lemma expire_deadlines_rows [row_kept]: "keeps (keeps_rows now) (expire_deadlines now)"
proof -
  have "keeps (keeps_rows now) (expire_each now eids)" for eids
    by (induction eids) (auto intro: rows.composition row_kept)
  then show ?thesis unfolding expire_deadlines_def by (intro rows.composition)
qed

lemma finish_cancelled_rows [row_kept]: "keeps (keeps_rows now) (finish_cancelled eid now reason)"
proof (rule keepsI)
  fix s u t
  assume run: "finish_cancelled eid now reason s = Inr (u, t)"
  then obtain x where x: "executions s eid = Some x"
    by (auto simp: finish_cancelled_def bindT_Inr_iff execution_row_Inr)
  show "keeps_rows now s t"
  proof (cases "execution_is_terminal (x_status x)")
    case True
    then show ?thesis
      using run x by (simp add: finish_cancelled_def tx_iff keeps_rows_def)
  next
    case False
    let ?x = "x\<lparr>x_status := X_CANCELLED, x_failure_kind := Some FK_CANCELLED,
        x_failure_message := Some (cancel_message reason), x_current := None, x_updated := now,
        x_cancel_at := (case x_cancel_at x of None \<Rightarrow> Some now | Some t \<Rightarrow> Some t)\<rparr>"
    have "rows_ok now t = rows_ok now
        (s\<lparr>executions := (executions s)(eid \<mapsto> ?x), retries := (retries s)(eid := None)\<rparr>)"
      using run x False
      by (simp add: finish_cancelled_def delete_retry_def append_event_def tx_iff rows_ok_def)
    then show ?thesis
      unfolding keeps_rows_def
      using False ended_row [OF rows_okD [OF _ x] False, where x' = ?x] rows_ok_update
      by (simp split: option.splits)
  qed
qed

lemma rows_ok_cancel_request:
  assumes "rows_ok now s" and "executions s eid = Some x" and "x_cancel_at x = None"
    and "x_status x' = x_status x" "x_result x' = x_result x" "x_failure_kind x' = x_failure_kind x"
    and "x_cancel_at x' \<noteq> None"
  shows "rows_ok now (s\<lparr>executions := (executions s)(eid \<mapsto> x')\<rparr>)"
  using assms(1) rows_okD [OF assms(1,2)] assms(3-)
  by (intro rows_ok_update_row) (auto simp: consistent_def)

lemma request_cancellation_rows [row_kept]:
  "keeps (keeps_rows now) (request_cancellation_tx now eid reason)"
proof (rule keepsI)
  fix s u t
  assume run: "request_cancellation_tx now eid reason s = Inr (u, t)"
  then obtain x where x: "executions s eid = Some x"
    by (auto simp: request_cancellation_tx_def bindT_Inr_iff execution_row_Inr)
  show "keeps_rows now s t"
  proof (cases "execution_is_terminal (x_status x)")
    case True
    with run x show ?thesis by (auto simp: request_cancellation_tx_def tx_iff keeps_rows_def)
  next
    case False
    with run x obtain u1 s1 where r: "record_request eid now reason x s = Inr (u1, s1)"
      and rest: "(if lease_free s1 now eid then finish_cancelled eid now reason else retT ()) s1 =
        Inr (u, t)"
      by (auto simp: request_cancellation_tx_def bindT_Inr_iff seqT_Inr_iff execution_row_Inr
          getT_Inr_iff)
    have "keeps_rows now s s1"
      using r x by (auto simp: record_request_def keeps_rows_def tx_iff append_event_def
          intro: rows_ok_cancel_request split: if_splits)
    moreover have "keeps_rows now s1 t"
      using rest finish_cancelled_rows [THEN keepsD]
      by (auto simp: tx_iff keeps_rows_def split: if_splits)
    ultimately show ?thesis by (rule rows.trans)
  qed
qed

lemma cancel_owned_keeps:
  assumes ok: "rows_ok now s" and run: "cancel_owned now c reason s = Inr (u, t)"
    and req: "\<And>x. executions s (c_execution c) = Some x \<Longrightarrow> x_cancel_at x \<noteq> None"
  shows "rows_ok now t"
proof -
  obtain x where x: "executions s (c_execution c) = Some x"
    and move: "execution_transition_allowed (x_status x) X_CANCELLED"
    and t: "rows_ok now t = rows_ok now (s\<lparr>executions := (executions s)(c_execution c \<mapsto>
        x\<lparr>x_status := X_CANCELLED, x_updated := now, x_failure_kind := Some FK_CANCELLED,
          x_failure_message := Some (cancel_message reason), x_current := None\<rparr>),
        retries := (retries s)(c_execution c := None)\<rparr>)"
    using run by (auto simp: cancel_owned_def delete_retry_def append_event_def tx_iff rows_ok_def)
  show ?thesis
    unfolding t using ok req [OF x]
    by (intro rows_ok_update ended_row [OF rows_okD [OF ok x] allowed_open [OF move]]) auto
qed

lemma acknowledge_cancellation_rows [row_kept]:
  "keeps (keeps_rows now) (acknowledge_cancellation now c reason)"
proof (rule keepsI)
  fix s u t
  assume run: "acknowledge_cancellation now c reason s = Inr (u, t)"
  then obtain x v s1 where x: "executions s (c_execution c) = Some x"
    and r: "record_acknowledged (c_execution c) now reason x s = Inr (v, s1)"
    and rest: "cancel_owned now c reason s1 = Inr (u, t)"
    by (auto simp: acknowledge_cancellation_def seqT_Inr_iff split: option.splits)
  have "rows_ok now s1" if "rows_ok now s"
    using that r x by (auto simp: record_acknowledged_def tx_iff append_event_def
        intro: rows_ok_cancel_request split: if_splits)
  moreover have "x_cancel_at y \<noteq> None" if "executions s1 (c_execution c) = Some y" for y
    using that r x by (auto simp: record_acknowledged_def tx_iff append_event_def split: if_splits)
  ultimately show "keeps_rows now s t"
    using cancel_owned_keeps [OF _ rest] by (auto simp: keeps_rows_def)
qed

lemma resume_waiting_rows [row_kept]: "keeps (keeps_rows now) (resume_waiting now eid reason)"
proof (rule keepsI)
  fix s u t
  assume run: "resume_waiting now eid reason s = Inr (u, t)"
  then obtain x where x: "executions s eid = Some x" "x_status x = X_WAITING"
    by (auto simp: resume_waiting_def bindT_Inr_iff execution_row_Inr failT_Inr_iff split: if_splits)
  have "rows_ok now t = rows_ok now (s\<lparr>executions := (executions s)(eid \<mapsto>
      x\<lparr>x_status := X_PENDING, x_updated := now\<rparr>)\<rparr>)"
    using run x by (auto simp: resume_waiting_def tx_iff append_event_def)
  then show "keeps_rows now s t"
    using x by (auto simp: keeps_rows_def consistent_def dest: rows_okD intro!: rows_ok_update_row)
qed

section \<open>Claims and submissions spelled out\<close>

definition next_fence :: "db \<Rightarrow> string \<Rightarrow> int" where
  "next_fence s eid = (case leases s eid of None \<Rightarrow> 1 | Some l \<Rightarrow> l_fence l + 1)"

definition claim_of ::
    "string \<Rightarrow> string \<Rightarrow> exec_row \<Rightarrow> int \<Rightarrow> time \<Rightarrow> pyval \<Rightarrow> claim" where
  "claim_of eid owner row fence expires inp =
     \<lparr>c_execution = eid, c_owner = owner, c_fence = fence, c_workflow = x_workflow row,
      c_version = x_version row, c_fingerprint = x_fingerprint row, c_input = inp,
      c_status = X_RUNNING, c_expires = expires, c_deadline = x_deadline row,
      c_cancel = (x_cancel_at row \<noteq> None)\<rparr>"

definition claimed_db :: "db \<Rightarrow> string \<Rightarrow> string \<Rightarrow> exec_row \<Rightarrow> time \<Rightarrow> time \<Rightarrow> db" where
  "claimed_db s eid owner row now expires =
     s\<lparr>executions := (executions s)(eid \<mapsto> row\<lparr>x_status := X_RUNNING, x_updated := now\<rparr>),
       leases := (leases s)(eid \<mapsto> \<lparr>l_owner = owner, l_fence = next_fence s eid, l_acquired = now,
         l_heartbeat = now, l_expires = expires\<rparr>),
       retries := (retries s)(eid := None),
       events := events s @ [\<lparr>v_id = next_event s, v_execution = eid, v_kind = E_CLAIMED,
         v_step = None, v_attempt = None,
         v_detail = Some (claimed_detail owner (next_fence s eid)), v_at = now\<rparr>],
       next_event := Suc (next_event s)\<rparr>"

lemma claim_execution_Some:
  "claim_execution eid owner now expires s = Inr (Some c, t) \<longleftrightarrow>
     (\<exists>row inp. executions s eid = Some row \<and> claim_guard s now eid row \<and>
        json_loads (x_input row) = Inr inp \<and>
        c = claim_of eid owner row (next_fence s eid) expires inp \<and>
        t = claimed_db s eid owner row now expires)"
  by (auto simp: claim_execution_def seqT_Inr_iff bindT_Inr_iff modT_Inr_iff retT_Inr_iff
      read_claim_def execution_row_Inr liftT_Inr_iff load_def delete_retry_def append_event_def
      upsert_lease_def claim_of_def claimed_db_def next_fence_def split: option.splits)

lemma claim_execution_None:
  "claim_execution eid owner now expires s = Inr (None, t) \<longleftrightarrow>
     t = s \<and> (case executions s eid of None \<Rightarrow> True | Some row \<Rightarrow> \<not> claim_guard s now eid row)"
  by (auto simp: claim_execution_def seqT_Inr_iff bindT_Inr_iff retT_Inr_iff split: option.splits)

lemma claimable_guard: "claimable_row s now eid row \<Longrightarrow> claim_guard s now eid row"
  by (auto simp: claimable_row_def claim_guard_def claimable_execution_states_def)

text \<open>The oldest of a list under an integer key.\<close>

lemma oldest_by_None [simp]: "oldest_by f xs = None \<longleftrightarrow> xs = []"
  by (cases xs) (auto split: option.splits)

lemma oldest_by_Some: "oldest_by f xs = Some x \<Longrightarrow> x \<in> set xs \<and> (\<forall>y \<in> set xs. f x \<le> f y)"
  by (induction xs arbitrary: x) (fastforce split: option.splits if_splits)+

lemma candidate_Some:
  "candidate s now = Some eid \<Longrightarrow> claimable s now eid \<and>
     (\<forall>e \<in> set (exec_order s). claimable s now e \<longrightarrow> submitted_at s eid \<le> submitted_at s e)"
  unfolding candidate_def by (auto dest: oldest_by_Some)

lemma candidate_None: "candidate s now = None \<longleftrightarrow> (\<forall>e \<in> set (exec_order s). \<not> claimable s now e)"
  by (auto simp: candidate_def filter_empty_conv)

lemma claimableD: "claimable s now eid \<Longrightarrow> \<exists>row. executions s eid = Some row \<and> claimable_row s now eid row"
  by (auto simp: claimable_def split: option.splits)

definition claim_expiry :: "store_env \<Rightarrow> time \<Rightarrow> real option \<Rightarrow> time" where
  "claim_expiry env now ttl =
     now + timedelta (case ttl of None \<Rightarrow> lease_ttl_seconds env | Some t \<Rightarrow> t)"

lemma claim_next_Some:
  "claim_next env now owner ttl s = Inr (Some c, t) \<longleftrightarrow>
     \<not> blank owner \<and> (\<exists>eid row inp. candidate s now = Some eid \<and> executions s eid = Some row \<and>
        json_loads (x_input row) = Inr inp \<and>
        c = claim_of eid owner row (next_fence s eid) (claim_expiry env now ttl) inp \<and>
        t = claimed_db s eid owner row now (claim_expiry env now ttl))"
proof -
  have "claim_guard s now eid row" if "candidate s now = Some eid" "executions s eid = Some row"
    for eid row
    using that claimable_guard claimableD candidate_Some by fastforce
  then show ?thesis
    by (auto simp: claim_next_def Let_def failT_Inr_iff claim_execution_Some claim_expiry_def
        split: option.splits)
qed

lemma claim_next_None:
  "claim_next env now owner ttl s = Inr (None, t) \<longleftrightarrow>
     \<not> blank owner \<and> t = s \<and> (\<forall>e \<in> set (exec_order s). \<not> claimable s now e)"
proof -
  have "claim_execution eid owner now x s \<noteq> Inr (None, t)" if "candidate s now = Some eid" for eid x
    using that candidate_Some claimableD claimable_guard
    by (fastforce simp: claim_execution_None split: option.splits)
  then show ?thesis
    by (auto simp: claim_next_def Let_def failT_Inr_iff candidate_None [symmetric]
        split: option.splits)
qed

lemma claim_next_rows [row_kept]: "keeps (keeps_rows now) (claim_next env now owner ttl)"
proof (rule keepsI)
  fix s r t
  assume run: "claim_next env now owner ttl s = Inr (r, t)"
  show "keeps_rows now s t"
  proof (cases r)
    case None
    with run show ?thesis by (simp add: claim_next_None keeps_rows_def)
  next
    case (Some c)
    with run obtain eid row where row: "executions s eid = Some row"
      and t: "t = claimed_db s eid owner row now (claim_expiry env now ttl)"
      and cl: "claimable_row s now eid row"
      by (fastforce simp: claim_next_Some dest: candidate_Some claimableD)
    have open': "\<not> execution_is_terminal (x_status row)"
      using cl by (auto simp: claimable_row_def claimable_execution_states_def transition_defs)
    show ?thesis
      unfolding keeps_rows_def
    proof (rule impI, rule rows_ok_focus [where eid = eid])
      assume ok: "rows_ok now s"
      show "rows_ok now s" by (rule ok)
      fix x
      assume "executions t eid = Some x"
      then show "consistent now x (leases t eid) (retries t eid)"
        using open_row [OF rows_okD [OF ok row] open'] rows_okD [OF ok row]
        unfolding t by (auto simp: claimed_db_def consistent_def next_fence_def split: option.splits)
    qed (auto simp: t claimed_db_def)
  qed
qed

lemma claim_next_keys [key_kept]: "keeps same_keys (claim_next env now owner ttl)"
proof (rule keepsI)
  fix s r t
  assume run: "claim_next env now owner ttl s = Inr (r, t)"
  show "same_keys s t"
  proof (cases r)
    case None
    with run show ?thesis by (simp add: claim_next_None keys.refl)
  next
    case (Some c)
    with run show ?thesis
      by (auto simp: claim_next_Some claimed_db_def same_keys_def split: if_splits)
  qed
qed

lemma registered_frame:
  assumes "register_definition env now w s = Inr (fp, t)"
  shows "same_keys s t" "keeps_rows m s t"
  using assms unfolding register_definition_def
  by (auto simp: tx_iff Let_def same_keys_def keeps_rows_def split: option.splits if_splits)

lemma registered_executable:
  "register_definition env now w s = Inr (fp, t) \<Longrightarrow> memo_ok w \<Longrightarrow> executable w"
  unfolding register_definition_def by (auto simp: tx_iff dest: validate_executable)

lemma insert_steps_db:
  "steps (fold (insert_step eid) sids s) k =
     (if fst k = eid \<and> snd k \<in> set sids then Some new_step else steps s k)"
  "step_order (fold (insert_step eid) sids s) = step_order s @ map (Pair eid) sids"
  "executions (fold (insert_step eid) sids s) = executions s"
  "exec_order (fold (insert_step eid) sids s) = exec_order s"
  "leases (fold (insert_step eid) sids s) = leases s"
  "retries (fold (insert_step eid) sids s) = retries s"
  "events (fold (insert_step eid) sids s) = events s"
  "next_event (fold (insert_step eid) sids s) = next_event s"
  "definitions (fold (insert_step eid) sids s) = definitions s"
  by (induction sids arbitrary: s; cases k; auto simp: insert_step_def)+

definition submitted_db ::
    "store_env \<Rightarrow> time \<Rightarrow> 'b workflow \<Rightarrow> string \<Rightarrow> string \<Rightarrow> time option \<Rightarrow> string option \<Rightarrow> db \<Rightarrow> db" where
  "submitted_db env now w eid payload deadline key s =
     (let s1 = fold (insert_step eid) (step_ids w)
                 (insert_execution eid (new_execution env now w payload deadline) s) in
      s1\<lparr>events := events s1 @ [\<lparr>v_id = next_event s1, v_execution = eid, v_kind = E_SUBMITTED,
           v_step = None, v_attempt = None,
           v_detail = Some (submitted_detail (length (w_steps w)) key), v_at = now\<rparr>],
         next_event := Suc (next_event s1)\<rparr>)"

lemma submit_tx_new:
  assumes "executions s eid = None"
  shows "submit_tx env now w eid payload deadline key s =
    Inr (\<lparr>h_execution_id = eid, h_workflow = w_name w, h_version = w_version w,
          h_status = X_PENDING\<rparr>, submitted_db env now w eid payload deadline key s)"
  using assms by (simp add: submit_tx_def tx_simps append_event_def submitted_db_def Let_def)

lemma submit_tx_known:
  assumes "executions s eid = Some row"
  shows "submit_tx env now w eid payload deadline key s = Inr (h, t) \<Longrightarrow> t = s"
  using assms by (auto simp: submit_tx_def split: if_splits)

lemma submitted_rows:
  assumes "keys_ok s" "executions s eid = None" "rows_ok m s"
  shows "rows_ok m (submitted_db env now w eid payload deadline key s)"
proof (rule rows_ok_focus [OF assms(3), where eid = eid])
  have "leases s eid = None" "retries s eid = None"
    using assms(1,2) by (auto simp: keys_ok_def)
  then show "consistent m x (leases (submitted_db env now w eid payload deadline key s) eid)
      (retries (submitted_db env now w eid payload deadline key s) eid)"
    if "executions (submitted_db env now w eid payload deadline key s) eid = Some x" for x
    using that by (auto simp: submitted_db_def Let_def insert_steps_db insert_execution_def
        new_execution_def consistent_def)
qed (auto simp: submitted_db_def Let_def insert_steps_db insert_execution_def)

lemma submitted_keys:
  assumes ok: "keys_ok s" and new: "executions s eid = None" and w: "distinct (step_ids w)"
  shows "keys_ok (submitted_db env now w eid payload deadline key s)"
proof -
  have "(eid, sid) \<notin> dom (steps s)" for sid
    using ok new by (force simp: keys_ok_def)
  then have fresh: "steps s (eid, sid) = None" for sid by auto
  let ?t = "submitted_db env now w eid payload deadline key s"
  have st: "steps ?t k = (if fst k = eid \<and> snd k \<in> set (step_ids w) then Some new_step else steps s k)"
    for k by (simp add: submitted_db_def Let_def insert_steps_db insert_execution_def)
  have "dom (steps ?t) = dom (steps s) \<union> Pair eid ` set (step_ids w)"
    unfolding dom_def st by force
  moreover have "dom (executions ?t) = insert eid (dom (executions s))"
    and "exec_order ?t = exec_order s @ [eid]"
    and "step_order ?t = step_order s @ map (Pair eid) (step_ids w)"
    and "leases ?t = leases s" "retries ?t = retries s"
    by (auto simp: submitted_db_def Let_def insert_steps_db insert_execution_def)
  moreover have "eid \<notin> set (exec_order s)" using ok new by (auto simp: keys_ok_def)
  moreover have "fst ` (dom (steps s) \<union> Pair eid ` set (step_ids w)) \<subseteq> insert eid (dom (executions s))"
  proof -
    have "fst ` dom (steps s) \<subseteq> dom (executions s)" using ok unfolding keys_ok_def by blast
    then show ?thesis by (simp only: image_Un image_image fst_conv) blast
  qed
  moreover have "set (step_order s) \<inter> Pair eid ` set (step_ids w) = {}"
    using ok fresh by (auto simp: keys_ok_def)
  ultimately show ?thesis
    using ok w unfolding keys_ok_def by (simp add: distinct_map inj_on_def) blast
qed

lemma fail_and_retry_keys [key_kept]:
  "keeps same_keys (fail_and_retry now c sid etype emsg reason n due)"
proof (rule keepsI)
  fix s st t
  assume run: "fail_and_retry now c sid etype emsg reason n due s = Inr (st, t)"
  then obtain r x where r: "steps s (c_execution c, sid) = Some r"
    and x: "executions s (c_execution c) = Some x"
    by (auto simp: fail_and_retry_def seqT_Inr_iff set_step_state_Inr set_execution_status_Inr
        upsert_retry_def modT_Inr_iff)
  let ?s2 = "s\<lparr>steps := (steps s)((c_execution c, sid) \<mapsto>
        failed_attempt now etype emsg reason (r\<lparr>s_state := S_PENDING\<rparr>)),
      retries := (retries s)(c_execution c \<mapsto> \<lparr>y_step = sid, y_attempt = n + 1, y_due = due,
             y_error_type = Some etype, y_reason = reason\<rparr>)\<rparr>"
  let ?rest = "seqT (set_execution_status c X_RETRYING now (\<lambda>x. x\<lparr>x_current := None\<rparr>) False)
    (seqT (append_event (c_execution c) E_STEP_FAILED now (Some sid) (Some n) (Some etype))
    (seqT (release_lease_row c now)
    (seqT (append_event (c_execution c) E_RETRY_SCHEDULED now (Some sid) (Some (n + 1))
             (Some (''due='' @ to_iso due)))
    (retT S_PENDING))))"
  have "?rest ?s2 = Inr (st, t)"
    using run r unfolding fail_and_retry_def seqT_Inr_iff [where n = "seqT (upsert_retry _ _) _"]
      seqT_Inr_iff [where m = "upsert_retry _ _"] set_step_state_Inr
    by (auto simp: upsert_retry_def modT_Inr_iff)
  moreover have "keeps same_keys ?rest" by (intro keys.composition key_kept)
  ultimately have "same_keys ?s2 t" by (rule keepsD [rotated])
  moreover have "same_keys s ?s2" using r x by (auto simp: same_keys_def)
  ultimately show "same_keys s t" by (rule keys.trans [rotated])
qed

lemma fail_step_keys [key_kept]: "keeps same_keys (fail_step now c sid etype emsg retry_at reason)"
  unfolding fail_step_def
  by (intro keys.composition key_kept; cases retry_at; simp add: key_kept)

lemma update_row_keys:
  assumes "executions s eid = Some x" and "keeps same_keys m"
    and "seqT (modT (\<lambda>s. s\<lparr>executions := (executions s)(eid \<mapsto> x')\<rparr>)) m s = Inr (v, t)"
  shows "same_keys s t"
proof -
  have "same_keys (s\<lparr>executions := (executions s)(eid \<mapsto> x')\<rparr>) t"
    using assms(2,3) by (auto simp: seqT_Inr_iff modT_Inr_iff keeps_def)
  then show ?thesis using same_keys_frame(3) [OF assms(1)] keys.trans by blast
qed

lemma finish_cancelled_keys [key_kept]: "keeps same_keys (finish_cancelled eid now reason)"
proof -
  have "keeps same_keys (seqT (delete_retry eid) (append_event eid E_CANCELLED now None None reason))"
    by (intro keys.composition key_kept)
  then show ?thesis
    by (intro keepsI) (auto simp: finish_cancelled_def bindT_Inr_iff
        liftT_Inr_iff execution_row_Inr retT_Inr_iff keys.refl intro: update_row_keys split: if_splits)
qed

lemma request_cancellation_keys [key_kept]: "keeps same_keys (request_cancellation_tx now eid reason)"
proof (rule keepsI)
  fix s u t
  assume run: "request_cancellation_tx now eid reason s = Inr (u, t)"
  then obtain x where x: "executions s eid = Some x"
    by (auto simp: request_cancellation_tx_def bindT_Inr_iff execution_row_Inr)
  have "keeps same_keys (bindT (getT (\<lambda>s. lease_free s now eid)) (\<lambda>free.
      if free then finish_cancelled eid now reason else retT ()))"
    by (intro keys.composition key_kept)
  moreover have "same_keys s s1" if "record_request eid now reason x s = Inr (u1, s1)" for u1 s1
    using that x by (auto simp: record_request_def retT_Inr_iff keys.refl
        intro: update_row_keys key_kept split: if_splits)
  ultimately show "same_keys s t"
    using run x by (auto simp: request_cancellation_tx_def bindT_Inr_iff [of "execution_row eid"]
        seqT_Inr_iff execution_row_Inr retT_Inr_iff keys.refl keeps_def intro: keys.trans
        split: if_splits)
qed

lemma acknowledge_keys [key_kept]: "keeps same_keys (acknowledge_cancellation now c reason)"
proof (rule keepsI)
  fix s u t
  assume "acknowledge_cancellation now c reason s = Inr (u, t)"
  then obtain x v s1 where x: "executions s (c_execution c) = Some x"
    and r: "record_acknowledged (c_execution c) now reason x s = Inr (v, s1)"
    and rest: "cancel_owned now c reason s1 = Inr (u, t)"
    by (auto simp: acknowledge_cancellation_def seqT_Inr_iff split: option.splits)
  have "same_keys s s1"
    using r x by (auto simp: record_acknowledged_def retT_Inr_iff keys.refl
        intro: update_row_keys key_kept split: if_splits)
  moreover have "same_keys s1 t" using operation_keys(14) rest by (rule keepsD)
  ultimately show "same_keys s t" by (rule keys.trans)
qed

lemma resume_waiting_keys [key_kept]: "keeps same_keys (resume_waiting now eid reason)"
  by (auto simp: keeps_def resume_waiting_def bindT_Inr_iff execution_row_Inr failT_Inr_iff
      intro: update_row_keys key_kept split: if_splits)

section \<open>Every reachable journal\<close>

lemma submit_cases:
  assumes "submit env now fresh w inp timeout eid key s = (r, t)"
  obtains (refused) "t = s"
  | (registered) fp where "register_definition env now w s = Inr (fp, t)"
  | (submitted) fp s1 ident payload deadline h where
      "register_definition env now w s = Inr (fp, s1)"
      "dump inp (max_payload_bytes env) (what_input ident) = Inr payload"
      "submit_tx env now w ident payload deadline key s1 = Inr (h, t)" "r = Inr h"
  using assms unfolding submit_def
  by (auto simp: Let_def split: if_splits sum.splits option.splits)

text \<open>Every persisted input can be read back.\<close>

definition inputs_ok :: "db \<Rightarrow> bool" where
  "inputs_ok s \<longleftrightarrow> (\<forall>eid x. executions s eid = Some x \<longrightarrow> (\<exists>v. json_loads (x_input x) = Inr v))"

lemma inputs_kept:
  assumes "inputs_ok s" "evolves s t" "same_keys s t"
  shows "inputs_ok t"
  unfolding inputs_ok_def
proof (intro allI impI)
  fix eid y
  assume y: "executions t eid = Some y"
  then have "eid \<in> dom (executions s)" using assms(3) unfolding same_keys_def by blast
  then obtain x where x: "executions s eid = Some x" by blast
  then have "x_input y = x_input x"
    using y assms(2) by (force simp: evolves_def executions_evolve_def row_evolves_def same_work_def)
  then show "\<exists>v. json_loads (x_input y) = Inr v" using x assms(1) by (auto simp: inputs_ok_def)
qed

definition journal_ok :: "time \<Rightarrow> db \<Rightarrow> bool" where
  "journal_ok now s \<longleftrightarrow> keys_ok s \<and> rows_ok now s \<and> inputs_ok s"

lemma dump_loads: "dump v limit what = Inr t \<Longrightarrow> storable v \<Longrightarrow> json_loads t = Inr (canon v)"
  by (auto simp: dump_def bindR_Inr_iff loads_dumps split: if_splits)

lemma submitted_inputs:
  assumes "inputs_ok s" and "json_loads payload = Inr v"
  shows "inputs_ok (submitted_db env now w eid payload deadline key s)"
  using assms by (auto simp: inputs_ok_def submitted_db_def Let_def insert_steps_db
      insert_execution_def new_execution_def)

lemma submit_tx_ok:
  assumes ok: "journal_ok now s" and w: "executable w" and v: "json_loads payload = Inr v"
    and run: "submit_tx env now w eid payload deadline key s = Inr (h, t)"
  shows "evolves s t \<and> journal_ok now t"
proof
  have d: "distinct (step_ids w)" using w by (simp add: executable_def steps_ok_def)
  have fresh: "steps s (eid, sid) = None" if "executions s eid = None" for sid
    using ok that by (force simp: journal_ok_def keys_ok_def)
  show "evolves s t" using d fresh run by (rule submit_tx_kept)
  show "journal_ok now t"
  proof (cases "executions s eid")
    case None
    then show ?thesis
      using run ok submitted_rows submitted_keys [OF _ _ d] submitted_inputs [OF _ v]
      by (auto simp: submit_tx_new journal_ok_def)
  next
    case (Some row)
    then show ?thesis using run submit_tx_known ok by blast
  qed
qed

lemma submit_ok:
  assumes ok: "journal_ok now s" and memo: "memo_ok w"
    and inp: "storable inp" and run: "submit env now fresh w inp timeout eid key s = (r, t)"
  shows "evolves s t \<and> journal_ok now t"
proof -
  have reg: "evolves s s1 \<and> journal_ok now s1" if "register_definition env now w s = Inr (fp, s1)"
    for fp s1
    using that ok registered_frame(1) [OF that] registered_frame(2) [OF that, of now]
      register_definition_kept same_keys_ok inputs_kept
    unfolding journal_ok_def keeps_rows_def keeps_def by blast
  from run show ?thesis
  proof (cases rule: submit_cases)
    case refused
    with ok show ?thesis by (simp add: journal.refl)
  next
    case (registered fp)
    then show ?thesis by (rule reg)
  next
    case (submitted fp s1 ident payload deadline h)
    have "executable w" using submitted(1) memo by (rule registered_executable)
    with submitted(3) reg [OF submitted(1)] dump_loads [OF submitted(2) inp] show ?thesis
      using submit_tx_ok journal.trans by blast
  qed
qed

lemma kept_ok:
  assumes "keeps evolves m" "keeps same_keys m" "keeps (keeps_rows now) m"
    and "journal_ok now s" "m s = Inr (x, t)"
  shows "evolves s t \<and> journal_ok now t"
  using assms(4,5) keepsD [OF assms(1,5)] keepsD [OF assms(2,5)] keepsD [OF assms(3,5)]
    same_keys_ok inputs_kept
  unfolding journal_ok_def keeps_rows_def by blast

lemma store_step_ok:
  assumes "store_step env now s t" and "journal_ok now s"
  shows "evolves s t \<and> journal_ok now t"
  using assms
proof (cases rule: store_step.cases)
  case (step_submit fresh w inp timeout eid key r)
  then show ?thesis using submit_ok assms(2) by blast
next
  case (step_register w fp)
  then show ?thesis
    using assms(2) registered_frame [OF step_register] register_definition_kept same_keys_ok
      inputs_kept
    unfolding journal_ok_def keeps_rows_def keeps_def by blast
qed (rule kept_ok; (rule kept key_kept row_kept | assumption | rule assms(2)))+

lemma reachable_ok: "reachable env now s \<Longrightarrow> journal_ok now s"
proof (induction rule: reachable.induct)
  case start
  show ?case by (simp add: journal_ok_def keys_ok_def rows_ok_def inputs_ok_def empty_db_def)
next
  case (wait now s later)
  then show ?case using rows_ok_later by (auto simp: journal_ok_def)
next
  case (act now s t)
  then show ?case using store_step_ok by blast
qed

end
