(* ===== verification/Fencing.thy ===== *)
theory Fencing
  imports Journal_Run
begin

text \<open>
  Why a worker that lost its lease can do no harm. The writes a claim authorises are collected in
  one relation, the contract a worker relies on is a locale (every committed write found the
  claim's own lease live, and the journal evolved), and what follows from the contract - a
  superseded claim never writes again, whatever happens in between - is proved inside it once.
\<close>

section \<open>Histories between two journals\<close>

inductive runs :: "store_env \<Rightarrow> time \<Rightarrow> db \<Rightarrow> time \<Rightarrow> db \<Rightarrow> bool" for env now s where
  runs_refl: "runs env now s now s"
| runs_wait: "runs env now s m t \<Longrightarrow> m \<le> later \<Longrightarrow> runs env now s later t"
| runs_act: "runs env now s m t \<Longrightarrow> store_step env m t u \<Longrightarrow> runs env now s m u"

lemma runs_ok:
  assumes "runs env now s m t" and "journal_ok now s"
  shows "journal_ok m t \<and> evolves s t \<and> now \<le> m"
  using assms
proof (induction rule: runs.induct)
  case runs_refl
  then show ?case by (simp add: journal.refl)
next
  case (runs_wait m t later)
  then show ?case using rows_ok_later by (auto simp: journal_ok_def)
next
  case (runs_act m t u)
  then show ?case using store_step_ok journal.trans by blast
qed

lemma reachable_runs: "reachable env now s \<Longrightarrow> runs env now s m t \<Longrightarrow> reachable env m t"
  by (rotate_tac, induction rule: runs.induct) (auto intro: reachable.intros)

section \<open>The writes of a claim\<close>

inductive claim_write :: "store_env \<Rightarrow> claim \<Rightarrow> time \<Rightarrow> db \<Rightarrow> db \<Rightarrow> bool" for env c now s t where
  "renew_lease env now c ttl s = Inr (c', t) \<Longrightarrow> claim_write env c now s t"
| "release_lease now c s = Inr (u, t) \<Longrightarrow> claim_write env c now s t"
| "start_step now c sid ikey s = Inr (n, t) \<Longrightarrow> claim_write env c now s t"
| "complete_step env now c sid out s = Inr (u, t) \<Longrightarrow> claim_write env c now s t"
| "yield_execution now c why s = Inr (u, t) \<Longrightarrow> claim_write env c now s t"
| "skip_step now c sid why s = Inr (u, t) \<Longrightarrow> claim_write env c now s t"
| "fail_step now c sid etype emsg retry_at reason s = Inr (st, t) \<Longrightarrow> claim_write env c now s t"
| "mark_step_outcome_unknown now c sid why s = Inr (u, t) \<Longrightarrow> claim_write env c now s t"
| "resolve_step env now c sid st out det s = Inr (u, t) \<Longrightarrow> claim_write env c now s t"
| "complete_execution env now c out s = Inr (u, t) \<Longrightarrow> claim_write env c now s t"
| "fail_execution now c kind msg s = Inr (u, t) \<Longrightarrow> claim_write env c now s t"
| "time_out_execution now c msg s = Inr (st, t) \<Longrightarrow> claim_write env c now s t"
| "acknowledge_cancellation now c reason s = Inr (u, t) \<Longrightarrow> claim_write env c now s t"
| "mark_waiting now c why s = Inr (u, t) \<Longrightarrow> claim_write env c now s t"

lemma claim_write_step: "claim_write env c now s t \<Longrightarrow> store_step env now s t"
  by (erule claim_write.cases) (blast intro: store_step.intros)+

text \<open>Which statement of an operation holds the guard.\<close>

named_theorems guarded \<open>committed writes found the claim's lease live\<close>

lemma set_status_guarded [guarded]:
  "set_execution_status c target now f allow s = Inr (u, t) \<Longrightarrow> lease_guard c now s"
  by (auto simp: set_execution_status_Inr)

lemma set_state_guarded [guarded]:
  "set_step_state c sid target now f allowed s = Inr (u, t) \<Longrightarrow> lease_guard c now s"
  by (auto simp: set_step_state_Inr)

lemma own_lease_guarded [guarded]:
  "update_own_lease c now what f s = Inr (u, t) \<Longrightarrow> lease_guard c now s"
  by (auto simp: update_own_lease_def lease_guard_def split: option.splits if_splits)

lemma time_out_guarded [guarded]: "time_out_execution now c msg s = Inr (st, t) \<Longrightarrow> lease_guard c now s"
  unfolding time_out_execution_def by (auto simp: seqT_Inr_iff dest: guarded)

lemma fail_step_guarded [guarded]:
  "fail_step now c sid etype emsg retry_at reason s = Inr (st, t) \<Longrightarrow> lease_guard c now s"
  unfolding fail_step_def fail_for_good_def fail_and_retry_def
  by (auto simp: seqT_Inr_iff bindT_Inr_iff get_step_row_Inr dest: guarded
      split: if_splits option.splits)

lemma resolve_step_guarded [guarded]:
  "resolve_step env now c sid st out det s = Inr (u, t) \<Longrightarrow> lease_guard c now s"
  unfolding resolve_step_def
  by (auto simp: seqT_Inr_iff bindT_Inr_iff liftT_Inr_iff retT_Inr_iff dest: guarded
      split: if_splits)

lemma acknowledge_guarded [guarded]:
  assumes "acknowledge_cancellation now c reason s = Inr (u, t)"
  shows "lease_guard c now s"
proof -
  obtain x v s1 where "record_acknowledged (c_execution c) now reason x s = Inr (v, s1)"
    and "cancel_owned now c reason s1 = Inr (u, t)"
    using assms by (auto simp: acknowledge_cancellation_def seqT_Inr_iff split: option.splits)
  then have "leases s1 = leases s" "lease_guard c now s1"
    by (auto simp: record_acknowledged_def cancel_owned_def tx_iff append_event_def
        split: if_splits dest: guarded)
  then show ?thesis by (simp add: lease_guard_def)
qed

lemma claim_write_guarded: "claim_write env c now s t \<Longrightarrow> lease_guard c now s"
  by (erule claim_write.cases)
    (auto simp: renew_lease_def release_lease_def start_step_Inr complete_step_def Let_def
      yield_execution_def skip_step_def mark_step_outcome_unknown_def complete_execution_def
      fail_execution_def mark_waiting_def seqT_Inr_iff bindT_Inr_iff liftT_Inr_iff
      get_step_row_Inr dest: guarded)

section \<open>The contract of a fenced writer\<close>

locale fenced_writer =
  fixes writes :: "claim \<Rightarrow> time \<Rightarrow> db \<Rightarrow> db \<Rightarrow> bool"
    and later :: "db \<Rightarrow> db \<Rightarrow> bool"
  assumes guard: "writes c now s t \<Longrightarrow> lease_guard c now s"
    and fences: "later s t \<Longrightarrow> leases_evolve s t"
begin

text \<open>Once the lease has moved past a claim, the claim is refused for ever.\<close>

lemma superseded:
  assumes "leases s (c_execution c) = Some l"
    and "c_fence c < l_fence l \<or> c_fence c = l_fence l \<and> c_owner c \<noteq> l_owner l"
    and "later s t"
  shows "\<not> writes c now t u"
proof
  assume "writes c now t u"
  then have "lease_guard c now t" by (rule guard)
  then obtain l' where l': "leases t (c_execution c) = Some l'" "l_owner l' = c_owner c"
    "l_fence l' = c_fence c"
    by (auto simp: lease_guard_def split: option.splits)
  have "lease_evolves l l'"
  proof -
    obtain b where "leases t (c_execution c) = Some b" "lease_evolves l b"
      using fences [OF assms(3)] assms(1) unfolding leases_evolve_def by blast
    with l'(1) show ?thesis by simp
  qed
  then have "l_fence l < c_fence c \<or> l_fence l = c_fence c \<and> l_owner l = c_owner c"
    unfolding lease_evolves_def l'(2,3) .
  with assms(2) show False by (elim disjE conjE) simp_all
qed

text \<open>Two claims that can both write at the same moment are the same ownership.\<close>

lemma single_writer:
  assumes "writes c now s t" and "writes d now s u" and "c_execution c = c_execution d"
  shows "c_owner c = c_owner d \<and> c_fence c = c_fence d"
  using guard [OF assms(1)] guard [OF assms(2)] assms(3)
  by (auto simp: lease_guard_def split: option.splits)

end

interpretation store_fence: fenced_writer "claim_write env" evolves
  by unfold_locales (auto simp: evolves_def dest: claim_write_guarded)

end
