(* ===== verification/Journal_History.thy ===== *)
theory Journal_History
  imports Fencing
begin

text \<open>
  What a whole history of the journal keeps: registered definitions stay, the event log starts at
  one and has no gap, and no reachable journal forgets what an earlier one held.
\<close>

section \<open>Registered definitions\<close>

definition same_definitions :: "db \<Rightarrow> db \<Rightarrow> bool" where
  "same_definitions s t \<longleftrightarrow> definitions t = definitions s"

interpretation defs: evolution same_definitions
  by unfold_locales (simp_all add: same_definitions_def)

named_theorems def_kept \<open>statements and operations that leave the registered definitions alone\<close>

lemma statement_definitions [def_kept]:
  "keeps same_definitions (append_event eid k now osid n det)"
  "keeps same_definitions (delete_retry eid)"
  "keeps same_definitions (upsert_retry eid r)"
  "keeps same_definitions (release_lease_row c now)"
  "keeps same_definitions (set_execution_status c target now extra allow)"
  "keeps same_definitions (set_step_state c sid tgt now xtra allowed)"
  "keeps same_definitions (guarded_exec_update c now f)"
  "keeps same_definitions (update_own_lease c now what g)"
  "keeps same_definitions (explain_refused_write c now what allow)"
  "keeps same_definitions (execution_row eid)"
  "keeps same_definitions (get_step_row eid sid)"
  by (auto simp: keeps_def same_definitions_def append_event_def delete_retry_def upsert_retry_def
    release_lease_row_def guarded_exec_update_Inr update_own_lease_def tx_iff
    split: option.splits if_splits)

lemma expire_one_definitions: "keeps same_definitions (expire_one now eid)"
  unfolding expire_one_def
  by (intro defs.composition def_kept keeps_mod) (auto simp: same_definitions_def split: option.splits)

lemma expire_each_definitions [def_kept]: "keeps same_definitions (expire_each now eids)"
  by (induction eids) (auto intro: defs.composition expire_one_definitions)

lemma update_execution_definitions [def_kept]:
  "keeps same_definitions (modT (\<lambda>s. s\<lparr>executions := f s\<rparr>))"
  by (rule keeps_mod) (simp add: same_definitions_def)

lemma operation_definitions [def_kept]:
  "keeps same_definitions (renew_lease env now c ttl)"
  "keeps same_definitions (release_lease now c)"
  "keeps same_definitions (expire_deadlines now)"
  "keeps same_definitions (start_step now c sid ikey)"
  "keeps same_definitions (complete_step env now c sid out)"
  "keeps same_definitions (yield_execution now c why)"
  "keeps same_definitions (skip_step now c sid why)"
  "keeps same_definitions (time_out_execution now c msg)"
  "keeps same_definitions (fail_for_good now c sid et em reason n)"
  "keeps same_definitions (fail_and_retry now c sid et em reason n due)"
  "keeps same_definitions (mark_step_outcome_unknown now c sid why)"
  "keeps same_definitions (resolve_step env now c sid st out det)"
  "keeps same_definitions (complete_execution env now c out)"
  "keeps same_definitions (fail_execution now c kind msg)"
  "keeps same_definitions (finish_cancelled eid now reason)"
  "keeps same_definitions (cancel_owned now c reason)"
  "keeps same_definitions (mark_waiting now c why)"
  "keeps same_definitions (resume_waiting now eid reason)"
  unfolding renew_lease_def release_lease_def expire_deadlines_def start_step_def complete_step_def
    yield_execution_def skip_step_def time_out_execution_def fail_for_good_def fail_and_retry_def
    mark_step_outcome_unknown_def resolve_step_def complete_execution_def fail_execution_def
    finish_cancelled_def cancel_owned_def mark_waiting_def resume_waiting_def Let_def
  by (intro defs.composition def_kept; simp)+

lemma fail_step_definitions [def_kept]:
  "keeps same_definitions (fail_step now c sid etype emsg retry_at reason)"
  unfolding fail_step_def by (intro defs.composition def_kept; cases retry_at; simp add: def_kept)

lemma claim_next_definitions [def_kept]: "keeps same_definitions (claim_next env now owner ttl)"
proof (rule keepsI)
  fix s r t assume "claim_next env now owner ttl s = Inr (r, t)"
  then show "same_definitions s t"
    by (cases r) (auto simp: claim_next_Some claim_next_None same_definitions_def claimed_db_def)
qed

lemma request_definitions [def_kept]:
  "keeps same_definitions (record_request eid now reason row)"
  "keeps same_definitions (record_acknowledged eid now reason row)"
  "keeps same_definitions (request_cancellation_tx now eid reason)"
  unfolding request_cancellation_tx_def record_request_def record_acknowledged_def
  by (intro defs.composition def_kept; simp)+

lemma acknowledge_definitions [def_kept]:
  "keeps same_definitions (acknowledge_cancellation now c reason)"
proof (rule keepsI)
  fix s u t assume "acknowledge_cancellation now c reason s = Inr (u, t)"
  then obtain row where
    "seqT (record_acknowledged (c_execution c) now reason row) (cancel_owned now c reason) s = Inr (u, t)"
    by (auto simp: acknowledge_cancellation_def split: option.splits)
  moreover have "keeps same_definitions
      (seqT (record_acknowledged (c_execution c) now reason row) (cancel_owned now c reason))"
    by (intro defs.composition def_kept)
  ultimately show "same_definitions s t" by (blast dest: keepsD)
qed

lemma registered_definitions:
  "register_definition env now w s = Inr (fp, t) \<Longrightarrow> definitions s \<subseteq>\<^sub>m definitions t \<and>
     (\<exists>row. definitions t (w_name w, w_version w) = Some row \<and>
        d_fingerprint row = definition_fingerprint env w) \<and> fp = definition_fingerprint env w"
  by (auto simp: register_definition_def tx_iff Let_def map_le_def split: option.splits if_splits)

lemma submitted_definitions [simp]:
  "definitions (submitted_db env now w eid payload deadline key s) = definitions s"
  by (simp add: submitted_db_def Let_def insert_steps_db insert_execution_def)

lemma submit_tx_definitions:
  "submit_tx env now w eid payload deadline key s = Inr (h, t) \<Longrightarrow> definitions t = definitions s"
  by (cases "executions s eid") (auto simp: submit_tx_new dest: submit_tx_known)

lemma kept_definitions:
  assumes "keeps same_definitions m" and "m s = Inr (x, t)"
  shows "definitions s \<subseteq>\<^sub>m definitions t"
  using keepsD [OF assms] by (simp add: same_definitions_def)

lemma store_step_definitions:
  assumes "store_step env now s t"
  shows "definitions s \<subseteq>\<^sub>m definitions t"
  using assms
proof (cases rule: store_step.cases)
  case (step_submit fresh w inp timeout eid key r)
  from step_submit(1) show ?thesis
    by (cases rule: submit_cases) (metis map_le_refl registered_definitions submit_tx_definitions)+
next
  case (step_register w fp)
  then show ?thesis using registered_definitions by blast
qed (rule kept_definitions; (rule def_kept | assumption))+

lemma runs_definitions: "runs env now s m t \<Longrightarrow> definitions s \<subseteq>\<^sub>m definitions t"
  by (induction rule: runs.induct) (auto dest: store_step_definitions intro: map_le_trans)

section \<open>The event log\<close>

definition log_ok :: "db \<Rightarrow> bool" where
  "log_ok s \<longleftrightarrow> 1 \<le> next_event s \<and> map v_id (events s) = [1 ..< next_event s]"

lemma log_ok_grows: "log_ok s \<Longrightarrow> events_grow s t \<Longrightarrow> log_ok t"
  using upt_split [of 1 "next_event s" "next_event t"] by (auto simp: log_ok_def events_grow_def)

lemma reachable_log: "reachable env now s \<Longrightarrow> log_ok s"
proof (induction rule: reachable.induct)
  case (act now s t)
  then show ?case using store_step_ok [OF act.hyps(2) reachable_ok [OF act.hyps(1)]]
    by (auto simp: evolves_def intro: log_ok_grows)
qed (simp_all add: log_ok_def empty_db_def)

section \<open>Histories seen from a reachable journal\<close>

lemma reachable_later:
  assumes "reachable env now s" and "runs env now s m t"
  shows "evolves s t" "journal_ok m t" "now \<le> m" "reachable env m t"
  using runs_ok [OF assms(2) reachable_ok [OF assms(1)]] reachable_runs [OF assms] by blast+

lemma step_runs: "store_step env now s t \<Longrightarrow> runs env now s now t"
  using runs_act [OF runs_refl] .

lemma runs_trans: "runs env m t k u \<Longrightarrow> runs env now s m t \<Longrightarrow> runs env now s k u"
  by (induction rule: runs.induct) (auto intro: runs_wait runs_act)

lemma evolves_lease:
  "evolves s t \<Longrightarrow> leases s eid = Some a \<Longrightarrow> \<exists>b. leases t eid = Some b \<and> lease_evolves a b"
  by (simp add: evolves_def leases_evolve_def)

lemma evolves_execution:
  "evolves s t \<Longrightarrow> executions s eid = Some a \<Longrightarrow> \<exists>b. executions t eid = Some b \<and> row_evolves a b"
  by (simp add: evolves_def executions_evolve_def)

lemma evolves_step:
  "evolves s t \<Longrightarrow> steps s k = Some a \<Longrightarrow> \<exists>b. steps t k = Some b \<and> step_evolves a b"
  unfolding evolves_def steps_evolve_def by blast

lemma evolves_events: "evolves s t \<Longrightarrow> \<exists>vs. events t = events s @ vs"
  by (auto simp: evolves_def events_grow_def)

end
