(* ===== verification/Scheduler.thy ===== *)
theory Scheduler
  imports Validation Durable_Models
begin

text \<open>
  \<open>durable/scheduler.py\<close>: the next action of an execution, from the definition and the persisted
  step states and outputs alone. States and outputs are the dictionaries the store returns; a
  branch predicate may raise, and then so does the plan.
\<close>

datatype plan_kind = RUN_STEP | SKIP_STEP | COMPLETE | CONFLICT | NEEDS_DECISION

record 'b plan =
  p_kind :: plan_kind
  p_step :: "'b wf_step option"
  p_value :: pyval
  p_outputs :: "(string \<times> pyval) list option"
  p_sources :: "string list"
  p_reason :: string

definition make_plan :: "plan_kind \<Rightarrow> 'b wf_step \<Rightarrow> pyval \<Rightarrow> string list \<Rightarrow> string \<Rightarrow> 'b plan" where
  "make_plan kind s v sources reason =
     \<lparr>p_kind = kind, p_step = Some s, p_value = v, p_outputs = None, p_sources = sources,
      p_reason = reason\<rparr>"

type_synonym states = "(string \<times> step_state) list"
type_synonym outputs = "(string \<times> pyval) list"

definition state_of :: "states \<Rightarrow> string \<Rightarrow> step_state" where
  "state_of states sid = (case map_of states sid of None \<Rightarrow> S_PENDING | Some st \<Rightarrow> st)"

definition output_of :: "outputs \<Rightarrow> string \<Rightarrow> pyval" where
  "output_of outs sid = (case map_of outs sid of None \<Rightarrow> PNone | Some v \<Rightarrow> v)"

section \<open>Taken edges\<close>

fun taken_edges ::
    "'b workflow \<Rightarrow> states \<Rightarrow> outputs \<Rightarrow> 'b wf_step list \<Rightarrow> exn + (string \<times> string) list" where
  "taken_edges w states outs [] = Inr []"
| "taken_edges w states outs (s # ss) =
     (if state_of states (st_id s) \<noteq> S_SUCCEEDED then taken_edges w states outs ss
      else bindR (select_edge (outgoing w (st_id s)) (output_of outs (st_id s))) (\<lambda>sel.
           bindR (taken_edges w states outs ss) (\<lambda>taken.
           Inr (case sel of None \<Rightarrow> taken | Some e \<Rightarrow> (e_source e, e_target e) # taken))))"

definition reached_by :: "'b workflow \<Rightarrow> (string \<times> string) list \<Rightarrow> string \<Rightarrow> string list" where
  "reached_by w taken sid =
     map e_source (filter (\<lambda>e. (e_source e, e_target e) \<in> set taken) (incoming w sid))"

definition unresolved_sources :: "'b workflow \<Rightarrow> states \<Rightarrow> string \<Rightarrow> string list" where
  "unresolved_sources w states sid =
     filter (\<lambda>src. \<not> step_is_terminal (state_of states src)) (map e_source (incoming w sid))"

section \<open>The plan\<close>

definition msg_unresolved_attempt :: "string \<Rightarrow> string" where
  "msg_unresolved_attempt sid = ''step '' @ py_repr sid @
     '' has an unresolved attempt: whether its effect happened is unknown, so it must be '' @
     ''reconciled or explicitly repeated before the run continues''"

definition msg_more_branches :: "string \<Rightarrow> string list \<Rightarrow> string" where
  "msg_more_branches sid reached = ''step '' @ py_repr sid @
     '' was reached by more than one branch ('' @ join '', '' (sort reached) @
     ''); branches that merge into one step must be mutually exclusive''"

definition msg_undecided :: "string \<Rightarrow> string" where
  "msg_undecided name = ''workflow '' @ py_repr name @
     '' has undecided steps but nothing is ready; the persisted step states cannot be '' @
     ''completed, which means the journal and the definition disagree''"

definition exit_outputs :: "'b workflow \<Rightarrow> outputs \<Rightarrow> outputs" where
  "exit_outputs w outs =
     map (\<lambda>s. (st_id s, output_of outs (st_id s)))
       (filter (\<lambda>s. st_id s \<in> set (map fst outs)) (exits w))"

text \<open>The decision about one open step: an action, or nothing yet because a source is open.\<close>

definition decide ::
    "'b workflow \<Rightarrow> states \<Rightarrow> outputs \<Rightarrow> (string \<times> string) list \<Rightarrow> 'b wf_step \<Rightarrow> 'b plan option" where
  "decide w states outs taken s =
     (let sid = st_id s; reached = reached_by w taken sid in
      if state_of states sid = S_OUTCOME_UNKNOWN then
        Some (make_plan NEEDS_DECISION s PNone [] (msg_unresolved_attempt sid))
      else if 1 < length reached then
        Some (make_plan CONFLICT s PNone (sort reached) (msg_more_branches sid reached))
      else if unresolved_sources w states sid \<noteq> [] then None
      else if incoming w sid \<noteq> [] \<and> reached = [] then
        Some (make_plan SKIP_STEP s PNone [] ''no branch reached this step'')
      else if incoming w sid = [] then
        Some (make_plan RUN_STEP s PNone [] '''')
      else Some (make_plan RUN_STEP s (output_of outs (hd reached)) [hd reached] ''''))"

fun plan_steps ::
    "'b workflow \<Rightarrow> states \<Rightarrow> outputs \<Rightarrow> (string \<times> string) list \<Rightarrow> 'b wf_step list \<Rightarrow> bool \<Rightarrow>
      exn + 'b plan" where
  "plan_steps w states outs taken [] undecided =
     (if undecided then Inl (raised ''DurableStateError'' (msg_undecided (w_name w)))
      else Inr \<lparr>p_kind = COMPLETE, p_step = None, p_value = PNone,
                p_outputs = Some (exit_outputs w outs), p_sources = [],
                p_reason = ''every step resolved''\<rparr>)"
| "plan_steps w states outs taken (s # ss) undecided =
     (if step_is_terminal (state_of states (st_id s))
      then plan_steps w states outs taken ss undecided
      else case decide w states outs taken s of
             Some p \<Rightarrow> Inr p
           | None \<Rightarrow> plan_steps w states outs taken ss True)"

definition plan_next :: "'b workflow \<Rightarrow> states \<Rightarrow> outputs \<Rightarrow> exn + 'b plan" where
  "plan_next w states outs =
     bindR (taken_edges w states outs (w_steps w))
       (\<lambda>taken. plan_steps w states outs taken (w_steps w) False)"

section \<open>What a plan means\<close>

definition is_open :: "states \<Rightarrow> 'b wf_step \<Rightarrow> bool" where
  "is_open states s = (\<not> step_is_terminal (state_of states (st_id s)))"

lemma plan_steps_Inr:
  "plan_steps w states outs taken ss undecided = Inr p \<Longrightarrow>
     (p_kind p = COMPLETE \<and> \<not> undecided \<and> p_outputs p = Some (exit_outputs w outs) \<and>
        (\<forall>s \<in> set ss. \<not> is_open states s)) \<or>
     (\<exists>s \<in> set ss. is_open states s \<and> decide w states outs taken s = Some p)"
  by (induction ss arbitrary: undecided) (fastforce simp: is_open_def split: if_splits option.splits)+

lemma plan_steps_Inl:
  "plan_steps w states outs taken ss undecided = Inl e \<Longrightarrow>
     e = raised ''DurableStateError'' (msg_undecided (w_name w)) \<and>
     (\<forall>s \<in> set ss. is_open states s \<longrightarrow> decide w states outs taken s = None) \<and>
     (undecided \<or> (\<exists>s \<in> set ss. is_open states s))"
  by (induction ss arbitrary: undecided) (fastforce simp: is_open_def split: if_splits option.splits)+

lemma decide_None: "decide w states outs taken s = None \<Longrightarrow> unresolved_sources w states (st_id s) \<noteq> []"
  by (auto simp: decide_def Let_def split: if_splits)

lemma unresolved_source:
  assumes "unresolved_sources w states sid \<noteq> []"
  shows "\<exists>e \<in> set (w_edges w). e_target e = sid \<and> \<not> step_is_terminal (state_of states (e_source e))"
  using assms by (auto simp: unresolved_sources_def filter_empty_conv)

text \<open>
  If every open step waited for an open source, the open steps would hold a cycle: on an
  executable definition the error about undecided steps is unreachable.
\<close>

lemma some_step_decided:
  assumes w: "executable w" and s: "s \<in> set (w_steps w)" "is_open states s"
  shows "\<exists>t \<in> set (w_steps w). is_open states t \<and> decide w states outs taken t \<noteq> None"
proof (rule ccontr)
  assume none: "\<not> ?thesis"
  let ?R = "st_id ` {t \<in> set (w_steps w). is_open states t}"
  have "\<exists>src \<in> ?R. (src, tgt) \<in> set (edge_pairs w)" if "tgt \<in> ?R" for tgt
  proof -
    obtain t where t: "t \<in> set (w_steps w)" "is_open states t" "tgt = st_id t" using \<open>tgt \<in> ?R\<close> by auto
    then have "unresolved_sources w states tgt \<noteq> []" using none decide_None by blast
    then obtain e where e: "e \<in> set (w_edges w)" "e_target e = tgt"
      "\<not> step_is_terminal (state_of states (e_source e))"
      using unresolved_source by blast
    have "e_source e \<in> st_id ` set (w_steps w)"
      using w e(1) by (auto simp: executable_def edges_ok_def step_ids_def)
    then obtain u where u: "u \<in> set (w_steps w)" "e_source e = st_id u" by blast
    have "is_open states u" using e(3) unfolding u(2) is_open_def .
    with u have "e_source e \<in> ?R" by blast
    moreover have "(e_source e, tgt) \<in> set (edge_pairs w)" using e by (auto simp: edge_pairs_def)
    ultimately show ?thesis by blast
  qed
  then have "\<not> acyclic (set (edge_pairs w))"
    using s by (intro all_blocked_cycle [of ?R]) auto
  then show False using w by (simp add: executable_def)
qed

lemma plan_next_total:
  assumes "executable w" and "taken_edges w states outs (w_steps w) = Inr taken"
  shows "\<exists>p. plan_next w states outs = Inr p"
proof (cases "plan_steps w states outs taken (w_steps w) False")
  case (Inl e)
  obtain s where "s \<in> set (w_steps w)" "is_open states s"
    using plan_steps_Inl [OF Inl] by blast
  then obtain t where "t \<in> set (w_steps w)" "is_open states t" "decide w states outs taken t \<noteq> None"
    using some_step_decided [OF assms(1)] by blast
  then have False using plan_steps_Inl [OF Inl, THEN conjunct2, THEN conjunct1] by simp
  then show ?thesis ..
next
  case (Inr p)
  then show ?thesis using assms(2) by (simp add: plan_next_def)
qed

text \<open>A taken edge leaves a step that succeeded, and is the one its output selects.\<close>

lemma taken_edges_Inr:
  "taken_edges w states outs ss = Inr taken \<Longrightarrow> (a, b) \<in> set taken \<longleftrightarrow>
     (\<exists>s \<in> set ss. \<exists>e. state_of states (st_id s) = S_SUCCEEDED \<and>
        select_edge (outgoing w (st_id s)) (output_of outs (st_id s)) = Inr (Some e) \<and>
        e_source e = a \<and> e_target e = b)"
  by (induction ss arbitrary: taken) (fastforce simp: bindR_Inr_iff split: if_splits option.splits)+

text \<open>The branch \<open>src\<close> took: its step succeeded and its output selects the edge to \<open>sid\<close>.\<close>

definition branches_to :: "'b workflow \<Rightarrow> states \<Rightarrow> outputs \<Rightarrow> string \<Rightarrow> string \<Rightarrow> bool" where
  "branches_to w states outs src sid \<longleftrightarrow> state_of states src = S_SUCCEEDED \<and>
     (\<exists>e. select_edge (outgoing w src) (output_of outs src) = Inr (Some e) \<and> e_target e = sid)"

lemma select_outgoing: "select_edge (outgoing w sid) v = Inr (Some e) \<Longrightarrow> e \<in> set (w_edges w) \<and> e_source e = sid"
  using select_edge_in by fastforce

lemma reached_by_iff:
  assumes w: "executable w" and taken: "taken_edges w states outs (w_steps w) = Inr taken"
  shows "src \<in> set (reached_by w taken sid) \<longleftrightarrow> branches_to w states outs src sid"
proof
  assume "src \<in> set (reached_by w taken sid)"
  then have "(src, sid) \<in> set taken" by (auto simp: reached_by_def)
  then show "branches_to w states outs src sid"
    unfolding taken_edges_Inr [OF taken] branches_to_def using select_outgoing by fastforce
next
  assume b: "branches_to w states outs src sid"
  then obtain e where e: "select_edge (outgoing w src) (output_of outs src) = Inr (Some e)"
    "e_target e = sid" "state_of states src = S_SUCCEEDED" by (auto simp: branches_to_def)
  note out = select_outgoing [OF e(1)]
  have "e_source e \<in> st_id ` set (w_steps w)"
    using w out by (auto simp: executable_def edges_ok_def step_ids_def)
  then obtain s where "s \<in> set (w_steps w)" "st_id s = src" using out by auto
  then have "(src, sid) \<in> set taken"
    unfolding taken_edges_Inr [OF taken] using e out by auto
  then show "src \<in> set (reached_by w taken sid)"
    using out e(2) by (force simp: reached_by_def)
qed

lemma reached_by_distinct: "executable w \<Longrightarrow> distinct (reached_by w taken sid)"
proof -
  assume "executable w"
  then have "distinct (map (\<lambda>e. (e_source e, e_target e)) (w_edges w))"
    by (simp add: executable_def edges_ok_def edge_pairs_def)
  then have "distinct (map (\<lambda>e. (e_source e, e_target e)) (filter P (w_edges w)))" for P
    by (rule distinct_map_filter)
  then show ?thesis
    unfolding reached_by_def incoming_def by (auto simp: distinct_map inj_on_def)
qed

section \<open>The rules of the engine as a specification\<close>

text \<open>
  The four rules the module states, over persisted state: a step runs when every source resolved
  and exactly one branch reached it, is skipped when none did, two branches into one step stop
  the run, an undecided attempt is never handed out, and the run completes when nothing is open.
\<close>

definition sources_resolved :: "'b workflow \<Rightarrow> states \<Rightarrow> string \<Rightarrow> bool" where
  "sources_resolved w states sid \<longleftrightarrow>
     (\<forall>e \<in> set (w_edges w). e_target e = sid \<longrightarrow> step_is_terminal (state_of states (e_source e)))"

definition may_run :: "'b workflow \<Rightarrow> states \<Rightarrow> outputs \<Rightarrow> string \<Rightarrow> string list \<Rightarrow> pyval \<Rightarrow> bool" where
  "may_run w states outs sid sources v \<longleftrightarrow> state_of states sid \<noteq> S_OUTCOME_UNKNOWN \<and>
     sources_resolved w states sid \<and>
     (if incoming w sid = [] then sources = []
      else \<exists>src. sources = [src] \<and> v = output_of outs src \<and>
             (\<forall>x. branches_to w states outs x sid \<longleftrightarrow> x = src))"

definition may_skip :: "'b workflow \<Rightarrow> states \<Rightarrow> outputs \<Rightarrow> string \<Rightarrow> bool" where
  "may_skip w states outs sid \<longleftrightarrow> incoming w sid \<noteq> [] \<and> sources_resolved w states sid \<and>
     (\<forall>x. \<not> branches_to w states outs x sid)"

definition in_conflict :: "'b workflow \<Rightarrow> states \<Rightarrow> outputs \<Rightarrow> string \<Rightarrow> string list \<Rightarrow> bool" where
  "in_conflict w states outs sid sources \<longleftrightarrow> 1 < length sources \<and> distinct sources \<and> sorted sources \<and>
     (\<forall>x. x \<in> set sources \<longleftrightarrow> branches_to w states outs x sid)"

definition plan_spec :: "'b workflow \<Rightarrow> states \<Rightarrow> outputs \<Rightarrow> 'b plan \<Rightarrow> bool" where
  "plan_spec w states outs p \<longleftrightarrow>
     (case p_step p of
        None \<Rightarrow> p_kind p = COMPLETE \<and> (\<forall>s \<in> set (w_steps w). \<not> is_open states s) \<and>
          p_outputs p = Some (exit_outputs w outs)
      | Some s \<Rightarrow> s \<in> set (w_steps w) \<and> is_open states s \<and>
          (case p_kind p of
             RUN_STEP \<Rightarrow> may_run w states outs (st_id s) (p_sources p) (p_value p)
           | SKIP_STEP \<Rightarrow> may_skip w states outs (st_id s)
           | CONFLICT \<Rightarrow> in_conflict w states outs (st_id s) (p_sources p)
           | NEEDS_DECISION \<Rightarrow> state_of states (st_id s) = S_OUTCOME_UNKNOWN
           | COMPLETE \<Rightarrow> False))"

lemma unresolved_Nil: "unresolved_sources w states sid = [] \<longleftrightarrow> sources_resolved w states sid"
  by (auto simp: unresolved_sources_def sources_resolved_def filter_empty_conv)

lemma reached_incoming: "reached_by w taken sid \<noteq> [] \<Longrightarrow> incoming w sid \<noteq> []"
  by (auto simp: reached_by_def)

lemma decide_meets_spec:
  assumes w: "executable w" and taken: "taken_edges w states outs (w_steps w) = Inr taken"
    and s: "s \<in> set (w_steps w)" "is_open states s" and d: "decide w states outs taken s = Some p"
  shows "plan_spec w states outs p"
proof -
  obtain sid where sid: "sid = st_id s" by simp
  obtain reached where reached: "reached = reached_by w taken sid" by simp
  have reach: "x \<in> set reached \<longleftrightarrow> branches_to w states outs x sid" for x
    unfolding reached by (rule reached_by_iff [OF w taken])
  have dist: "distinct reached" unfolding reached by (rule reached_by_distinct [OF w])
  have inc: "reached \<noteq> [] \<Longrightarrow> incoming w sid \<noteq> []" unfolding reached by (rule reached_incoming)
  note d' = d [unfolded decide_def Let_def, folded sid, folded reached, unfolded unresolved_Nil]
  consider (unknown) "state_of states sid = S_OUTCOME_UNKNOWN"
    | (conflict) "state_of states sid \<noteq> S_OUTCOME_UNKNOWN" "1 < length reached"
    | (skip) "state_of states sid \<noteq> S_OUTCOME_UNKNOWN" "reached = []" "incoming w sid \<noteq> []"
    | (entry) "state_of states sid \<noteq> S_OUTCOME_UNKNOWN" "incoming w sid = []"
    | (branch) src where "state_of states sid \<noteq> S_OUTCOME_UNKNOWN" "reached = [src]"
    using inc by (cases reached rule: remdups_adj.cases) auto
  then show ?thesis
  proof cases
    case unknown
    then show ?thesis using d' s sid by (auto simp: plan_spec_def make_plan_def)
  next
    case conflict
    then have "p = make_plan CONFLICT s PNone (sort reached) (msg_more_branches sid reached)"
      using d' by simp
    then show ?thesis
      using conflict s sid reach dist by (simp add: plan_spec_def make_plan_def in_conflict_def)
  next
    case skip
    then have "p = make_plan SKIP_STEP s PNone [] ''no branch reached this step''"
      and "sources_resolved w states sid"
      using d' by (auto split: if_splits)
    then show ?thesis
      using skip s sid reach by (simp add: plan_spec_def make_plan_def may_skip_def)
  next
    case entry
    then have "reached = []" using inc by blast
    with entry d' have "p = make_plan RUN_STEP s PNone [] ''''" "sources_resolved w states sid"
      by (auto split: if_splits)
    then show ?thesis
      using entry s sid by (simp add: plan_spec_def make_plan_def may_run_def)
  next
    case (branch src)
    then have "p = make_plan RUN_STEP s (output_of outs src) [src] ''''"
      and "sources_resolved w states sid" "incoming w sid \<noteq> []"
      using d' inc by (auto split: if_splits)
    moreover have "branches_to w states outs x sid \<longleftrightarrow> x = src" for x
      using reach [of x] branch(2) by auto
    ultimately show ?thesis
      using branch s sid by (simp add: plan_spec_def make_plan_def may_run_def)
  qed
qed

lemma plan_meets_spec:
  assumes w: "executable w" and p: "plan_next w states outs = Inr p"
  shows "plan_spec w states outs p"
proof -
  obtain taken where taken: "taken_edges w states outs (w_steps w) = Inr taken"
    and run: "plan_steps w states outs taken (w_steps w) False = Inr p"
    using p by (auto simp: plan_next_def bindR_Inr_iff)
  show ?thesis
  proof (cases "\<exists>s \<in> set (w_steps w). is_open states s \<and> decide w states outs taken s = Some p")
    case True
    then show ?thesis using decide_meets_spec [OF w taken] by blast
  next
    case False
    then have none: "\<forall>s \<in> set (w_steps w). \<not> is_open states s"
      using plan_steps_Inr [OF run] by blast
    then have "plan_steps w states outs taken ss False =
        Inr \<lparr>p_kind = COMPLETE, p_step = None, p_value = PNone,
          p_outputs = Some (exit_outputs w outs), p_sources = [], p_reason = ''every step resolved''\<rparr>"
      if "set ss \<subseteq> set (w_steps w)" for ss
      using that by (induction ss) (auto simp: is_open_def)
    from this [OF order_refl] run
    have p: "p = \<lparr>p_kind = COMPLETE, p_step = None, p_value = PNone,
        p_outputs = Some (exit_outputs w outs), p_sources = [], p_reason = ''every step resolved''\<rparr>"
      by simp
    show ?thesis unfolding plan_spec_def p using none by simp
  qed
qed

end
