(* ===== verification/Definition_Properties.thy ===== *)
theory Definition_Properties
  imports Scheduler Json_Roundtrip Journal_Db
begin

text \<open>
  What validation, scheduling, retry policies and the stored representations promise. The sample
  definition \<open>sample\<close> (a step \<open>a\<close> that feeds \<open>b\<close> when its output is true and \<open>c\<close> otherwise) is what
  the theorems are applied to.
\<close>

section \<open>A sample definition\<close>

definition sample_fn :: callable_info where
  "sample_fn = \<lparr>ci_callable = True, ci_coroutine = True, ci_name = ''f'', ci_type = ''function'',
     ci_params = Some [(''v'', POSITIONAL_OR_KEYWORD), (''context'', POSITIONAL_OR_KEYWORD)],
     ci_hints = Some []\<rparr>"

definition sample_test :: predicate where
  "sample_test = \<lparr>pr_info = sample_fn\<lparr>ci_coroutine := False\<rparr>,
     pr_test = (\<lambda>v. Inr (v = PBool True))\<rparr>"

definition sample_step :: "string \<Rightarrow> unit wf_step" where
  "sample_step sid = \<lparr>st_id = sid, st_fn = sample_fn, st_body = (), st_retry = None,
     st_timeout = None, st_metadata = []\<rparr>"

definition sample :: "unit workflow" where
  "sample = \<lparr>w_name = ''demo'', w_version = ''1'', w_input_type = None,
     w_steps = [sample_step ''a'', sample_step ''b'', sample_step ''c''],
     w_edges = [\<lparr>e_source = ''a'', e_target = ''b'', e_when = Some sample_test\<rparr>,
                \<lparr>e_source = ''a'', e_target = ''c'', e_when = None\<rparr>],
     w_metadata = [], w_validated = False\<rparr>"

definition sample_env :: store_env where
  "sample_env = \<lparr>sha256_hex = id, float_repr = (\<lambda>_. ''1.0''),
     classes = \<lparr>ce_issubclass = (=), ce_isinstance = (\<lambda>_. True)\<rparr>, lease_ttl_seconds = 30,
     max_payload_bytes = 1000\<rparr>"

lemmas sample_defs = sample_def sample_step_def sample_fn_def sample_test_def sample_env_def

lemma sample_valid: "validate_workflow (classes sample_env) sample = Inr ()"
  by code_simp

lemma sample_executable: "executable sample"
  using sample_valid by (rule validate_workflow_executable)

section \<open>Validation\<close>

text \<open>
  C7: a definition that passes \<open>validate_workflow\<close> can be executed: it has steps, every
  identifier is declared once, every edge joins two distinct declared steps and appears once, an
  unconditional edge is the last of its source, and the edges form no cycle.
\<close>
theorem validated_definition_executable:
  assumes "validate_workflow ce w = Inr u"
  shows "w_steps w \<noteq> [] \<and> distinct (step_ids w) \<and>
    (\<forall>e \<in> set (w_edges w). e_source e \<in> set (step_ids w) \<and> e_target e \<in> set (step_ids w)) \<and>
    distinct (edge_pairs w) \<and> fallback_last (w_edges w) \<and> acyclic (set (edge_pairs w))"
  using validate_workflow_executable [OF assms] by (auto simp: executable_def steps_ok_def edges_ok_def)

theorem validated_definition_executable_witness: "acyclic (set (edge_pairs sample))"
  using validated_definition_executable [OF sample_valid] by simp

text \<open>
  C8: \<open>_validate_acyclic\<close>, Kahn's algorithm over in-degrees, accepts exactly the acyclic graphs
  among those the earlier checks let through.
\<close>
theorem acyclicity_check_exact:
  assumes "validate_steps w = Inr u" and "validate_edges w = Inr v"
  shows "validate_acyclic w = Inr () \<longleftrightarrow> acyclic (set (edge_pairs w))"
  using validate_steps_ok [OF assms(1)] validate_edges_ok [OF assms(2)] by (rule validate_acyclic_iff)

definition looped :: "unit workflow" where
  "looped = sample\<lparr>w_edges := w_edges sample @
     [\<lparr>e_source = ''b'', e_target = ''a'', e_when = None\<rparr>]\<rparr>"

theorem acyclicity_check_exact_witness: "\<not> acyclic (set (edge_pairs looped))"
proof -
  have ok: "validate_steps looped = Inr ()" "validate_edges looped = Inr ()"
    by code_simp+
  have "isl (validate_acyclic looped)" by code_simp
  then have "validate_acyclic looped \<noteq> Inr ()" by auto
  then show ?thesis by (simp add: acyclicity_check_exact [OF ok])
qed

section \<open>Scheduling\<close>

text \<open>Predicates that answer rather than raise.\<close>

definition predicates_answer :: "'b workflow \<Rightarrow> bool" where
  "predicates_answer w \<longleftrightarrow> (\<forall>e \<in> set (w_edges w). \<forall>p v. e_when e = Some p \<longrightarrow> \<not> isl (pr_test p v))"

lemma select_edge_answers:
  "(\<And>e p. e \<in> set es \<Longrightarrow> e_when e = Some p \<Longrightarrow> \<not> isl (pr_test p v)) \<Longrightarrow> \<exists>r. select_edge es v = Inr r"
proof (induction es)
  case Nil
  then show ?case by simp
next
  case (Cons e es)
  then obtain r where r: "select_edge es v = Inr r" by auto
  show ?case
  proof (cases "e_when e")
    case None
    then show ?thesis by simp
  next
    case (Some p)
    then obtain b where "pr_test p v = Inr b" using Cons.prems [of e p] by (cases "pr_test p v") auto
    then show ?thesis using Some r by simp
  qed
qed

lemma taken_edges_answers: "predicates_answer w \<Longrightarrow> \<exists>taken. taken_edges w states outs ss = Inr taken"
proof (induction ss)
  case Nil
  then show ?case by simp
next
  case (Cons s ss)
  moreover have "\<exists>r. select_edge (outgoing w (st_id s)) (output_of outs (st_id s)) = Inr r"
    using Cons.prems by (intro select_edge_answers) (auto simp: predicates_answer_def)
  ultimately show ?case by auto
qed

text \<open>
  C10: on a definition that passed validation \<open>plan_next\<close> always finds an action, whatever
  states and outputs the journal holds: it cannot report undecided steps with nothing ready.
\<close>
theorem plan_always_decides:
  assumes "executable w" and "predicates_answer w"
  shows "\<exists>p. plan_next w states outs = Inr p"
  using plan_next_total [OF assms(1)] taken_edges_answers [OF assms(2)] by blast

lemma sample_answers: "predicates_answer sample"
  by (simp add: predicates_answer_def sample_defs)

theorem plan_always_decides_witness:
  "\<exists>p. plan_next sample [(''a'', S_RUNNING), (''zz'', S_FAILED)] [] = Inr p"
  using sample_executable sample_answers by (rule plan_always_decides)

lemma sample_plans:
  "plan_next sample [(''a'', S_SUCCEEDED)] [(''a'', PBool True)] =
     Inr (make_plan RUN_STEP (sample_step ''b'') (PBool True) [''a''] '''')"
  "plan_next sample [(''b'', S_OUTCOME_UNKNOWN)] [] =
     Inr (make_plan RUN_STEP (sample_step ''a'') PNone [] '''')"
  by (simp_all add: plan_next_def decide_def state_of_def output_of_def sample_defs outgoing_def
    incoming_def reached_by_def unresolved_sources_def transition_defs make_plan_def)

text \<open>
  C9: \<open>plan_next\<close> refines its specification. It completes only when no step is open, with
  the outputs of the exit steps; it runs a step only when every source resolved, its own outcome
  is not unknown, and exactly one source branched to it, whose output is the step's input;
  it skips a step only when its sources resolved and none branched to it; it reports a conflict
  only when several sources branched to the step, and names them all.
\<close>
theorem plan_refines_spec:
  assumes "executable w" and "plan_next w states outs = Inr p"
  shows "plan_spec w states outs p"
  using assms by (rule plan_meets_spec)

theorem plan_refines_spec_witness:
  "may_run sample [(''a'', S_SUCCEEDED)] [(''a'', PBool True)] ''b'' [''a''] (PBool True)"
  using plan_refines_spec [OF sample_executable sample_plans(1)]
  by (simp add: plan_spec_def make_plan_def sample_step_def)

text \<open>
  the scheduler never hands out as work a step whose earlier attempt has an unknown outcome,
  nor one that already ended.
\<close>
theorem unknown_outcome_never_scheduled:
  assumes "executable w" and "plan_next w states outs = Inr p" and "p_step p = Some s"
    and "p_kind p = RUN_STEP"
  shows "state_of states (st_id s) \<noteq> S_OUTCOME_UNKNOWN \<and>
    \<not> step_is_terminal (state_of states (st_id s))"
  using plan_meets_spec [OF assms(1,2)] assms(3,4) by (auto simp: plan_spec_def may_run_def is_open_def)

theorem unknown_outcome_never_scheduled_witness:
  "state_of [(''b'', S_OUTCOME_UNKNOWN)] ''a'' \<noteq> S_OUTCOME_UNKNOWN"
  using unknown_outcome_never_scheduled [OF sample_executable sample_plans(2), of "sample_step ''a''"]
  by (simp add: make_plan_def sample_step_def)

section \<open>Branches, delays, cancellation\<close>

text \<open>
  \<open>select_edge\<close> takes at most one branch, the first in declaration order: every edge before
  it has a condition that answered false, and the edge taken has none or one that answered true.
\<close>
theorem first_matching_branch_taken:
  "select_edge es v = Inr (Some e) \<longleftrightarrow>
    (\<exists>xs ys. es = xs @ e # ys \<and> list_all (no_match v) xs \<and>
      (e_when e = None \<or> (\<exists>p. e_when e = Some p \<and> pr_test p v = Inr True)))"
  (is "?l es \<longleftrightarrow> (\<exists>xs ys. ?split es xs ys)")
proof (induction es)
  case Nil
  then show ?case by simp
next
  case (Cons a es)
  have "(\<exists>xs ys. ?split (a # es) xs ys) \<longleftrightarrow>
    a = e \<and> (e_when e = None \<or> (\<exists>p. e_when e = Some p \<and> pr_test p v = Inr True)) \<or>
    no_match v a \<and> (\<exists>xs ys. ?split es xs ys)" (is "?all \<longleftrightarrow> ?here \<or> ?there")
  proof
    assume ?all
    then obtain xs ys where s: "?split (a # es) xs ys" by blast
    then show "?here \<or> ?there" by (cases xs) auto
  next
    assume "?here \<or> ?there"
    then show ?all
    proof
      assume ?here
      then have "?split (a # es) [] es" by simp
      then show ?all by blast
    next
      assume ?there
      then obtain xs ys where "?split es xs ys" "no_match v a" by blast
      then have "?split (a # es) (a # xs) ys" by simp
      then show ?all by blast
    qed
  qed
  moreover have "?l (a # es) \<longleftrightarrow> ?here \<or> no_match v a \<and> ?l es"
    by (cases "e_when a") (force simp: no_match_def bindR_Inr_iff split: if_splits)+
  ultimately show ?case using Cons.IH by (simp only:)
qed

text \<open>
  a back-off built by \<open>Backoff\<close> gives every attempt a delay, between zero and the exponential
  delay capped at \<open>max_delay\<close>; jitter only ever shortens it, by at most its own share.
\<close>
theorem backoff_delay_bounded:
  assumes "make_backoff initial multiplier max_delay jitter = Inr b"
    and "1 \<le> n" and "0 \<le> rnd" and "rnd \<le> 1"
  shows "\<exists>d. delay_for b n rnd = Inr d \<and>
    (1 - jitter) * min (initial * multiplier ^ nat (n - 1)) max_delay \<le> d \<and>
    d \<le> min (initial * multiplier ^ nat (n - 1)) max_delay \<and> 0 \<le> d"
proof -
  obtain m where m: "m = min (initial * multiplier ^ nat (n - 1)) max_delay" by simp
  have b: "b = \<lparr>b_initial = initial, b_multiplier = multiplier, b_max_delay = max_delay,
      b_jitter = jitter\<rparr>" "0 \<le> initial" "1 \<le> multiplier" "0 \<le> max_delay" "0 \<le> jitter" "jitter \<le> 1"
    using assms(1) by (auto simp: make_backoff_def split: if_splits)
  have "jitter * rnd \<le> jitter * 1" using b assms(4) by (intro mult_left_mono) auto
  then have share: "0 \<le> 1 - jitter * rnd" "1 - jitter \<le> 1 - jitter * rnd" "1 - jitter * rnd \<le> 1"
    using b assms(3) by auto
  have m0: "0 \<le> m" using b by (simp add: m)
  then have "(1 - jitter) * m \<le> m * (1 - jitter * rnd)" "m * (1 - jitter * rnd) \<le> m"
    "0 \<le> m * (1 - jitter * rnd)"
    using share mult_right_mono [OF share(2)] mult_left_mono [OF share(3)]
    by (auto simp: mult.commute)
  moreover have "delay_for b n rnd = Inr (m * (1 - jitter * rnd))"
    using assms(2) b(1) m0 calculation(3) by (simp add: delay_for_def uncapped_delay_def m [symmetric])
  ultimately show ?thesis by (simp add: m [symmetric])
qed

theorem backoff_delay_bounded_witness:
  "\<exists>d. delay_for default_backoff 7 (1/2) = Inr d \<and> d \<le> 5"
proof -
  have "make_backoff (1/10) 2 5 0 = Inr default_backoff"
    by (simp add: make_backoff_def default_backoff_def)
  from backoff_delay_bounded [OF this, of 7 "1/2"] show ?thesis by fastforce
qed

text \<open>
  Without jitter the delays never shrink from one attempt to the next.
\<close>
theorem backoff_delay_monotone:
  assumes "make_backoff initial multiplier max_delay 0 = Inr b" and "1 \<le> m" and "m \<le> n"
    and "delay_for b m r = Inr d" and "delay_for b n q = Inr e"
  shows "d \<le> e"
proof -
  have b: "b = \<lparr>b_initial = initial, b_multiplier = multiplier, b_max_delay = max_delay,
      b_jitter = 0\<rparr>" "0 \<le> initial" "1 \<le> multiplier"
    using assms(1) by (auto simp: make_backoff_def split: if_splits)
  have "initial * multiplier ^ nat (m - 1) \<le> initial * multiplier ^ nat (n - 1)"
    using b assms(2,3) by (intro mult_left_mono power_increasing) auto
  then show ?thesis using assms(2-5) b(1)
    by (auto simp: delay_for_def uncapped_delay_def split: if_splits)
qed

theorem backoff_delay_monotone_witness: "(4/10::real) \<le> 32/10"
proof (rule backoff_delay_monotone [of "1/10" 2 5 default_backoff 3 6 0 _ 0])
  show "make_backoff (1/10) 2 5 0 = Inr default_backoff"
    by (simp add: make_backoff_def default_backoff_def)
  show "delay_for default_backoff 3 0 = Inr (4/10)" "delay_for default_backoff 6 0 = Inr (32/10)"
    by (simp_all add: delay_for_def uncapped_delay_def default_backoff_def)
qed simp_all

end
