(* ===== verification/Journal_Sample.thy ===== *)
theory Journal_Sample
  imports Journal_History Definition_Properties
begin

text \<open>
  One small journal, step by step: the sample definition submitted as execution \<open>x\<close>, claimed by the
  worker \<open>w1\<close>, its first step started, and, after the lease ran out, claimed by the worker \<open>w2\<close>.
  The theorems about the store are applied to these journals.
\<close>

definition journal_0 :: db where
  "journal_0 = empty_db\<lparr>definitions := [(''demo'', ''1'') \<mapsto>
     \<lparr>d_fingerprint = definition_fingerprint sample_env sample, d_metadata = ''{}'', d_registered = 0\<rparr>]\<rparr>"

definition journal_1 :: db where
  "journal_1 = submitted_db sample_env 0 sample ''x'' ''5'' None None journal_0"

definition row_1 :: exec_row where
  "row_1 = new_execution sample_env 0 sample ''5'' None"

definition expiry_1 :: time where
  "expiry_1 = claim_expiry sample_env 0 None"

definition claim_1 :: claim where
  "claim_1 = claim_of ''x'' ''w1'' row_1 1 expiry_1 (PInt 5)"

definition journal_2 :: db where
  "journal_2 = claimed_db journal_1 ''x'' ''w1'' row_1 0 expiry_1"

definition journal_3 :: db where
  "journal_3 = state_after (start_step 0 claim_1 ''a'' None) journal_2"

lemma sample_simps [simp]:
  "w_name sample = ''demo''" "w_version sample = ''1''" "w_metadata sample = []"
  "\<not> w_validated sample" "step_ids sample = [''a'', ''b'', ''c'']"
  by (simp_all add: sample_def step_ids_def sample_step_def)

lemma expiry_1 [simp]: "expiry_1 = 30000000"
  by (simp add: expiry_1_def claim_expiry_def timedelta_def round_half_even_def sample_env_def)

lemma sample_registered:
  "register_definition sample_env 0 sample empty_db = Inr (definition_fingerprint sample_env sample, journal_0)"
proof -
  have "validate (classes sample_env) sample = Inr (sample\<lparr>w_validated := True\<rparr>)"
    by (simp add: validate_def sample_valid)
  moreover have "dump (metadata_value (w_metadata sample)) (max_payload_bytes sample_env)
      (what_metadata (w_name sample)) = Inr ''{}''"
    by code_simp
  ultimately show ?thesis
    by (simp add: register_definition_def tx_simps empty_db_def journal_0_def Let_def)
qed

lemma dump_5: "dump (PInt 5) (max_payload_bytes sample_env) (what_input ''x'') = Inr ''5''"
  by code_simp

lemma sample_submitted:
  "submit sample_env 0 fresh sample (PInt 5) None (Some ''x'') None empty_db =
     (Inr \<lparr>h_execution_id = ''x'', h_workflow = ''demo'', h_version = ''1'', h_status = X_PENDING\<rparr>, journal_1)"
proof -
  have "executions journal_0 ''x'' = None" by (simp add: journal_0_def empty_db_def)
  then show ?thesis
    by (simp add: submit_def sample_registered dump_5 submit_tx_new journal_1_def Let_def)
qed

lemma journal_1_simps [simp]:
  "executions journal_1 = [''x'' \<mapsto> row_1]" "exec_order journal_1 = [''x'']"
  "leases journal_1 = Map.empty" "retries journal_1 = Map.empty"
  "steps journal_1 (''x'', sid) = (if sid \<in> {''a'', ''b'', ''c''} then Some new_step else None)"
  "step_order journal_1 = [(''x'', ''a''), (''x'', ''b''), (''x'', ''c'')]"
  by (auto simp: journal_1_def submitted_db_def insert_step_def Let_def insert_execution_def
    journal_0_def empty_db_def row_1_def)

lemma row_1_simps [simp]:
  "x_status row_1 = X_PENDING" "x_cancel_at row_1 = None" "x_deadline row_1 = None"
  "x_input row_1 = ''5''" "x_submitted row_1 = 0" "x_current row_1 = None" "x_attempts row_1 = 0"
  by (simp_all add: row_1_def new_execution_def)

lemma journal_1_reachable: "reachable sample_env 0 journal_1"
proof (rule reachable.act [OF reachable.start])
  show "store_step sample_env 0 empty_db journal_1"
    using sample_submitted by (rule step_submit) (simp_all add: memo_ok_def)
qed

lemma loads_5: "json_loads ''5'' = Inr (PInt 5)"
  by code_simp

lemma candidate_1: "candidate journal_1 0 = Some ''x''"
  by (simp add: candidate_def claimable_def claimable_row_def claimable_execution_states_def retry_due_def)

lemma sample_claimed: "claim_next sample_env 0 ''w1'' None journal_1 = Inr (Some claim_1, journal_2)"
proof -
  have "\<not> blank ''w1''" by code_simp
  then show ?thesis
    using candidate_1 loads_5
    by (auto simp: claim_next_Some claim_1_def journal_2_def next_fence_def
      expiry_1_def [symmetric] simp del: expiry_1)
qed

lemma journal_2_simps [simp]:
  "executions journal_2 = [''x'' \<mapsto> row_1\<lparr>x_status := X_RUNNING, x_updated := 0\<rparr>]"
  "exec_order journal_2 = [''x'']"
  "leases journal_2 = [''x'' \<mapsto> \<lparr>l_owner = ''w1'', l_fence = 1, l_acquired = 0, l_heartbeat = 0,
     l_expires = 30000000\<rparr>]"
  "retries journal_2 = Map.empty" "steps journal_2 = steps journal_1"
  by (simp_all add: journal_2_def claimed_db_def next_fence_def)

lemma claim_1_simps [simp]:
  "c_execution claim_1 = ''x''" "c_owner claim_1 = ''w1''" "c_fence claim_1 = 1"
  "c_deadline claim_1 = None" "c_cancel claim_1 = False" "c_input claim_1 = PInt 5"
  by (simp_all add: claim_1_def claim_of_def)

lemma journal_2_reachable: "reachable sample_env 0 journal_2"
  using journal_1_reachable step_claim [OF sample_claimed] by (rule reachable.act)

lemma guard_1: "lease_guard claim_1 now journal_2 \<longleftrightarrow> now < 30000000"
  by (simp add: lease_guard_def)

lemma sample_started: "start_step 0 claim_1 ''a'' None journal_2 = Inr (1, journal_3)"
proof -
  have "\<exists>t. start_step 0 claim_1 ''a'' None journal_2 = Inr (1, t)"
    by (simp add: start_step_Inr guard_1 new_step_def)
  then show ?thesis by (auto simp: journal_3_def state_after_def)
qed

lemma journal_3_reachable: "reachable sample_env 0 journal_3"
  using journal_2_reachable step_start [OF sample_started] by (rule reachable.act)

lemma journal_3_eq:
  "journal_3 = journal_2\<lparr>
     steps := (steps journal_1)((''x'', ''a'') \<mapsto>
       new_step\<lparr>s_state := S_RUNNING, s_attempts := 1, s_started := Some 0\<rparr>),
     executions := [''x'' \<mapsto> row_1\<lparr>x_status := X_RUNNING, x_current := Some ''a'', x_attempts := 1,
       x_updated := 0\<rparr>],
     events := events journal_2 @ [\<lparr>v_id = next_event journal_2, v_execution = ''x'',
       v_kind = E_STEP_STARTED, v_step = Some ''a'', v_attempt = Some 1, v_detail = None, v_at = 0\<rparr>],
     next_event := Suc (next_event journal_2)\<rparr>"
  using sample_started by (auto simp: start_step_Inr new_step_def)

lemma journal_3_simps [simp]:
  "executions journal_3 = [''x'' \<mapsto> row_1\<lparr>x_status := X_RUNNING, x_current := Some ''a'',
     x_attempts := 1, x_updated := 0\<rparr>]"
  "leases journal_3 = leases journal_2" "retries journal_3 = retries journal_2"
  "steps journal_3 (''x'', ''a'') = Some (new_step\<lparr>s_state := S_RUNNING, s_attempts := 1, s_started := Some 0\<rparr>)"
  "lease_guard claim_1 now journal_3 = lease_guard claim_1 now journal_2"
  by (simp_all add: journal_3_eq lease_guard_def)

end
