(* ===== verification/Journal_Properties.thy ===== *)
theory Journal_Properties
  imports Journal_Sample
begin

text \<open>
  What the durable execution journal promises to its users: exclusive ownership under fencing
  tokens, outcomes that are never overwritten, an append-only history, idempotent submission,
  bounded retries and honest cancellation. \<open>runs env now s m t\<close> is a history from the journal \<open>s\<close>
  at time \<open>now\<close> to the journal \<open>t\<close> at time \<open>m\<close>, by any operations of any callers.
\<close>

section \<open>Ownership\<close>

text \<open>
  C1: once an execution was claimed again, a claim that held it before can never commit another
  write to it: not a step result, not a renewal, not a terminal state, in any later history.
\<close>
theorem superseded_claim_never_writes:
  assumes "reachable env n s" and "lease_guard c n s"
    and "runs env n s m t" and "claim_next env m owner ttl t = Inr (Some d, u)"
    and "c_execution d = c_execution c" and "runs env m u k v"
  shows "\<not> claim_write env c k v v'"
proof -
  obtain l where l: "leases s (c_execution c) = Some l" "l_owner l = c_owner c" "l_fence l = c_fence c"
    using assms(2) by (auto simp: lease_guard_def split: option.splits)
  have st: "evolves s t" "reachable env m t" using reachable_later [OF assms(1,3)] by blast+
  then obtain l' where l': "leases t (c_execution c) = Some l'" "lease_evolves l l'"
    using l(1) by (blast dest: evolves_lease)
  have "\<exists>l''. leases u (c_execution c) = Some l'' \<and> l_fence l'' = l_fence l' + 1"
    using assms(4,5) l'(1) by (auto simp: claim_next_Some claim_of_def claimed_db_def next_fence_def)
  then obtain l'' where l'': "leases u (c_execution c) = Some l''" "c_fence c < l_fence l''"
    using l'(2) l(3) by (auto simp: lease_evolves_def)
  have "evolves u v"
    using reachable_later(1) [OF reachable.act [OF st(2) step_claim [OF assms(4)]] assms(6)] .
  then show ?thesis using store_fence.superseded [OF l''(1)] l''(2) by blast
qed

lemma sample_reclaimed:
  "\<exists>d u. claim_next sample_env 40000000 ''w2'' None journal_2 = Inr (Some d, u) \<and> c_execution d = ''x''"
proof -
  have "candidate journal_2 40000000 = Some ''x''"
    by (simp add: candidate_def claimable_def claimable_row_def claimable_execution_states_def lease_free_def)
  moreover have "\<not> blank ''w2''" by code_simp
  ultimately show ?thesis using loads_5 by (auto simp: claim_next_Some claim_of_def)
qed

theorem superseded_claim_never_writes_witness:
  "\<exists>u. reachable sample_env 40000000 u \<and> \<not> claim_write sample_env claim_1 40000000 u u"
proof -
  obtain d u where d: "claim_next sample_env 40000000 ''w2'' None journal_2 = Inr (Some d, u)"
    "c_execution d = ''x''" using sample_reclaimed by blast
  have wait: "runs sample_env 0 journal_2 40000000 journal_2"
    by (rule runs_wait [OF runs_refl]) simp
  have "\<not> claim_write sample_env claim_1 40000000 u u"
    by (rule superseded_claim_never_writes [OF journal_2_reachable _ wait d(1) _ runs_refl])
       (simp_all add: guard_1 d(2))
  moreover have "reachable sample_env 40000000 u"
    using reachable_runs [OF journal_2_reachable wait] step_claim [OF d(1)] by (rule reachable.act)
  ultimately show ?thesis by blast
qed

text \<open>
  at any moment at most one claim on an execution can write: two claims that could both commit
  to the same journal carry the same owner and the same fencing token.
\<close>
theorem at_most_one_writer:
  assumes "claim_write env c now s t" and "claim_write env d now s u"
    and "c_execution c = c_execution d"
  shows "c_owner c = c_owner d \<and> c_fence c = c_fence d"
  using assms by (rule store_fence.single_writer)

theorem at_most_one_writer_witness:
  "\<not> claim_write sample_env (claim_1\<lparr>c_fence := 7\<rparr>) 0 journal_2 journal_2"
proof
  assume "claim_write sample_env (claim_1\<lparr>c_fence := 7\<rparr>) 0 journal_2 journal_2"
  moreover have "claim_write sample_env claim_1 0 journal_2 journal_3"
    using sample_started by (rule claim_write.intros)
  ultimately have "(7::int) = 1"
    using at_most_one_writer [of sample_env "claim_1\<lparr>c_fence := 7\<rparr>" 0 journal_2 journal_2 claim_1]
    by auto
  then show False by simp
qed

text \<open>
  C2: every operation a worker performs with its claim commits only while the journal holds that
  very lease, with the claim's owner and token, and the lease has not expired.
\<close>
theorem claim_writes_under_live_lease:
  assumes "claim_write env c now s t"
  shows "\<exists>l. leases s (c_execution c) = Some l \<and> l_owner l = c_owner c \<and> l_fence l = c_fence c \<and>
    now < l_expires l"
  using claim_write_guarded [OF assms] by (auto simp: lease_guard_def split: option.splits)

theorem claim_writes_under_live_lease_witness:
  "\<not> claim_write sample_env claim_1 30000000 journal_2 journal_2"
  using claim_writes_under_live_lease [of sample_env claim_1 30000000 journal_2 journal_2] by auto

section \<open>Claims\<close>

text \<open>
  C5: \<open>claim_next\<close> takes the oldest execution that may be claimed at this moment. It was pending, or
  retrying with its retry due, or running under a lease that had expired; its deadline has not
  passed; the claim carries the execution's definition and decoded input, a fencing token larger
  than every earlier one, and a lease that runs until \<open>now + ttl\<close>.
\<close>
theorem claim_takes_oldest_claimable:
  assumes "claim_next env now owner ttl s = Inr (Some c, t)"
  shows "\<exists>row. executions s (c_execution c) = Some row \<and>
    (x_status row \<in> {X_PENDING, X_RETRYING} \<and> retry_due s now (c_execution c) \<or>
     x_status row = X_RUNNING \<and> lease_free s now (c_execution c)) \<and>
    (\<forall>d. x_deadline row = Some d \<longrightarrow> now < d) \<and>
    (\<forall>e \<in> set (exec_order s). claimable s now e \<longrightarrow> x_submitted row \<le> submitted_at s e) \<and>
    json_loads (x_input row) = Inr (c_input c) \<and> c_fingerprint c = x_fingerprint row \<and>
    (\<forall>l. leases s (c_execution c) = Some l \<longrightarrow> c_fence c = l_fence l + 1) \<and>
    c_expires c = claim_expiry env now ttl \<and> (c_expires c > now \<longrightarrow> lease_guard c now t)"
proof -
  obtain eid row inp where c: "candidate s now = Some eid" "executions s eid = Some row"
    "json_loads (x_input row) = Inr inp"
    "c = claim_of eid owner row (next_fence s eid) (claim_expiry env now ttl) inp"
    "t = claimed_db s eid owner row now (claim_expiry env now ttl)"
    using assms by (auto simp: claim_next_Some)
  have "claimable_row s now eid row"
    "\<forall>e \<in> set (exec_order s). claimable s now e \<longrightarrow> submitted_at s eid \<le> submitted_at s e"
    using candidate_Some [OF c(1)] c(2) by (auto simp: claimable_def)
  then show ?thesis
    unfolding c(4) using c(2,3,5)
    by (auto simp: claim_of_def claimable_row_def claimable_execution_states_def submitted_at_def
      next_fence_def lease_guard_def claimed_db_def split: option.splits)
qed

theorem claim_takes_oldest_claimable_witness: "lease_guard claim_1 0 journal_2"
proof -
  have "c_expires claim_1 = 30000000" by (simp add: claim_1_def claim_of_def)
  then show ?thesis using claim_takes_oldest_claimable [OF sample_claimed] by fastforce
qed

text \<open>
  on a journal the program built, \<open>claim_next\<close> under a proper owner name never raises: it claims
  an execution when one is claimable and answers with nothing, writing nothing, exactly when none
  is.
\<close>
theorem claim_next_always_answers:
  assumes "reachable env now s" and "\<not> blank owner"
  shows "\<exists>r t. claim_next env now owner ttl s = Inr (r, t) \<and>
    (r = None \<longleftrightarrow> (\<forall>e \<in> dom (executions s). \<not> claimable s now e)) \<and> (r = None \<longrightarrow> t = s)"
proof -
  have ok: "keys_ok s" "inputs_ok s" using reachable_ok [OF assms(1)] by (simp_all add: journal_ok_def)
  have dom: "set (exec_order s) = dom (executions s)" using ok(1) by (simp add: keys_ok_def)
  show ?thesis
  proof (cases "candidate s now")
    case None
    then have "claim_next env now owner ttl s = Inr (None, s)"
      using assms(2) by (simp add: claim_next_None candidate_None)
    then show ?thesis using None dom by (auto simp: candidate_None)
  next
    case (Some eid)
    then obtain row where row: "executions s eid = Some row" "claimable s now eid"
      using candidate_Some claimableD by blast
    then obtain inp where inp: "json_loads (x_input row) = Inr inp" using ok(2) by (auto simp: inputs_ok_def)
    have "\<exists>c t. claim_next env now owner ttl s = Inr (Some c, t)"
      using assms(2) Some row(1) inp by (auto simp: claim_next_Some)
    then show ?thesis using row by blast
  qed
qed

theorem claim_next_always_answers_witness:
  "\<exists>t. claim_next sample_env 0 ''w2'' None journal_2 = Inr (None, t)"
proof -
  have "\<not> blank ''w2''" by code_simp
  from claim_next_always_answers [OF journal_2_reachable this, of None] show ?thesis
    by (auto simp: claimable_def claimable_row_def claimable_execution_states_def lease_free_def)
qed

text \<open>
  C6: of the executions without a deadline, exactly these become claimable if nobody touches them: a
  pending or retrying one without a cancellation request, and a running one, with or without such a
  request. From some time on - at once, when the retry is due, when the lease of the worker that
  holds it expires - they are claimable at every later time. Every other one is claimable at no
  time: one that ended, one that is parked, and a pending or retrying one with a cancellation
  request, which a resumed execution can be (\<open>resumed_cancelled_execution_stuck\<close>).
\<close>
theorem unfinished_execution_becomes_claimable:
  assumes "executions s eid = Some row" and "x_deadline row = None"
  shows "if x_status row = X_RUNNING \<or> x_status row \<in> {X_PENDING, X_RETRYING} \<and> x_cancel_at row = None
    then \<exists>from \<ge> now. \<forall>later \<ge> from. claimable s later eid
    else \<forall>later. \<not> claimable s later eid"
proof (cases "x_status row = X_RUNNING \<or> x_status row \<in> {X_PENDING, X_RETRYING} \<and> x_cancel_at row = None")
  case True
  let ?due = "case retries s eid of None \<Rightarrow> now | Some r \<Rightarrow> y_due r"
  let ?expiry = "case leases s eid of None \<Rightarrow> now | Some l \<Rightarrow> l_expires l"
  let ?from = "max now (max ?due ?expiry)"
  have "claimable s later eid" if "later \<ge> ?from" for later
  proof -
    have "retry_due s later eid" "lease_free s later eid"
      using that by (auto simp: retry_due_def lease_free_def split: option.splits)
    then show ?thesis
      using True assms by (auto simp: claimable_def claimable_row_def claimable_execution_states_def)
  qed
  moreover have "now \<le> ?from" by simp
  ultimately have "\<exists>from \<ge> now. \<forall>later \<ge> from. claimable s later eid" by blast
  with True show ?thesis by (simp only: if_True)
next
  case False
  then have "\<not> claimable s later eid" for later
    using assms by (auto simp: claimable_def claimable_row_def claimable_execution_states_def)
  then show ?thesis by (simp only: if_not_P [OF False] simp_thms)
qed

theorem unfinished_execution_becomes_claimable_witness:
  "\<exists>from \<ge> 0. \<forall>later \<ge> from. claimable journal_2 later ''x''"
  using unfinished_execution_becomes_claimable
    [of journal_2 "''x''" "row_1\<lparr>x_status := X_RUNNING, x_updated := 0\<rparr>" 0] by simp

section \<open>Statuses and outcomes\<close>

text \<open>
  C3: what a terminal execution recorded is final: in every later history its status, its result
  and its failure stay as they are.
\<close>
theorem outcome_is_final:
  assumes "reachable env now s" and "executions s eid = Some row"
    and "execution_is_terminal (x_status row)" and "runs env now s m t"
  shows "\<exists>row'. executions t eid = Some row' \<and> x_status row' = x_status row \<and>
    x_result row' = x_result row \<and> x_failure_kind row' = x_failure_kind row \<and>
    x_failure_message row' = x_failure_message row"
proof -
  obtain row' where "executions t eid = Some row'" "row_evolves row row'"
    using reachable_later(1) [OF assms(1,4)] assms(2) by (blast dest: evolves_execution)
  then show ?thesis using assms(3) terminal_stays by (auto simp: row_evolves_def same_outcome_def)
qed

lemma sample_cancelled:
  "\<exists>t. request_cancellation_tx 0 ''x'' None journal_1 = Inr ((), t) \<and>
    (\<exists>row. executions t ''x'' = Some row \<and> x_status row = X_CANCELLED)"
  by (simp add: request_cancellation_tx_def record_request_def finish_cancelled_def execution_row_def
    append_event_def delete_retry_def lease_free_def tx_simps require_execution_transition_def
    transition_defs)

theorem outcome_is_final_witness:
  "\<exists>t row. reachable sample_env 0 t \<and> executions t ''x'' = Some row \<and> x_status row = X_CANCELLED"
proof -
  obtain t row where t: "request_cancellation_tx 0 ''x'' None journal_1 = Inr ((), t)"
    "executions t ''x'' = Some row" "x_status row = X_CANCELLED" using sample_cancelled by blast
  have "reachable sample_env 0 t" using journal_1_reachable step_request [OF t(1)] by (rule reachable.act)
  moreover from outcome_is_final [OF this t(2) _ runs_refl] t(3)
  have "\<exists>row'. executions t ''x'' = Some row' \<and> x_status row' = X_CANCELLED"
    by (auto simp: transition_defs)
  ultimately show ?thesis by blast
qed

text \<open>
  between any two moments of a history an execution keeps the work it was submitted for, its
  status moves only along \<open>EXECUTION_TRANSITIONS\<close> and the step from waiting to pending that
  \<open>resume_waiting\<close> makes, and a cancellation request, once recorded, is never withdrawn.
\<close>
theorem execution_moves_along_table:
  assumes "reachable env now s" and "executions s eid = Some row" and "runs env now s m t"
  shows "\<exists>row'. executions t eid = Some row' \<and> may_move\<^sup>*\<^sup>* (x_status row) (x_status row') \<and>
    x_workflow row' = x_workflow row \<and> x_version row' = x_version row \<and>
    x_fingerprint row' = x_fingerprint row \<and> x_input row' = x_input row \<and>
    x_deadline row' = x_deadline row \<and> (x_cancel_at row \<noteq> None \<longrightarrow> x_cancel_at row' = x_cancel_at row)"
proof -
  obtain row' where "executions t eid = Some row'" "row_evolves row row'"
    using reachable_later(1) [OF assms(1,3)] assms(2) by (blast dest: evolves_execution)
  then show ?thesis by (auto simp: row_evolves_def same_work_def)
qed

theorem execution_moves_along_table_witness: "may_move\<^sup>*\<^sup>* X_PENDING X_RUNNING"
  using execution_moves_along_table [OF journal_1_reachable _ step_runs [OF step_claim [OF sample_claimed]],
    of "''x''" row_1] by auto

text \<open>
  C4: every journal the program can reach is consistent. A result is recorded exactly with the
  status completed and a failure exactly with failed, cancelled or timed out; a cancelled
  execution has the time of the request; a retry is scheduled exactly while retrying, and then
  no lease is live; a running execution has a lease; and every stored input can be decoded.
\<close>
theorem reachable_journal_consistent:
  assumes "reachable env now s" and "executions s eid = Some x"
  shows "(x_result x \<noteq> None \<longleftrightarrow> x_status x = X_COMPLETED) \<and>
    (x_failure_kind x \<noteq> None \<longleftrightarrow> x_status x \<in> {X_FAILED, X_CANCELLED, X_TIMED_OUT}) \<and>
    (x_status x = X_CANCELLED \<longrightarrow> x_cancel_at x \<noteq> None) \<and>
    (retries s eid \<noteq> None \<longleftrightarrow> x_status x = X_RETRYING) \<and>
    (x_status x = X_RETRYING \<longrightarrow> lease_free s now eid) \<and>
    (x_status x = X_RUNNING \<longrightarrow> leases s eid \<noteq> None) \<and>
    (\<exists>v. json_loads (x_input x) = Inr v)"
proof -
  have "consistent now x (leases s eid) (retries s eid)" "\<exists>v. json_loads (x_input x) = Inr v"
    using reachable_ok [OF assms(1)] assms(2) rows_okD by (auto simp: journal_ok_def inputs_ok_def)
  then show ?thesis by (auto simp: consistent_def lapsed_def lease_free_def)
qed

theorem reachable_journal_consistent_witness: "x_result row_1 = None"
  using reachable_journal_consistent [OF journal_1_reachable, of "''x''" row_1] by simp

text \<open>
  the event log is append-only and its identifiers are the natural numbers from one, without
  a gap, in the order of the events.
\<close>
theorem event_log_append_only:
  assumes "reachable env now s" and "runs env now s m t"
  shows "(\<exists>vs. events t = events s @ vs) \<and> map v_id (events t) = [1 ..< next_event t]"
  using evolves_events [OF reachable_later(1) [OF assms]] reachable_log [OF reachable_later(4) [OF assms]]
  by (simp add: log_ok_def)

theorem event_log_append_only_witness: "map v_id (events journal_2) = [1 ..< next_event journal_2]"
  using event_log_append_only [OF journal_1_reachable step_runs [OF step_claim [OF sample_claimed]]]
  by simp

section \<open>Submission\<close>

lemma register_again:
  assumes "register_definition env now w s = Inr (fp, t)" and "definitions t \<subseteq>\<^sub>m definitions u"
  shows "register_definition env m w u = Inr (fp, u)"
proof -
  obtain row where row: "definitions t (w_name w, w_version w) = Some row"
    "d_fingerprint row = definition_fingerprint env w" "fp = definition_fingerprint env w"
    using registered_definitions [OF assms(1)] by blast
  then have "definitions u (w_name w, w_version w) = Some row"
    using assms(2) by (metis domI map_le_def)
  then show ?thesis using assms(1) row
    by (auto simp: register_definition_def bindT_def liftT_def Let_def split: sum.splits)
qed

lemma submitted_work:
  assumes "submit_tx env now w eid payload deadline key s = Inr (h, t)"
  shows "\<exists>row. executions t eid = Some row \<and> x_workflow row = w_name w \<and> x_version row = w_version w \<and>
    x_fingerprint row = definition_fingerprint env w \<and> x_input row = payload \<and>
    h = \<lparr>h_execution_id = eid, h_workflow = w_name w, h_version = w_version w, h_status = x_status row\<rparr>"
proof (cases "executions s eid")
  case None
  then show ?thesis using assms
    by (auto simp: submit_tx_new submitted_db_def insert_steps_db Let_def insert_execution_def
      new_execution_def)
next
  case (Some row)
  then have "t = s" using submit_tx_known [OF Some assms] by simp
  then show ?thesis using assms Some by (auto simp: submit_tx_def split: if_splits)
qed

text \<open>
  submitting is idempotent: the same definition and input under the same execution id, sent
  again at any later time and whatever happened since, is answered with the execution's present
  status and changes nothing.
\<close>
theorem resubmission_is_idempotent:
  fixes w :: "unit workflow"
  assumes "reachable env n s" and "memo_ok w" and "storable inp" and "eid \<noteq> ''''"
    and "submit env n f w inp timeout (Some eid) key s = (Inr h, t)" and "runs env n t m u"
  shows "\<exists>row. executions u eid = Some row \<and>
    submit env m g w inp timeout (Some eid) key u =
      (Inr \<lparr>h_execution_id = eid, h_workflow = w_name w, h_version = w_version w,
            h_status = x_status row\<rparr>, u)"
proof -
  have timeout: "\<not> given (\<lambda>t. t \<le> 0) timeout" and key: "\<not> given blank key"
    using assms(4,5) by (auto simp: submit_def Let_def split: if_splits sum.splits)
  obtain fp s1 payload where run: "register_definition env n w s = Inr (fp, s1)"
      "dump inp (max_payload_bytes env) (what_input eid) = Inr payload"
      "submit_tx env n w eid payload (map_option (\<lambda>t. n + timedelta t) timeout) key s1 = Inr (h, t)"
    using assms(4,5) by (auto simp: submit_def Let_def split: if_splits sum.splits)
  have "store_step env n s t" using assms(5,2,3) by (rule step_submit)
  then have t: "reachable env n t" using assms(1) by (auto intro: reachable.act)
  obtain row where row: "executions t eid = Some row" "x_workflow row = w_name w"
      "x_version row = w_version w" "x_fingerprint row = definition_fingerprint env w"
      "x_input row = payload"
    using submitted_work [OF run(3)] by blast
  obtain row' where row': "executions u eid = Some row'" "row_evolves row row'"
    using reachable_later(1) [OF t assms(6)] row(1) by (blast dest: evolves_execution)
  have "definitions s1 \<subseteq>\<^sub>m definitions u"
    using runs_definitions [OF assms(6)] submit_tx_definitions [OF run(3)] by simp
  from register_again [OF run(1) this] show ?thesis
    using timeout key run(2) row row' assms(4)
    by (auto simp: submit_def Let_def submit_tx_def row_evolves_def same_work_def)
qed

theorem resubmission_is_idempotent_witness:
  "submit sample_env 0 ''g'' sample (PInt 5) None (Some ''x'') None journal_2 =
     (Inr \<lparr>h_execution_id = ''x'', h_workflow = ''demo'', h_version = ''1'', h_status = X_RUNNING\<rparr>,
      journal_2)"
  using resubmission_is_idempotent [OF reachable.start _ _ _ sample_submitted
    step_runs [OF step_claim [OF sample_claimed]], of "''g''"] by (simp add: memo_ok_def)

text \<open>
  an execution id that is taken by other work is refused with a conflict (or the definition
  itself is refused), and the execution that holds the id is left alone.
\<close>
theorem conflicting_submission_refused:
  assumes "executions s eid = Some row" and "eid \<noteq> ''''"
    and "x_workflow row \<noteq> w_name w \<or> x_version row \<noteq> w_version w \<or>
      x_fingerprint row \<noteq> definition_fingerprint env w \<or>
      dump inp (max_payload_bytes env) (what_input eid) \<noteq> Inr (x_input row)"
  shows "\<exists>e t. submit env now f w inp timeout (Some eid) key s = (Inl e, t) \<and> executions t = executions s"
proof (cases "register_definition env now w s")
  case (Inl e)
  then show ?thesis using assms(2) by (simp add: submit_def Let_def)
next
  case (Inr r)
  then obtain fp s1 where reg: "register_definition env now w s = Inr (fp, s1)" by (cases r) auto
  then have same: "executions s1 = executions s"
    by (auto simp: register_definition_def tx_iff Let_def split: option.splits if_splits)
  show ?thesis
  proof (cases "dump inp (max_payload_bytes env) (what_input eid)")
    case (Inl e)
    then show ?thesis using reg same assms(2) by (simp add: submit_def Let_def)
  next
    case (Inr payload)
    then have "submit_tx env now w eid payload deadline key s1 =
        Inl (raised ''DurableConflictError'' (msg_different_work eid))" for deadline
      using assms(1,3) same by (auto simp: submit_tx_def)
    then show ?thesis using reg same assms(2) Inr by (simp add: submit_def Let_def)
  qed
qed

theorem conflicting_submission_refused_witness:
  "\<exists>e t. submit sample_env 0 ''g'' sample (PInt 6) None (Some ''x'') None journal_2 = (Inl e, t)"
proof -
  have "dump (PInt 6) (max_payload_bytes sample_env) (what_input ''x'') \<noteq> Inr ''5''" by code_simp
  then show ?thesis
    using conflicting_submission_refused [of journal_2 "''x''" "row_1\<lparr>x_status := X_RUNNING, x_updated := 0\<rparr>"
      sample sample_env "PInt 6"] by fastforce
qed

section \<open>Cancellation\<close>

text \<open>
  after a cancellation request nothing but the cancellation can be recorded: completing,
  failing, timing out, yielding or parking the execution raises, whoever asks.
\<close>
theorem cancelled_execution_cannot_finish:
  assumes "executions s (c_execution c) = Some row" and "x_cancel_at row \<noteq> None"
  shows "isl (complete_execution env now c out s) \<and> isl (fail_execution now c kind msg s) \<and>
    isl (time_out_execution now c msg s) \<and> isl (yield_execution now c why s) \<and>
    isl (mark_waiting now c why s)"
proof -
  have set: "set_execution_status c target now f False s \<noteq> Inr (u, t)" for target f u t
    using assms by (auto simp: set_execution_status_Inr)
  have refuse: "isl r" if "\<And>x. r \<noteq> Inr x" for r :: "exn + 'a \<times> db" using that by (cases r) auto
  show ?thesis
    using set by (auto intro!: refuse simp: complete_execution_def fail_execution_def
      time_out_execution_def yield_execution_def mark_waiting_def bindT_Inr_iff seqT_Inr_iff
      liftT_Inr_iff)
qed

definition journal_2c :: db where
  "journal_2c = state_after (request_cancellation_tx 5 ''x'' (Some ''stop'')) journal_2"

lemma sample_requested:
  "request_cancellation_tx 5 ''x'' (Some ''stop'') journal_2 = Inr ((), journal_2c)"
  "executions journal_2c = [''x'' \<mapsto> row_1\<lparr>x_status := X_RUNNING, x_cancel_at := Some 5,
     x_cancel_reason := Some ''stop'', x_updated := 5\<rparr>]"
  "leases journal_2c = leases journal_2"
  by (simp_all add: journal_2c_def state_after_def request_cancellation_tx_def record_request_def
    execution_row_def append_event_def lease_free_def tx_simps transition_defs)

theorem cancelled_execution_cannot_finish_witness:
  "isl (complete_execution sample_env 6 claim_1 PNone journal_2c)"
  using cancelled_execution_cannot_finish [of journal_2c claim_1 "row_1\<lparr>x_status := X_RUNNING,
    x_cancel_at := Some 5, x_cancel_reason := Some ''stop'', x_updated := 5\<rparr>"]
  by (simp add: sample_requested)

text \<open>
  \<open>request_cancellation\<close> leaves a finished execution as it is, cancels at once an execution no
  worker holds, dropping its retry, and only records the request, with its reason, while a lease
  is live; a second request keeps the first.
\<close>
theorem cancellation_request_effect:
  assumes "executions s eid = Some row" and "request_cancellation_tx now eid reason s = Inr (u, t)"
  shows "if execution_is_terminal (x_status row) then t = s
    else \<exists>row'. executions t eid = Some row' \<and>
      x_cancel_at row' = (if x_cancel_at row = None then Some now else x_cancel_at row) \<and>
      x_cancel_reason row' = (if x_cancel_at row = None then reason else x_cancel_reason row) \<and>
      (if lease_free s now eid
       then x_status row' = X_CANCELLED \<and> x_failure_kind row' = Some FK_CANCELLED \<and> retries t eid = None
       else x_status row' = x_status row \<and> retries t eid = retries s eid)"
  using assms
  by (auto simp: request_cancellation_tx_def record_request_def finish_cancelled_def execution_row_def
      append_event_def delete_retry_def lease_free_def tx_simps transition_defs
      require_execution_transition_def refuse_if_def
    split: if_splits option.splits sum.splits)

theorem cancellation_request_effect_witness:
  "\<exists>row. executions journal_2c ''x'' = Some row \<and> x_status row = X_RUNNING \<and> x_cancel_at row = Some 5"
  using cancellation_request_effect [OF _ sample_requested(1), of "row_1\<lparr>x_status := X_RUNNING, x_updated := 0\<rparr>"]
  by (auto simp: transition_defs lease_free_def)

section \<open>Failures and retries\<close>

text \<open>
  a failed attempt is retried only strictly before the deadline. When \<open>fail_step\<close> commits with
  a retry time, either the deadline was at or before now or that time and the execution is timed
  out with no retry, or the step is pending again, the execution is retrying with that due time
  and the next attempt's number, and the lease is given up.
\<close>
theorem retry_only_before_deadline:
  assumes "fail_step now c sid etype emsg (Some due) reason s = Inr (st, t)"
  shows "if deadline_reached now (c_deadline c) (Some due)
    then st = S_FAILED \<and> retries t = retries s \<and>
      (\<exists>row. executions t (c_execution c) = Some row \<and> x_status row = X_TIMED_OUT)
    else st = S_PENDING \<and> (\<forall>d. c_deadline c = Some d \<longrightarrow> now < d \<and> due < d) \<and>
      (\<exists>row r y. executions t (c_execution c) = Some row \<and> x_status row = X_RETRYING \<and>
         steps s (c_execution c, sid) = Some r \<and> retries t (c_execution c) = Some y \<and>
         y_step y = sid \<and> y_due y = due \<and> y_attempt y = s_attempts r + 1) \<and>
      lease_free t now (c_execution c)"
proof (cases "deadline_reached now (c_deadline c) (Some due)")
  case True
  then show ?thesis using assms
    by (auto simp: fail_step_def time_out_execution_def append_event_def tx_iff)
next
  case False
  then obtain r where r: "steps s (c_execution c, sid) = Some r"
      "fail_and_retry now c sid etype emsg reason (s_attempts r) due s = Inr (st, t)"
    using assms by (auto simp: fail_step_def tx_iff)
  have "now < d \<and> due < d" if "c_deadline c = Some d" for d
    using False that by (simp add: deadline_reached_def)
  then show ?thesis using False r
    by (auto simp: fail_and_retry_def append_event_def upsert_retry_def release_lease_row_def tx_iff
      lease_free_def lease_guard_def split: option.splits)
qed

theorem retry_only_before_deadline_witness:
  "\<exists>t. fail_step 1 claim_1 ''a'' ''E'' ''m'' (Some 9) None journal_3 = Inr (S_PENDING, t)"
proof -
  have "\<exists>st t. fail_step 1 claim_1 ''a'' ''E'' ''m'' (Some 9) None journal_3 = Inr (st, t)"
    by (simp add: guard_1 new_step_def fail_step_def deadline_reached_def fail_and_retry_def tx_simps
      get_step_row_def set_step_state_def execution_row_def set_execution_status_def upsert_retry_def
      append_event_def release_lease_row_def require_step_transition_def
      require_execution_transition_def transition_defs failed_attempt_def)
  then obtain st t where "fail_step 1 claim_1 ''a'' ''E'' ''m'' (Some 9) None journal_3 = Inr (st, t)"
    by blast
  with retry_only_before_deadline [OF this] show ?thesis by (auto simp: deadline_reached_def)
qed

end
