(* ===== verification/Codec_Properties.thy ===== *)
theory Codec_Properties
  imports Definition_Properties
begin

text \<open>
  What the journal stores comes back: payloads as JSON, instants as ISO text that orders as the
  instants do, and the encoded shape of a definition, which tells any two graphs apart.
\<close>

section \<open>Payloads and instants\<close>

text \<open>
  a payload with text keys that \<open>_dump\<close> accepts is within the size limit, and \<open>_load\<close> gives the value back, up
  to what JSON cannot express: tuples return as lists, dictionaries sorted by key.
\<close>
theorem text_keyed_round_trip:
  assumes "dump v limit what = Inr t" and "storable v"
  shows "load (Some t) = Inr (canon v) \<and> int (length t) \<le> limit"
proof -
  have "json_dumps (not_json what) v = Inr t" "int (length t) \<le> limit"
    using assms(1) by (auto simp: dump_def bindR_Inr_iff split: if_splits)
  then show ?thesis using loads_dumps [OF _ assms(2)] by (simp add: load_def)
qed

definition sample_payload :: pyval where
  "sample_payload = PDict [(''b'', PTuple [PInt (- 7), PBool True]), (''a'', PStr ''x y'')]"

theorem text_keyed_round_trip_witness:
  "load (Some (projr (dump sample_payload 100 ''x''))) =
     Inr (PDict [(''a'', PStr ''x y''), (''b'', PList [PInt (- 7), PBool True])])"
proof -
  have d: "dump sample_payload 100 ''x'' = Inr (projr (dump sample_payload 100 ''x''))"
    by code_simp
  have "storable sample_payload" by (simp add: sample_payload_def)
  from text_keyed_round_trip [OF d this] show ?thesis
    by (simp add: sample_payload_def)
qed

text \<open>Values that JSON has a form for.\<close>

primrec plain :: "pyval \<Rightarrow> bool" where
  "plain PNone = True"
| "plain (PBool b) = True"
| "plain (PInt i) = True"
| "plain (PFloat f) = True"
| "plain (PStr s) = True"
| "plain (PList xs) = list_all id (map plain xs)"
| "plain (PTuple xs) = list_all id (map plain xs)"
| "plain (PDict kvs) = list_all snd (map (map_prod id plain) kvs)"
| "plain (PObject c n) = False"

lemma isl_bind_pure: "isl (bindR m (\<lambda>x. Inr (g x))) \<longleftrightarrow> isl m"
  by (cases m) auto

lemma sequenceR_isl: "isl (sequenceR rs) \<longleftrightarrow> (\<exists>r \<in> set rs. isl r)"
proof (induction rs)
  case (Cons r rs)
  then show ?case by (cases r) (auto simp: isl_bind_pure)
qed simp

lemma json_dumps_isl: "isl (json_dumps r v) \<longleftrightarrow> \<not> plain v"
proof (induction v)
  case (PDict kvs)
  have "isl (json_dumps r (PDict kvs)) \<longleftrightarrow> (\<exists>kv \<in> set kvs. isl (json_dumps r (snd kv)))"
    by (simp add: encode_object_def Let_def isl_bind_pure sequenceR_isl)
  then show ?case using PDict by (auto simp: list_all_iff snds.simps)
qed (auto simp: encode_array_def list_all_iff sequenceR_isl isl_bind_pure)

text \<open>
  \<open>_dump\<close> accepts a payload exactly when JSON has a form for every value in it and its text is
  within the limit, and it returns that text; otherwise it raises.
\<close>
theorem payload_accepted_iff:
  "dump v limit what = Inr t \<longleftrightarrow>
     plain v \<and> t = projr (json_dumps (not_json what) v) \<and> int (length t) \<le> limit"
proof (cases "json_dumps (not_json what) v")
  case (Inl e)
  then have "\<not> plain v" using json_dumps_isl [of "not_json what" v] by simp
  then show ?thesis using Inl by (simp add: dump_def)
next
  case (Inr u)
  then have "plain v" using json_dumps_isl [of "not_json what" v] by simp
  then show ?thesis using Inr by (auto simp: dump_def)
qed

text \<open>
  within the years \<open>datetime\<close> has, \<open>from_iso\<close> undoes \<open>to_iso\<close>, and the texts the journal
  compares in SQL order exactly as the instants they stand for.
\<close>
theorem instants_order_as_text:
  assumes "representable t" and "representable u"
  shows "from_iso (to_iso t) = t \<and> (to_iso t < to_iso u \<longleftrightarrow> t < u)"
proof
  show "from_iso (to_iso t) = t" using assms(1) by (rule from_to_iso)
  show "to_iso t < to_iso u \<longleftrightarrow> t < u"
    using to_iso_mono [OF assms] to_iso_mono [OF assms(2,1)]
    by (cases t u rule: linorder_cases) auto
qed

theorem instants_order_as_text_witness:
  "to_iso 0 = ''1970-01-01T00:00:00.000000+00:00'' \<and> to_iso 0 < to_iso 1000000"
proof -
  have "representable 0" "representable 1000000" by (simp_all add: representable_def day_length_def epoch_day_def)
  from instants_order_as_text [OF this] have "to_iso 0 < to_iso 1000000" by simp
  moreover have "to_iso 0 = ''1970-01-01T00:00:00.000000+00:00''" by code_simp
  ultimately show ?thesis by blast
qed

section \<open>The fingerprint of a definition\<close>

text \<open>Every float the program writes is one JSON reads back.\<close>

definition floats_print :: "store_env \<Rightarrow> bool" where
  "floats_print env \<longleftrightarrow> (\<forall>x. float_text (float_repr env x))"

lemma canon_dict_lookup:
  assumes "canon (PDict a) = canon (PDict b)" and "distinct (map fst a)" and "distinct (map fst b)"
  shows "map_option canon (map_of a k) = map_option canon (map_of b k)"
proof -
  let ?c = "map (map_prod id canon)"
  have "set (sort_key fst (?c a)) = set (sort_key fst (?c b))"
    using assms(1) by (simp only: canon.simps pyval.inject)
  then have same: "set (?c a) = set (?c b)" by (simp only: set_sort)
  have dist: "distinct (map fst (?c xs))" if "distinct (map fst xs)" for xs
    using that by (simp add: comp_def)
  have "map_of (?c a) = map_of (?c b)"
    using map_of_inject_set [OF dist [OF assms(2)] dist [OF assms(3)]] same by blast
  moreover have "map_of (?c xs) k = map_option canon (map_of xs k)" for xs
    by (induction xs) auto
  ultimately show ?thesis by metis
qed

lemma canon_list: "canon (PList (map f xs)) = canon (PList (map g ys)) \<longleftrightarrow>
    map (canon \<circ> f) xs = map (canon \<circ> g) ys"
  by simp

definition edge_keys :: "edge \<Rightarrow> string \<times> string \<times> bool" where
  "edge_keys e = (e_source e, e_target e, e_when e \<noteq> None)"

lemma edge_shape_inject:
  assumes "canon (edge_shape e) = canon (edge_shape f)"
  shows "edge_keys e = edge_keys f"
proof -
  have "map_option canon (map_of [(''source'', PStr (e_source e)), (''target'', PStr (e_target e)),
      (''conditioned'', PBool (e_when e \<noteq> None))] k) =
    map_option canon (map_of [(''source'', PStr (e_source f)), (''target'', PStr (e_target f)),
      (''conditioned'', PBool (e_when f \<noteq> None))] k)" for k
    using assms unfolding edge_shape_def by (rule canon_dict_lookup) simp_all
  from this [of "''source''"] this [of "''target''"] this [of "''conditioned''"]
  show ?thesis by (simp add: edge_keys_def)
qed

lemma step_shape_inject:
  assumes "canon (step_shape env w s) = canon (step_shape env v t)"
  shows "st_id s = st_id t"
proof -
  have "map_option canon (map_of
      [(''id'', PStr (st_id s)),
       (''timeout'', case st_timeout s of None \<Rightarrow> PNone | Some t \<Rightarrow> PFloat (float_repr env t)),
       (''sources'', PList (map PStr (sort (map e_source (incoming w (st_id s))))))] k) =
    map_option canon (map_of
      [(''id'', PStr (st_id t)),
       (''timeout'', case st_timeout t of None \<Rightarrow> PNone | Some t \<Rightarrow> PFloat (float_repr env t)),
       (''sources'', PList (map PStr (sort (map e_source (incoming v (st_id t))))))] k)" for k
    using assms unfolding step_shape_def by (rule canon_dict_lookup) simp_all
  from this [of "''id''"] show ?thesis by simp
qed

lemma shape_storable: "floats_print env \<Longrightarrow> storable (definition_shape env w)"
  by (auto simp: definition_shape_def step_shape_def edge_shape_def floats_print_def list_all_iff
    split: option.splits)

lemma shape_plain: "plain (definition_shape env w)"
  by (auto simp: definition_shape_def step_shape_def edge_shape_def list_all_iff split: option.splits)

lemma shape_text_reads:
  assumes "floats_print env"
  shows "json_loads (shape_text env w) = Inr (canon (definition_shape env w))"
proof (cases "json_dumps not_serializable (definition_shape env w)")
  case (Inl e)
  then have "\<not> plain (definition_shape env w)"
    using json_dumps_isl [of not_serializable "definition_shape env w"] by simp
  then show ?thesis using shape_plain by blast
next
  case (Inr t)
  then show ?thesis
    using loads_dumps [OF Inr shape_storable [OF assms]] by (simp add: shape_text_def)
qed

lemma shape_determines_graph:
  assumes "canon (definition_shape env w) = canon (definition_shape env v)"
  shows "w_name w = w_name v \<and> w_version w = w_version v \<and> step_ids w = step_ids v \<and>
    map edge_keys (w_edges w) = map edge_keys (w_edges v)"
proof -
  have look: "map_option canon (map_of
      [(''name'', PStr (w_name w)), (''version'', PStr (w_version w)),
       (''steps'', PList (map (step_shape env w) (w_steps w))),
       (''edges'', PList (map edge_shape (w_edges w)))] k) =
    map_option canon (map_of
      [(''name'', PStr (w_name v)), (''version'', PStr (w_version v)),
       (''steps'', PList (map (step_shape env v) (w_steps v))),
       (''edges'', PList (map edge_shape (w_edges v)))] k)" for k
    using assms unfolding definition_shape_def by (rule canon_dict_lookup) simp_all
  have "w_name w = w_name v" "w_version w = w_version v"
    using look [of "''name''"] look [of "''version''"] by simp_all
  moreover have "map (canon \<circ> step_shape env w) (w_steps w) = map (canon \<circ> step_shape env v) (w_steps v)"
    "map (canon \<circ> edge_shape) (w_edges w) = map (canon \<circ> edge_shape) (w_edges v)"
    using look [of "''steps''"] look [of "''edges''"] by simp_all
  then have "list_all2 (\<lambda>s t. canon (step_shape env w s) = canon (step_shape env v t)) (w_steps w) (w_steps v)"
    "list_all2 (\<lambda>e f. canon (edge_shape e) = canon (edge_shape f)) (w_edges w) (w_edges v)"
    by (simp_all add: list.rel_eq [symmetric] list.rel_map)
  then have "list_all2 (\<lambda>s t. st_id s = st_id t) (w_steps w) (w_steps v)"
    "list_all2 (\<lambda>e f. edge_keys e = edge_keys f) (w_edges w) (w_edges v)"
    by (auto elim!: list.rel_mono_strong dest: step_shape_inject edge_shape_inject)
  then have "step_ids w = step_ids v" "map edge_keys (w_edges w) = map edge_keys (w_edges v)"
    by (simp_all add: step_ids_def list.rel_eq [symmetric] list.rel_map)
  ultimately show ?thesis by blast
qed

text \<open>
  C13: two definitions with the same fingerprint have the same name and version, declare the same
  steps in the same order and the same edges in the same order, with conditions in the same
  places, as long as the hash does not collide on their two encoded shapes.
\<close>
theorem fingerprint_determines_graph:
  assumes "floats_print env" and "inj_on (sha256_hex env) {shape_text env w, shape_text env v}"
    and "definition_fingerprint env w = definition_fingerprint env v"
  shows "w_name w = w_name v \<and> w_version w = w_version v \<and> step_ids w = step_ids v \<and>
    map edge_keys (w_edges w) = map edge_keys (w_edges v)"
proof -
  have "shape_text env w = shape_text env v"
    using assms(3) unfolding definition_fingerprint_def
    by (rule inj_onD [OF assms(2)]) (rule insertI1, rule insertI2, rule insertI1)
  then have "canon (definition_shape env w) = canon (definition_shape env v)"
    using shape_text_reads [OF assms(1), of w] shape_text_reads [OF assms(1), of v] by simp
  then show ?thesis by (rule shape_determines_graph)
qed

theorem fingerprint_determines_graph_witness:
  "definition_fingerprint sample_env sample \<noteq> definition_fingerprint sample_env looped"
proof
  assume same: "definition_fingerprint sample_env sample = definition_fingerprint sample_env looped"
  have "float_text ''1.0''" by code_simp
  then have "floats_print sample_env" by (simp only: floats_print_def sample_env_def store_env.select_convs simp_thms)
  moreover have "inj_on (sha256_hex sample_env) A" for A by (simp add: sample_env_def)
  ultimately have "map edge_keys (w_edges sample) = map edge_keys (w_edges looped)"
    using same fingerprint_determines_graph [of sample_env sample looped] by blast
  then have "length (w_edges sample) = length (w_edges looped)" by (rule map_eq_imp_length_eq)
  then show False by (simp add: looped_def)
qed

end
