(* ===== verification/Py_Parse.thy ===== *)
theory Py_Parse
  imports Json
begin

text \<open>
  More of Python's text: case, splitting, identifiers, and the numbers \<open>int\<close> and \<open>float\<close> read
  from a text. A float is its exact decimal value, or an infinity, or not a number; a value beyond
  the range of a double is an infinity, one too small for it is zero, and no other rounding is
  modelled.
\<close>

section \<open>Case and splitting\<close>

definition py_lower_char :: "char \<Rightarrow> char" where
  "py_lower_char c = (let n = of_char c :: nat in
     if (65 \<le> n \<and> n \<le> 90) \<or> (192 \<le> n \<and> n \<le> 222 \<and> n \<noteq> 215) then char_of (n + 32) else c)"

definition py_lower :: "string \<Rightarrow> string" where
  "py_lower s = map py_lower_char s"

text \<open>A character whose upper case lies beyond code point 255 is left alone.\<close>

definition py_upper_char :: "char \<Rightarrow> string" where
  "py_upper_char c = (let n = of_char c :: nat in
     if (97 \<le> n \<and> n \<le> 122) \<or> (224 \<le> n \<and> n \<le> 254 \<and> n \<noteq> 247) then [char_of (n - 32)]
     else if n = 223 then ''SS'' else [c])"

definition py_upper :: "string \<Rightarrow> string" where
  "py_upper s = concat (map py_upper_char s)"

definition starts_with :: "string \<Rightarrow> string \<Rightarrow> bool" where
  "starts_with s p = (take (length p) s = p)"

text \<open>\<open>s.split(sep)\<close> for a separator that is not empty; \<open>acc\<close> is the piece being read, reversed.\<close>

function split_loop :: "string \<Rightarrow> string \<Rightarrow> string \<Rightarrow> string list" where
  "split_loop sep acc [] = [rev acc]"
| "split_loop sep acc (c # cs) =
     (if sep \<noteq> [] \<and> starts_with (c # cs) sep
      then rev acc # split_loop sep [] (drop (length sep) (c # cs))
      else split_loop sep (c # acc) cs)"
  by pat_completeness auto

termination
  by (relation "measure (\<lambda>(sep, acc, s). length s)") auto

definition split_on :: "string \<Rightarrow> string \<Rightarrow> string list" where
  "split_on sep s = split_loop sep [] s"

definition join_lines :: "string list \<Rightarrow> string" where
  "join_lines = join [char_of (10::nat)]"

section \<open>Identifiers\<close>

definition ident_start :: "char \<Rightarrow> bool" where
  "ident_start c = (let n = of_char c :: nat in
     (65 \<le> n \<and> n \<le> 90) \<or> n = 95 \<or> (97 \<le> n \<and> n \<le> 122) \<or> n = 170 \<or> n = 181 \<or> n = 186 \<or>
     (192 \<le> n \<and> n \<noteq> 215 \<and> n \<noteq> 247))"

definition ident_part :: "char \<Rightarrow> bool" where
  "ident_part c = (ident_start c \<or> is_digit c \<or> of_char c = (183 :: nat))"

definition is_identifier :: "string \<Rightarrow> bool" where
  "is_identifier s = (case s of [] \<Rightarrow> False | c # cs \<Rightarrow> ident_start c \<and> list_all ident_part cs)"

section \<open>Numbers\<close>

definition number_space :: "char \<Rightarrow> bool" where
  "number_space c = (let n = of_char c :: nat in (9 \<le> n \<and> n \<le> 13) \<or> n = 32 \<or> n = 133 \<or> n = 160)"

definition strip_number :: "string \<Rightarrow> string" where
  "strip_number s = rev (dropWhile number_space (rev (dropWhile number_space s)))"

text \<open>Digits with single underscores between them; \<open>None\<close> for any other text.\<close>

definition digits_of :: "string \<Rightarrow> string option" where
  "digits_of s = (let groups = split_on ''_'' s in
     if list_all (\<lambda>g. g \<noteq> [] \<and> list_all is_digit g) groups then Some (concat groups) else None)"

definition signed :: "string \<Rightarrow> bool \<times> string" where
  "signed s = (case s of
     [] \<Rightarrow> (False, [])
   | c # cs \<Rightarrow> if c = CHR ''-'' then (True, cs) else if c = CHR ''+'' then (False, cs) else (False, s))"

text \<open>\<open>int(text)\<close>; a text of more than 4300 digits is refused.\<close>

definition py_int :: "string \<Rightarrow> int option" where
  "py_int text = (case signed (strip_number text) of (neg, s) \<Rightarrow>
     (case digits_of s of
        None \<Rightarrow> None
      | Some ds \<Rightarrow>
          if 4300 < length ds then None
          else Some (if neg then - int (dec_value ds) else int (dec_value ds))))"

datatype pyfloat = Finite real | Infinite bool | NotANumber

definition double_of :: "real \<Rightarrow> pyfloat" where
  "double_of x =
     (if 2 ^ 1024 - 2 ^ 970 \<le> \<bar>x\<bar> then Infinite (x < 0)
      else if \<bar>x\<bar> \<le> 1 / 2 ^ 1075 then Finite 0 else Finite x)"

definition optional_digits :: "string \<Rightarrow> string option" where
  "optional_digits s = (if s = [] then Some [] else digits_of s)"

definition scaled :: "nat \<Rightarrow> int \<Rightarrow> real" where
  "scaled m e = (if 0 \<le> e then real m * 10 ^ nat e else real m / 10 ^ nat (- e))"

definition is_exponent_mark :: "char \<Rightarrow> bool" where
  "is_exponent_mark c = (c = CHR ''e'' \<or> c = CHR ''E'')"

text \<open>The digits before and after the point, and the exponent, of a decimal number.\<close>

definition mantissa_of :: "string \<Rightarrow> (string \<times> string) option" where
  "mantissa_of s =
     (let whole = takeWhile (\<lambda>c. c \<noteq> CHR ''.'') s;
          fraction = drop (length whole + 1) s
      in case (optional_digits whole, optional_digits fraction) of
        (Some w, Some f) \<Rightarrow> if w = [] \<and> f = [] then None else Some (w, f)
      | _ \<Rightarrow> None)"

definition exponent_of :: "string \<Rightarrow> int option" where
  "exponent_of s = (case s of
     [] \<Rightarrow> Some 0
   | mark # t \<Rightarrow> (case signed t of (neg, ds) \<Rightarrow>
       map_option (\<lambda>d. if neg then - int (dec_value d) else int (dec_value d)) (digits_of ds)))"

definition decimal_of :: "string \<Rightarrow> real option" where
  "decimal_of s =
     (let mantissa = takeWhile (\<lambda>c. \<not> is_exponent_mark c) s;
          rest = dropWhile (\<lambda>c. \<not> is_exponent_mark c) s
      in case (mantissa_of mantissa, exponent_of rest) of
        (Some (w, f), Some e) \<Rightarrow> Some (scaled (dec_value (w @ f)) (e - int (length f)))
      | _ \<Rightarrow> None)"

text \<open>\<open>float(text)\<close>\<close>

definition py_float :: "string \<Rightarrow> pyfloat option" where
  "py_float text = (case signed (strip_number text) of (neg, s) \<Rightarrow>
     if py_lower s \<in> {''inf'', ''infinity''} then Some (Infinite neg)
     else if py_lower s = ''nan'' then Some NotANumber
     else map_option (\<lambda>x. double_of (if neg then - x else x)) (decimal_of s))"

text \<open>\<open>x <= 0\<close>; a comparison with not-a-number is false.\<close>

fun float_not_positive :: "pyfloat \<Rightarrow> bool" where
  "float_not_positive (Finite x) = (x \<le> 0)"
| "float_not_positive (Infinite neg) = neg"
| "float_not_positive NotANumber = False"

section \<open>Lemmas\<close>

lemma py_lower_Nil [simp]: "py_lower [] = []"
  by (simp add: py_lower_def)

lemma py_lower_char_idem: "py_lower_char (py_lower_char c) = py_lower_char c"
  by (auto simp: py_lower_char_def Let_def of_char_of)

lemma py_lower_idem [simp]: "py_lower (py_lower s) = py_lower s"
  by (simp add: py_lower_def py_lower_char_idem)

end
