(* ===== verification/Payload_Values.thy ===== *)
theory Payload_Values
  imports Codec_Properties Py_Parse
begin

text \<open>
  Payloads of any Python value: \<open>_dump\<close> of \<open>durable/store.py\<close> with the keys \<open>json.dumps\<close> takes
  besides texts, the order it puts them in, the classes derived from the built-in ones, and the
  values it refuses. The operations of the store are modelled on payloads whose keys are texts
  (\<open>pyval\<close>), on which the two agree. How deep an interpreter lets values nest is left out.
\<close>

section \<open>Values\<close>

text \<open>
  A key of a dictionary: a text, a number, \<open>None\<close>, or an instance of another class, by its name. An
  instance of a class derived from a built-in one is \<open>VDerived\<close> of that class and the built-in value
  it is; a key of such a class is the built-in value. A float is its \<open>repr\<close>.
\<close>

datatype payload_key = KStr string | KInt int | KBool bool | KFloat string | KNone | KOther string

datatype payload =
    VNone
  | VBool bool
  | VInt int
  | VFloat string
  | VStr string
  | VList "payload list"
  | VTuple "payload list"
  | VDict "(payload_key \<times> payload) list"
  | VDerived string payload
  | VObject string nat

section \<open>Keys\<close>

text \<open>\<open>int.__repr__\<close>, which refuses an integer of more than 4300 digits.\<close>

definition too_many_digits :: exn where
  "too_many_digits = raised ''ValueError''
     ''Exceeds the limit (4300 digits) for integer string conversion; use sys.set_int_max_str_digits() to increase the limit''"

definition int_text :: "int \<Rightarrow> exn + string" where
  "int_text i = (if 4300 < length (dec_nat (nat \<bar>i\<bar>)) then Inl too_many_digits else Inr (dec_int i))"

fun key_text :: "payload_key \<Rightarrow> exn + string" where
  "key_text (KStr s) = Inr s"
| "key_text (KInt i) = int_text i"
| "key_text (KBool b) = Inr (if b then ''true'' else ''false'')"
| "key_text (KFloat t) = Inr t"
| "key_text KNone = Inr ''null''"
| "key_text (KOther c) = Inl (raised ''TypeError''
     (''keys must be str, int, float, bool or None, not '' @ c))"

text \<open>
  \<open>sorted(d.items())\<close>: a sort of more than one item compares texts with texts and numbers with
  numbers, and raises \<open>TypeError\<close> on any other mixture; \<open>mixed\<close> is its message, which names the pair
  the sort came to first. Keys of other classes end in a \<open>TypeError\<close> too, from the sort or as keys.
\<close>

fun text_key :: "payload_key \<Rightarrow> bool" where
  "text_key (KStr s) = True"
| "text_key k = False"

fun number_key :: "payload_key \<Rightarrow> bool" where
  "number_key (KInt i) = True"
| "number_key (KBool b) = True"
| "number_key (KFloat t) = True"
| "number_key k = False"

fun key_string :: "payload_key \<Rightarrow> string" where
  "key_string (KStr s) = s"
| "key_string k = []"

fun key_number :: "payload_key \<Rightarrow> real" where
  "key_number (KInt i) = of_int i"
| "key_number (KBool b) = (if b then 1 else 0)"
| "key_number (KFloat t) = (case py_float t of Some (Finite x) \<Rightarrow> x | _ \<Rightarrow> 0)"
| "key_number k = 0"

definition sortable :: "payload_key list \<Rightarrow> bool" where
  "sortable ks \<longleftrightarrow> length ks \<le> 1 \<or> list_all text_key ks \<or> list_all number_key ks"

definition in_key_order :: "(payload_key \<times> 'a) list \<Rightarrow> (payload_key \<times> 'a) list" where
  "in_key_order items =
     (if list_all (text_key \<circ> fst) items then sort_key (key_string \<circ> fst) items
      else sort_key (key_number \<circ> fst) items)"

definition sort_items :: "(payload_key list \<Rightarrow> string) \<Rightarrow> (payload_key \<times> 'a) list \<Rightarrow> exn + (payload_key \<times> 'a) list" where
  "sort_items mixed items =
     (if sortable (map fst items) then Inr (in_key_order items)
      else Inl (raised ''TypeError'' (mixed (map fst items))))"

section \<open>Writing\<close>

text \<open>The items of a dictionary, each key before its value.\<close>

definition encode_item :: "payload_key \<times> (exn + string) \<Rightarrow> exn + string" where
  "encode_item item = bindR (key_text (fst item)) (\<lambda>k. bindR (snd item) (\<lambda>t. Inr (member k t)))"

definition encode_items ::
    "(payload_key list \<Rightarrow> string) \<Rightarrow> (payload_key \<times> (exn + string)) list \<Rightarrow> exn + string" where
  "encode_items mixed items =
     bindR (sort_items mixed items) (\<lambda>sorted.
     bindR (sequenceR (map encode_item sorted)) (\<lambda>ts. Inr (''{'' @ join '','' ts @ ''}'')))"

primrec payload_dumps ::
    "(payload_key list \<Rightarrow> string) \<Rightarrow> (string \<Rightarrow> exn) \<Rightarrow> payload \<Rightarrow> exn + string" where
  "payload_dumps mixed reject VNone = Inr ''null''"
| "payload_dumps mixed reject (VBool b) = Inr (if b then ''true'' else ''false'')"
| "payload_dumps mixed reject (VInt i) = int_text i"
| "payload_dumps mixed reject (VFloat f) = Inr f"
| "payload_dumps mixed reject (VStr s) = Inr (json_string s)"
| "payload_dumps mixed reject (VList xs) = encode_array (map (payload_dumps mixed reject) xs)"
| "payload_dumps mixed reject (VTuple xs) = encode_array (map (payload_dumps mixed reject) xs)"
| "payload_dumps mixed reject (VDict kvs) =
     encode_items mixed (map (map_prod id (payload_dumps mixed reject)) kvs)"
| "payload_dumps mixed reject (VDerived c v) = payload_dumps mixed reject v"
| "payload_dumps mixed reject (VObject c n) = Inl (reject c)"

definition dump_payload ::
    "(payload_key list \<Rightarrow> string) \<Rightarrow> payload \<Rightarrow> int \<Rightarrow> string \<Rightarrow> exn + string" where
  "dump_payload mixed value limit what =
     bindR (payload_dumps mixed (not_json what) value) (\<lambda>text.
       if limit < int (length text) then Inl (too_large what (length text) limit) else Inr text)"

section \<open>Payloads whose keys are texts\<close>

primrec of_pyval :: "pyval \<Rightarrow> payload" where
  "of_pyval PNone = VNone"
| "of_pyval (PBool b) = VBool b"
| "of_pyval (PInt i) = VInt i"
| "of_pyval (PFloat f) = VFloat f"
| "of_pyval (PStr s) = VStr s"
| "of_pyval (PList xs) = VList (map of_pyval xs)"
| "of_pyval (PTuple xs) = VTuple (map of_pyval xs)"
| "of_pyval (PDict kvs) = VDict (map (map_prod KStr id) (map (map_prod id of_pyval) kvs))"
| "of_pyval (PObject c n) = VObject c n"

primrec short_integers :: "pyval \<Rightarrow> bool" where
  "short_integers PNone = True"
| "short_integers (PBool b) = True"
| "short_integers (PInt i) = (length (dec_nat (nat \<bar>i\<bar>)) \<le> 4300)"
| "short_integers (PFloat f) = True"
| "short_integers (PStr s) = True"
| "short_integers (PList xs) = list_all id (map short_integers xs)"
| "short_integers (PTuple xs) = list_all id (map short_integers xs)"
| "short_integers (PDict kvs) = list_all snd (map (map_prod id short_integers) kvs)"
| "short_integers (PObject c n) = True"

lemma sort_key_image:
  "sort_key f (map g xs) = map g (sort_key (f \<circ> g) xs)"
proof -
  have ins: "insort_key f (g x) (map g ys) = map g (insort_key (f \<circ> g) x ys)" for x ys
    by (induction ys) auto
  show ?thesis by (induction xs) (simp_all add: ins del: o_apply)
qed

lemma in_key_order_map: "in_key_order (map (map_prod id f) items) = map (map_prod id f) (in_key_order items)"
  by (simp add: in_key_order_def sort_key_image comp_def list_all_iff)

lemma in_key_order_set [simp]: "set (in_key_order items) = set items"
  by (simp add: in_key_order_def)

lemma in_key_order_texts:
  fixes kvs :: "(string \<times> 'a) list"
  shows "in_key_order (map (map_prod KStr id) kvs) = map (map_prod KStr id) (sort_key fst kvs)"
proof -
  have texts: "list_all (text_key \<circ> fst) (map (map_prod KStr id) kvs)" by (auto simp: list_all_iff)
  have key: "key_string \<circ> fst \<circ> map_prod KStr id = (fst :: string \<times> 'a \<Rightarrow> string)" by (auto simp: fun_eq_iff)
  have "in_key_order (map (map_prod KStr id) kvs) = sort_key (key_string \<circ> fst) (map (map_prod KStr id) kvs)"
    unfolding in_key_order_def using texts by (rule if_P)
  also have "\<dots> = map (map_prod KStr id) (sort_key (key_string \<circ> fst \<circ> map_prod KStr id) kvs)"
    by (rule sort_key_image)
  finally show ?thesis unfolding key .
qed

lemma encode_items_texts:
  "encode_items mixed (map (map_prod KStr id) krs) = encode_object krs"
proof -
  have sortable: "sortable (map fst (map (map_prod KStr id) krs))"
    by (auto simp: sortable_def list_all_iff)
  have "sequenceR (map (encode_item \<circ> (map_prod KStr id)) krs') =
      bindR (sequenceR (map snd krs')) (\<lambda>ts. Inr (map2 member (map fst krs') ts))" for krs'
  proof (induction krs')
    case (Cons kr krs')
    obtain k r where kr: "kr = (k, r)" by (cases kr)
    show ?case using Cons kr
      by (cases r; cases "sequenceR (map snd krs')") (simp_all add: encode_item_def)
  qed simp
  then show ?thesis using sortable
    by (cases "sequenceR (map snd (sort_key fst krs))")
      (simp_all add: encode_items_def sort_items_def in_key_order_texts encode_object_def Let_def member_def)
qed

theorem text_keyed_payloads:
  "short_integers v \<Longrightarrow> payload_dumps mixed r (of_pyval v) = json_dumps r v"
proof (induction v)
  case (PDict kvs)
  have "map (map_prod id (payload_dumps mixed r)) (map (map_prod KStr id) (map (map_prod id of_pyval) kvs)) =
      map (map_prod KStr id) (map (map_prod id (json_dumps r)) kvs)"
    using PDict by (fastforce simp: list_all_iff snds.simps)
  then show ?case by (simp only: of_pyval.simps payload_dumps.simps json_dumps.simps encode_items_texts)
qed (auto simp: list_all_iff int_text_def intro!: arg_cong [where f = encode_array])

lemma dump_text_keyed:
  "short_integers v \<Longrightarrow> dump_payload mixed (of_pyval v) limit what = dump v limit what"
  by (simp add: dump_payload_def dump_def text_keyed_payloads)

section \<open>What comes back\<close>

definition key_name :: "payload_key \<Rightarrow> string" where
  "key_name k = (case key_text k of Inl e \<Rightarrow> [] | Inr t \<Rightarrow> t)"

text \<open>The keys as texts, in the order they were sorted in; tuples as lists; no class of its own.\<close>

primrec loaded :: "payload \<Rightarrow> pyval" where
  "loaded VNone = PNone"
| "loaded (VBool b) = PBool b"
| "loaded (VInt i) = PInt i"
| "loaded (VFloat f) = PFloat f"
| "loaded (VStr s) = PStr s"
| "loaded (VList xs) = PList (map loaded xs)"
| "loaded (VTuple xs) = PList (map loaded xs)"
| "loaded (VDict kvs) = PDict (map (map_prod key_name id) (in_key_order (map (map_prod id loaded) kvs)))"
| "loaded (VDerived c v) = loaded v"
| "loaded (VObject c n) = PObject c n"

text \<open>A dictionary has each key once, and a float prints as a text the reader takes for a float.\<close>

fun printed_key :: "payload_key \<Rightarrow> bool" where
  "printed_key (KFloat t) = float_text t"
| "printed_key k = True"

primrec well_formed :: "payload \<Rightarrow> bool" where
  "well_formed VNone = True"
| "well_formed (VBool b) = True"
| "well_formed (VInt i) = True"
| "well_formed (VFloat f) = float_text f"
| "well_formed (VStr s) = True"
| "well_formed (VList xs) = list_all id (map well_formed xs)"
| "well_formed (VTuple xs) = list_all id (map well_formed xs)"
| "well_formed (VDict kvs) = (distinct (map fst kvs) \<and> list_all (printed_key \<circ> fst) kvs \<and>
     list_all snd (map (map_prod id well_formed) kvs))"
| "well_formed (VDerived c v) = well_formed v"
| "well_formed (VObject c n) = True"

text \<open>Two keys that are sorted together have different texts.\<close>

lemma number_key_read:
  assumes "number_key k" and "printed_key k" and "key_text k = Inr t"
  shows "parse_number t = (case k of KInt i \<Rightarrow> Some (PInt i, []) | KFloat f \<Rightarrow> Some (PFloat f, []) | _ \<Rightarrow> None)"
proof (cases k)
  case (KBool b)
  have "parse_number ''true'' = None" "parse_number ''false'' = None" by code_simp+
  then show ?thesis using KBool assms(3) by (cases b) auto
qed (use assms in \<open>auto simp: int_text_def parse_number_int float_text_def split: if_splits\<close>)

lemma key_name_inj:
  assumes "sortable ks" and "list_all printed_key ks" and "\<And>k. k \<in> set ks \<Longrightarrow> \<exists>t. key_text k = Inr t"
  shows "inj_on key_name (set ks)"
proof (rule inj_onI)
  fix k l assume in_ks: "k \<in> set ks" "l \<in> set ks" and eq: "key_name k = key_name l"
  obtain t where t: "key_text k = Inr t" "key_text l = Inr t"
    using assms(3) [OF in_ks(1)] assms(3) [OF in_ks(2)] eq by (auto simp: key_name_def)
  consider "length ks \<le> 1" | "list_all text_key ks" | "list_all number_key ks"
    using assms(1) by (auto simp: sortable_def)
  then show "k = l"
  proof cases
    case 1
    then show ?thesis using in_ks by (cases ks) auto
  next
    case 2
    then have "text_key k" "text_key l" using in_ks by (auto simp: list_all_iff)
    then show ?thesis using t by (cases k; cases l) auto
  next
    case 3
    then have "number_key k" "number_key l" "printed_key k" "printed_key l"
      using in_ks assms(2) by (auto simp: list_all_iff)
    then show ?thesis using number_key_read [OF _ _ t(1)] number_key_read [OF _ _ t(2)] t
      by (cases k; cases l) (auto split: if_splits)
  qed
qed

lemma encode_items_Inr:
  assumes "encode_items mixed (map (map_prod id d) kvs) = Inr t"
  obtains us ts where "us = in_key_order kvs" and "sortable (map fst kvs)"
    and "\<And>k v. (k, v) \<in> set us \<Longrightarrow> key_text k = Inr (key_name k)"
    and "map (d \<circ> snd) us = map Inr ts"
    and "t = ''{'' @ join '','' (map2 member (map (key_name \<circ> fst) us) ts) @ ''}''"
proof -
  let ?us = "in_key_order kvs"
  have sortable: "sortable (map fst kvs)" and seq: "\<exists>ms. sequenceR (map encode_item (map (map_prod id d) ?us)) = Inr ms \<and>
      t = ''{'' @ join '','' ms @ ''}''"
    using assms by (auto simp: encode_items_def sort_items_def bindR_Inr_iff in_key_order_map comp_def split: if_splits)
  then obtain ms where ms: "map (encode_item \<circ> map_prod id d) ?us = map Inr ms" "t = ''{'' @ join '','' ms @ ''}''"
    by (auto simp: sequenceR_Inr_iff)
  have items: "(\<forall>(k, v) \<in> set us. key_text k = Inr (key_name k)) \<and>
      (\<exists>ts. map (d \<circ> snd) us = map Inr ts \<and> ms = map2 member (map (key_name \<circ> fst) us) ts)"
    if "map (encode_item \<circ> map_prod id d) us = map Inr ms" for us ms
    using that
  proof (induction us arbitrary: ms)
    case (Cons kv us)
    obtain k v where kv: "kv = (k, v)" by (cases kv)
    obtain m ms' where m: "ms = m # ms'" "encode_item (k, d v) = Inr m" "map (encode_item \<circ> map_prod id d) us = map Inr ms'"
      using Cons.prems kv by (auto simp: Cons_eq_map_conv comp_def id_def)
    obtain ts where ts: "map (d \<circ> snd) us = map Inr ts" "ms' = map2 member (map (key_name \<circ> fst) us) ts"
      "\<forall>(k, v) \<in> set us. key_text k = Inr (key_name k)"
      using Cons.IH [OF m(3)] by blast
    obtain s where s: "key_text k = Inr (key_name k)" "d v = Inr s" "m = member (key_name k) s"
      using m(2) by (auto simp: encode_item_def bindR_Inr_iff key_name_def)
    show ?case using kv m(1) ts s by (intro conjI exI [of _ "s # ts"]) (auto simp: comp_def)
  qed simp
  show thesis using items [OF ms(1)] that [OF refl sortable] ms(2) by blast
qed

theorem payload_reads_back:
  "payload_dumps mixed r v = Inr t \<Longrightarrow> well_formed v \<Longrightarrow> reads_back (loaded v) t"
proof (induction v arbitrary: t)
  case (VList vs)
  then obtain ts where ts: "map (payload_dumps mixed r) vs = map Inr ts" "t = ''['' @ join '','' ts @ '']''"
    by (auto simp: encode_array_Inr)
  have "list_all2 reads_back (map loaded vs) ts"
    using ts(1) VList.IH VList.prems(2)
    by (auto simp: list_all2_conv_all_nth list_all_length list_eq_iff_nth_eq)
  then show ?case using array_reads_back ts(2) by simp
next
  case (VTuple vs)
  then obtain ts where ts: "map (payload_dumps mixed r) vs = map Inr ts" "t = ''['' @ join '','' ts @ '']''"
    by (auto simp: encode_array_Inr)
  have "list_all2 reads_back (map loaded vs) ts"
    using ts(1) VTuple.IH VTuple.prems(2)
    by (auto simp: list_all2_conv_all_nth list_all_length list_eq_iff_nth_eq)
  then show ?case using array_reads_back ts(2) by simp
next
  case (VDict kvs)
  from VDict.prems(1) [simplified] obtain us ts where us: "us = in_key_order kvs" "sortable (map fst kvs)"
    "\<And>k v. (k, v) \<in> set us \<Longrightarrow> key_text k = Inr (key_name k)"
    "map (payload_dumps mixed r \<circ> snd) us = map Inr ts"
    "t = ''{'' @ join '','' (map2 member (map (key_name \<circ> fst) us) ts) @ ''}''"
    by (rule encode_items_Inr) blast
  have same: "set us = set kvs" using us(1) by simp
  have "reads_back (loaded (snd kv)) t'" if "kv \<in> set us" "payload_dumps mixed r (snd kv) = Inr t'" for kv t'
    using that VDict.IH [of kv "snd kv" t'] VDict.prems(2) same
    by (auto simp: snds.simps list_all_iff split: prod.splits)
  then have "list_all2 reads_back (map (loaded \<circ> snd) us) ts"
    using us(4) by (auto simp: list_all2_conv_all_nth list_eq_iff_nth_eq)
  moreover have "distinct (map (key_name \<circ> fst) us)"
  proof -
    have "inj_on key_name (set (map fst kvs))"
      using us(2) VDict.prems(2) us(3) same by (intro key_name_inj) (auto simp: list_all_iff)
    moreover have "distinct (map fst us)"
      using VDict.prems(2) us(1) by (simp add: in_key_order_def distinct_map)
    ultimately show ?thesis using same by (auto simp: distinct_map inj_on_def)
  qed
  ultimately have "reads_back (PDict (zip (map (key_name \<circ> fst) us) (map (loaded \<circ> snd) us))) t"
    using us(5) object_reads_back by simp
  moreover have "loaded (VDict kvs) = PDict (zip (map (key_name \<circ> fst) us) (map (loaded \<circ> snd) us))"
  proof -
    have "loaded (VDict kvs) = PDict (map (map_prod key_name loaded) us)"
      by (auto simp: in_key_order_map us(1))
    also have "map (map_prod key_name loaded) us = zip (map (key_name \<circ> fst) us) (map (loaded \<circ> snd) us)"
      by (induction us) auto
    finally show ?thesis .
  qed
  ultimately show ?case by simp
qed (auto simp: leaf_reads_back parse_number_int float_text_def int_text_def split: if_splits)

text \<open>
  C12: a payload \<open>_dump\<close> accepts, whatever its keys and classes are, is within the size limit, and
  \<open>_load\<close> gives back the value with what JSON does not keep replaced: keys that are numbers or \<open>None\<close>
  come back as their texts, tuples as lists, instances of derived classes as the built-in value they
  are, and dictionaries in the order of their keys. (Neither direction meets the interpreter's limit
  on nesting.)
\<close>
theorem payload_round_trip:
  assumes "dump_payload mixed v limit what = Inr t" and "well_formed v"
  shows "load (Some t) = Inr (loaded v) \<and> int (length t) \<le> limit"
proof -
  have run: "payload_dumps mixed (not_json what) v = Inr t" "int (length t) \<le> limit"
    using assms(1) by (auto simp: dump_payload_def bindR_Inr_iff split: if_splits)
  have rb: "reads_back (loaded v) t" using run(1) assms(2) by (rule payload_reads_back)
  then have "parse_value (Suc (length t)) (t @ []) = Some (loaded v, [])"
    unfolding reads_back_def by (metis ends_simps(1) le_SucI order_refl)
  moreover have "skip_ws (t @ []) = t @ []" using rb unfolding reads_back_def by (intro opens_skip) simp
  ultimately show ?thesis using run(2) by (simp add: load_def json_loads_def skip_ws_def)
qed

definition keyed_payload :: payload where
  "keyed_payload = VDict [(KInt 10, VTuple [VDerived ''Colour'' (VStr ''red'')]), (KBool True, VNone), (KInt 9, VInt (- 7))]"

theorem payload_round_trip_witness:
  "load (Some (projr (dump_payload (\<lambda>ks. []) keyed_payload 100 ''x''))) =
     Inr (PDict [(''true'', PNone), (''9'', PInt (- 7)), (''10'', PList [PStr ''red''])])"
proof -
  have d: "dump_payload (\<lambda>ks. []) keyed_payload 100 ''x'' = Inr (projr (dump_payload (\<lambda>ks. []) keyed_payload 100 ''x''))"
  proof -
    have digits: "length (dec_nat 10) = 2" "length (dec_nat 7) = 1" "length (dec_nat 9) = 1" by code_simp+
    have "length (member ''true'' ''null'') = 11" "length (member (dec_int 9) (dec_int (- 7))) = 6"
      "length (member (dec_int 10) (CHR ''['' # json_string ''red'' @ '']'')) = 12" by code_simp+
    with digits have "case dump_payload (\<lambda>ks. []) keyed_payload 100 ''x'' of Inl e \<Rightarrow> False | Inr t \<Rightarrow> True"
      by (simp add: dump_payload_def keyed_payload_def encode_items_def sort_items_def sortable_def in_key_order_def
        encode_array_def encode_item_def int_text_def)
    then show ?thesis by (auto split: sum.splits)
  qed
  have "well_formed keyed_payload" by (simp add: keyed_payload_def)
  moreover have "key_name (KInt 9) = ''9''" "key_name (KInt 10) = ''10''" "key_name (KBool True) = ''true''"
    by code_simp+
  ultimately show ?thesis using payload_round_trip [OF d]
    by (simp add: keyed_payload_def in_key_order_def)
qed

text \<open>What is accepted and not given back as it was: one integer key.\<close>

lemma integer_key_comes_back_as_text: "loaded (VDict [(KInt 1, v)]) = PDict [(''1'', loaded v)]"
proof -
  have "key_name (KInt 1) = ''1''" by code_simp
  then show ?thesis by (simp add: in_key_order_def)
qed

text \<open>Keys of different kinds end in a \<open>TypeError\<close>, which \<open>_dump\<close> does not turn into its own error.\<close>

lemma mixed_keys_raise_type_error:
  "class_of (projl (dump_payload mixed (VDict [(KInt 1, v), (KStr ''1'', u)]) limit what)) = Fw ''TypeError''"
  by (simp add: dump_payload_def encode_items_def sort_items_def sortable_def)

end
