(* ===== verification/Cancellation.thy ===== *)
theory Cancellation
  imports Policies
begin

text \<open>
  \<open>CancellationToken\<close> as a specification: the tokens a \<open>cancel\<close> reaches are those on a path of
  live tokens below it, and a token stays at least as cancelled as the one it was derived from.
  The locale \<open>token_store\<close> states what the users of tokens rely on.
\<close>

section \<open>Live paths\<close>

definition live :: "tokens \<Rightarrow> nat \<Rightarrow> bool" where
  "live h t \<longleftrightarrow> t < length h \<and> \<not> t_cancelled (h ! t)"

inductive live_path :: "tokens \<Rightarrow> nat \<Rightarrow> nat \<Rightarrow> bool" for h where
  here: "live h t \<Longrightarrow> live_path h t t"
| below: "live_path h t y \<Longrightarrow> x \<in> set (t_children (h ! y)) \<Longrightarrow> live h x \<Longrightarrow> live_path h t x"

inductive_cases live_pathE: "live_path h t x"

definition stopped :: "token \<Rightarrow> string option \<Rightarrow> token" where
  "stopped k r = k\<lparr>t_cancelled := True, t_reason := r\<rparr>"

lemma live_stop: "t < length h \<Longrightarrow> live (h[t := stopped (h ! t) r]) x \<longleftrightarrow> live h x \<and> x \<noteq> t"
  by (auto simp: live_def stopped_def nth_list_update)

lemma children_stop: "t_children (h[t := stopped (h ! t) r] ! x) = t_children (h ! x)"
  by (cases "x = t"; cases "t < length h") (auto simp: stopped_def list_update_beyond)

lemma live_path_ends: "live_path h t x \<Longrightarrow> live h t \<and> live h x"
  by (induction rule: live_path.induct) auto

lemma path_under_stop:
  assumes "t < length h" and "live_path (h[t := stopped (h ! t) r]) y x"
  shows "live_path h y x"
  using assms(2,1)
  by (induction rule: live_path.induct) (auto simp: live_stop children_stop intro: live_path.intros)

lemma path_over_stop:
  assumes "live_path h y x" and "live h t"
  shows "x = t \<or> live_path (h[t := stopped (h ! t) r]) y x \<or>
    (\<exists>c \<in> set (t_children (h ! t)). live_path (h[t := stopped (h ! t) r]) c x)"
  using assms
proof (induction rule: live_path.induct)
  case (here y)
  then show ?case by (auto simp: live_stop live_def intro: live_path.here)
next
  case (below s y x)
  let ?h = "h[t := stopped (h ! t) r]"
  have "x = t \<or> live ?h x" using below.hyps(3) below.prems by (auto simp: live_stop live_def)
  moreover have "x \<in> set (t_children (?h ! y))" using below.hyps(2) by (simp add: children_stop)
  ultimately show ?case using below.IH [OF below.prems] below.hyps(2)
    by (meson live_path.below live_path.here)
qed

lemma paths_split:
  assumes "live h t"
  shows "(\<exists>y \<in> set (t # ts). live_path h y x) \<longleftrightarrow>
    x = t \<or> (\<exists>y \<in> set (t_children (h ! t) @ ts). live_path (h[t := stopped (h ! t) r]) y x)"
proof -
  have "live_path h t x" if "c \<in> set (t_children (h ! t))" "live_path (h[t := stopped (h ! t) r]) c x" for c
  proof -
    have "live_path h c x" using assms that(2) by (auto simp: live_def intro: path_under_stop)
    then show ?thesis using assms that(1)
      by (induction rule: live_path.induct) (auto intro: live_path.intros)
  qed
  moreover have "live_path h y x" if "live_path (h[t := stopped (h ! t) r]) y x" for y
    using assms that by (auto simp: live_def intro: path_under_stop)
  moreover have "live_path h t t" using assms by (rule live_path.here)
  moreover have "\<not> live_path (h[t := stopped (h ! t) r]) t x"
    using live_path_ends [of "h[t := stopped (h ! t) r]" t x] assms live_stop [of t h r t]
    by (auto simp: live_def)
  ultimately show ?thesis using path_over_stop [OF _ assms, of _ x r] by (auto; blast)
qed

section \<open>What a cancellation changes\<close>

lemma cancel_all_effect:
  "length (cancel_all h ts r) = length h \<and> (\<forall>x < length h.
     cancel_all h ts r ! x = (if \<exists>y \<in> set ts. live_path h y x then stopped (h ! x) r else h ! x))"
proof (induction h ts r rule: cancel_all.induct)
  case (1 h r)
  then show ?case by simp
next
  case (2 h t ts r)
  show ?case
  proof (cases "live h t")
    case True
    then have t: "t < length h \<and> \<not> t_cancelled (h ! t)" by (simp add: live_def)
    let ?h = "h[t := stopped (h ! t) r]"
    have run: "cancel_all h (t # ts) r = cancel_all ?h (t_children (h ! t) @ ts) r"
      using t by (simp add: stopped_def)
    have IH: "length (cancel_all ?h (t_children (h ! t) @ ts) r) = length ?h \<and> (\<forall>x < length ?h.
      cancel_all ?h (t_children (h ! t) @ ts) r ! x =
        (if \<exists>y \<in> set (t_children (h ! t) @ ts). live_path ?h y x then stopped (?h ! x) r else ?h ! x))"
      using 2(1) [OF t] by (simp add: stopped_def)
    show ?thesis
    proof (intro conjI allI impI)
      show "length (cancel_all h (t # ts) r) = length h" using IH run by simp
      fix x assume x: "x < length h"
      have "cancel_all h (t # ts) r ! x = (if \<exists>y \<in> set (t_children (h ! t) @ ts). live_path ?h y x
        then stopped (?h ! x) r else ?h ! x)" using IH run x by simp
      moreover have "\<not> live_path ?h y t" for y
        using live_path_ends [of ?h y t] live_stop [of t h r t] t by auto
      ultimately show "cancel_all h (t # ts) r ! x =
        (if \<exists>y \<in> set (t # ts). live_path h y x then stopped (h ! x) r else h ! x)"
        using paths_split [OF True, of ts x r] t by (cases "x = t") auto
    qed
  next
    case False
    then have "\<not> (t < length h \<and> \<not> t_cancelled (h ! t))" by (simp add: live_def)
    then show ?thesis using 2(2) False live_path_ends [of h t] by (auto split: if_splits)
  qed
qed

text \<open>A derived token is as cancelled as the token it comes from, and is named later.\<close>

definition tokens_ok :: "tokens \<Rightarrow> bool" where
  "tokens_ok h \<longleftrightarrow> (\<forall>t < length h. \<forall>c \<in> set (t_children (h ! t)).
     t < c \<and> c < length h \<and> (t_cancelled (h ! t) \<longrightarrow> t_cancelled (h ! c)))"

definition derived :: "tokens \<Rightarrow> (nat \<times> nat) set" where
  "derived h = {(t, c). t < length h \<and> c \<in> set (t_children (h ! t))}"

lemma tokens_okD:
  assumes "tokens_ok h" and "t < length h" and "c \<in> set (t_children (h ! t))"
  shows "t < c" "c < length h" "t_cancelled (h ! t) \<Longrightarrow> t_cancelled (h ! c)"
  using assms unfolding tokens_ok_def by blast+

lemma tokens_okI:
  assumes "\<And>t c. t < length h \<Longrightarrow> c \<in> set (t_children (h ! t)) \<Longrightarrow> t < c \<and> c < length h"
    and "\<And>t c. t < length h \<Longrightarrow> c \<in> set (t_children (h ! t)) \<Longrightarrow> t_cancelled (h ! t) \<Longrightarrow>
      t_cancelled (h ! c)"
  shows "tokens_ok h"
  using assms unfolding tokens_ok_def by blast

lemma cancel_effect:
  assumes "x < length h"
  shows "cancel h t r ! x = (if live_path h t x then stopped (h ! x) r else h ! x)"
  using cancel_all_effect [of h "[t]" r] assms by (simp add: cancel_def)

lemma cancel_length [simp]: "length (cancel h t r) = length h"
  using cancel_all_effect [of h "[t]" r] by (simp add: cancel_def)

lemma cancel_children: "x < length h \<Longrightarrow> t_children (cancel h t r ! x) = t_children (h ! x)"
  by (simp add: cancel_effect stopped_def)

lemma cancel_ok:
  assumes "tokens_ok h"
  shows "tokens_ok (cancel h t r)"
proof (rule tokens_okI)
  fix p c assume p: "p < length (cancel h t r)" "c \<in> set (t_children (cancel h t r ! p))"
  then have c: "p < length h" "c \<in> set (t_children (h ! p))" by (simp_all add: cancel_children)
  note ok = tokens_okD [OF assms c]
  show "p < c \<and> c < length (cancel h t r)" using ok by simp
  assume "t_cancelled (cancel h t r ! p)"
  then consider "live_path h t p" | "t_cancelled (h ! p)"
    using c by (auto simp: cancel_effect split: if_splits)
  then show "t_cancelled (cancel h t r ! c)"
  proof cases
    case 1
    then have "live h c \<Longrightarrow> live_path h t c" using c(2) by (rule live_path.below)
    then show ?thesis using ok by (auto simp: cancel_effect stopped_def live_def)
  next
    case 2
    then show ?thesis using ok by (simp add: cancel_effect stopped_def)
  qed
qed

lemma new_token_ok: "tokens_ok h \<Longrightarrow> tokens_ok (h @ [new_token])"
  by (rule tokens_okI)
     (auto simp: new_token_def nth_append less_Suc_eq dest: tokens_okD split: if_splits)

lemma child_ok:
  assumes ok: "tokens_ok h" and t: "t < length h" and run: "child h t = (h', c)"
  shows "tokens_ok h'"
proof (cases "t_cancelled (h ! t)")
  case True
  then have h': "h' = h @ [new_token\<lparr>t_cancelled := True, t_reason := t_reason (h ! t)\<rparr>]"
    using run by (simp add: child_def Let_def)
  show ?thesis unfolding h'
    by (rule tokens_okI)
       (auto simp: new_token_def nth_append less_Suc_eq dest: tokens_okD [OF ok] split: if_splits)
next
  case False
  then have h': "h' = (h @ [new_token])[t := (h ! t)\<lparr>t_children := t_children (h ! t) @ [length h]\<rparr>]"
    using run by (auto simp: child_def Let_def)
  show ?thesis unfolding h' using t False
    by (intro tokens_okI)
       (auto simp: new_token_def nth_append nth_list_update less_Suc_eq
         dest: tokens_okD [OF ok] split: if_splits)
qed

lemma derived_cancelled:
  assumes "tokens_ok h" and "(t, c) \<in> (derived h)\<^sup>*" and "t_cancelled (h ! t)"
  shows "t_cancelled (h ! c)"
  using assms(2,3,1)
  by (induction rule: rtrancl_induct) (auto simp: derived_def intro: tokens_okD(3))

lemma live_path_derived: "live_path h t c \<Longrightarrow> (t, c) \<in> (derived h)\<^sup>*"
proof (induction rule: live_path.induct)
  case (below t y x)
  then have "(y, x) \<in> derived h" using live_path_ends by (auto simp: derived_def live_def)
  then show ?case using below.IH by (rule rtrancl_into_rtrancl [rotated])
qed simp

lemma derived_cancel [simp]: "derived (cancel h t r) = derived h"
  by (auto simp: derived_def cancel_children)

section \<open>Token stores the program builds\<close>

inductive token_run :: "tokens \<Rightarrow> bool" where
  token_run_Nil: "token_run []"
| token_run_new: "token_run h \<Longrightarrow> token_run (h @ [new_token])"
| token_run_child: "token_run h \<Longrightarrow> t < length h \<Longrightarrow> child h t = (h', c) \<Longrightarrow> token_run h'"
| token_run_cancel: "token_run h \<Longrightarrow> t < length h \<Longrightarrow> token_run (cancel h t r)"

lemma token_run_ok: "token_run h \<Longrightarrow> tokens_ok h"
proof (induction rule: token_run.induct)
  case token_run_Nil
  show ?case by (simp add: tokens_ok_def)
qed (blast intro: new_token_ok child_ok cancel_ok)+

text \<open>
  C11: cancelling a token cancels it and every token derived from it, however far below, and
  touches nothing else; a token that was cancelled before keeps the reason it was given first.
\<close>
theorem cancel_reaches_every_descendant:
  assumes "token_run h" and "t < length h" and "c < length h"
  shows "((t, c) \<in> (derived h)\<^sup>* \<longrightarrow> t_cancelled (cancel h t r ! c)) \<and>
    (t_cancelled (h ! c) \<longrightarrow> cancel h t r ! c = h ! c) \<and>
    (t_cancelled (cancel h t r ! c) \<and> \<not> t_cancelled (h ! c) \<longrightarrow>
       (t, c) \<in> (derived h)\<^sup>* \<and> t_reason (cancel h t r ! c) = r)"
proof (intro conjI impI)
  have "live h t \<Longrightarrow> live_path h t t" by (rule live_path.here)
  then have "t_cancelled (cancel h t r ! t)"
    using assms(2) by (auto simp: cancel_effect stopped_def live_def)
  then show "(t, c) \<in> (derived h)\<^sup>* \<Longrightarrow> t_cancelled (cancel h t r ! c)"
    using derived_cancelled [of "cancel h t r" t c] cancel_ok [OF token_run_ok [OF assms(1)]] by simp
  show "t_cancelled (h ! c) \<Longrightarrow> cancel h t r ! c = h ! c"
    using assms(3) live_path_ends [of h t c] by (auto simp: cancel_effect live_def)
  assume new: "t_cancelled (cancel h t r ! c) \<and> \<not> t_cancelled (h ! c)"
  then have "live_path h t c" using assms(3) by (auto simp: cancel_effect split: if_splits)
  then show "(t, c) \<in> (derived h)\<^sup>*"
    by (rule live_path_derived)
  show "t_reason (cancel h t r ! c) = r"
    using \<open>live_path h t c\<close> assms(3) by (simp add: cancel_effect stopped_def)
qed

definition family :: tokens where
  "family = fst (child (fst (child [new_token] 0)) 1)"

theorem cancel_reaches_every_descendant_witness: "t_cancelled (cancel family 0 (Some ''stop'') ! 2)"
proof -
  have "token_run [new_token]" using token_run_new [OF token_run_Nil] by simp
  then have "token_run (fst (child [new_token] 0))"
    by (rule token_run_child [where t = 0 and c = "snd (child [new_token] 0)"]) simp_all
  then have run: "token_run family" unfolding family_def
    by (rule token_run_child [where t = 1 and c = 2]) (simp_all add: child_def Let_def new_token_def)
  have "length family = 3" "(0, 1) \<in> derived family" "(1, 2) \<in> derived family"
    by (simp_all add: family_def child_def Let_def new_token_def derived_def)
  then show ?thesis
    using cancel_reaches_every_descendant [OF run, of 0 2 "Some ''stop''"]
    by (auto intro: rtrancl_trans)
qed

end
