(* ===== verification/Procedures.thy ===== *)
theory Procedures
  imports Errors
begin

text \<open>
  Code that runs in steps whose effects stay: a procedure over a world either raises or returns,
  and in both cases leaves a world, so an exception keeps what was done before it. (A transaction
  of the prelude rolls back instead.) The worker, the recovery and the workflow executor are
  procedures over worlds of their own. A relation that is reflexive and transitive and kept by
  the statements of a procedure is kept by the procedure, whichever way it ends.
\<close>

section \<open>Statements\<close>

type_synonym ('w, 'e, 'a) proc = "'w \<Rightarrow> ('e + 'a) \<times> 'w"

definition retA :: "'a \<Rightarrow> ('w, 'e, 'a) proc" where
  "retA x = (\<lambda>w. (Inr x, w))"

definition failA :: "'e \<Rightarrow> ('w, 'e, 'a) proc" where
  "failA e = (\<lambda>w. (Inl e, w))"

definition bindA :: "('w, 'e, 'a) proc \<Rightarrow> ('a \<Rightarrow> ('w, 'e, 'b) proc) \<Rightarrow> ('w, 'e, 'b) proc" where
  "bindA m f = (\<lambda>w. case m w of (Inl e, w') \<Rightarrow> (Inl e, w') | (Inr x, w') \<Rightarrow> f x w')"

definition seqA :: "('w, 'e, 'a) proc \<Rightarrow> ('w, 'e, 'b) proc \<Rightarrow> ('w, 'e, 'b) proc" where
  "seqA m n = bindA m (\<lambda>_. n)"

definition liftA :: "'e + 'a \<Rightarrow> ('w, 'e, 'a) proc" where
  "liftA r = (\<lambda>w. (r, w))"

definition askA :: "('w \<Rightarrow> 'e + 'a) \<Rightarrow> ('w, 'e, 'a) proc" where
  "askA f = (\<lambda>w. (f w, w))"

definition modA :: "('w \<Rightarrow> 'w) \<Rightarrow> ('w, 'e, unit) proc" where
  "modA f = (\<lambda>w. (Inr (), f w))"

definition whenA :: "bool \<Rightarrow> ('w, 'e, unit) proc \<Rightarrow> ('w, 'e, unit) proc" where
  "whenA b m = (if b then m else retA ())"

text \<open>\<open>try: m except handler\<close>; the handler says which exceptions it takes.\<close>

definition catchA ::
    "('w, 'e, 'a) proc \<Rightarrow> ('e \<Rightarrow> ('w, 'e, 'a) proc option) \<Rightarrow> ('w, 'e, 'a) proc" where
  "catchA m h = (\<lambda>w. case m w of
     (Inl e, w') \<Rightarrow> (case h e of None \<Rightarrow> (Inl e, w') | Some n \<Rightarrow> n w')
   | (Inr x, w') \<Rightarrow> (Inr x, w'))"

named_theorems procA \<open>evaluation rules of the statements of a procedure\<close>

lemma retA_apply [procA]: "retA x w = (Inr x, w)"
  by (simp add: retA_def)

lemma failA_apply [procA]: "failA e w = (Inl e, w)"
  by (simp add: failA_def)

lemma liftA_apply [procA]: "liftA r w = (r, w)"
  by (simp add: liftA_def)

lemma askA_apply [procA]: "askA f w = (f w, w)"
  by (simp add: askA_def)

lemma modA_apply [procA]: "modA f w = (Inr (), f w)"
  by (simp add: modA_def)

lemma whenA_apply [procA]: "whenA b m w = (if b then m w else (Inr (), w))"
  by (simp add: whenA_def retA_def)

lemma bindA_apply [procA]:
  "bindA m f w = (case m w of (Inl e, w') \<Rightarrow> (Inl e, w') | (Inr x, w') \<Rightarrow> f x w')"
  by (simp add: bindA_def)

lemma seqA_apply [procA]:
  "seqA m n w = (case m w of (Inl e, w') \<Rightarrow> (Inl e, w') | (Inr x, w') \<Rightarrow> n w')"
  by (simp add: seqA_def bindA_def)

lemma bindA_Inr_iff:
  "bindA m f w = (Inr y, w') \<longleftrightarrow> (\<exists>x u. m w = (Inr x, u) \<and> f x u = (Inr y, w'))"
  by (auto simp: bindA_def split: prod.splits sum.splits)

lemma bindA_Inl_iff:
  "bindA m f w = (Inl e, w') \<longleftrightarrow>
     m w = (Inl e, w') \<or> (\<exists>x u. m w = (Inr x, u) \<and> f x u = (Inl e, w'))"
  by (auto simp: bindA_def split: prod.splits sum.splits)

lemma seqA_Inr_iff:
  "seqA m n w = (Inr y, w') \<longleftrightarrow> (\<exists>x u. m w = (Inr x, u) \<and> n u = (Inr y, w'))"
  by (simp add: seqA_def bindA_Inr_iff)

lemma seqA_Inl_iff:
  "seqA m n w = (Inl e, w') \<longleftrightarrow>
     m w = (Inl e, w') \<or> (\<exists>x u. m w = (Inr x, u) \<and> n u = (Inl e, w'))"
  by (simp add: seqA_def bindA_Inl_iff)

section \<open>Relations kept by procedures\<close>

definition holds_along :: "('w \<Rightarrow> 'w \<Rightarrow> bool) \<Rightarrow> ('w, 'e, 'a) proc \<Rightarrow> bool" where
  "holds_along R m \<longleftrightarrow> (\<forall>w r w'. m w = (r, w') \<longrightarrow> R w w')"

lemma holds_alongI: "(\<And>w r w'. m w = (r, w') \<Longrightarrow> R w w') \<Longrightarrow> holds_along R m"
  by (simp add: holds_along_def)

lemma holds_alongD: "holds_along R m \<Longrightarrow> m w = (r, w') \<Longrightarrow> R w w'"
  by (simp add: holds_along_def)

locale procedure_evolution = evolution R for R :: "'w \<Rightarrow> 'w \<Rightarrow> bool"
begin

lemma retA: "holds_along R (retA x)"
  by (simp add: holds_along_def retA_def refl)

lemma failA: "holds_along R (failA e)"
  by (simp add: holds_along_def failA_def refl)

lemma liftA: "holds_along R (liftA r)"
  by (simp add: holds_along_def liftA_def refl)

lemma askA: "holds_along R (askA f)"
  by (simp add: holds_along_def askA_def refl)

lemma modA: "(\<And>w. R w (f w)) \<Longrightarrow> holds_along R (modA f)"
  by (simp add: holds_along_def modA_def)

lemma bindA:
  assumes "holds_along R m" and "\<And>x. holds_along R (f x)"
  shows "holds_along R (bindA m f)"
proof (rule holds_alongI)
  fix w r w' assume run: "bindA m f w = (r, w')"
  obtain r1 w1 where m: "m w = (r1, w1)" by (cases "m w")
  then have "R w w1" using assms(1) by (simp add: holds_alongD)
  then show "R w w'" using run m assms(2)
    by (cases r1) (auto simp: bindA_def intro: trans holds_alongD)
qed

lemma seqA: "holds_along R m \<Longrightarrow> holds_along R n \<Longrightarrow> holds_along R (seqA m n)"
  by (simp add: seqA_def bindA)

lemma whenA: "(b \<Longrightarrow> holds_along R m) \<Longrightarrow> holds_along R (whenA b m)"
  by (simp add: whenA_def retA)

lemma catchA:
  assumes "holds_along R m" and "\<And>e n. h e = Some n \<Longrightarrow> holds_along R n"
  shows "holds_along R (catchA m h)"
proof (rule holds_alongI)
  fix w r w' assume run: "catchA m h w = (r, w')"
  obtain r1 w1 where m: "m w = (r1, w1)" by (cases "m w")
  then have "R w w1" using assms(1) by (simp add: holds_alongD)
  then show "R w w'" using run m assms(2)
    by (cases r1) (fastforce simp: catchA_def split: option.splits intro: trans dest: holds_alongD)+
qed

lemma branchA: "(b \<Longrightarrow> holds_along R m) \<Longrightarrow> (\<not> b \<Longrightarrow> holds_along R n) \<Longrightarrow> holds_along R (if b then m else n)"
  by simp

lemmas procedure = retA failA liftA askA bindA seqA whenA branchA

end

end
