(* ===== verification/Recovery.thy ===== *)
theory Recovery
  imports Store_Inspect Scheduler Procedures
begin

text \<open>
  \<open>durable/definitions.py\<close> and \<open>durable/recovery.py\<close>, and the shape every procedure above the
  store has: a sequence of transactions and reads, each committing on its own, so an exception
  leaves what was committed before it. The world of such a procedure is the journal and the
  number of times the wall clock was read; the clock itself is a parameter, reading by reading.
\<close>

section \<open>Procedures over the journal\<close>

record world =
  wo_db :: db
  wo_ticks :: nat

type_synonym 'a act = "(world, exn, 'a) proc"

text \<open>A store operation reads the clock once and is one transaction.\<close>

definition txA :: "(nat \<Rightarrow> time) \<Rightarrow> (time \<Rightarrow> 'a jtx) \<Rightarrow> 'a act" where
  "txA clk op = (\<lambda>w. case op (clk (wo_ticks w)) (wo_db w) of
     Inl e \<Rightarrow> (Inl e, w\<lparr>wo_ticks := Suc (wo_ticks w)\<rparr>)
   | Inr (x, s) \<Rightarrow> (Inr x, w\<lparr>wo_db := s, wo_ticks := Suc (wo_ticks w)\<rparr>))"

definition readA :: "'a jread \<Rightarrow> 'a act" where
  "readA r = askA (\<lambda>w. r (wo_db w))"

definition clockA :: "(nat \<Rightarrow> time) \<Rightarrow> time act" where
  "clockA clk = (\<lambda>w. (Inr (clk (wo_ticks w)), w\<lparr>wo_ticks := Suc (wo_ticks w)\<rparr>))"

section \<open>Finding the definition\<close>

definition workflow_key :: "'b workflow \<Rightarrow> string" where
  "workflow_key w = w_name w @ '':'' @ w_version w"

datatype 'b definition_lookup =
    ByKey "(string \<times> 'b workflow) list"
  | ByCall "string \<Rightarrow> string \<Rightarrow> 'b workflow option"

fun lookup_definition :: "'b definition_lookup \<Rightarrow> string \<Rightarrow> string \<Rightarrow> 'b workflow option" where
  "lookup_definition (ByCall f) name version = f name version"
| "lookup_definition (ByKey m) name version = map_of m (name @ '':'' @ version)"

definition msg_not_registered :: "claim \<Rightarrow> string" where
  "msg_not_registered c = ''execution '' @ c_execution c @ '' needs workflow '' @
     py_repr (c_workflow c) @ '' version '' @ py_repr (c_version c) @
     '', which this worker does not have registered''"

definition msg_other_definition :: "claim \<Rightarrow> string" where
  "msg_other_definition c = ''execution '' @ c_execution c @
     '' was submitted against a different definition of workflow '' @ py_repr (c_workflow c) @
     '' version '' @ py_repr (c_version c) @ ''; resume it with the definition it was submitted '' @
     ''with, or submit the change under a new version''"

definition require_definition ::
    "store_env \<Rightarrow> 'b definition_lookup \<Rightarrow> claim \<Rightarrow> exn + 'b workflow" where
  "require_definition env lookup c =
     (case lookup_definition lookup (c_workflow c) (c_version c) of
        None \<Rightarrow> Inl (raised ''DurableVersionError'' (msg_not_registered c))
      | Some w \<Rightarrow>
          if definition_fingerprint env w \<noteq> c_fingerprint c
          then Inl (raised ''DurableVersionError'' (msg_other_definition c)) else Inr w)"

section \<open>Interrupted attempts\<close>

definition msg_unprovable :: string where
  "msg_unprovable = ''the worker stopped during this attempt and the step declares neither '' @
     ''idempotency nor a reconciler, so whether its effect happened cannot be proven''"

definition msg_not_reconciliation :: "string \<Rightarrow> string \<Rightarrow> string" where
  "msg_not_reconciliation sid c = ''the reconciler for step '' @ py_repr sid @ '' returned '' @ c @
     '' instead of a Reconciliation''"

definition resolve_interrupted_attempt ::
    "store_env \<Rightarrow> (nat \<Rightarrow> time) \<Rightarrow> claim \<Rightarrow> (string \<times> activity_policy) list \<Rightarrow> string \<Rightarrow> pyval \<Rightarrow>
      step_state act" where
  "resolve_interrupted_attempt env clk c activities sid inp =
     (let policy = activity_policy_for activities sid in
      if ap_idempotent policy then
        seqA (txA clk (\<lambda>now. resolve_step env now c sid S_PENDING PNone
                (Some ''idempotent: the attempt is repeated'')))
             (retA S_PENDING)
      else case ap_reconcile policy of
        Some f \<Rightarrow>
          (case f sid inp of
             ReconcilerRaised e \<Rightarrow> failA e
           | NotAReconciliation k \<Rightarrow> failA (state_error (msg_not_reconciliation sid k))
           | Decided d \<Rightarrow>
               if rc_state d = S_OUTCOME_UNKNOWN then
                 seqA (txA clk (\<lambda>now. mark_step_outcome_unknown now c sid
                         (or_text (rc_detail d) ''the reconciler could not decide what happened'')))
                      (retA S_OUTCOME_UNKNOWN)
               else
                 seqA (txA clk (\<lambda>now. resolve_step env now c sid (rc_state d) (rc_output d)
                         (Some (or_text (rc_detail d) ''reconciled''))))
                      (retA (rc_state d)))
      | None \<Rightarrow>
          seqA (txA clk (\<lambda>now. mark_step_outcome_unknown now c sid msg_unprovable))
               (retA S_OUTCOME_UNKNOWN))"

text \<open>\<open>_input_for\<close>, the same function in the recovery and in the worker.\<close>

definition input_for :: "'b plan \<Rightarrow> string \<Rightarrow> claim \<Rightarrow> pyval" where
  "input_for p sid c =
     (if p_kind p = RUN_STEP \<and> map_option st_id (p_step p) = Some sid
      then (if p_sources p = [] then c_input c else p_value p)
      else c_input c)"

fun resolve_each ::
    "store_env \<Rightarrow> (nat \<Rightarrow> time) \<Rightarrow> claim \<Rightarrow> (string \<times> activity_policy) list \<Rightarrow> 'b plan \<Rightarrow>
      string list \<Rightarrow> step_state list act" where
  "resolve_each env clk c activities p [] = retA []"
| "resolve_each env clk c activities p (sid # sids) =
     bindA (resolve_interrupted_attempt env clk c activities sid (input_for p sid c)) (\<lambda>st.
     bindA (resolve_each env clk c activities p sids) (\<lambda>sts. retA (st # sts)))"

section \<open>The recovery pass\<close>

record decision =
  de_action :: string
  de_state :: step_state

definition recover_one ::
    "store_env \<Rightarrow> (nat \<Rightarrow> time) \<Rightarrow> claim \<Rightarrow> (string \<times> activity_policy) list \<Rightarrow>
      'b definition_lookup \<Rightarrow> decision act" where
  "recover_one env clk c policies lookup =
     (if c_cancel c then
        seqA (txA clk (\<lambda>now. acknowledge_cancellation now c (Some ''cancellation requested earlier'')))
             (retA \<lparr>de_action = ''cancelled'', de_state = S_FAILED\<rparr>)
      else
        bindA (readA (\<lambda>s. Inr (running_steps (c_execution c) s))) (\<lambda>running.
        if running = [] then
          seqA (txA clk (\<lambda>now. yield_execution now c ''recovered after an expired lease''))
               (retA \<lparr>de_action = ''resumed'', de_state = S_PENDING\<rparr>)
        else
          bindA (liftA (require_definition env lookup c)) (\<lambda>w.
          bindA (readA (\<lambda>s. Inr (step_states (c_execution c) s))) (\<lambda>states.
          bindA (readA (completed_outputs (c_execution c))) (\<lambda>outs.
          bindA (liftA (plan_next w states outs)) (\<lambda>p.
          bindA (resolve_each env clk c policies p running) (\<lambda>sts.
            let st = last sts in
            retA \<lparr>de_action = (if st = S_OUTCOME_UNKNOWN then ''parked'' else ''resumed''),
                  de_state = st\<rparr>)))))))"

record recovery_report =
  rr_expired :: "string list"
  rr_resumed :: "string list"
  rr_parked :: "string list"
  rr_stopped :: "string list"
  rr_decisions :: "(string \<times> string) list"

definition empty_report :: "string list \<Rightarrow> recovery_report" where
  "empty_report ids = \<lparr>rr_expired = ids, rr_resumed = [], rr_parked = [], rr_stopped = [],
     rr_decisions = []\<rparr>"

definition examined :: "recovery_report \<Rightarrow> nat" where
  "examined r = length (rr_expired r)"

definition note_decision :: "string \<Rightarrow> decision \<Rightarrow> recovery_report \<Rightarrow> recovery_report" where
  "note_decision eid d r =
     (if de_action d = ''parked'' then
        r\<lparr>rr_parked := rr_parked r @ [eid],
          rr_decisions := rr_decisions r @ [(eid, ''outcome_unknown'')]\<rparr>
      else if de_action d = ''cancelled'' then
        r\<lparr>rr_stopped := rr_stopped r @ [eid],
          rr_decisions := rr_decisions r @ [(eid, ''cancelled'')]\<rparr>
      else
        r\<lparr>rr_resumed := rr_resumed r @ [eid],
          rr_decisions := rr_decisions r @ [(eid, ''resolved '' @ step_value (de_state d))]\<rparr>)"

definition note_incompatible :: "string \<Rightarrow> recovery_report \<Rightarrow> recovery_report" where
  "note_incompatible eid r = r\<lparr>rr_stopped := rr_stopped r @ [eid],
     rr_decisions := rr_decisions r @ [(eid, ''incompatible definition'')]\<rparr>"

text \<open>
  A definition that is missing or changed fails the execution; the value tells the loop which of
  the two happened.
\<close>

definition recover_claimed ::
    "store_env \<Rightarrow> (nat \<Rightarrow> time) \<Rightarrow> claim \<Rightarrow> (string \<times> activity_policy) list \<Rightarrow>
      'b definition_lookup \<Rightarrow> decision option act" where
  "recover_claimed env clk c policies lookup =
     catchA (bindA (recover_one env clk c policies lookup) (\<lambda>d. retA (Some d)))
       (\<lambda>e. if instance_of e ''DurableVersionError''
            then Some (seqA (txA clk (\<lambda>now. fail_execution now c FK_INCOMPATIBLE_DEFINITION (str_of e)))
                            (retA None))
            else None)"

text \<open>The loop stops as soon as the claim is not the execution it looked at.\<close>

fun recover_each ::
    "store_env \<Rightarrow> (nat \<Rightarrow> time) \<Rightarrow> (string \<times> activity_policy) list \<Rightarrow> 'b definition_lookup \<Rightarrow>
      string \<Rightarrow> real option \<Rightarrow> string list \<Rightarrow> recovery_report \<Rightarrow> recovery_report act" where
  "recover_each env clk policies lookup owner ttl [] r = retA r"
| "recover_each env clk policies lookup owner ttl (eid # eids) r =
     bindA (txA clk (\<lambda>now. claim_next env now owner ttl)) (\<lambda>claimed.
     case claimed of
       None \<Rightarrow> retA r
     | Some c \<Rightarrow>
         if c_execution c \<noteq> eid then retA r
         else
           bindA (recover_claimed env clk c policies lookup) (\<lambda>d.
           recover_each env clk policies lookup owner ttl eids
             (case d of None \<Rightarrow> note_incompatible eid r | Some d \<Rightarrow> note_decision eid d r)))"

definition recover ::
    "store_env \<Rightarrow> (nat \<Rightarrow> time) \<Rightarrow> 'b definition_lookup \<Rightarrow> (string \<times> activity_policy) list \<Rightarrow>
      string \<Rightarrow> real option \<Rightarrow> nat \<Rightarrow> recovery_report act" where
  "recover env clk lookup policies owner ttl limit =
     bindA (clockA clk) (\<lambda>now.
     bindA (readA (\<lambda>s. Inr (take limit (expired_leases now s)))) (\<lambda>eids.
     recover_each env clk policies lookup owner ttl eids (empty_report eids)))"

end
