(* ===== verification/Worker.thy ===== *)
theory Worker
  imports Recovery
begin

text \<open>
  \<open>durable/worker.py\<close>: claim an execution, advance it by one step, commit the outcome. A running
  step is outside the program: \<open>attempt\<close> says how it ended, given the step, its input and context
  and the world it started in, the error the heartbeat ended with, if any, and the world it left:
  the journal as other workers and this worker's heartbeat (\<open>watch_turn\<close>) changed it meanwhile.
\<close>

section \<open>Settings\<close>

record worker_settings =
  ws_owner :: "string option"
  ws_lease_ttl :: "real option"
  ws_heartbeat :: "real option"
  ws_poll_interval :: real
  ws_max_poll_interval :: real
  ws_poll_backoff :: real

definition positive_or :: "string \<Rightarrow> real \<Rightarrow> exn + unit" where
  "positive_or name v = refuse_if (v \<le> 0) (state_error (name @ '' must be greater than zero''))"

definition check_worker_settings :: "worker_settings \<Rightarrow> exn + unit" where
  "check_worker_settings ws =
     bindR (positive_or ''poll_interval'' (ws_poll_interval ws)) (\<lambda>_.
     bindR (positive_or ''max_poll_interval'' (ws_max_poll_interval ws)) (\<lambda>_.
     bindR (positive_or ''poll_backoff'' (ws_poll_backoff ws)) (\<lambda>_.
     bindR (refuse_if (given blank (ws_owner ws))
              (state_error ''a worker name must not be blank'')) (\<lambda>_.
     bindR (refuse_if (given (\<lambda>t. t \<le> 0) (ws_lease_ttl ws))
              (state_error ''lease_ttl must be greater than zero'')) (\<lambda>_.
     refuse_if (given (\<lambda>t. t \<le> 0) (ws_heartbeat ws))
       (state_error ''heartbeat_seconds must be greater than zero''))))))"

text \<open>\<open>configured or default\<close>: a zero counts as absent.\<close>

definition worker_ttl :: "store_env \<Rightarrow> worker_settings \<Rightarrow> real" where
  "worker_ttl env ws = (case ws_lease_ttl ws of
     Some t \<Rightarrow> if t = 0 then lease_ttl_seconds env else t | None \<Rightarrow> lease_ttl_seconds env)"

definition heartbeat_seconds :: "store_env \<Rightarrow> worker_settings \<Rightarrow> real" where
  "heartbeat_seconds env ws = (case ws_heartbeat ws of
     Some t \<Rightarrow> t | None \<Rightarrow> max (worker_ttl env ws / 3) (1 / 100))"

definition next_poll :: "worker_settings \<Rightarrow> real \<Rightarrow> real" where
  "next_poll ws delay = min (delay * ws_poll_backoff ws) (ws_max_poll_interval ws)"

section \<open>One step attempt\<close>

datatype attempt_end = Returned pyval | OverBudget | Raised exn

type_synonym 'b runner =
  "'b wf_step \<Rightarrow> pyval \<Rightarrow> step_context \<Rightarrow> real option \<Rightarrow> world \<Rightarrow>
     attempt_end \<times> exn option \<times> world"

text \<open>
  What a worker is made of: the store's environment, the wall clock reading by reading, the
  monotonic clock of the step context, the next value of its random source, the text of a float
  in a message, and the running of a step.
\<close>

record 'b worker_env =
  we_store :: store_env
  we_clock :: "nat \<Rightarrow> time"
  we_monotonic :: "world \<Rightarrow> real"
  we_random :: "world \<Rightarrow> real"
  we_attempt :: "'b runner"
  we_lookup :: "'b definition_lookup"
  we_activities :: "(string \<times> activity_policy) list"
  we_settings :: worker_settings
  we_owner :: string

abbreviation txW :: "'b worker_env \<Rightarrow> (time \<Rightarrow> 'a jtx) \<Rightarrow> 'a act" where
  "txW we \<equiv> txA (we_clock we)"

record work_outcome =
  ou_execution :: string
  ou_action :: string
  ou_step :: "string option"
  ou_attempt :: "int option"
  ou_detail :: string

definition outcome_of ::
    "claim \<Rightarrow> string \<Rightarrow> string option \<Rightarrow> int option \<Rightarrow> string \<Rightarrow> work_outcome" where
  "outcome_of c action sid n det = \<lparr>ou_execution = c_execution c, ou_action = action,
     ou_step = sid, ou_attempt = n, ou_detail = det\<rparr>"

text \<open>\<open>_attempt_budget\<close>: the seconds left, from the step's timeout and the run's deadline.\<close>

definition total_seconds :: "time \<Rightarrow> real" where
  "total_seconds d = of_int d / 1000000"

definition attempt_budget :: "claim \<Rightarrow> real option \<Rightarrow> time \<Rightarrow> real option" where
  "attempt_budget c step_timeout now = (case c_deadline c of
     None \<Rightarrow> step_timeout
   | Some d \<Rightarrow>
       let rest = total_seconds (d - now) in
       Some (case step_timeout of None \<Rightarrow> rest | Some t \<Rightarrow> min t rest))"

text \<open>The clock is read only when there is a deadline.\<close>

definition budget_act :: "'b worker_env \<Rightarrow> claim \<Rightarrow> real option \<Rightarrow> real option act" where
  "budget_act we c step_timeout =
     (if c_deadline c = None then retA step_timeout
      else bindA (clockA (we_clock we)) (\<lambda>now. retA (attempt_budget c step_timeout now)))"

text \<open>\<open>_retry_at\<close>: when the next attempt may run.\<close>

definition retry_delay :: "'b wf_step \<Rightarrow> int \<Rightarrow> exn \<Rightarrow> real \<Rightarrow> exn + real option" where
  "retry_delay s n e rnd = (case st_retry s of
     None \<Rightarrow> Inr None
   | Some r \<Rightarrow>
       if r_max_attempts r \<le> n \<or> \<not> allows r e then Inr None
       else bindR (delay_for (r_backoff r) n rnd) (\<lambda>d. Inr (Some d)))"

definition retry_at :: "'b worker_env \<Rightarrow> 'b wf_step \<Rightarrow> int \<Rightarrow> exn \<Rightarrow> time option act" where
  "retry_at we s n e = (\<lambda>w.
     bindA (liftA (retry_delay s n e (we_random we w))) (\<lambda>d. case d of
       None \<Rightarrow> retA None
     | Some d \<Rightarrow> bindA (clockA (we_clock we)) (\<lambda>now. retA (Some (now + timedelta d)))) w)"

text \<open>\<open>_record_failure\<close>\<close>

definition record_failure ::
    "'b worker_env \<Rightarrow> claim \<Rightarrow> 'b wf_step \<Rightarrow> int \<Rightarrow> exn \<Rightarrow> time option \<Rightarrow> string \<Rightarrow>
      work_outcome act" where
  "record_failure we c s n e due det =
     bindA (txW we (\<lambda>now. fail_step now c (st_id s) (type_name (class_of e)) (str_of e) due
              (Some det))) (\<lambda>st.
     bindA (readA (inspect (c_execution c))) (\<lambda>view.
       if xv_status view = X_TIMED_OUT then
         retA (outcome_of c ''timed_out'' (Some (st_id s)) (Some n) '''')
       else if st = S_PENDING then
         retA (outcome_of c ''retry_scheduled'' (Some (st_id s)) (Some n) det)
       else retA (outcome_of c ''failed'' (Some (st_id s)) (Some n) det)))"

text \<open>\<open>_after_step\<close>\<close>

definition msg_recorded :: "string \<Rightarrow> string" where
  "msg_recorded sid = ''step '' @ py_repr sid @ '' recorded; ready for the next step''"

definition plan_now :: "'b workflow \<Rightarrow> string \<Rightarrow> 'b plan act" where
  "plan_now wk eid =
     bindA (readA (\<lambda>s. Inr (step_states eid s))) (\<lambda>states.
     bindA (readA (completed_outputs eid)) (\<lambda>outs. liftA (plan_next wk states outs)))"

definition outputs_value :: "'b plan \<Rightarrow> pyval" where
  "outputs_value p = (case p_outputs p of None \<Rightarrow> PNone | Some kvs \<Rightarrow> PDict kvs)"

definition after_step ::
    "'b worker_env \<Rightarrow> claim \<Rightarrow> 'b workflow \<Rightarrow> string \<Rightarrow> int \<Rightarrow> work_outcome act" where
  "after_step we c wk sid n =
     bindA (plan_now wk (c_execution c)) (\<lambda>p.
       if p_kind p = COMPLETE then
         seqA (txW we (\<lambda>now. complete_execution (we_store we) now c (outputs_value p)))
              (retA (outcome_of c ''completed'' (Some sid) (Some n) (p_reason p)))
       else if p_kind p = CONFLICT then
         seqA (txW we (\<lambda>now. fail_execution now c FK_DEFINITION_CONFLICT (p_reason p)))
              (retA (outcome_of c ''failed'' (Some sid) (Some n) ''conflict''))
       else
         seqA (txW we (\<lambda>now. yield_execution now c (msg_recorded sid)))
              (retA (outcome_of c ''ran_step'' (Some sid) (Some n) ''yielded'')))"

text \<open>
  \<open>_run_step\<close>. \<open>asyncio.TimeoutError\<close> is the builtin \<open>TimeoutError\<close>, so a step that raises one itself
  ends in the same branch as one that ran over its budget; an exception outside \<open>Exception\<close> (a task
  cancelled from outside) is not caught at all.
\<close>

definition msg_over_budget :: "store_env \<Rightarrow> string \<Rightarrow> real option \<Rightarrow> string" where
  "msg_over_budget env sid budget = ''step '' @ py_repr sid @ '' exceeded its '' @
     (case budget of None \<Rightarrow> ''None'' | Some b \<Rightarrow> float_repr env b) @ ''s budget''"

definition msg_no_time :: "string \<Rightarrow> string" where
  "msg_no_time sid = ''step '' @ py_repr sid @ '' started with no time left''"

definition step_timed_out ::
    "'b worker_env \<Rightarrow> claim \<Rightarrow> 'b wf_step \<Rightarrow> int \<Rightarrow> real option \<Rightarrow> work_outcome act" where
  "step_timed_out we c s n budget =
     record_failure we c s n
       (raised ''StepTimeoutError'' (msg_over_budget (we_store we) (st_id s) budget)) None
       ''step timeout''"

definition conclude_attempt ::
    "'b worker_env \<Rightarrow> claim \<Rightarrow> 'b workflow \<Rightarrow> 'b wf_step \<Rightarrow> int \<Rightarrow> real option \<Rightarrow> attempt_end \<Rightarrow>
      work_outcome act" where
  "conclude_attempt we c wk s n budget r =
     (case r of
        Returned v \<Rightarrow>
          seqA (txW we (\<lambda>now. complete_step (we_store we) now c (st_id s) v))
               (after_step we c wk (st_id s) n)
      | OverBudget \<Rightarrow> step_timed_out we c s n budget
      | Raised e \<Rightarrow>
          if instance_of e ''TimeoutError'' then step_timed_out we c s n budget
          else if instance_of e ''WorkflowCancelledError'' then
            seqA (txW we (\<lambda>now. acknowledge_cancellation now c (Some (str_of e))))
                 (retA (outcome_of c ''cancelled'' (Some (st_id s)) (Some n) (str_of e)))
          else if instance_of e ''WorkflowTimeoutError'' then
            seqA (txW we (\<lambda>now. time_out_execution now c (str_of e)))
                 (retA (outcome_of c ''timed_out'' (Some (st_id s)) (Some n) (str_of e)))
          else if instance_of e ''Exception'' then
            bindA (retry_at we s n e) (\<lambda>due.
              record_failure we c s n e due (type_name (class_of e)))
          else failA e)"

definition context_for ::
    "'b worker_env \<Rightarrow> 'b workflow \<Rightarrow> string \<Rightarrow> int \<Rightarrow> real option \<Rightarrow> world \<Rightarrow> step_context" where
  "context_for we wk sid n budget w = \<lparr>sc_workflow = w_name wk, sc_version = w_version wk,
     sc_step = sid, sc_attempt = n, sc_deadline = map_option (\<lambda>b. we_monotonic we w + b) budget\<rparr>"

definition attempt_act ::
    "'b worker_env \<Rightarrow> 'b workflow \<Rightarrow> 'b wf_step \<Rightarrow> pyval \<Rightarrow> int \<Rightarrow> real option \<Rightarrow>
      (attempt_end \<times> exn option) act" where
  "attempt_act we wk s v n budget = (\<lambda>w.
     case we_attempt we s v (context_for we wk (st_id s) n budget w) budget w of
       (r, hb, w') \<Rightarrow> (Inr (r, hb), w'))"

text \<open>
  The \<open>finally\<close> clause awaits the heartbeat: an error of its own comes out there, before a
  returned output is recorded, and after a failure was.
\<close>

definition finish_attempt ::
    "'b worker_env \<Rightarrow> claim \<Rightarrow> 'b workflow \<Rightarrow> 'b wf_step \<Rightarrow> int \<Rightarrow> real option \<Rightarrow>
      attempt_end \<times> exn option \<Rightarrow> work_outcome act" where
  "finish_attempt we c wk s n budget ended =
     (case ended of
        (r, None) \<Rightarrow> conclude_attempt we c wk s n budget r
      | (Returned v, Some e) \<Rightarrow> failA e
      | (r, Some e) \<Rightarrow> seqA (conclude_attempt we c wk s n budget r) (failA e))"

definition run_step ::
    "'b worker_env \<Rightarrow> claim \<Rightarrow> 'b workflow \<Rightarrow> string \<Rightarrow> pyval \<Rightarrow> work_outcome act" where
  "run_step we c wk sid v =
     bindA (liftA (step_by_id wk sid)) (\<lambda>s.
     bindA (txW we (\<lambda>now. start_step now c (st_id s)
              (Some (c_execution c @ '':'' @ st_id s)))) (\<lambda>n.
     bindA (budget_act we c (st_timeout s)) (\<lambda>budget.
       if given (\<lambda>b. b \<le> 0) budget then
         seqA (txW we (\<lambda>now. time_out_execution now c (msg_no_time (st_id s))))
              (retA (outcome_of c ''timed_out'' (Some (st_id s)) (Some n) ''''))
       else
         bindA (attempt_act we wk s v n budget) (finish_attempt we c wk s n budget))))"

section \<open>The heartbeat\<close>

text \<open>
  One turn of \<open>_watch\<close>: \<open>None\<close> keeps watching, a text is the reason the token is cancelled with.
  A lost lease ends the watch, any other error ends it as well and reaches \<open>await heartbeat\<close>.
\<close>

definition watch_turn :: "'b worker_env \<Rightarrow> claim \<Rightarrow> string option act" where
  "watch_turn we c =
     catchA
       (bindA (readA (cancellation_requested (c_execution c))) (\<lambda>req.
          if req then retA (Some ''cancellation was requested while the step was running'')
          else seqA (txW we (\<lambda>now. renew_lease (we_store we) now c
                  (Some (worker_ttl (we_store we) (we_settings we)))))
                (retA None)))
       (\<lambda>e. if instance_of e ''DurableLeaseError''
            then Some (retA (Some ''the lease was lost while the step was running'')) else None)"

section \<open>One claim\<close>

text \<open>Skips are applied until something has to run; the loop is bounded by the step count.\<close>

fun advance ::
    "'b worker_env \<Rightarrow> claim \<Rightarrow> 'b workflow \<Rightarrow> states \<Rightarrow> outputs \<Rightarrow> nat \<Rightarrow> work_outcome act" where
  "advance we c wk states outs 0 =
     failA (state_error (''execution '' @ c_execution c @ '' made no progress''))"
| "advance we c wk states outs (Suc fuel) =
     bindA (liftA (plan_next wk states outs)) (\<lambda>p.
       case p_kind p of
         COMPLETE \<Rightarrow>
           seqA (txW we (\<lambda>now. complete_execution (we_store we) now c (outputs_value p)))
                (retA (outcome_of c ''completed'' None None (p_reason p)))
       | CONFLICT \<Rightarrow>
           seqA (txW we (\<lambda>now. fail_execution now c FK_DEFINITION_CONFLICT (p_reason p)))
                (retA (outcome_of c ''failed'' (map_option st_id (p_step p)) None
                   ''definition conflict''))
       | NEEDS_DECISION \<Rightarrow>
           seqA (txW we (\<lambda>now. mark_waiting now c (p_reason p)))
                (retA (outcome_of c ''parked'' (map_option st_id (p_step p)) None
                   ''needs_decision''))
       | SKIP_STEP \<Rightarrow>
           (case p_step p of
              None \<Rightarrow> failA (state_error ''a scheduling plan named no step'')
            | Some s \<Rightarrow>
                seqA (txW we (\<lambda>now. skip_step now c (st_id s) (p_reason p)))
                     (advance we c wk (dict_set states (st_id s) S_SKIPPED) outs fuel))
       | RUN_STEP \<Rightarrow>
           (case p_step p of
              None \<Rightarrow> failA (state_error ''a scheduling plan named no step'')
            | Some s \<Rightarrow>
                run_step we c wk (st_id s) (if p_sources p = [] then c_input c else p_value p)))"

definition run_claimed :: "'b worker_env \<Rightarrow> claim \<Rightarrow> 'b workflow \<Rightarrow> work_outcome act" where
  "run_claimed we c wk =
     bindA (readA (\<lambda>s. Inr (step_states (c_execution c) s))) (\<lambda>states.
     bindA (readA (completed_outputs (c_execution c))) (\<lambda>outs.
     bindA (readA (\<lambda>s. Inr (running_steps (c_execution c) s))) (\<lambda>interrupted.
       if interrupted = [] then
         advance we c wk states outs (Suc (length (w_steps wk)))
       else
         bindA (liftA (plan_next wk states outs)) (\<lambda>p.
         bindA (resolve_each (we_store we) (we_clock we) c (we_activities we) p interrupted) (\<lambda>ends.
           if S_OUTCOME_UNKNOWN \<in> set ends then
             retA (outcome_of c ''parked'' (Some (hd interrupted)) None ''outcome_unknown'')
           else
             bindA (readA (\<lambda>s. Inr (step_states (c_execution c) s))) (\<lambda>states'.
             advance we c wk states' outs (Suc (length (w_steps wk)))))))))"

text \<open>\<open>_deadline_passed\<close> reads the clock only when there is a deadline.\<close>

definition deadline_passed :: "'b worker_env \<Rightarrow> claim \<Rightarrow> bool act" where
  "deadline_passed we c = (case c_deadline c of
     None \<Rightarrow> retA False
   | Some d \<Rightarrow> bindA (clockA (we_clock we)) (\<lambda>now. retA (d \<le> now)))"

definition run_defined :: "'b worker_env \<Rightarrow> claim \<Rightarrow> 'b workflow \<Rightarrow> work_outcome act" where
  "run_defined we c wk =
     bindA (deadline_passed we c) (\<lambda>late.
       if late then
         seqA (txW we (\<lambda>now. time_out_execution now c
                 ''the execution deadline passed before the step started''))
              (retA (outcome_of c ''timed_out'' None None ''deadline passed''))
       else run_claimed we c wk)"

definition run_once :: "'b worker_env \<Rightarrow> work_outcome option act" where
  "run_once we =
     bindA (txW we (\<lambda>now. claim_next (we_store we) now (we_owner we)
              (Some (worker_ttl (we_store we) (we_settings we))))) (\<lambda>claimed.
     case claimed of
       None \<Rightarrow> retA None
     | Some c \<Rightarrow>
         if c_cancel c then
           seqA (txW we (\<lambda>now. acknowledge_cancellation now c
                   (Some ''cancellation was requested before this worker started the step'')))
                (retA (Some (outcome_of c ''cancelled'' None None ''requested before the step'')))
         else (case require_definition (we_store we) (we_lookup we) c of
           Inl e \<Rightarrow>
             seqA (txW we (\<lambda>now. fail_execution now c FK_INCOMPATIBLE_DEFINITION (str_of e)))
                  (retA (Some (outcome_of c ''failed'' None None ''incompatible definition'')))
         | Inr wk \<Rightarrow> bindA (run_defined we c wk) (\<lambda>out. retA (Some out))))"

section \<open>The serving loop\<close>

definition worker_recover :: "'b worker_env \<Rightarrow> recovery_report act" where
  "worker_recover we = recover (we_store we) (we_clock we) (we_lookup we) (we_activities we)
     (we_owner we @ '':recovery'') (Some (worker_ttl (we_store we) (we_settings we))) 100"

text \<open>
  \<open>serve\<close>. Whether the halting event is set is asked at the head of the loop and, while idle,
  awaited for the current delay; the answers are one stream. The loop has no bound of its own:
  \<open>fuel\<close> counts its turns and \<open>None\<close> stands for not having returned yet.
\<close>

fun serve_loop ::
    "'b worker_env \<Rightarrow> (nat \<Rightarrow> bool) \<Rightarrow> nat option \<Rightarrow> nat \<Rightarrow> nat \<Rightarrow> real \<Rightarrow> nat \<Rightarrow> world \<Rightarrow>
      ((exn + nat) \<times> world) option" where
  "serve_loop we halt maxi 0 q delay worked w = None"
| "serve_loop we halt maxi (Suc fuel) q delay worked w =
     (if halt q then Some (Inr worked, w)
      else case run_once we w of
        (Inl e, w') \<Rightarrow> Some (Inl e, w')
      | (Inr None, w') \<Rightarrow>
          if halt (Suc q) then Some (Inr worked, w')
          else serve_loop we halt maxi fuel (Suc (Suc q)) (next_poll (we_settings we) delay) worked w'
      | (Inr (Some out), w') \<Rightarrow>
          if given (\<lambda>m. m \<le> Suc worked) maxi then Some (Inr (Suc worked), w')
          else serve_loop we halt maxi fuel (Suc q) (ws_poll_interval (we_settings we)) (Suc worked) w')"

definition serve ::
    "'b worker_env \<Rightarrow> (nat \<Rightarrow> bool) \<Rightarrow> nat option \<Rightarrow> bool \<Rightarrow> nat \<Rightarrow> world \<Rightarrow>
      ((exn + nat) \<times> world) option" where
  "serve we halt maxi recover_first fuel w =
     (if recover_first then
        (case worker_recover we w of
           (Inl e, w') \<Rightarrow> Some (Inl e, w')
         | (Inr r, w') \<Rightarrow> serve_loop we halt maxi fuel 0 (ws_poll_interval (we_settings we)) 0 w')
      else serve_loop we halt maxi fuel 0 (ws_poll_interval (we_settings we)) 0 w)"

end
