(* ===== verification/Worker_History.thy ===== *)
theory Worker_History
  imports Worker Journal_History
begin

text \<open>
  Procedures over the journal as histories of it: recovery and the worker touch the journal only
  through operations of the store, so whatever they do is a history in the sense of the theory
  \<open>Fencing\<close>, and every invariant of the journal survives them, exceptions included.
\<close>

section \<open>Histories of the journal\<close>

definition journal_history :: "store_env \<Rightarrow> (nat \<Rightarrow> time) \<Rightarrow> world \<Rightarrow> world \<Rightarrow> bool" where
  "journal_history env clk w w' \<longleftrightarrow> wo_ticks w \<le> wo_ticks w' \<and>
     runs env (clk (wo_ticks w)) (wo_db w) (clk (wo_ticks w')) (wo_db w')"

interpretation histories: procedure_evolution "journal_history env clk"
  by unfold_locales (auto simp: journal_history_def intro: runs_refl runs_trans order_trans)

lemma transaction_history:
  assumes "mono clk" and "\<And>now s x t. op now s = Inr (x, t) \<Longrightarrow> store_step env now s t"
  shows "holds_along (journal_history env clk) (txA clk op)"
proof (rule holds_alongI)
  fix w r w' assume run: "txA clk op w = (r, w')"
  have later: "clk (wo_ticks w) \<le> clk (Suc (wo_ticks w))" using assms(1) by (simp add: monoD)
  show "journal_history env clk w w'"
  proof (cases "op (clk (wo_ticks w)) (wo_db w)")
    case (Inl e)
    then have "w' = w\<lparr>wo_ticks := Suc (wo_ticks w)\<rparr>" using run by (auto simp: txA_def)
    then show ?thesis using later by (auto simp: journal_history_def intro: runs_wait runs_refl)
  next
    case (Inr p)
    then obtain x t where op: "op (clk (wo_ticks w)) (wo_db w) = Inr (x, t)" by (cases p) auto
    then have w': "w' = w\<lparr>wo_db := t, wo_ticks := Suc (wo_ticks w)\<rparr>" using run by (auto simp: txA_def)
    have "runs env (clk (wo_ticks w)) (wo_db w) (clk (wo_ticks w)) t"
      using assms(2) [OF op] by (rule step_runs)
    then show ?thesis using later w' by (auto simp: journal_history_def intro: runs_wait)
  qed
qed

lemma clock_history: "mono clk \<Longrightarrow> holds_along (journal_history env clk) (clockA clk)"
  by (auto simp: holds_along_def clockA_def journal_history_def monoD intro: runs_wait runs_refl)

named_theorems hist \<open>procedures that only take steps of the journal\<close>

lemma operation_history [hist]:
  assumes "mono clk"
  shows "holds_along (journal_history env clk) (txA clk (\<lambda>now. claim_next env now owner ttl))"
    and "holds_along (journal_history env clk) (txA clk (\<lambda>now. renew_lease env now c ttl))"
    and "holds_along (journal_history env clk) (txA clk (\<lambda>now. start_step now c sid ikey))"
    and "holds_along (journal_history env clk) (txA clk (\<lambda>now. complete_step env now c sid out))"
    and "holds_along (journal_history env clk) (txA clk (\<lambda>now. yield_execution now c why))"
    and "holds_along (journal_history env clk) (txA clk (\<lambda>now. skip_step now c sid why))"
    and "holds_along (journal_history env clk) (txA clk (\<lambda>now. fail_step now c sid et em due det))"
    and "holds_along (journal_history env clk) (txA clk (\<lambda>now. mark_step_outcome_unknown now c sid why))"
    and "holds_along (journal_history env clk) (txA clk (\<lambda>now. resolve_step env now c sid st out det))"
    and "holds_along (journal_history env clk) (txA clk (\<lambda>now. complete_execution env now c out))"
    and "holds_along (journal_history env clk) (txA clk (\<lambda>now. fail_execution now c kind msg))"
    and "holds_along (journal_history env clk) (txA clk (\<lambda>now. time_out_execution now c msg))"
    and "holds_along (journal_history env clk) (txA clk (\<lambda>now. acknowledge_cancellation now c reason))"
    and "holds_along (journal_history env clk) (txA clk (\<lambda>now. mark_waiting now c why))"
  using assms by (auto intro!: transaction_history intro: store_step.intros)

lemma read_history [hist]: "holds_along (journal_history env clk) (readA r)"
  by (simp add: readA_def histories.askA)

section \<open>Recovery\<close>

lemma resolve_history [hist]:
  assumes "mono clk"
  shows "holds_along (journal_history env clk) (resolve_interrupted_attempt env clk c acts sid v)"
proof (cases "ap_reconcile (activity_policy_for acts sid)")
  case None
  then show ?thesis unfolding resolve_interrupted_attempt_def Let_def
    by (simp add: histories.procedure hist assms)
next
  case (Some f)
  then show ?thesis unfolding resolve_interrupted_attempt_def Let_def
    by (cases "f sid v") (simp_all add: histories.procedure hist assms)
qed

lemma resolve_each_history [hist]:
  "mono clk \<Longrightarrow> holds_along (journal_history env clk) (resolve_each env clk c acts p sids)"
  by (induction sids) (simp_all add: histories.procedure hist)

lemma recover_one_history [hist]:
  "mono clk \<Longrightarrow> holds_along (journal_history env clk) (recover_one env clk c policies lookup)"
  unfolding recover_one_def Let_def
  by (intro histories.procedure hist; assumption)

lemma recover_claimed_history [hist]:
  "mono clk \<Longrightarrow> holds_along (journal_history env clk) (recover_claimed env clk c policies lookup)"
  unfolding recover_claimed_def
  by (intro histories.catchA histories.procedure hist)
     (auto intro!: histories.procedure hist split: if_splits)

lemma recover_each_history [hist]:
  "mono clk \<Longrightarrow> holds_along (journal_history env clk) (recover_each env clk policies lookup owner ttl eids r)"
proof (induction eids arbitrary: r)
  case Nil
  then show ?case by (simp add: histories.procedure)
next
  case (Cons eid eids)
  have "holds_along (journal_history env clk) (case claimed of None \<Rightarrow> retA r | Some c \<Rightarrow>
      if c_execution c \<noteq> eid then retA r
      else bindA (recover_claimed env clk c policies lookup) (\<lambda>d.
        recover_each env clk policies lookup owner ttl eids
          (case d of None \<Rightarrow> note_incompatible eid r | Some d \<Rightarrow> note_decision eid d r)))" for claimed
    using Cons by (cases claimed) (auto intro!: histories.procedure hist)
  then show ?case using Cons.prems by (simp add: histories.bindA hist)
qed

lemma recover_history [hist]:
  "mono clk \<Longrightarrow> holds_along (journal_history env clk) (recover env clk lookup policies owner ttl limit)"
  unfolding recover_def by (intro histories.procedure hist clock_history; assumption)

section \<open>The worker\<close>

text \<open>
  What is assumed of a running step: while it runs, the journal changes only by operations of the
  store, this worker's heartbeat and other callers interleaved.
\<close>

definition attempts_use_store :: "'b worker_env \<Rightarrow> bool" where
  "attempts_use_store we \<longleftrightarrow> (\<forall>s v sc budget w r hb w'. we_attempt we s v sc budget w = (r, hb, w') \<longrightarrow>
     journal_history (we_store we) (we_clock we) w w')"

abbreviation worker_history :: "'b worker_env \<Rightarrow> world \<Rightarrow> world \<Rightarrow> bool" where
  "worker_history we \<equiv> journal_history (we_store we) (we_clock we)"

lemma attempt_history [hist]:
  "attempts_use_store we \<Longrightarrow> holds_along (worker_history we) (attempt_act we wk s v n budget)"
  by (auto simp: holds_along_def attempt_act_def attempts_use_store_def split: prod.splits)

lemma budget_history [hist]:
  "mono (we_clock we) \<Longrightarrow> holds_along (worker_history we) (budget_act we c t)"
  unfolding budget_act_def by (intro histories.procedure clock_history; assumption)

lemma retry_at_history [hist]:
  assumes "mono (we_clock we)"
  shows "holds_along (worker_history we) (retry_at we s n e)"
proof -
  have "holds_along (worker_history we) (case d of None \<Rightarrow> retA None
      | Some d \<Rightarrow> bindA (clockA (we_clock we)) (\<lambda>now. retA (Some (now + timedelta d))))" for d
    using assms by (cases d) (auto intro!: histories.procedure clock_history)
  then have "holds_along (worker_history we) (bindA (liftA r) (\<lambda>d. case d of None \<Rightarrow> retA None
      | Some d \<Rightarrow> bindA (clockA (we_clock we)) (\<lambda>now. retA (Some (now + timedelta d)))))" for r
    by (intro histories.procedure)
  then show ?thesis unfolding holds_along_def retry_at_def by blast
qed

lemma record_failure_history [hist]:
  "mono (we_clock we) \<Longrightarrow> holds_along (worker_history we) (record_failure we c s n e due det)"
  unfolding record_failure_def by (intro histories.procedure hist; assumption)

lemma after_step_history [hist]:
  "mono (we_clock we) \<Longrightarrow> holds_along (worker_history we) (after_step we c wk sid n)"
  unfolding after_step_def plan_now_def by (intro histories.procedure hist; assumption)

lemma conclude_history [hist]:
  "mono (we_clock we) \<Longrightarrow> holds_along (worker_history we) (conclude_attempt we c wk s n budget r)"
  unfolding conclude_attempt_def step_timed_out_def
  by (cases r) (simp_all add: histories.procedure hist)

lemma finish_history [hist]:
  assumes "mono (we_clock we)"
  shows "holds_along (worker_history we) (finish_attempt we c wk s n budget ended)"
proof -
  obtain r hb where "ended = (r, hb)" by (cases ended)
  then show ?thesis unfolding finish_attempt_def
    using assms by (cases hb; cases r) (simp_all add: histories.procedure hist)
qed

lemma run_step_history [hist]:
  "mono (we_clock we) \<Longrightarrow> attempts_use_store we \<Longrightarrow>
     holds_along (worker_history we) (run_step we c wk sid v)"
  unfolding run_step_def by (intro histories.procedure hist; assumption)

lemma advance_history [hist]:
  assumes "mono (we_clock we)" and "attempts_use_store we"
  shows "holds_along (worker_history we) (advance we c wk states outs fuel)"
proof (induction fuel arbitrary: states)
  case 0
  then show ?case by (simp add: histories.procedure)
next
  case (Suc fuel)
  show ?case unfolding advance.simps
    by (intro histories.procedure)
       (auto intro!: histories.procedure hist assms Suc split: plan_kind.splits option.splits)
qed

lemma run_claimed_history [hist]:
  "mono (we_clock we) \<Longrightarrow> attempts_use_store we \<Longrightarrow> holds_along (worker_history we) (run_claimed we c wk)"
  unfolding run_claimed_def by (intro histories.procedure hist; assumption)

lemma run_defined_history [hist]:
  assumes "mono (we_clock we)" and "attempts_use_store we"
  shows "holds_along (worker_history we) (run_defined we c wk)"
proof -
  have "holds_along (worker_history we) (deadline_passed we c)"
    unfolding deadline_passed_def using assms
    by (cases "c_deadline c") (auto intro!: histories.procedure clock_history)
  then show ?thesis unfolding run_defined_def using assms by (intro histories.procedure hist)
qed

lemma run_once_history [hist]:
  assumes "mono (we_clock we)" and "attempts_use_store we"
  shows "holds_along (worker_history we) (run_once we)"
proof -
  have "holds_along (worker_history we) (case claimed of
       None \<Rightarrow> retA None
     | Some c \<Rightarrow>
         if c_cancel c then
           seqA (txW we (\<lambda>now. acknowledge_cancellation now c
                   (Some ''cancellation was requested before this worker started the step'')))
                (retA (Some (outcome_of c ''cancelled'' None None ''requested before the step'')))
         else (case require_definition (we_store we) (we_lookup we) c of
           Inl e \<Rightarrow>
             seqA (txW we (\<lambda>now. fail_execution now c FK_INCOMPATIBLE_DEFINITION (str_of e)))
                  (retA (Some (outcome_of c ''failed'' None None ''incompatible definition'')))
         | Inr wk \<Rightarrow> bindA (run_defined we c wk) (\<lambda>out. retA (Some out))))" for claimed
    using assms by (cases claimed) (auto intro!: histories.procedure hist split: sum.splits)
  then show ?thesis unfolding run_once_def using assms by (intro histories.procedure hist)
qed

lemma serve_loop_history:
  assumes "mono (we_clock we)" and "attempts_use_store we"
  shows "serve_loop we halt maxi fuel q delay worked w = Some (r, w') \<Longrightarrow> worker_history we w w'"
proof (induction fuel arbitrary: q delay worked w)
  case 0
  then show ?case by simp
next
  case (Suc fuel)
  obtain r1 w1 where once: "run_once we w = (r1, w1)" by (cases "run_once we w")
  then have "worker_history we w w1"
    using run_once_history [OF assms] by (simp add: holds_alongD)
  then show ?case using Suc.prems once
    by (auto split: if_splits sum.splits option.splits intro: histories.refl
      dest: Suc.IH intro: histories.trans)
qed

end
