(* ===== verification/Worker_Properties.thy ===== *)
theory Worker_Properties
  imports Worker_History Journal_Sample
begin

text \<open>
  What recovery and the worker promise on top of the journal, and where the two do not fit
  together: a claim that has resolved an interrupted attempt has given its lease away.
\<close>

section \<open>The worker and the journal's invariants\<close>

text \<open>
  a worker, serving with or without a recovery pass first, never takes the journal out of its
  invariants: whatever its steps answer, and even when it ends with an exception, the journal it
  leaves is one the store's operations reach, and it has only evolved.
\<close>
theorem worker_keeps_journal_sound:
  assumes "mono (we_clock we)" and "attempts_use_store we"
    and "reachable (we_store we) (we_clock we (wo_ticks w)) (wo_db w)"
    and "serve we halt maxi recover_first fuel w = Some (r, w')"
  shows "reachable (we_store we) (we_clock we (wo_ticks w')) (wo_db w') \<and> evolves (wo_db w) (wo_db w')"
proof -
  have rec: "worker_history we w w1" if "worker_recover we w = (r1, w1)" for r1 w1
    using recover_history [OF assms(1), THEN holds_alongD] that by (simp add: worker_recover_def)
  have "worker_history we w w'"
    using assms(4)
    by (auto simp: serve_def split: if_splits prod.splits sum.splits
      dest!: serve_loop_history [OF assms(1,2)] dest: rec intro: histories.trans)
  then have "runs (we_store we) (we_clock we (wo_ticks w)) (wo_db w)
      (we_clock we (wo_ticks w')) (wo_db w')"
    by (simp add: journal_history_def)
  then show ?thesis using reachable_later [OF assms(3)] by blast
qed

definition sample_worker :: "unit worker_env" where
  "sample_worker = \<lparr>we_store = sample_env, we_clock = int, we_monotonic = (\<lambda>_. 0), we_random = (\<lambda>_. 0),
     we_attempt = (\<lambda>s v sc budget w. (Returned (PBool True), None, w)),
     we_lookup = ByKey [(''demo:1'', sample)], we_activities = [],
     we_settings = \<lparr>ws_owner = None, ws_lease_ttl = None, ws_heartbeat = None,
       ws_poll_interval = 1/20, ws_max_poll_interval = 1, ws_poll_backoff = 2\<rparr>,
     we_owner = ''w1''\<rparr>"

lemma sample_attempts: "mono (we_clock sample_worker)" "attempts_use_store sample_worker"
  by (auto simp: sample_worker_def attempts_use_store_def mono_def histories.refl)

theorem worker_keeps_journal_sound_witness:
  "\<exists>w' :: world. reachable sample_env (int (wo_ticks w')) (wo_db w') \<and> evolves journal_1 (wo_db w')"
proof -
  let ?w = "\<lparr>wo_db = journal_1, wo_ticks = 0\<rparr>"
  obtain r w' where run: "serve sample_worker (\<lambda>_. True) None True 1 ?w = Some (r, w')"
  proof -
    obtain r1 w1 where "worker_recover sample_worker ?w = (r1, w1)"
      by (cases "worker_recover sample_worker ?w")
    then show ?thesis using that by (cases r1) (auto simp: serve_def)
  qed
  have "reachable (we_store sample_worker) (we_clock sample_worker (wo_ticks ?w)) (wo_db ?w)"
    using journal_1_reachable by (simp add: sample_worker_def)
  from worker_keeps_journal_sound [OF sample_attempts this run]
  have "reachable sample_env (int (wo_ticks w')) (wo_db w')" "evolves journal_1 (wo_db w')"
    by (simp_all add: sample_worker_def)
  then show ?thesis by blast
qed

text \<open>
  the serving loop returns, with a count or an exception, once its halting event is set: as many
  turns as it asks for the event before it is set, and one more, are enough.
\<close>
lemma serve_loop_returns:
  "(\<And>k. n \<le> k \<Longrightarrow> halt k) \<Longrightarrow> n < q + fuel \<Longrightarrow> 0 < fuel \<Longrightarrow>
     serve_loop we halt maxi fuel q delay worked w \<noteq> None"
proof (induction fuel arbitrary: q delay worked w)
  case (Suc fuel)
  show ?case
  proof (cases "halt q \<or> fuel = 0")
    case True
    then show ?thesis using Suc.prems(1) [of q] Suc.prems(2) by auto
  next
    case False
    then have fuel: "0 < fuel" "n < Suc q + fuel" "n < Suc (Suc q) + fuel" using Suc.prems(2) by simp_all
    obtain r w' where "run_once we w = (r, w')" by (cases "run_once we w")
    then show ?thesis
      using Suc.IH [OF Suc.prems(1) fuel(2,1)] Suc.IH [OF Suc.prems(1) fuel(3,1)]
      by (auto split: sum.split option.split)
  qed
qed simp

lemma serve_returns:
  assumes "\<And>k. n \<le> k \<Longrightarrow> halt k"
  shows "serve we halt maxi recover_first (Suc n) w \<noteq> None"
  using serve_loop_returns [of n halt 0 "Suc n", OF assms]
  by (auto simp: serve_def simp del: serve_loop.simps split: sum.split prod.split)

section \<open>One claim makes progress\<close>

lemma state_of_set: "state_of (dict_set states k st) x = (if x = k then st else state_of states x)"
  by (simp add: state_of_def)

definition open_steps :: "'b workflow \<Rightarrow> states \<Rightarrow> nat" where
  "open_steps wk states = length (filter (is_open states) (w_steps wk))"

lemma open_after_skip:
  fixes wk :: "'b workflow"
  assumes "s \<in> set (w_steps wk)" and "is_open states s"
  shows "open_steps wk (dict_set states (st_id s) S_SKIPPED) < open_steps wk states"
proof -
  have "is_open (dict_set states (st_id s) S_SKIPPED) =
      (\<lambda>t :: 'b wf_step. is_open states t \<and> st_id t \<noteq> st_id s)"
    by (rule ext) (auto simp: is_open_def state_of_set transition_defs)
  then have "filter (is_open (dict_set states (st_id s) S_SKIPPED)) (w_steps wk) =
      filter (\<lambda>t. st_id t \<noteq> st_id s) (filter (is_open states) (w_steps wk))"
    by (simp only: filter_filter)
  moreover have "length (filter (\<lambda>t. st_id t \<noteq> st_id s) (filter (is_open states) (w_steps wk)))
      < length (filter (is_open states) (w_steps wk))"
    by (rule length_filter_less [of s]) (use assms in auto)
  ultimately show ?thesis by (simp add: open_steps_def)
qed

lemma bindA_lift [simp]: "bindA (liftA (Inl e)) f = failA e" "bindA (liftA (Inr x)) f = f x"
  by (simp_all add: bindA_def liftA_def failA_def fun_eq_iff)

lemma advance_cong:
  assumes "\<And>p s. plan_next wk states outs = Inr p \<Longrightarrow> p_kind p = SKIP_STEP \<Longrightarrow> p_step p = Some s \<Longrightarrow>
    advance we c wk (dict_set states (st_id s) S_SKIPPED) outs f =
    advance we c wk (dict_set states (st_id s) S_SKIPPED) outs g"
  shows "advance we c wk states outs (Suc f) = advance we c wk states outs (Suc g)"
proof (cases "plan_next wk states outs")
  case (Inr p)
  then show ?thesis using assms [OF Inr] by (cases "p_kind p"; cases "p_step p") simp_all
qed simp

lemma advance_fuel:
  assumes "executable wk" and "open_steps wk states \<le> n"
  shows "advance we c wk states outs (Suc n + k) = advance we c wk states outs (Suc n)"
  using assms(2)
proof (induction n arbitrary: states)
  case 0
  have "False" if "plan_next wk states outs = Inr p" "p_kind p = SKIP_STEP" "p_step p = Some s" for p s
    using plan_meets_spec [OF assms(1) that(1)] that(2,3) open_after_skip [of s wk states] 0
    by (auto simp: plan_spec_def)
  then show ?case unfolding plus_nat.add_Suc by (intro advance_cong) blast
next
  case (Suc n)
  show ?case unfolding plus_nat.add_Suc
  proof (rule advance_cong)
    fix p s assume p: "plan_next wk states outs = Inr p" "p_kind p = SKIP_STEP" "p_step p = Some s"
    then have "open_steps wk (dict_set states (st_id s) S_SKIPPED) \<le> n"
      using plan_meets_spec [OF assms(1) p(1)] open_after_skip [of s wk states] Suc.prems
      by (auto simp: plan_spec_def)
    then show "advance we c wk (dict_set states (st_id s) S_SKIPPED) outs (Suc (n + k)) =
        advance we c wk (dict_set states (st_id s) S_SKIPPED) outs (Suc n)"
      using Suc.IH by simp
  qed
qed

text \<open>
  the loop of \<open>run_once\<close> that applies skips never runs into its bound: on a validated
  definition the number of steps plus one is enough turns, whatever the states are, and any
  larger bound gives the same outcome.
\<close>
theorem skip_loop_bound_suffices:
  assumes "executable wk"
  shows "advance we c wk states outs (Suc (length (w_steps wk)) + k) =
    advance we c wk states outs (Suc (length (w_steps wk)))"
  by (rule advance_fuel [OF assms]) (simp add: open_steps_def)

theorem skip_loop_bound_suffices_witness:
  "advance sample_worker claim_1 sample [] [] 9 = advance sample_worker claim_1 sample [] [] 4"
proof -
  have "Suc (length (w_steps sample)) = 4" by (simp add: sample_def)
  from skip_loop_bound_suffices [OF sample_executable, of sample_worker claim_1 "[]" "[]" 5, unfolded this]
  show ?thesis by (simp only: numeral_plus_numeral semiring_norm)
qed

section \<open>Interrupted attempts\<close>

text \<open>
  an interrupted step that declares neither idempotency nor a reconciler is never repeated:
  when the recovery's decision commits, the step is of unknown outcome and its execution waits.
\<close>
theorem undecidable_attempt_is_parked:
  assumes "\<not> ap_idempotent (activity_policy_for acts sid)"
    and "ap_reconcile (activity_policy_for acts sid) = None"
    and "resolve_interrupted_attempt env clk c acts sid v w = (Inr st, w')"
  shows "st = S_OUTCOME_UNKNOWN \<and>
    (\<exists>r. steps (wo_db w') (c_execution c, sid) = Some r \<and> s_state r = S_OUTCOME_UNKNOWN) \<and>
    (\<exists>x. executions (wo_db w') (c_execution c) = Some x \<and> x_status x = X_WAITING)"
  using assms
  by (auto simp: resolve_interrupted_attempt_def Let_def seqA_def bindA_def retA_def txA_def
      mark_step_outcome_unknown_def append_event_def tx_iff split: sum.splits prod.splits)

definition journal_3_world :: world where
  "journal_3_world = \<lparr>wo_db = journal_3, wo_ticks = 0\<rparr>"

theorem undecidable_attempt_is_parked_witness:
  "\<exists>w'. resolve_interrupted_attempt sample_env int claim_1 [] ''a'' PNone journal_3_world =
     (Inr S_OUTCOME_UNKNOWN, w')"
proof -
  have "\<exists>st w'. resolve_interrupted_attempt sample_env int claim_1 [] ''a'' PNone journal_3_world = (Inr st, w')"
    by (simp add: resolve_interrupted_attempt_def activity_policy_for_def default_activity_policy_def
      seqA_def bindA_def retA_def txA_def journal_3_world_def mark_step_outcome_unknown_def tx_simps
      get_step_row_def set_step_state_def execution_row_def set_execution_status_def append_event_def
      guard_1 new_step_def require_step_transition_def require_execution_transition_def transition_defs)
  then obtain st w' where
    "resolve_interrupted_attempt sample_env int claim_1 [] ''a'' PNone journal_3_world = (Inr st, w')"
    by blast
  with undecidable_attempt_is_parked [OF _ _ this]
  show ?thesis by (auto simp: activity_policy_for_def default_activity_policy_def)
qed

lemma resolve_step_gives_lease_up:
  assumes "resolve_step env now c sid st out det s = Inr (u, t)" and "now \<le> later"
  shows "\<not> lease_guard c later t"
proof -
  obtain p s2 s3 where parts: "release_lease_row c now s2 = Inr (p, s3)"
      "append_event (c_execution c) E_RECOVERED now (Some sid) None (Some (resolved_detail st det)) s3 = Inr (u, t)"
    using assms(1) unfolding resolve_step_def bindT_Inr_iff seqT_Inr_iff by blast
  have "l_expires l \<le> now"
    if "leases s3 (c_execution c) = Some l" "l_owner l = c_owner c" "l_fence l = c_fence c" for l
    using parts(1) that by (cases "leases s2 (c_execution c)")
      (auto simp: release_lease_row_def modT_def split: if_splits)
  moreover have "leases t = leases s3" using parts(2) by (auto simp: append_event_def modT_def)
  ultimately show ?thesis using assms(2)
    by (force simp: lease_guard_def split: option.splits)
qed

text \<open>
  \<open>resolve_step\<close> ends the claim that made it. It gives the lease up in the same transaction, so
  no later write of that claim is accepted; \<open>run_once\<close>, which goes on to start the step it has
  just set back to pending, can therefore never do so.
\<close>
theorem resolution_ends_the_claim:
  assumes "resolve_step env now c sid st out det s = Inr (u, t)" and "now \<le> later"
  shows "\<not> claim_write env c later t v"
  using resolve_step_gives_lease_up [OF assms] claim_write_guarded by blast

theorem resolution_ends_the_claim_witness:
  "\<exists>t. resolve_step sample_env 1 claim_1 ''a'' S_PENDING PNone None journal_3 = Inr ((), t) \<and>
     \<not> claim_write sample_env claim_1 1 t t"
proof -
  have "\<exists>t. resolve_step sample_env 1 claim_1 ''a'' S_PENDING PNone None journal_3 = Inr ((), t)"
    by (simp add: resolve_step_def tx_simps set_step_state_def get_step_row_def execution_row_def
      set_execution_status_def append_event_def release_lease_row_def guard_1 new_step_def
      require_step_transition_def require_execution_transition_def transition_defs)
  then show ?thesis using resolution_ends_the_claim by fastforce
qed

text \<open>
  the event \<open>complete_step\<close> records names the attempt after the one that succeeded: \<open>start_step\<close>
  has already counted the attempt when \<open>complete_step\<close> adds one more.
\<close>
theorem success_event_names_next_attempt:
  assumes "start_step now c sid ikey s = Inr (n, t)" and "complete_step env m c sid out t = Inr (u, t')"
  shows "\<exists>v. last (events t') = v \<and> v_kind v = E_STEP_SUCCEEDED \<and> v_attempt v = Some (n + 1)"
proof -
  obtain row where "steps t (c_execution c, sid) = Some row" "s_attempts row = n"
    using assms(1) by (auto simp: start_step_Inr)
  then show ?thesis using assms(2)
    by (auto simp: complete_step_def append_event_def tx_iff)
qed

theorem success_event_names_next_attempt_witness:
  "\<exists>t'. complete_step sample_env 1 claim_1 ''a'' PNone journal_3 = Inr ((), t') \<and>
     v_attempt (last (events t')) = Some 2"
proof -
  have "dump PNone (max_payload_bytes sample_env) (what_output ''a'') = Inr ''null''" by code_simp
  then have "\<exists>t'. complete_step sample_env 1 claim_1 ''a'' PNone journal_3 = Inr ((), t')"
    by (simp add: complete_step_def tx_simps set_step_state_def get_step_row_def guarded_exec_update_def
      append_event_def guard_1 new_step_def require_step_transition_def transition_defs)
  then show ?thesis using success_event_names_next_attempt [OF sample_started] by fastforce
qed

text \<open>
  an execution that was parked with a cancellation request and then resumed is pending, and is
  never claimable again at any later time: only another cancellation can end it.
\<close>
theorem resumed_cancelled_execution_stuck:
  assumes "resume_waiting now eid reason s = Inr (u, t)" and "executions s eid = Some row"
    and "x_cancel_at row \<noteq> None"
  shows "(\<exists>row'. executions t eid = Some row' \<and> x_status row' = X_PENDING) \<and> \<not> claimable t later eid"
  using assms
  by (auto simp: resume_waiting_def execution_row_def append_event_def tx_simps claimable_def
    claimable_row_def split: if_splits)

definition journal_4 :: db where
  "journal_4 = state_after (request_cancellation_tx 2 ''x'' None)
     (state_after (mark_waiting 1 claim_1 ''why'') journal_2)"

lemma sample_parked:
  "mark_waiting 1 claim_1 ''why'' journal_2 = Inr ((), state_after (mark_waiting 1 claim_1 ''why'') journal_2)"
  "request_cancellation_tx 2 ''x'' None (state_after (mark_waiting 1 claim_1 ''why'') journal_2) = Inr ((), journal_4)"
  "executions journal_4 ''x'' = Some (row_1\<lparr>x_status := X_WAITING, x_current := None,
     x_cancel_at := Some 2, x_cancel_reason := None, x_updated := 2\<rparr>)"
  by (simp_all add: journal_4_def state_after_def mark_waiting_def request_cancellation_tx_def
    record_request_def tx_simps set_execution_status_def execution_row_def append_event_def guard_1
    lease_free_def require_execution_transition_def transition_defs)

lemma journal_4_reachable: "reachable sample_env 2 journal_4"
proof -
  have "reachable sample_env 1 journal_2" using journal_2_reachable by (rule reachable.wait) simp
  then have "reachable sample_env 1 (state_after (mark_waiting 1 claim_1 ''why'') journal_2)"
    using step_park [OF sample_parked(1)] by (rule reachable.act)
  then have "reachable sample_env 2 (state_after (mark_waiting 1 claim_1 ''why'') journal_2)"
    by (rule reachable.wait) simp
  then show ?thesis using step_request [OF sample_parked(2)] by (rule reachable.act)
qed

theorem resumed_cancelled_execution_stuck_witness:
  "\<exists>t. reachable sample_env 3 t \<and> (\<forall>later. \<not> claimable t later ''x'')"
proof -
  obtain t where t: "resume_waiting 3 ''x'' None journal_4 = Inr ((), t)"
    by (auto simp: resume_waiting_def execution_row_def append_event_def tx_simps sample_parked(3))
  have "reachable sample_env 3 journal_4" using journal_4_reachable by (rule reachable.wait) simp
  then have "reachable sample_env 3 t" using step_resume [OF t] by (rule reachable.act)
  moreover have "\<not> claimable t later ''x''" for later
    using resumed_cancelled_execution_stuck [OF t sample_parked(3)] by simp
  ultimately show ?thesis by blast
qed

end
