(* ===== verification/Worker_Turn.thy ===== *)
theory Worker_Turn
  imports Worker_Properties
begin

text \<open>
  One turn of a worker, \<open>run_once\<close>: what it reports is what the journal says of the execution it
  claimed. The postconditions of the store's operations are composed along the branches of the
  worker with triples \<open>leads\<close>: whenever a procedure returns from a journal with the first property,
  its value and the journal it leaves have the second.
\<close>

section \<open>Triples\<close>

definition leads :: "(db \<Rightarrow> bool) \<Rightarrow> 'a act \<Rightarrow> ('a \<Rightarrow> db \<Rightarrow> bool) \<Rightarrow> bool" where
  "leads P m Q \<longleftrightarrow> (\<forall>w x w'. P (wo_db w) \<longrightarrow> m w = (Inr x, w') \<longrightarrow> Q x (wo_db w'))"

lemma leadsD: "leads P m Q \<Longrightarrow> m w = (Inr x, w') \<Longrightarrow> P (wo_db w) \<Longrightarrow> Q x (wo_db w')"
  by (auto simp: leads_def)

named_theorems triples \<open>rules for what a procedure leads to\<close>

lemma leads_tx: "(\<And>now s x t. P s \<Longrightarrow> op now s = Inr (x, t) \<Longrightarrow> Q x t) \<Longrightarrow> leads P (txA clk op) Q"
  by (fastforce simp: leads_def txA_def split: sum.splits)

lemma leads_bind: "leads P m R \<Longrightarrow> (\<And>x. leads (R x) (f x) Q) \<Longrightarrow> leads P (bindA m f) Q"
  unfolding leads_def bindA_Inr_iff by blast

lemma leads_seq: "leads P m (\<lambda>_. R) \<Longrightarrow> leads R n Q \<Longrightarrow> leads P (seqA m n) Q"
  unfolding seqA_def by (rule leads_bind)

lemma leads_ret: "(\<And>s. P s \<Longrightarrow> Q x s) \<Longrightarrow> leads P (retA x) Q"
  by (simp add: leads_def retA_def)

lemma leads_fail [triples]: "leads P (failA e) Q"
  by (simp add: leads_def failA_def)

lemma leads_if [triples]:
  "(b \<Longrightarrow> leads P m Q) \<Longrightarrow> (\<not> b \<Longrightarrow> leads P n Q) \<Longrightarrow> leads P (if b then m else n) Q"
  by simp

lemma leads_read: "leads P (readA r) (\<lambda>x s. P s \<and> r s = Inr x)"
  by (auto simp: leads_def readA_def askA_def)

lemma leads_lift: "leads P (liftA r) (\<lambda>x s. P s \<and> r = Inr x)"
  by (auto simp: leads_def liftA_def)

lemma leads_any: "leads P m (\<lambda>_ _. True)"
  by (simp add: leads_def)

lemma leads_after [triples]: "(\<And>x. leads (\<lambda>_. True) (f x) Q) \<Longrightarrow> leads P (bindA m f) Q"
  by (rule leads_bind [OF leads_any])

text \<open>A transaction and the report of it.\<close>

lemma leads_report:
  "(\<And>now s y t. P s \<Longrightarrow> op now s = Inr (y, t) \<Longrightarrow> Q x t) \<Longrightarrow> leads P (seqA (txA clk op) (retA x)) Q"
  by (rule leads_seq [where R = "Q x"]) (auto intro: leads_tx leads_ret)

section \<open>What the scheduler reads of an execution\<close>

definition plan_on :: "'b workflow \<Rightarrow> string \<Rightarrow> db \<Rightarrow> exn + 'b plan" where
  "plan_on wk eid s = bindR (completed_outputs eid s) (plan_next wk (step_states eid s))"

lemma plan_on_frame:
  assumes "steps t = steps s" and "step_order t = step_order s"
  shows "plan_on wk eid t = plan_on wk eid s"
proof -
  have "own_steps eid t = own_steps eid s" unfolding own_steps_def assms ..
  then show ?thesis by (simp add: plan_on_def step_states_def completed_outputs_def)
qed

lemma plan_now_leads:
  "leads P (plan_now wk eid) (\<lambda>p s. P s \<and> plan_on wk eid s = Inr p)"
  by (auto simp: leads_def plan_now_def plan_on_def bindA_Inr_iff readA_def askA_def liftA_def)

text \<open>A skipped step keeps its place, and only its state changes.\<close>

definition step_entry :: "string \<Rightarrow> (string \<times> string \<rightharpoonup> step_row) \<Rightarrow> string \<times> string \<Rightarrow> (string \<times> step_row) option" where
  "step_entry eid m = (\<lambda>(e, sid). if e = eid then map_option (\<lambda>r. (sid, r)) (m (e, sid)) else None)"

lemma step_entry_apply:
  "step_entry eid m (e, i) = (if e = eid then map_option (\<lambda>r. (i, r)) (m (e, i)) else None)"
  by (simp add: step_entry_def)

lemma step_entry_update:
  "step_entry eid (m((eid, sid) \<mapsto> r)) (eid, sid) = Some (sid, r)"
  "k \<noteq> (eid, sid) \<Longrightarrow> step_entry eid (m((eid, sid) \<mapsto> r)) k = step_entry eid m k"
  "(eid, sid) \<noteq> k \<Longrightarrow> step_entry eid (m((eid, sid) \<mapsto> r)) k = step_entry eid m k"
  by (cases k; auto simp: step_entry_apply)+

lemma own_steps_entries: "own_steps eid s = List.map_filter (step_entry eid (steps s)) (step_order s)"
  unfolding own_steps_def step_entry_def ..

lemma map_filter_Cons:
  "List.map_filter f (x # xs) = (case f x of None \<Rightarrow> List.map_filter f xs | Some y \<Rightarrow> y # List.map_filter f xs)"
  by (cases "f x") (simp_all add: List.map_filter_def)

lemma map_filter_Nil: "List.map_filter f [] = []"
  by (simp add: List.map_filter_def)

lemma entries_elsewhere:
  "(eid, sid) \<notin> set ks \<Longrightarrow> List.map_filter (step_entry eid (m((eid, sid) \<mapsto> r))) ks =
     List.map_filter (step_entry eid m) ks"
  by (induction ks) (simp_all add: map_filter_Cons map_filter_Nil step_entry_update del: fun_upd_apply split: option.split)

lemma entries_update:
  assumes "distinct ks" and "(eid, sid) \<in> set ks" and "m (eid, sid) = Some r'"
  shows "map (\<lambda>(i, r). (i, s_state r)) (List.map_filter (step_entry eid (m((eid, sid) \<mapsto> r))) ks) =
    dict_set (map (\<lambda>(i, r). (i, s_state r)) (List.map_filter (step_entry eid m) ks)) sid (s_state r)"
  using assms
proof (induction ks)
  case (Cons k ks)
  show ?case
  proof (cases "k = (eid, sid)")
    case True
    have "step_entry eid m (eid, sid) = Some (sid, r')" using Cons.prems(3) by (simp add: step_entry_apply)
    then show ?thesis using True Cons.prems entries_elsewhere [of eid sid ks m r]
      by (simp add: map_filter_Cons step_entry_update del: fun_upd_apply)
  next
    case False
    obtain e i where k: "k = (e, i)" by (cases k)
    have "step_entry eid (m((eid, sid) \<mapsto> r)) k = step_entry eid m k"
      using False by (simp add: step_entry_update del: fun_upd_apply)
    moreover have "(eid, sid) \<in> set ks" using Cons.prems(2) False by simp
    ultimately show ?thesis using Cons False k
      by (cases "step_entry eid m k") (auto simp: map_filter_Cons step_entry_apply simp del: fun_upd_apply split: if_splits)
  qed
qed simp

lemma entries_succeeded:
  assumes "m (eid, sid) = Some r'" and "s_state r' \<noteq> S_SUCCEEDED" and "s_state r \<noteq> S_SUCCEEDED"
  shows "filter (\<lambda>(i, r). s_state r = S_SUCCEEDED) (List.map_filter (step_entry eid (m((eid, sid) \<mapsto> r))) ks) =
    filter (\<lambda>(i, r). s_state r = S_SUCCEEDED) (List.map_filter (step_entry eid m) ks)"
proof (induction ks)
  case (Cons k ks)
  have here: "step_entry eid m (eid, sid) = Some (sid, r')" using assms(1) by (simp add: step_entry_apply)
  show ?case
  proof (cases "k = (eid, sid)")
    case True
    then show ?thesis using Cons assms here
      by (simp add: map_filter_Cons step_entry_update del: fun_upd_apply)
  next
    case False
    then show ?thesis using Cons
      by (cases "step_entry eid m k") (auto simp: map_filter_Cons step_entry_update simp del: fun_upd_apply)
  qed
qed (simp add: map_filter_Nil)

lemma skip_step_reads:
  assumes "skip_step now c sid why s = Inr (u, t)" and "keys_ok s"
  shows "keys_ok t" and "step_states (c_execution c) t = dict_set (step_states (c_execution c) s) sid S_SKIPPED"
    and "completed_outputs (c_execution c) t = completed_outputs (c_execution c) s"
proof -
  show "keys_ok t" using keepsD [OF operation_keys(6) assms(1)] assms(2) by (rule same_keys_ok)
  obtain row where skipped: "steps s (c_execution c, sid) = Some row"
      "step_transition_allowed (s_state row) S_SKIPPED" "step_order t = step_order s"
      "steps t = (steps s)((c_execution c, sid) \<mapsto> row\<lparr>s_state := S_SKIPPED, s_finished := Some now,
        s_detail := Some why\<rparr>)"
    using assms(1) by (auto simp: skip_step_def append_event_def tx_iff)
  define row' where "row' = row\<lparr>s_state := S_SKIPPED, s_finished := Some now, s_detail := Some why\<rparr>"
  have row: "steps s (c_execution c, sid) = Some row" "s_state row \<noteq> S_SUCCEEDED"
      "s_state row' = S_SKIPPED" "steps t = (steps s)((c_execution c, sid) \<mapsto> row')"
      "step_order t = step_order s"
    using skipped by (auto simp: row'_def step_transition_allowed_def)
  have "distinct (step_order s)" "(c_execution c, sid) \<in> set (step_order s)"
    using assms(2) row(1) by (auto simp: keys_ok_def)
  then show "step_states (c_execution c) t = dict_set (step_states (c_execution c) s) sid S_SKIPPED"
    using entries_update [of "step_order s" "c_execution c" sid "steps s" row row'] row
    by (simp add: step_states_def own_steps_entries)
  show "completed_outputs (c_execution c) t = completed_outputs (c_execution c) s"
    using entries_succeeded [of "steps s" "c_execution c" sid row row'] row
    by (simp add: completed_outputs_def own_steps_entries)
qed

section \<open>What the operations that end a turn leave\<close>

definition stands :: "string \<Rightarrow> execution_status \<Rightarrow> db \<Rightarrow> bool" where
  "stands eid st s \<longleftrightarrow> (\<exists>x. executions s eid = Some x \<and> x_status x = st)"

lemma ending_statuses:
  "yield_execution now c why s = Inr (u, t) \<Longrightarrow> stands (c_execution c) X_PENDING t"
  "mark_waiting now c why s = Inr (u, t) \<Longrightarrow> stands (c_execution c) X_WAITING t"
  "time_out_execution now c msg s = Inr (st, t) \<Longrightarrow> stands (c_execution c) X_TIMED_OUT t"
  "mark_step_outcome_unknown now c sid why s = Inr (u, t) \<Longrightarrow> stands (c_execution c) X_WAITING t"
  by (auto simp: stands_def yield_execution_def mark_waiting_def time_out_execution_def
    mark_step_outcome_unknown_def append_event_def release_lease_row_def tx_iff split: option.splits)

lemma yield_reads:
  "yield_execution now c why s = Inr (u, t) \<Longrightarrow> steps t = steps s \<and> step_order t = step_order s"
  by (auto simp: yield_execution_def append_event_def release_lease_row_def tx_iff split: option.splits)

lemma time_out_leaves:
  "time_out_execution now c msg s = Inr (st, t) \<Longrightarrow>
     stands (c_execution c) X_TIMED_OUT t \<and> steps t = steps s \<and> st = S_FAILED"
  by (auto simp: stands_def time_out_execution_def append_event_def tx_iff)

lemma cancel_leaves:
  "acknowledge_cancellation now c reason s = Inr (u, t) \<Longrightarrow>
     stands (c_execution c) X_CANCELLED t \<and> steps t = steps s"
  by (auto simp: stands_def acknowledge_cancellation_def record_acknowledged_def cancel_owned_def
    append_event_def delete_retry_def tx_iff split: option.splits if_splits)

lemma fail_execution_leaves:
  "fail_execution now c kind msg s = Inr (u, t) \<Longrightarrow> steps t = steps s \<and>
     (\<exists>x. executions t (c_execution c) = Some x \<and> x_status x = X_FAILED \<and> x_failure_kind x = Some kind)"
  by (auto simp: fail_execution_def append_event_def tx_iff)

lemma complete_execution_leaves:
  "complete_execution env now c out s = Inr (u, t) \<Longrightarrow> steps t = steps s \<and> step_order t = step_order s \<and>
     (\<exists>x payload. executions t (c_execution c) = Some x \<and> x_status x = X_COMPLETED \<and>
       dump out (max_payload_bytes env) (what_result (c_execution c)) = Inr payload \<and> x_result x = Some payload)"
  by (auto simp: complete_execution_def append_event_def tx_iff)

lemma complete_step_leaves:
  "complete_step env now c sid out s = Inr (u, t) \<Longrightarrow>
     \<exists>r. steps t (c_execution c, sid) = Some r \<and> s_state r = S_SUCCEEDED"
  by (auto simp: complete_step_def append_event_def tx_iff guarded_exec_update_def split: option.splits if_splits)

lemma fail_for_good_leaves:
  "fail_for_good now c sid etype emsg why n s = Inr (st, t) \<Longrightarrow> st = S_FAILED \<and> stands (c_execution c) X_FAILED t"
  by (auto simp: fail_for_good_def stands_def append_event_def tx_iff)

lemma fail_and_retry_leaves:
  assumes "fail_and_retry now c sid etype emsg why n due s = Inr (st, t)"
  shows "st = S_PENDING \<and> stands (c_execution c) X_RETRYING t"
proof -
  have "executions (snd (projr (release_lease_row c now u))) = executions u" for u
    by (simp add: release_lease_row_def modT_def split: option.split)
  then have kept: "release_lease_row c now u = Inr (v, u') \<Longrightarrow> executions u' = executions u" for u v u'
    by (metis projr_def snd_conv sum.sel(2))
  show ?thesis using assms
    by (auto simp: fail_and_retry_def stands_def append_event_def upsert_retry_def tx_iff dest!: kept)
qed

lemma fail_step_leaves:
  assumes "fail_step now c sid etype emsg due why s = Inr (st, t)"
  shows "stands (c_execution c) X_TIMED_OUT t \<or> st = S_PENDING \<and> stands (c_execution c) X_RETRYING t \<or>
     st = S_FAILED \<and> stands (c_execution c) X_FAILED t"
proof (cases "deadline_reached now (c_deadline c) due")
  case True
  then show ?thesis using assms time_out_leaves by (simp add: fail_step_def)
next
  case False
  then obtain row :: step_row where "(case due of
        None \<Rightarrow> fail_for_good now c sid etype emsg why (s_attempts row)
      | Some d \<Rightarrow> fail_and_retry now c sid etype emsg why (s_attempts row) d) s = Inr (st, t)"
    using assms by (auto simp: fail_step_def bindT_Inr_iff get_step_row_Inr)
  then show ?thesis using fail_for_good_leaves fail_and_retry_leaves by (cases due) fastforce+
qed

section \<open>The report and the journal\<close>

definition reported_status :: "string \<Rightarrow> execution_status option" where
  "reported_status = map_of [(''cancelled'', X_CANCELLED), (''completed'', X_COMPLETED),
     (''failed'', X_FAILED), (''timed_out'', X_TIMED_OUT), (''parked'', X_WAITING),
     (''retry_scheduled'', X_RETRYING), (''ran_step'', X_PENDING)]"

definition reports :: "claim \<Rightarrow> work_outcome \<Rightarrow> db \<Rightarrow> bool" where
  "reports c out s \<longleftrightarrow> ou_execution out = c_execution c \<and>
     (\<exists>st. reported_status (ou_action out) = Some st \<and> stands (c_execution c) st s)"

text \<open>
  A turn that reports a completed execution found its plan complete on the steps the journal holds
  and stored its outputs; one that reports a step found it succeeded, and the plan not yet over.
\<close>

definition plan_followed :: "'b worker_env \<Rightarrow> claim \<Rightarrow> 'b workflow \<Rightarrow> work_outcome \<Rightarrow> db \<Rightarrow> bool" where
  "plan_followed we c wk out s \<longleftrightarrow>
     (ou_action out = ''completed'' \<longrightarrow> (\<exists>p x payload. plan_on wk (c_execution c) s = Inr p \<and>
        p_kind p = COMPLETE \<and> executions s (c_execution c) = Some x \<and> x_result x = Some payload \<and>
        dump (outputs_value p) (max_payload_bytes (we_store we)) (what_result (c_execution c)) = Inr payload)) \<and>
     (ou_action out = ''ran_step'' \<longrightarrow> (\<exists>p sid r. plan_on wk (c_execution c) s = Inr p \<and>
        p_kind p \<notin> {COMPLETE, CONFLICT} \<and> ou_step out = Some sid \<and>
        steps s (c_execution c, sid) = Some r \<and> s_state r = S_SUCCEEDED))"

definition accounts :: "'b worker_env \<Rightarrow> claim \<Rightarrow> 'b workflow \<Rightarrow> work_outcome \<Rightarrow> db \<Rightarrow> bool" where
  "accounts we c wk out s \<longleftrightarrow> reports c out s \<and> plan_followed we c wk out s"

lemma reported_statuses [simp]:
  "reported_status ''cancelled'' = Some X_CANCELLED" "reported_status ''completed'' = Some X_COMPLETED"
  "reported_status ''failed'' = Some X_FAILED" "reported_status ''timed_out'' = Some X_TIMED_OUT"
  "reported_status ''parked'' = Some X_WAITING" "reported_status ''retry_scheduled'' = Some X_RETRYING"
  "reported_status ''ran_step'' = Some X_PENDING"
  by (simp_all add: reported_status_def)

lemma reports_outcome:
  "reported_status action = Some st \<Longrightarrow> stands (c_execution c) st s \<Longrightarrow> reports c (outcome_of c action sid n det) s"
  by (simp add: reports_def outcome_of_def)

lemma accounts_outcome:
  assumes "reported_status action = Some st" and "stands (c_execution c) st s"
    and "action \<noteq> ''completed''" and "action \<noteq> ''ran_step''"
  shows "accounts we c wk (outcome_of c action sid n det) s"
  using assms by (simp add: accounts_def reports_outcome plan_followed_def) (simp add: outcome_of_def)

section \<open>A step that ran\<close>

lemma completed_accounts:
  assumes "plan_on wk (c_execution c) s = Inr p" and "p_kind p = COMPLETE"
    and "complete_execution (we_store we) now c (outputs_value p) s = Inr (u, t)"
  shows "accounts we c wk (outcome_of c ''completed'' sid n det) t"
proof -
  note ended = complete_execution_leaves [OF assms(3)]
  have "plan_on wk (c_execution c) t = Inr p" using ended plan_on_frame assms(1) by metis
  then show ?thesis using ended assms(2)
    by (auto simp: accounts_def reports_def plan_followed_def stands_def outcome_of_def)
qed

lemma after_step_accounts:
  "leads (\<lambda>s. \<exists>r. steps s (c_execution c, sid) = Some r \<and> s_state r = S_SUCCEEDED)
     (after_step we c wk sid n) (accounts we c wk)"
  unfolding after_step_def
proof (rule leads_bind [OF plan_now_leads], intro leads_if leads_report)
  fix p now s y t
  assume at: "(\<exists>r. steps s (c_execution c, sid) = Some r \<and> s_state r = S_SUCCEEDED) \<and>
    plan_on wk (c_execution c) s = Inr p"
  show "accounts we c wk (outcome_of c ''completed'' (Some sid) (Some n) (p_reason p)) t"
    if "p_kind p = COMPLETE" "complete_execution (we_store we) now c (outputs_value p) s = Inr (y, t)"
    using completed_accounts [OF _ that] at by blast
  show "accounts we c wk (outcome_of c ''failed'' (Some sid) (Some n) ''conflict'') t"
    if "fail_execution now c FK_DEFINITION_CONFLICT (p_reason p) s = Inr (y, t)"
    using fail_execution_leaves [OF that] by (auto intro!: accounts_outcome simp: stands_def)
  show "accounts we c wk (outcome_of c ''ran_step'' (Some sid) (Some n) ''yielded'') t"
    if "p_kind p \<noteq> COMPLETE" "p_kind p \<noteq> CONFLICT"
      "yield_execution now c (msg_recorded sid) s = Inr (y, t)"
  proof -
    have frame: "steps t = steps s" "step_order t = step_order s" using yield_reads [OF that(3)] by simp_all
    then have "plan_on wk (c_execution c) t = Inr p" using at plan_on_frame by metis
    then show ?thesis using that at frame ending_statuses(1) [OF that(3)]
      by (auto simp: accounts_def plan_followed_def intro!: reports_outcome) (auto simp: outcome_of_def)
  qed
qed

lemma record_failure_accounts:
  "leads P (record_failure we c s n e due det) (accounts we c wk)"
  unfolding record_failure_def
proof (rule leads_bind)
  let ?failed = "\<lambda>st s. stands (c_execution c) X_TIMED_OUT s \<or>
    st = S_PENDING \<and> stands (c_execution c) X_RETRYING s \<or> st = S_FAILED \<and> stands (c_execution c) X_FAILED s"
  show "leads P (txW we (\<lambda>now. fail_step now c (st_id s) (type_name (class_of e)) (str_of e) due (Some det))) ?failed"
    by (rule leads_tx) (rule fail_step_leaves)
  fix st
  show "leads (?failed st) (bindA (readA (inspect (c_execution c))) (\<lambda>view.
       if xv_status view = X_TIMED_OUT then
         retA (outcome_of c ''timed_out'' (Some (st_id s)) (Some n) '''')
       else if st = S_PENDING then
         retA (outcome_of c ''retry_scheduled'' (Some (st_id s)) (Some n) det)
       else retA (outcome_of c ''failed'' (Some (st_id s)) (Some n) det))) (accounts we c wk)"
  proof (rule leads_bind [OF leads_read], intro leads_if leads_ret)
    fix view u
    assume at: "?failed st u \<and> inspect (c_execution c) u = Inr view"
    then have view: "stands (c_execution c) (xv_status view) u"
      by (auto simp: inspect_def stands_def bindR_Inr_iff execution_row_Inr)
    show "accounts we c wk (outcome_of c ''timed_out'' (Some (st_id s)) (Some n) '''') u"
      if "xv_status view = X_TIMED_OUT"
      using view that by (intro accounts_outcome) simp_all
    show "accounts we c wk (outcome_of c ''retry_scheduled'' (Some (st_id s)) (Some n) det) u"
      if "xv_status view \<noteq> X_TIMED_OUT" "st = S_PENDING"
      using view that at by (intro accounts_outcome) (auto simp: stands_def)
    show "accounts we c wk (outcome_of c ''failed'' (Some (st_id s)) (Some n) det) u"
      if "xv_status view \<noteq> X_TIMED_OUT" "st \<noteq> S_PENDING"
      using view that at by (intro accounts_outcome) (auto simp: stands_def)
  qed
qed

lemma conclude_accounts: "leads P (conclude_attempt we c wk s n budget r) (accounts we c wk)"
proof (cases r)
  case (Returned v)
  then show ?thesis unfolding conclude_attempt_def
    by (auto intro!: leads_seq [OF leads_tx after_step_accounts] dest: complete_step_leaves)
next
  case OverBudget
  then show ?thesis by (simp add: conclude_attempt_def step_timed_out_def record_failure_accounts)
next
  case (Raised e)
  have "accounts we c wk (outcome_of c ''cancelled'' sid k det) t"
    if "acknowledge_cancellation now c why s = Inr (u, t)" for now why s u t sid k det
    using cancel_leaves [OF that] by (intro accounts_outcome) auto
  moreover have "accounts we c wk (outcome_of c ''timed_out'' sid k det) t"
    if "time_out_execution now c msg s = Inr (st, t)" for now msg s st t sid k det
    using time_out_leaves [OF that] by (intro accounts_outcome) auto
  ultimately show ?thesis using Raised
    by (auto simp: conclude_attempt_def step_timed_out_def
      intro!: leads_if leads_report leads_after record_failure_accounts leads_fail)
qed

lemma finish_accounts: "leads P (finish_attempt we c wk s n budget ended) (accounts we c wk)"
proof -
  obtain r hb where "ended = (r, hb)" by (cases ended)
  then show ?thesis unfolding finish_attempt_def
    by (cases hb; cases r) (auto intro: conclude_accounts leads_fail leads_seq [OF leads_any])
qed

lemma run_step_accounts: "leads P (run_step we c wk sid v) (accounts we c wk)"
  unfolding run_step_def
proof (intro leads_after leads_if leads_report finish_accounts)
  fix s n now u y t
  assume "time_out_execution now c (msg_no_time (st_id s)) u = Inr (y, t)"
  then show "accounts we c wk (outcome_of c ''timed_out'' (Some (st_id s)) (Some n) '''') t"
    using time_out_leaves by (intro accounts_outcome) auto
qed

section \<open>One claim\<close>

lemma advance_accounts:
  "leads (\<lambda>s. keys_ok s \<and> states = step_states (c_execution c) s \<and> completed_outputs (c_execution c) s = Inr outs)
     (advance we c wk states outs fuel) (accounts we c wk)"
proof (induction fuel arbitrary: states)
  case 0
  then show ?case by (simp add: leads_fail)
next
  case (Suc fuel)
  let ?at = "\<lambda>s. keys_ok s \<and> states = step_states (c_execution c) s \<and>
    completed_outputs (c_execution c) s = Inr outs"
  have plan: "plan_on wk (c_execution c) s = plan_next wk states outs" if "?at s" for s
    using that by (simp add: plan_on_def)
  show ?case unfolding advance.simps
  proof (rule leads_bind [OF leads_lift])
    fix p
    let ?P = "\<lambda>s. ?at s \<and> plan_next wk states outs = Inr p"
    have complete: "leads ?P (seqA (txW we (\<lambda>now. complete_execution (we_store we) now c (outputs_value p)))
        (retA (outcome_of c ''completed'' None None (p_reason p)))) (accounts we c wk)"
      if "p_kind p = COMPLETE"
      using that plan by (auto intro!: leads_report completed_accounts)
    have conflict: "leads ?P (seqA (txW we (\<lambda>now. fail_execution now c FK_DEFINITION_CONFLICT (p_reason p)))
        (retA (outcome_of c ''failed'' sid None ''definition conflict''))) (accounts we c wk)" for sid
      by (rule leads_report) (auto intro!: accounts_outcome simp: stands_def dest: fail_execution_leaves)
    have park: "leads ?P (seqA (txW we (\<lambda>now. mark_waiting now c (p_reason p)))
        (retA (outcome_of c ''parked'' sid None ''needs_decision''))) (accounts we c wk)" for sid
      by (rule leads_report) (auto intro!: accounts_outcome dest: ending_statuses(2))
    have skip: "leads ?P (seqA (txW we (\<lambda>now. skip_step now c (st_id s) (p_reason p)))
        (advance we c wk (dict_set states (st_id s) S_SKIPPED) outs fuel)) (accounts we c wk)" for s
      by (rule leads_seq [OF leads_tx Suc.IH]) (auto dest: skip_step_reads)
    show "leads ?P (case p_kind p of
         COMPLETE \<Rightarrow>
           seqA (txW we (\<lambda>now. complete_execution (we_store we) now c (outputs_value p)))
                (retA (outcome_of c ''completed'' None None (p_reason p)))
       | CONFLICT \<Rightarrow>
           seqA (txW we (\<lambda>now. fail_execution now c FK_DEFINITION_CONFLICT (p_reason p)))
                (retA (outcome_of c ''failed'' (map_option st_id (p_step p)) None
                   ''definition conflict''))
       | NEEDS_DECISION \<Rightarrow>
           seqA (txW we (\<lambda>now. mark_waiting now c (p_reason p)))
                (retA (outcome_of c ''parked'' (map_option st_id (p_step p)) None
                   ''needs_decision''))
       | SKIP_STEP \<Rightarrow>
           (case p_step p of
              None \<Rightarrow> failA (state_error (''a scheduling plan named no step''))
            | Some s \<Rightarrow>
                seqA (txW we (\<lambda>now. skip_step now c (st_id s) (p_reason p)))
                     (advance we c wk (dict_set states (st_id s) S_SKIPPED) outs fuel))
       | RUN_STEP \<Rightarrow>
           (case p_step p of
              None \<Rightarrow> failA (state_error (''a scheduling plan named no step''))
            | Some s \<Rightarrow>
                run_step we c wk (st_id s) (if p_sources p = [] then c_input c else p_value p)))
      (accounts we c wk)"
      using complete conflict park skip
      by (cases "p_kind p"; cases "p_step p") (simp_all add: leads_fail run_step_accounts)
  qed
qed

text \<open>After an interrupted attempt was resolved, the claim has no lease left to go on with.\<close>

lemma txA_Inr: "txA clk op w = (Inr x, w') \<longleftrightarrow>
    (\<exists>t. op (clk (wo_ticks w)) (wo_db w) = Inr (x, t) \<and> w' = w\<lparr>wo_db := t, wo_ticks := Suc (wo_ticks w)\<rparr>)"
  by (auto simp: txA_def split: sum.splits)

definition live_claim :: "(nat \<Rightarrow> time) \<Rightarrow> claim \<Rightarrow> world \<Rightarrow> bool" where
  "live_claim clk c w \<longleftrightarrow> lease_guard c (clk (wo_ticks w)) (wo_db w)"

lemma resolve_step_from:
  "resolve_step env now c sid st out det s = Inr (u, t) \<Longrightarrow> \<not> stands (c_execution c) X_WAITING s"
  by (auto simp: resolve_step_def stands_def tx_iff execution_transition_allowed_def split: if_splits)

lemma mark_unknown_from:
  "mark_step_outcome_unknown now c sid why s = Inr (u, t) \<Longrightarrow> \<not> stands (c_execution c) X_WAITING s"
  by (auto simp: mark_step_outcome_unknown_def stands_def tx_iff execution_transition_allowed_def)

lemma resolve_interrupted_result:
  assumes clk: "mono clk" and run: "resolve_interrupted_attempt env clk c acts sid v w = (Inr st, w')"
  shows "live_claim clk c w \<and> \<not> stands (c_execution c) X_WAITING (wo_db w)"
    and "st = S_OUTCOME_UNKNOWN \<and> stands (c_execution c) X_WAITING (wo_db w') \<or>
      st \<noteq> S_OUTCOME_UNKNOWN \<and> \<not> live_claim clk c w'"
proof -
  have later: "clk (wo_ticks w) \<le> clk (Suc (wo_ticks w))" using clk by (simp add: monoD)
  have unknown: "live_claim clk c w \<and> \<not> stands (c_execution c) X_WAITING (wo_db w) \<and>
      stands (c_execution c) X_WAITING (wo_db w')"
    if "txA clk (\<lambda>now. mark_step_outcome_unknown now c sid why) w = (Inr u, w')" for why u
    using that mark_unknown_from ending_statuses(4) claim_write_guarded [OF claim_write.intros(8)]
    by (auto simp: txA_Inr live_claim_def)
  have resolved: "live_claim clk c w \<and> \<not> stands (c_execution c) X_WAITING (wo_db w) \<and> \<not> live_claim clk c w'"
    if "txA clk (\<lambda>now. resolve_step env now c sid r out det) w = (Inr u, w')" for r out det u
    using that resolve_step_from resolve_step_gives_lease_up [OF _ later] resolve_step_guarded
    by (auto simp: txA_Inr live_claim_def)
  have "live_claim clk c w \<and> \<not> stands (c_execution c) X_WAITING (wo_db w) \<and>
      (st = S_OUTCOME_UNKNOWN \<and> stands (c_execution c) X_WAITING (wo_db w') \<or>
       st \<noteq> S_OUTCOME_UNKNOWN \<and> \<not> live_claim clk c w')"
    using run unknown resolved
    by (auto simp: resolve_interrupted_attempt_def Let_def seqA_Inr_iff retA_def failA_def
      split: if_splits option.splits reconcile_answer.splits)
  then show "live_claim clk c w \<and> \<not> stands (c_execution c) X_WAITING (wo_db w)"
    and "st = S_OUTCOME_UNKNOWN \<and> stands (c_execution c) X_WAITING (wo_db w') \<or>
      st \<noteq> S_OUTCOME_UNKNOWN \<and> \<not> live_claim clk c w'"
    by blast+
qed

lemma resolve_each_result:
  assumes clk: "mono clk" and run: "resolve_each env clk c acts p (sid # sids) w = (Inr found, w')"
  shows "S_OUTCOME_UNKNOWN \<in> set found \<and> stands (c_execution c) X_WAITING (wo_db w') \<or>
    S_OUTCOME_UNKNOWN \<notin> set found \<and> \<not> live_claim clk c w'"
proof -
  obtain st w1 sts where first: "resolve_interrupted_attempt env clk c acts sid (input_for p sid c) w = (Inr st, w1)"
    and rest: "resolve_each env clk c acts p sids w1 = (Inr sts, w')" and found: "found = st # sts"
    using run by (auto simp: bindA_Inr_iff retA_def)
  note result = resolve_interrupted_result(2) [OF clk first]
  have "sids = []"
  proof (cases sids)
    case (Cons sid2 more)
    then obtain st2 w2 where "resolve_interrupted_attempt env clk c acts sid2 (input_for p sid2 c) w1 = (Inr st2, w2)"
      using rest by (auto simp: bindA_Inr_iff)
    then show ?thesis using resolve_interrupted_result(1) [OF clk] result by blast
  qed simp
  then show ?thesis using rest found result by (auto simp: retA_def)
qed

lemma seq_tx_live:
  assumes "seqA (txA clk op) m w = (Inr x, w')"
    and "\<And>y t. op (clk (wo_ticks w)) (wo_db w) = Inr (y, t) \<Longrightarrow> lease_guard c (clk (wo_ticks w)) (wo_db w)"
  shows "live_claim clk c w"
  using assms by (auto simp: seqA_Inr_iff txA_Inr live_claim_def)

lemma advance_live:
  assumes "advance we c wk states outs n w = (Inr out, w')"
  shows "live_claim (we_clock we) c w"
proof (cases n)
  case 0
  then show ?thesis using assms by (simp add: failA_def)
next
  case (Suc m)
  note guards = claim_write_guarded [OF claim_write.intros(10), of "we_store we"]
    claim_write_guarded [OF claim_write.intros(11)] claim_write_guarded [OF claim_write.intros(14)]
    claim_write_guarded [OF claim_write.intros(6)] claim_write_guarded [OF claim_write.intros(3)]
  obtain p where p: "plan_next wk states outs = Inr p" "(case p_kind p of
       COMPLETE \<Rightarrow>
         seqA (txW we (\<lambda>now. complete_execution (we_store we) now c (outputs_value p)))
              (retA (outcome_of c ''completed'' None None (p_reason p)))
     | CONFLICT \<Rightarrow>
         seqA (txW we (\<lambda>now. fail_execution now c FK_DEFINITION_CONFLICT (p_reason p)))
              (retA (outcome_of c ''failed'' (map_option st_id (p_step p)) None
                 ''definition conflict''))
     | NEEDS_DECISION \<Rightarrow>
         seqA (txW we (\<lambda>now. mark_waiting now c (p_reason p)))
              (retA (outcome_of c ''parked'' (map_option st_id (p_step p)) None
                 ''needs_decision''))
     | SKIP_STEP \<Rightarrow>
         (case p_step p of
            None \<Rightarrow> failA (state_error (''a scheduling plan named no step''))
          | Some s \<Rightarrow>
              seqA (txW we (\<lambda>now. skip_step now c (st_id s) (p_reason p)))
                   (advance we c wk (dict_set states (st_id s) S_SKIPPED) outs m))
     | RUN_STEP \<Rightarrow>
         (case p_step p of
            None \<Rightarrow> failA (state_error (''a scheduling plan named no step''))
          | Some s \<Rightarrow>
              run_step we c wk (st_id s) (if p_sources p = [] then c_input c else p_value p))) w = (Inr out, w')"
    using assms Suc by (auto simp: bindA_Inr_iff liftA_def)
  have step: "live_claim (we_clock we) c w" if "run_step we c wk sid v w = (Inr out, w')" for sid v
    using that by (auto simp: run_step_def bindA_Inr_iff liftA_def txA_Inr live_claim_def dest: guards(5))
  show ?thesis using p(2) step
    by (cases "p_kind p"; cases "p_step p") (auto simp: failA_def intro: seq_tx_live guards)
qed

lemma run_claimed_accounts:
  fixes we :: "'b worker_env"
  assumes clk: "mono (we_clock we)" and keys: "keys_ok (wo_db w)"
    and run: "run_claimed we c wk w = (Inr out, w')"
  shows "accounts we c wk out (wo_db w')"
proof -
  obtain outs where outs: "completed_outputs (c_execution c) (wo_db w) = Inr outs"
    using run by (auto simp: run_claimed_def bindA_Inr_iff readA_def askA_def)
  show ?thesis
  proof (cases "running_steps (c_execution c) (wo_db w)")
    case Nil
    then have "advance we c wk (step_states (c_execution c) (wo_db w)) outs (Suc (length (w_steps wk))) w = (Inr out, w')"
      using run outs by (auto simp: run_claimed_def bindA_Inr_iff readA_def askA_def)
    then show ?thesis using leadsD [OF advance_accounts] keys outs by blast
  next
    case (Cons sid sids)
    then obtain p :: "'b plan" and found w1 where resolved: "resolve_each (we_store we) (we_clock we) c (we_activities we) p (sid # sids) w = (Inr found, w1)"
      and rest: "(if S_OUTCOME_UNKNOWN \<in> set found then retA (outcome_of c ''parked'' (Some (hd (running_steps (c_execution c) (wo_db w)))) None ''outcome_unknown'')
        else bindA (readA (\<lambda>s. Inr (step_states (c_execution c) s))) (\<lambda>states'.
          advance we c wk states' outs (Suc (length (w_steps wk))))) w1 = (Inr out, w')"
      using run outs by (auto simp: run_claimed_def bindA_Inr_iff readA_def askA_def liftA_def simp del: resolve_each.simps)
    note result = resolve_each_result [OF clk resolved]
    show ?thesis
    proof (cases "S_OUTCOME_UNKNOWN \<in> set found")
      case True
      then show ?thesis using rest result by (auto simp: retA_def intro!: accounts_outcome)
    next
      case False
      then have "live_claim (we_clock we) c w1"
        using rest by (auto simp: bindA_Inr_iff readA_def askA_def simp del: advance.simps dest: advance_live)
      then show ?thesis using result False by blast
    qed
  qed
qed

definition too_late :: "claim \<Rightarrow> time \<Rightarrow> bool" where
  "too_late c now = given (\<lambda>d. d \<le> now) (c_deadline c)"

lemma deadline_passed_result:
  "deadline_passed we c w = (Inr late, w') \<Longrightarrow>
     wo_db w' = wo_db w \<and> late = too_late c (we_clock we (wo_ticks w))"
  by (auto simp: deadline_passed_def too_late_def bindA_Inr_iff clockA_def retA_def split: option.splits)

lemma run_defined_result:
  assumes clk: "mono (we_clock we)" and keys: "keys_ok (wo_db w)"
    and run: "run_defined we c wk w = (Inr out, w')"
  shows "if too_late c (we_clock we (wo_ticks w))
    then reports c out (wo_db w') \<and> ou_action out = ''timed_out'' \<and> steps (wo_db w') = steps (wo_db w)
    else accounts we c wk out (wo_db w')"
proof -
  obtain late w1 where late: "deadline_passed we c w = (Inr late, w1)"
    and rest: "(if late then seqA (txW we (\<lambda>now. time_out_execution now c ''the execution deadline passed before the step started''))
        (retA (outcome_of c ''timed_out'' None None ''deadline passed'')) else run_claimed we c wk) w1 = (Inr out, w')"
    using run by (auto simp: run_defined_def bindA_Inr_iff)
  note same = deadline_passed_result [OF late]
  show ?thesis
  proof (cases late)
    case True
    then obtain u t where t: "time_out_execution (we_clock we (wo_ticks w1)) c
        ''the execution deadline passed before the step started'' (wo_db w1) = Inr (u, t)" "wo_db w' = t"
        "out = outcome_of c ''timed_out'' None None ''deadline passed''"
      using rest by (auto simp: seqA_Inr_iff txA_Inr retA_def)
    then have "reports c out t" using time_out_leaves [OF t(1)] by (simp add: reports_outcome)
    then show ?thesis using True same t time_out_leaves [OF t(1)] by (simp add: outcome_of_def)
  next
    case False
    then show ?thesis using rest same keys run_claimed_accounts [OF clk, of w1 c wk out w'] by auto
  qed
qed

section \<open>One turn\<close>

text \<open>
  C14: a turn of a worker reports what the journal then says. If it reports nothing, nothing was
  claimable and the journal is as it was. Otherwise it claimed one execution, and the journal holds
  that execution with the status the reported action names. A claim with a cancellation request is
  cancelled, one whose definition the worker does not have, or has with another fingerprint, is
  failed as incompatible, one that comes after the deadline is timed out, and in all three cases no
  step is touched. Otherwise an execution reported completed is one whose plan is complete on the
  steps the journal holds, with the plan's outputs as its result, and a step reported as run
  succeeded, and the plan is neither complete nor in conflict.
\<close>
theorem worker_reports_what_it_did:
  assumes "mono (we_clock we)" and "reachable (we_store we) (we_clock we (wo_ticks w)) (wo_db w)"
    and "run_once we w = (Inr result, w')"
  shows "\<exists>claimed s. claim_next (we_store we) (we_clock we (wo_ticks w)) (we_owner we)
      (Some (worker_ttl (we_store we) (we_settings we))) (wo_db w) = Inr (claimed, s) \<and>
    (case claimed of
       None \<Rightarrow> result = None \<and> wo_db w' = wo_db w
     | Some c \<Rightarrow> \<exists>out. result = Some out \<and> reports c out (wo_db w') \<and>
        (if c_cancel c then ou_action out = ''cancelled'' \<and> steps (wo_db w') = steps (wo_db w)
         else case require_definition (we_store we) (we_lookup we) c of
           Inl e \<Rightarrow> ou_action out = ''failed'' \<and> steps (wo_db w') = steps (wo_db w) \<and>
             (\<exists>x. executions (wo_db w') (c_execution c) = Some x \<and>
                x_failure_kind x = Some FK_INCOMPATIBLE_DEFINITION)
         | Inr wk \<Rightarrow>
             if too_late c (we_clock we (Suc (wo_ticks w)))
             then ou_action out = ''timed_out'' \<and> steps (wo_db w') = steps (wo_db w)
             else plan_followed we c wk out (wo_db w')))"
proof -
  let ?now = "we_clock we (wo_ticks w)"
  let ?claim = "claim_next (we_store we) ?now (we_owner we) (Some (worker_ttl (we_store we) (we_settings we))) (wo_db w)"
  obtain claimed s where claim: "?claim = Inr (claimed, s)"
    using assms(3) by (auto simp: run_once_def bindA_Inr_iff txA_Inr)
  let ?w1 = "w\<lparr>wo_db := s, wo_ticks := Suc (wo_ticks w)\<rparr>"
  have "reachable (we_store we) ?now s" using assms(2) step_claim [OF claim] by (rule reachable.act)
  then have keys: "keys_ok (wo_db ?w1)" by (auto dest: reachable_ok simp: journal_ok_def)
  have rest: "(case claimed of None \<Rightarrow> retA None | Some c \<Rightarrow>
       if c_cancel c then
         seqA (txW we (\<lambda>now. acknowledge_cancellation now c
                 (Some ''cancellation was requested before this worker started the step'')))
              (retA (Some (outcome_of c ''cancelled'' None None ''requested before the step'')))
       else (case require_definition (we_store we) (we_lookup we) c of
         Inl e \<Rightarrow>
           seqA (txW we (\<lambda>now. fail_execution now c FK_INCOMPATIBLE_DEFINITION (str_of e)))
                (retA (Some (outcome_of c ''failed'' None None ''incompatible definition'')))
       | Inr wk \<Rightarrow> bindA (run_defined we c wk) (\<lambda>out. retA (Some out)))) ?w1 = (Inr result, w')"
    using assms(3) claim by (auto simp: run_once_def bindA_Inr_iff txA_Inr)
  show ?thesis
  proof (cases claimed)
    case None
    then have "s = wo_db w" using claim by (simp add: claim_next_None)
    then show ?thesis using claim rest None by (auto simp: retA_def)
  next
    case (Some c)
    then have same: "steps s = steps (wo_db w)"
      using claim by (auto simp: claim_next_Some claimed_db_def)
    show ?thesis
    proof (cases "c_cancel c")
      case True
      then obtain u t where t: "acknowledge_cancellation (we_clock we (Suc (wo_ticks w))) c
          (Some ''cancellation was requested before this worker started the step'') s = Inr (u, t)" "wo_db w' = t"
          "result = Some (outcome_of c ''cancelled'' None None ''requested before the step'')"
        using rest Some by (auto simp: seqA_Inr_iff txA_Inr retA_def)
      then show ?thesis using cancel_leaves [OF t(1)] claim Some True same
        by (auto intro!: reports_outcome) (simp add: outcome_of_def)
    next
      case running: False
      show ?thesis
      proof (cases "require_definition (we_store we) (we_lookup we) c")
        case (Inl e)
        then obtain u t where t: "fail_execution (we_clock we (Suc (wo_ticks w))) c FK_INCOMPATIBLE_DEFINITION
            (str_of e) s = Inr (u, t)" "wo_db w' = t"
            "result = Some (outcome_of c ''failed'' None None ''incompatible definition'')"
          using rest Some running by (auto simp: seqA_Inr_iff txA_Inr retA_def)
        then have "reports c (outcome_of c ''failed'' None None ''incompatible definition'') t"
          using fail_execution_leaves [OF t(1)] by (intro reports_outcome) (auto simp: stands_def)
        then show ?thesis using fail_execution_leaves [OF t(1)] t claim Some running same Inl
          by (auto simp: outcome_of_def)
      next
        case (Inr wk)
        then obtain out where out: "run_defined we c wk ?w1 = (Inr out, w')" "result = Some out"
          using rest Some running by (auto simp: bindA_Inr_iff retA_def)
        show ?thesis using run_defined_result [OF assms(1) keys out(1)] out(2) claim Some running same Inr
          by (auto simp: accounts_def split: if_splits)
      qed
    qed
  qed
qed

lemma sample_turn:
  "case fst (run_once sample_worker \<lparr>wo_db = journal_1, wo_ticks = 0\<rparr>) of
     Inr (Some out) \<Rightarrow> ou_action out = ''ran_step'' | _ \<Rightarrow> False"
  by code_simp

theorem worker_reports_what_it_did_witness:
  "\<exists>out w'. run_once sample_worker \<lparr>wo_db = journal_1, wo_ticks = 0\<rparr> = (Inr (Some out), w') \<and>
     ou_action out = ''ran_step'' \<and> stands (ou_execution out) X_PENDING (wo_db w')"
proof -
  let ?w = "\<lparr>wo_db = journal_1, wo_ticks = 0\<rparr>"
  obtain out w' where run: "run_once sample_worker ?w = (Inr (Some out), w')" "ou_action out = ''ran_step''"
    using sample_turn by (cases "run_once sample_worker ?w") (auto split: sum.splits option.splits)
  have "reachable (we_store sample_worker) (we_clock sample_worker (wo_ticks ?w)) (wo_db ?w)"
    using journal_1_reachable by (simp add: sample_worker_def)
  from worker_reports_what_it_did [OF sample_attempts(1) this run(1)]
  obtain c where "reports c out (wo_db w')" by (auto split: option.splits)
  then show ?thesis using run by (auto simp: reports_def)
qed

end
