(* ===== verification/Attempt_Ledger.thy ===== *)
theory Attempt_Ledger
  imports Journal_Sample
begin

text \<open>
  The ledger of attempts: the event log names every attempt of a step once, in order, numbered from
  one, and the step's counter is the last of these numbers, across crashes, retries and takeovers.
\<close>

definition started :: "db \<Rightarrow> string \<Rightarrow> string \<Rightarrow> int list" where
  "started s eid sid = map (the \<circ> v_attempt) (filter (\<lambda>v. v_kind v = E_STEP_STARTED \<and>
     v_execution v = eid \<and> v_step v = Some sid) (events s))"

definition ledger_ok :: "db \<Rightarrow> bool" where
  "ledger_ok s \<longleftrightarrow>
     (\<forall>v \<in> set (events s). v_kind v = E_STEP_STARTED \<longrightarrow> v_execution v \<in> dom (executions s)) \<and>
     (\<forall>eid sid r. steps s (eid, sid) = Some r \<longrightarrow>
        0 \<le> s_attempts r \<and> started s eid sid = [1..s_attempts r])"

section \<open>Operations that start nothing\<close>

definition quiet :: "db \<Rightarrow> db \<Rightarrow> bool" where
  "quiet s t \<longleftrightarrow> dom (executions s) \<subseteq> dom (executions t) \<and>
     (\<forall>k. map_option s_attempts (steps t k) = map_option s_attempts (steps s k)) \<and>
     (\<exists>vs. events t = events s @ vs \<and> (\<forall>v \<in> set vs. v_kind v \<noteq> E_STEP_STARTED))"

lemma quiet_trans: "quiet s t \<Longrightarrow> quiet t u \<Longrightarrow> quiet s u"
  unfolding quiet_def by (elim conjE exE) auto

interpretation calm: evolution quiet
proof
  show "quiet s s" for s by (simp add: quiet_def)
qed (rule quiet_trans)

lemma quiet_ledger:
  assumes "quiet s t" and "ledger_ok s"
  shows "ledger_ok t"
proof -
  obtain vs where vs: "events t = events s @ vs" "\<And>v. v \<in> set vs \<Longrightarrow> v_kind v \<noteq> E_STEP_STARTED"
    using assms(1) by (auto simp: quiet_def)
  then have none: "filter (\<lambda>v. v_kind v = E_STEP_STARTED \<and> P v) vs = []" for P
    by (auto simp: filter_empty_conv)
  have "started t eid sid = started s eid sid" for eid sid
    using vs(1) none by (simp add: started_def)
  moreover have "\<exists>r'. steps s k = Some r' \<and> s_attempts r' = s_attempts r" if "steps t k = Some r" for k r
    using assms(1) that unfolding quiet_def by (metis map_option_eq_Some)
  ultimately show ?thesis
    using assms vs by (fastforce simp: ledger_ok_def quiet_def)
qed

named_theorems calm_kept \<open>statements and operations that start no attempt\<close>

lemma append_event_calm [calm_kept]:
  "k \<noteq> E_STEP_STARTED \<Longrightarrow> keeps quiet (append_event eid k now osid n det)"
  by (auto simp: keeps_def append_event_def modT_Inr_iff quiet_def)

lemma set_step_state_calm [calm_kept]:
  "harmless_step extra \<Longrightarrow> keeps quiet (set_step_state c sid tgt now extra allowed)"
  by (auto simp: keeps_def set_step_state_Inr quiet_def harmless_step_def)

lemma statement_calm [calm_kept]:
  "keeps quiet (delete_retry eid)"
  "keeps quiet (upsert_retry eid r)"
  "keeps quiet (release_lease_row c now)"
  "keeps quiet (set_execution_status c target now extra allow)"
  "keeps quiet (guarded_exec_update c now f)"
  "keeps quiet (update_own_lease c now what g)"
  "keeps quiet (explain_refused_write c now what allow)"
  "keeps quiet (execution_row eid)"
  "keeps quiet (get_step_row eid sid)"
  "keeps quiet (modT (\<lambda>s. s\<lparr>executions := (executions s)(eid \<mapsto> row)\<rparr>))"
  by (auto simp: keeps_def quiet_def delete_retry_def upsert_retry_def release_lease_row_def
    guarded_exec_update_Inr update_own_lease_def tx_iff split: option.splits if_splits)

lemma expire_one_calm: "keeps quiet (expire_one now eid)"
  unfolding expire_one_def
  by (intro calm.composition calm_kept keeps_mod)
     (auto simp: quiet_def split: option.splits)

lemma expire_each_calm [calm_kept]: "keeps quiet (expire_each now eids)"
  by (induction eids) (auto intro: calm.composition expire_one_calm)

lemma operation_calm [calm_kept]:
  "keeps quiet (renew_lease env now c ttl)"
  "keeps quiet (release_lease now c)"
  "keeps quiet (expire_deadlines now)"
  "keeps quiet (complete_step env now c sid out)"
  "keeps quiet (yield_execution now c why)"
  "keeps quiet (skip_step now c sid why)"
  "keeps quiet (time_out_execution now c msg)"
  "keeps quiet (fail_for_good now c sid et em reason n)"
  "keeps quiet (fail_and_retry now c sid et em reason n due)"
  "keeps quiet (mark_step_outcome_unknown now c sid why)"
  "keeps quiet (resolve_step env now c sid st out det)"
  "keeps quiet (complete_execution env now c out)"
  "keeps quiet (fail_execution now c kind msg)"
  "keeps quiet (finish_cancelled eid now reason)"
  "keeps quiet (cancel_owned now c reason)"
  "keeps quiet (mark_waiting now c why)"
  "keeps quiet (resume_waiting now eid reason)"
  "keeps quiet (record_request eid now reason row)"
  "keeps quiet (record_acknowledged eid now reason row)"
  unfolding renew_lease_def release_lease_def expire_deadlines_def complete_step_def
    yield_execution_def skip_step_def time_out_execution_def fail_for_good_def fail_and_retry_def
    mark_step_outcome_unknown_def resolve_step_def complete_execution_def fail_execution_def
    finish_cancelled_def cancel_owned_def mark_waiting_def resume_waiting_def record_request_def
    record_acknowledged_def Let_def
  by (intro calm.composition calm_kept; simp)+

lemma fail_step_calm [calm_kept]: "keeps quiet (fail_step now c sid etype emsg retry_at reason)"
  unfolding fail_step_def by (intro calm.composition calm_kept; cases retry_at; simp add: calm_kept)

lemma request_cancellation_calm [calm_kept]: "keeps quiet (request_cancellation_tx now eid reason)"
  unfolding request_cancellation_tx_def by (intro calm.composition calm_kept)

lemma acknowledge_calm [calm_kept]: "keeps quiet (acknowledge_cancellation now c reason)"
proof (rule keepsI)
  fix s u t assume "acknowledge_cancellation now c reason s = Inr (u, t)"
  then obtain row where
    "seqT (record_acknowledged (c_execution c) now reason row) (cancel_owned now c reason) s = Inr (u, t)"
    by (auto simp: acknowledge_cancellation_def split: option.splits)
  moreover have "keeps quiet
      (seqT (record_acknowledged (c_execution c) now reason row) (cancel_owned now c reason))"
    by (intro calm.composition calm_kept)
  ultimately show "quiet s t" by (blast dest: keepsD)
qed

lemma claim_next_calm [calm_kept]: "keeps quiet (claim_next env now owner ttl)"
proof (rule keepsI)
  fix s r t assume "claim_next env now owner ttl s = Inr (r, t)"
  then show "quiet s t"
    by (cases r) (auto simp: claim_next_Some claim_next_None calm.refl claimed_db_def quiet_def)
qed

section \<open>Submitting and starting\<close>

lemma registered_calm:
  "register_definition env now w s = Inr (fp, t) \<Longrightarrow> quiet s t"
  by (auto simp: register_definition_def tx_iff Let_def quiet_def split: option.splits if_splits)

lemma submitted_ledger:
  assumes "ledger_ok s" and "executions s eid = None"
  shows "ledger_ok (submitted_db env now w eid payload deadline key s)" (is "ledger_ok ?t")
proof -
  have e: "executions ?t = (executions s)(eid \<mapsto> new_execution env now w payload deadline)"
    "events ?t = events s @ [\<lparr>v_id = next_event s, v_execution = eid, v_kind = E_SUBMITTED,
      v_step = None, v_attempt = None,
      v_detail = Some (submitted_detail (length (w_steps w)) key), v_at = now\<rparr>]"
    "steps ?t k = (if fst k = eid \<and> snd k \<in> set (step_ids w) then Some new_step else steps s k)" for k
    by (simp_all add: submitted_db_def insert_steps_db Let_def insert_execution_def)
  have known: "v_execution v \<noteq> eid" if "v \<in> set (events s)" "v_kind v = E_STEP_STARTED" for v
    using assms that by (auto simp: ledger_ok_def)
  have same: "started ?t x sid = started s x sid" for x sid
    by (simp add: started_def e)
  have fresh: "started s eid sid = []" for sid
    using known by (auto simp: started_def filter_empty_conv)
  show ?thesis unfolding ledger_ok_def
  proof (intro conjI allI impI ballI)
    fix v assume "v \<in> set (events ?t)" "v_kind v = E_STEP_STARTED"
    then show "v_execution v \<in> dom (executions ?t)"
      using assms(1) by (auto simp: e ledger_ok_def)
  next
    fix x sid r assume r: "steps ?t (x, sid) = Some r"
    show "0 \<le> s_attempts r" "started ?t x sid = [1..s_attempts r]"
      using r assms(1) fresh by (auto simp: e same new_step_def ledger_ok_def split: if_splits)
  qed
qed

lemma start_step_ledger:
  assumes "ledger_ok s" and "start_step now c sid ikey s = Inr (n, t)"
  shows "ledger_ok t \<and> started t (c_execution c) sid = started s (c_execution c) sid @ [n]"
proof -
  obtain row x where r: "steps s (c_execution c, sid) = Some row" "n = s_attempts row + 1"
      "executions s (c_execution c) = Some x"
      "dom (executions t) = insert (c_execution c) (dom (executions s))"
      "steps t = (steps s)((c_execution c, sid) \<mapsto> row\<lparr>s_state := S_RUNNING, s_attempts := n,
         s_started := Some now, s_finished := None, s_key := ikey\<rparr>)"
      "events t = events s @ [\<lparr>v_id = next_event s, v_execution = c_execution c,
         v_kind = E_STEP_STARTED, v_step = Some sid, v_attempt = Some n, v_detail = None, v_at = now\<rparr>]"
    using assms(2) by (auto simp: start_step_Inr)
  have own: "started s (c_execution c) sid = [1..s_attempts row]" "0 \<le> s_attempts row"
    using assms(1) r(1) by (auto simp: ledger_ok_def)
  have st: "started t e i = started s e i @ (if e = c_execution c \<and> i = sid then [n] else [])" for e i
    by (auto simp: started_def r(6))
  have "[1..n] = [1..s_attempts row] @ [n]"
    using own(2) r(2) by (simp add: upto_rec2)
  then show ?thesis using assms(1) own r st by (auto simp: ledger_ok_def split: if_splits)
qed

lemma quiet_kept_ledger:
  assumes "keeps quiet m" and "ledger_ok s" and "m s = Inr (x, t)"
  shows "ledger_ok t"
  using keepsD [OF assms(1,3)] assms(2) by (rule quiet_ledger)

lemma store_step_ledger:
  assumes "ledger_ok s" and "store_step env now s t"
  shows "ledger_ok t"
  using assms(2)
proof (cases rule: store_step.cases)
  case (step_submit fresh w inp timeout eid key r)
  from step_submit(1) show ?thesis
  proof (cases rule: submit_cases)
    case refused
    then show ?thesis using assms(1) by simp
  next
    case (registered fp)
    then show ?thesis using assms(1) registered_calm quiet_ledger by blast
  next
    case (submitted fp s1 ident payload deadline h)
    then have "ledger_ok s1" using assms(1) registered_calm quiet_ledger by blast
    then show ?thesis using submitted(3)
      by (cases "executions s1 ident") (auto simp: submit_tx_new dest: submit_tx_known intro: submitted_ledger)
  qed
next
  case (step_register w fp)
  then show ?thesis using assms(1) registered_calm quiet_ledger by blast
next
  case (step_start c sid ikey n)
  then show ?thesis using start_step_ledger assms(1) by blast
qed (rule quiet_kept_ledger; (rule calm_kept assms(1) | assumption))+

lemma reachable_ledger: "reachable env now s \<Longrightarrow> ledger_ok s"
proof (induction rule: reachable.induct)
  case start
  then show ?case by (simp add: ledger_ok_def empty_db_def)
qed (blast intro: store_step_ledger)+

text \<open>
  C15: attempts are numbered without gaps or repeats. In every reachable journal, whatever became of
  the execution, the start events of a step carry the numbers one up to the step's attempt counter,
  in this order, and a further \<open>start_step\<close> that is not refused returns and records the next number.
\<close>
theorem attempts_are_numbered:
  assumes "reachable env now s" and "steps s (c_execution c, sid) = Some r"
  shows "0 \<le> s_attempts r \<and> started s (c_execution c) sid = [1..s_attempts r] \<and>
    (case start_step later c sid ikey s of
       Inl e \<Rightarrow> True
     | Inr (n, t) \<Rightarrow> n = s_attempts r + 1 \<and> started t (c_execution c) sid = [1..n])"
proof -
  have ok: "ledger_ok s" using assms(1) by (rule reachable_ledger)
  have "n = s_attempts r + 1 \<and> started t (c_execution c) sid = [1..n]"
    if start: "start_step later c sid ikey s = Inr (n, t)" for n t
  proof -
    have t: "ledger_ok t" using ok step_start [OF start] by (rule store_step_ledger)
    obtain r' where "steps t (c_execution c, sid) = Some r'" "s_attempts r' = n" "n = s_attempts r + 1"
      using assms(2) start by (auto simp: start_step_Inr)
    then show ?thesis using t by (auto simp: ledger_ok_def)
  qed
  then show ?thesis using ok assms(2) by (auto simp: ledger_ok_def split: sum.splits)
qed

theorem attempts_are_numbered_witness:
  "started journal_2 ''x'' ''a'' = [] \<and> started journal_3 ''x'' ''a'' = [1]"
  using attempts_are_numbered [OF journal_2_reachable, of claim_1 "''a''" new_step 0 None] sample_started
  by (simp add: new_step_def)

end
