(* ===== verification/Executor.thy ===== *)
theory Executor
  imports Validation Procedures
begin

text \<open>
  \<open>execution/executor.py\<close> and \<open>execution/events.py\<close>: one run of a validated definition. What
  \<open>asyncio.wait\<close> delivers when a call is raced against its stop conditions is a parameter
  (\<open>xe_await\<close>); what the executor makes of it, its clock readings, its tokens, its events and its
  queue are modelled. The surroundings of a run, which a running step, a sleeping clock or an
  event sink may change, are the number of clock readings and random draws so far and the store
  of cancellation tokens. The texts of numbers in messages are parameters.
\<close>

section \<open>Events\<close>

datatype event_type =
    WORKFLOW_STARTED | WORKFLOW_SUCCEEDED | WORKFLOW_FAILED | WORKFLOW_TIMED_OUT
  | WORKFLOW_CANCELLED | STEP_STARTED | STEP_SUCCEEDED | STEP_FAILED | STEP_RETRIED
  | STEP_SKIPPED | STEP_TIMED_OUT | STEP_CANCELLED

fun event_value :: "event_type \<Rightarrow> string" where
  "event_value WORKFLOW_STARTED = ''workflow_started''"
| "event_value WORKFLOW_SUCCEEDED = ''workflow_succeeded''"
| "event_value WORKFLOW_FAILED = ''workflow_failed''"
| "event_value WORKFLOW_TIMED_OUT = ''workflow_timed_out''"
| "event_value WORKFLOW_CANCELLED = ''workflow_cancelled''"
| "event_value STEP_STARTED = ''step_started''"
| "event_value STEP_SUCCEEDED = ''step_succeeded''"
| "event_value STEP_FAILED = ''step_failed''"
| "event_value STEP_RETRIED = ''step_retried''"
| "event_value STEP_SKIPPED = ''step_skipped''"
| "event_value STEP_TIMED_OUT = ''step_timed_out''"
| "event_value STEP_CANCELLED = ''step_cancelled''"

record wf_event =
  xev_type :: event_type
  xev_sequence :: nat
  xev_workflow :: string
  xev_version :: string
  xev_timestamp :: real
  xev_step :: "string option"
  xev_attempt :: "int option"
  xev_duration :: "real option"
  xev_correlation :: "string option"
  xev_detail :: "string option"
  xev_error :: "string option"

definition new_event :: "event_type \<Rightarrow> wf_event" where
  "new_event k = \<lparr>xev_type = k, xev_sequence = 0, xev_workflow = '''', xev_version = '''',
     xev_timestamp = 0, xev_step = None, xev_attempt = None, xev_duration = None,
     xev_correlation = None, xev_detail = None, xev_error = None\<rparr>"

text \<open>\<open>fixed6\<close> is the format \<open>.6f\<close>.\<close>

definition render_event :: "(real \<Rightarrow> string) \<Rightarrow> wf_event \<Rightarrow> string" where
  "render_event fixed6 e = join '' '' (
     [''#'' @ dec_nat (xev_sequence e), event_value (xev_type e), ''workflow='' @ xev_workflow e] @
     (case xev_step e of None \<Rightarrow> [] | Some s \<Rightarrow> [''step='' @ s]) @
     (case xev_attempt e of None \<Rightarrow> [] | Some n \<Rightarrow> [''attempt='' @ dec_int n]) @
     (case xev_duration e of None \<Rightarrow> [] | Some d \<Rightarrow> [''duration='' @ fixed6 d]) @
     (case xev_error e of None \<Rightarrow> [] | Some t \<Rightarrow> [''error='' @ t]) @
     (case xev_detail e of None \<Rightarrow> [] | Some t \<Rightarrow> [t]))"

section \<open>Stopping\<close>

datatype abort_kind = AB_FAILED | AB_RETRY_EXHAUSTED | AB_STEP_TIMEOUT | AB_TIMED_OUT | AB_CANCELLED

fun abort_error :: "abort_kind \<Rightarrow> string" where
  "abort_error AB_FAILED = ''WorkflowExecutionError''"
| "abort_error AB_RETRY_EXHAUSTED = ''RetryExhaustedError''"
| "abort_error AB_STEP_TIMEOUT = ''StepTimeoutError''"
| "abort_error AB_TIMED_OUT = ''WorkflowTimeoutError''"
| "abort_error AB_CANCELLED = ''WorkflowCancelledError''"

fun abort_event :: "abort_kind \<Rightarrow> event_type" where
  "abort_event AB_FAILED = WORKFLOW_FAILED"
| "abort_event AB_RETRY_EXHAUSTED = WORKFLOW_FAILED"
| "abort_event AB_STEP_TIMEOUT = WORKFLOW_FAILED"
| "abort_event AB_TIMED_OUT = WORKFLOW_TIMED_OUT"
| "abort_event AB_CANCELLED = WORKFLOW_CANCELLED"

record abort =
  ab_kind :: abort_kind
  ab_message :: string
  ab_step :: "string option"
  ab_attempts :: "attempt list"
  ab_cause :: "exn option"

definition new_abort :: "abort_kind \<Rightarrow> string \<Rightarrow> string \<Rightarrow> attempt list \<Rightarrow> exn option \<Rightarrow> abort" where
  "new_abort k msg sid attempts cause = \<lparr>ab_kind = k, ab_message = msg, ab_step = Some sid,
     ab_attempts = attempts, ab_cause = cause\<rparr>"

definition error_name :: "abort \<Rightarrow> string" where
  "error_name a = (case ab_cause a of
     Some e \<Rightarrow> type_name (class_of e) | None \<Rightarrow> abort_error (ab_kind a))"

text \<open>Inside a run an abort is caught by \<open>run\<close>; any other exception escapes it.\<close>

datatype halt = Aborted abort | Escaped exn

datatype stop_reason = STOP_CANCELLED | STOP_TIMED_OUT | STOP_STEP_TIMEOUT

text \<open>\<open>_AttemptResult\<close>\<close>

record attempt_result =
  ar_output :: pyval
  ar_error :: "exn option"
  ar_stop :: "stop_reason option"

definition stopped :: "stop_reason \<Rightarrow> attempt_result" where
  "stopped r = \<lparr>ar_output = PNone, ar_error = None, ar_stop = Some r\<rparr>"

section \<open>The world of a run\<close>

record surroundings =
  su_ticks :: nat
  su_draws :: nat
  su_tokens :: tokens

text \<open>The local variables of \<open>run\<close>, the event log's counter and what it emitted.\<close>

record 'b xworld =
  xw_env :: surroundings
  xw_sequence :: nat
  xw_events :: "wf_event list"
  xw_outcomes :: "(string \<times> step_outcome) list"
  xw_outputs :: "(string \<times> pyval) list"
  xw_produced :: "(string \<times> pyval) list"
  xw_taken :: "(string \<times> string) list"
  xw_waiters :: "string \<Rightarrow> int"
  xw_ready :: "'b wf_step list"

type_synonym ('b, 'a) xact = "('b xworld, halt, 'a) proc"

text \<open>
  What is raced: a step's coroutine, a direct call's, or the clock's sleep. The outcome is what
  \<open>asyncio.wait\<close> finds: the call done, with a value or an exception or cancelled, or the watch
  done first; or the run itself is cancelled from outside while it waits.
\<close>

datatype 'b raced_call =
    StepCall "'b wf_step" pyval step_context
  | DirectCall string
  | Sleep real

datatype race_end = Finished pyval | FailedWith exn | TaskCancelled | StoppedFirst | OuterCancelled

text \<open>The watch has its own seconds and token; a sink may raise and may change the surroundings.\<close>

record 'b exec_env =
  xe_classes :: class_env
  xe_clock :: "nat \<Rightarrow> real"
  xe_random :: "nat \<Rightarrow> real"
  xe_sink :: "(wf_event \<Rightarrow> surroundings \<Rightarrow> exn option \<times> surroundings) option"
  xe_await :: "'b raced_call \<Rightarrow> real option \<Rightarrow> nat \<Rightarrow> surroundings \<Rightarrow> race_end \<times> surroundings"
  xe_correlation :: "string option"
  xe_general :: "real \<Rightarrow> string"
  xe_repr :: "real \<Rightarrow> string"

definition on_env :: "(surroundings \<Rightarrow> surroundings) \<Rightarrow> 'b xworld \<Rightarrow> 'b xworld" where
  "on_env f w = w\<lparr>xw_env := f (xw_env w)\<rparr>"

definition tick :: "surroundings \<Rightarrow> surroundings" where
  "tick su = su\<lparr>su_ticks := Suc (su_ticks su)\<rparr>"

definition monotonic :: "'b exec_env \<Rightarrow> ('b, real) xact" where
  "monotonic xe = (\<lambda>w. (Inr (xe_clock xe (su_ticks (xw_env w))), on_env tick w))"

definition escape :: "exn + 'a \<Rightarrow> ('b, 'a) xact" where
  "escape r = liftA (case r of Inl e \<Rightarrow> Inl (Escaped e) | Inr x \<Rightarrow> Inr x)"

definition token_of :: "'b xworld \<Rightarrow> nat \<Rightarrow> token" where
  "token_of w t = su_tokens (xw_env w) ! t"

definition token_child :: "nat \<Rightarrow> ('b, nat) xact" where
  "token_child t = (\<lambda>w. case child (su_tokens (xw_env w)) t of
     (h, c) \<Rightarrow> (Inr c, on_env (su_tokens_update (\<lambda>_. h)) w))"

definition token_cancel :: "nat \<Rightarrow> string \<Rightarrow> ('b, unit) xact" where
  "token_cancel t reason = modA (on_env (su_tokens_update (\<lambda>h. cancel h t (Some reason))))"

text \<open>\<open>_EventLog.emit\<close>\<close>

definition emit :: "'b exec_env \<Rightarrow> 'b workflow \<Rightarrow> wf_event \<Rightarrow> ('b, unit) xact" where
  "emit xe wk ev = (\<lambda>w. case xe_sink xe of
     None \<Rightarrow> (Inr (), w)
   | Some sink \<Rightarrow>
       let n = Suc (xw_sequence w);
           full = ev\<lparr>xev_sequence := n, xev_workflow := w_name wk, xev_version := w_version wk,
             xev_timestamp := xe_clock xe (su_ticks (xw_env w)),
             xev_correlation := xe_correlation xe\<rparr>;
           w = (on_env tick w)\<lparr>xw_sequence := n, xw_events := xw_events w @ [full]\<rparr>
       in (case sink full (xw_env w) of
             (None, su) \<Rightarrow> (Inr (), w\<lparr>xw_env := su\<rparr>)
           | (Some e, su) \<Rightarrow> (Inl (Escaped e), w\<lparr>xw_env := su\<rparr>)))"

section \<open>Checks\<close>

text \<open>\<open>f"{value:g}"\<close> of an optional number: there is no such format for \<open>None\<close>.\<close>

definition format_g :: "'b exec_env \<Rightarrow> real option \<Rightarrow> exn + string" where
  "format_g xe v = (case v of
     None \<Rightarrow> Inl (raised ''TypeError''
               ''unsupported format string passed to NoneType.__format__'')
   | Some x \<Rightarrow> Inr (xe_general xe x))"

definition require_positive :: "'b exec_env \<Rightarrow> real option \<Rightarrow> string \<Rightarrow> exn + unit" where
  "require_positive xe v label = (case v of
     None \<Rightarrow> Inr ()
   | Some x \<Rightarrow> refuse_if (x \<le> 0)
       (invalid (label @ '' must be greater than zero, got '' @ xe_repr xe x)))"

definition has_type :: "class_env \<Rightarrow> pyval \<Rightarrow> ty list \<Rightarrow> bool" where
  "has_type ce v tys =
     list_ex (\<lambda>t. case t of TClass c \<Rightarrow> py_type v = c \<or> ce_issubclass ce (py_type v) c | _ \<Rightarrow> False) tys"

definition require_input :: "class_env \<Rightarrow> 'b workflow \<Rightarrow> pyval \<Rightarrow> exn + unit" where
  "require_input ce wk v = (case w_input_type wk of
     None \<Rightarrow> Inr ()
   | Some tys \<Rightarrow> refuse_if (\<not> has_type ce v tys)
       (raised ''WorkflowExecutionError'' (''workflow '' @ py_repr (w_name wk) @
         '' expects input of type '' @ join '' | '' (map describe_ty tys) @ '', got '' @ py_type v)))"

definition the_reason :: "token \<Rightarrow> string" where
  "the_reason t = or_text (t_reason t) ''cancellation was requested''"

text \<open>The clock is read only when the token is live and there is a deadline.\<close>

definition past_deadline :: "'b exec_env \<Rightarrow> real option \<Rightarrow> ('b, bool) xact" where
  "past_deadline xe deadline = (case deadline of
     None \<Rightarrow> retA False
   | Some d \<Rightarrow> bindA (monotonic xe) (\<lambda>now. retA (d \<le> now)))"

definition require_live ::
    "'b exec_env \<Rightarrow> 'b workflow \<Rightarrow> nat \<Rightarrow> real option \<Rightarrow> string \<Rightarrow> ('b, unit) xact" where
  "require_live xe wk tok deadline sid = bindA (askA (\<lambda>w. Inr (token_of w tok))) (\<lambda>t.
     if t_cancelled t then
       failA (Aborted (new_abort AB_CANCELLED (''workflow '' @ py_repr (w_name wk) @
         '' was cancelled before step '' @ py_repr sid @ '' could start ('' @ the_reason t @ '')'')
         sid [] None))
     else bindA (past_deadline xe deadline) (\<lambda>late.
       if late then
         failA (Aborted (new_abort AB_TIMED_OUT (''workflow '' @ py_repr (w_name wk) @
           '' exceeded its deadline before step '' @ py_repr sid @ '' could start'') sid [] None))
       else retA ()))"

definition step_budget :: "'b exec_env \<Rightarrow> real option \<Rightarrow> real option \<Rightarrow> ('b, real option) xact" where
  "step_budget xe step_timeout deadline = (case deadline of
     None \<Rightarrow> retA step_timeout
   | Some d \<Rightarrow> bindA (monotonic xe) (\<lambda>now.
       let rest = max (d - now) 0 in
       retA (Some (case step_timeout of None \<Rightarrow> rest | Some t \<Rightarrow> min t rest))))"

section \<open>Racing a call\<close>

text \<open>\<open>_stop_reason\<close>: cancellation takes precedence over the deadline.\<close>

definition stop_reason_of :: "'b exec_env \<Rightarrow> nat \<Rightarrow> real option \<Rightarrow> ('b, stop_reason) xact" where
  "stop_reason_of xe tok deadline = bindA (askA (\<lambda>w. Inr (token_of w tok))) (\<lambda>t.
     if t_cancelled t then retA STOP_CANCELLED
     else bindA (past_deadline xe deadline) (\<lambda>late.
       retA (if late then STOP_TIMED_OUT else STOP_STEP_TIMEOUT)))"

definition watch_seconds :: "real option \<Rightarrow> real option" where
  "watch_seconds budget = map_option (\<lambda>b. max b 0) budget"

definition race ::
    "'b exec_env \<Rightarrow> 'b raced_call \<Rightarrow> real option \<Rightarrow> nat \<Rightarrow> real option \<Rightarrow> ('b, attempt_result) xact" where
  "race xe call budget tok deadline = (\<lambda>w.
     case xe_await xe call (watch_seconds budget) tok (xw_env w) of (r, su) \<Rightarrow>
       (case r of
          Finished v \<Rightarrow> retA \<lparr>ar_output = v, ar_error = None, ar_stop = None\<rparr>
        | FailedWith e \<Rightarrow> retA \<lparr>ar_output = PNone, ar_error = Some e, ar_stop = None\<rparr>
        | TaskCancelled \<Rightarrow> retA (stopped STOP_CANCELLED)
        | StoppedFirst \<Rightarrow> bindA (stop_reason_of xe tok deadline) (\<lambda>why. retA (stopped why))
        | OuterCancelled \<Rightarrow> failA (Escaped (raised ''CancelledError'' '''')))
       (w\<lparr>xw_env := su\<rparr>))"

text \<open>\<open>_pause\<close>: the outcome of the race is not looked at, only the token and the clock are.\<close>

definition pause_for :: "'b exec_env \<Rightarrow> real \<Rightarrow> real option \<Rightarrow> ('b, real) xact" where
  "pause_for xe delay deadline = (case deadline of
     None \<Rightarrow> retA delay
   | Some d \<Rightarrow> bindA (monotonic xe) (\<lambda>now. retA (min delay (max (d - now) 0))))"

definition pause ::
    "'b exec_env \<Rightarrow> 'b workflow \<Rightarrow> string \<Rightarrow> real \<Rightarrow> nat \<Rightarrow> real option \<Rightarrow> attempt list \<Rightarrow>
      ('b, unit) xact" where
  "pause xe wk sid delay tok deadline attempts =
     bindA (pause_for xe delay deadline) (\<lambda>budget.
     seqA (race xe (Sleep (max budget 0)) None tok None)
    (bindA (askA (\<lambda>w. Inr (token_of w tok))) (\<lambda>t.
       if t_cancelled t then
         failA (Aborted (new_abort AB_CANCELLED (''workflow '' @ py_repr (w_name wk) @
           '' was cancelled while waiting to retry step '' @ py_repr sid) sid attempts None))
       else bindA (past_deadline xe deadline) (\<lambda>late.
         if late then
           failA (Aborted (new_abort AB_TIMED_OUT (''workflow '' @ py_repr (w_name wk) @
             '' exceeded its deadline while waiting to retry step '' @ py_repr sid) sid attempts
             None))
         else retA ()))))"

section \<open>One step\<close>

definition base_context :: "'b workflow \<Rightarrow> string \<Rightarrow> int \<Rightarrow> real option \<Rightarrow> step_context" where
  "base_context wk sid n deadline = \<lparr>sc_workflow = w_name wk, sc_version = w_version wk,
     sc_step = sid, sc_attempt = n, sc_deadline = deadline\<rparr>"

definition step_event :: "event_type \<Rightarrow> string \<Rightarrow> int \<Rightarrow> wf_event" where
  "step_event k sid n = (new_event k)\<lparr>xev_step := Some sid, xev_attempt := Some n\<rparr>"

definition new_attempt :: "int \<Rightarrow> step_status \<Rightarrow> real \<Rightarrow> string option \<Rightarrow> attempt" where
  "new_attempt n st dur et = \<lparr>at_number = n, at_status = st, at_duration = dur, at_error_type = et\<rparr>"

text \<open>The attempt itself: its result and how long it took.\<close>

definition run_attempt ::
    "'b exec_env \<Rightarrow> 'b workflow \<Rightarrow> 'b wf_step \<Rightarrow> pyval \<Rightarrow> nat \<Rightarrow> real option \<Rightarrow> int \<Rightarrow>
      ('b, attempt_result \<times> real) xact" where
  "run_attempt xe wk s v tok deadline n =
     bindA (token_child tok) (\<lambda>c.
     seqA (emit xe wk (step_event STEP_STARTED (st_id s) n))
    (bindA (monotonic xe) (\<lambda>began.
     bindA (step_budget xe (st_timeout s) deadline) (\<lambda>budget.
     bindA (race xe (StepCall s v (base_context wk (st_id s) n deadline)) budget c deadline) (\<lambda>res.
     seqA (token_cancel c ''the attempt finished'')
    (bindA (monotonic xe) (\<lambda>now. retA (res, now - began))))))))"

definition during :: "'b workflow \<Rightarrow> string \<Rightarrow> string \<Rightarrow> string" where
  "during wk what sid = ''workflow '' @ py_repr (w_name wk) @ what @ '' during step '' @ py_repr sid"

text \<open>The run's token was cancelled, or its deadline passed.\<close>

definition attempt_cancelled ::
    "'b exec_env \<Rightarrow> 'b workflow \<Rightarrow> string \<Rightarrow> nat \<Rightarrow> int \<Rightarrow> real \<Rightarrow> attempt list \<Rightarrow> ('b, 'a) xact" where
  "attempt_cancelled xe wk sid tok n dur attempts =
     seqA (emit xe wk ((step_event STEP_CANCELLED sid n)\<lparr>xev_duration := Some dur\<rparr>))
    (bindA (askA (\<lambda>w. Inr (token_of w tok))) (\<lambda>t.
     failA (Aborted (new_abort AB_CANCELLED
       (during wk '' was cancelled'' sid @ '' ('' @ the_reason t @ '')'') sid attempts None))))"

definition attempt_out_of_time ::
    "'b exec_env \<Rightarrow> 'b workflow \<Rightarrow> string \<Rightarrow> int \<Rightarrow> real \<Rightarrow> attempt list \<Rightarrow> ('b, 'a) xact" where
  "attempt_out_of_time xe wk sid n dur attempts =
     seqA (emit xe wk ((step_event STEP_TIMED_OUT sid n)
       \<lparr>xev_duration := Some dur, xev_detail := Some ''the workflow deadline was reached''\<rparr>))
    (failA (Aborted (new_abort AB_TIMED_OUT (during wk '' exceeded its deadline'' sid) sid
       (attempts @ [new_attempt n TIMED_OUT dur None]) None)))"

text \<open>The error an attempt ends with, an attempt's own timeout included.\<close>

definition attempt_error ::
    "'b exec_env \<Rightarrow> 'b workflow \<Rightarrow> 'b wf_step \<Rightarrow> int \<Rightarrow> real \<Rightarrow> attempt list \<Rightarrow> attempt_result \<Rightarrow>
      ('b, exn option \<times> attempt list) xact" where
  "attempt_error xe wk s n dur attempts res =
     (if ar_stop res = Some STOP_STEP_TIMEOUT then
        bindA (escape (format_g xe (st_timeout s))) (\<lambda>secs.
        seqA (emit xe wk ((step_event STEP_TIMED_OUT (st_id s) n)
          \<lparr>xev_duration := Some dur, xev_error := Some ''StepTimeoutError''\<rparr>))
       (retA (Some (raised ''StepTimeoutError'' (''step '' @ py_repr (st_id s) @
          '' exceeded its timeout of '' @ secs @ ''s'')),
          attempts @ [new_attempt n TIMED_OUT dur None])))
      else retA (ar_error res, attempts))"

text \<open>A step that raised the framework's own cancellation or deadline error ends the run.\<close>

definition raised_cancelled ::
    "'b exec_env \<Rightarrow> 'b workflow \<Rightarrow> string \<Rightarrow> int \<Rightarrow> real \<Rightarrow> attempt list \<Rightarrow> exn \<Rightarrow> ('b, 'a) xact" where
  "raised_cancelled xe wk sid n dur attempts e =
     seqA (emit xe wk ((step_event STEP_CANCELLED sid n)
       \<lparr>xev_duration := Some dur, xev_error := Some (type_name (class_of e))\<rparr>))
    (failA (Aborted (new_abort AB_CANCELLED (during wk '' was cancelled'' sid @ '': '' @ str_of e)
       sid attempts (Some e))))"

definition raised_timed_out ::
    "'b exec_env \<Rightarrow> 'b workflow \<Rightarrow> string \<Rightarrow> int \<Rightarrow> real \<Rightarrow> attempt list \<Rightarrow> exn \<Rightarrow> ('b, 'a) xact" where
  "raised_timed_out xe wk sid n dur attempts e =
     seqA (emit xe wk ((step_event STEP_TIMED_OUT sid n)
       \<lparr>xev_duration := Some dur, xev_error := Some (type_name (class_of e))\<rparr>))
    (failA (Aborted (new_abort AB_TIMED_OUT
       (during wk '' exceeded its deadline'' sid @ '': '' @ str_of e) sid
       (attempts @ [new_attempt n TIMED_OUT dur (Some (type_name (class_of e)))]) (Some e))))"

definition attempt_succeeded ::
    "'b exec_env \<Rightarrow> 'b workflow \<Rightarrow> string \<Rightarrow> real \<Rightarrow> int \<Rightarrow> real \<Rightarrow> attempt list \<Rightarrow> pyval \<Rightarrow>
      ('b, step_outcome) xact" where
  "attempt_succeeded xe wk sid started n dur attempts v =
     seqA (emit xe wk ((step_event STEP_SUCCEEDED sid n)\<lparr>xev_duration := Some dur\<rparr>))
    (bindA (monotonic xe) (\<lambda>now. retA \<lparr>so_step = sid, so_status = SUCCEEDED,
       so_attempts = attempts @ [new_attempt n SUCCEEDED dur None], so_output = v,
       so_duration = now - started, so_error_type = None\<rparr>))"

text \<open>
  What follows a failed attempt: another one after a pause (the attempts so far are returned), or
  the end of the run.
\<close>

definition should_retry :: "'b wf_step \<Rightarrow> exn \<Rightarrow> retry option" where
  "should_retry s e = (case st_retry s of
     None \<Rightarrow> None | Some r \<Rightarrow> if allows r e then Some r else None)"

definition failure_kind_of :: "bool \<Rightarrow> exn \<Rightarrow> abort_kind" where
  "failure_kind_of retryable e =
     (if retryable then AB_RETRY_EXHAUSTED
      else if instance_of e ''StepTimeoutError'' then AB_STEP_TIMEOUT else AB_FAILED)"

definition draw_delay :: "'b exec_env \<Rightarrow> backoff \<Rightarrow> int \<Rightarrow> ('b, real) xact" where
  "draw_delay xe b n = (\<lambda>w. escape (delay_for b n (xe_random xe (su_draws (xw_env w))))
     (if b_jitter b \<noteq> 0 then on_env (\<lambda>su. su\<lparr>su_draws := Suc (su_draws su)\<rparr>) w else w))"

definition give_up :: "'b wf_step \<Rightarrow> attempt list \<Rightarrow> exn \<Rightarrow> bool \<Rightarrow> abort" where
  "give_up s attempts e retryable = new_abort (failure_kind_of retryable e)
     (''step '' @ py_repr (st_id s) @ '' failed after '' @ dec_nat (length attempts) @
      '' attempt(s) with '' @ type_name (class_of e)) (st_id s) attempts (Some e)"

definition after_failure ::
    "'b exec_env \<Rightarrow> 'b workflow \<Rightarrow> 'b wf_step \<Rightarrow> nat \<Rightarrow> real option \<Rightarrow> int \<Rightarrow> int \<Rightarrow> attempt list \<Rightarrow>
      exn \<Rightarrow> ('b, attempt list) xact" where
  "after_failure xe wk s tok deadline maxn n attempts e =
     (case should_retry s e of
        None \<Rightarrow> failA (Aborted (give_up s attempts e False))
      | Some r \<Rightarrow>
          if n < maxn then
            bindA (draw_delay xe (r_backoff r) n) (\<lambda>delay.
            seqA (emit xe wk ((step_event STEP_RETRIED (st_id s) n)
              \<lparr>xev_detail := Some (''retrying in '' @ xe_general xe delay @ ''s'')\<rparr>))
           (seqA (pause xe wk (st_id s) delay tok deadline attempts)
                 (retA attempts)))
          else failA (Aborted (give_up s attempts e True)))"

text \<open>Everything that follows the race: the outcome, or the attempts to go on with.\<close>

definition attempt_failed ::
    "'b exec_env \<Rightarrow> 'b workflow \<Rightarrow> 'b wf_step \<Rightarrow> int \<Rightarrow> real \<Rightarrow> attempt list \<Rightarrow> attempt_result \<Rightarrow> exn \<Rightarrow>
      ('b, attempt list) xact" where
  "attempt_failed xe wk s n dur attempts res e =
     (if ar_stop res = None then
        seqA (emit xe wk ((step_event STEP_FAILED (st_id s) n)
          \<lparr>xev_duration := Some dur, xev_error := Some (type_name (class_of e))\<rparr>))
       (retA (attempts @ [new_attempt n FAILED dur (Some (type_name (class_of e)))]))
      else retA attempts)"

definition judge_attempt ::
    "'b exec_env \<Rightarrow> 'b workflow \<Rightarrow> 'b wf_step \<Rightarrow> nat \<Rightarrow> real option \<Rightarrow> real \<Rightarrow> int \<Rightarrow> int \<Rightarrow>
      attempt_result \<Rightarrow> real \<Rightarrow> exn option \<times> attempt list \<Rightarrow> ('b, step_outcome + attempt list) xact" where
  "judge_attempt xe wk s tok deadline started maxn n res dur ended =
     (case ended of
        (None, attempts) \<Rightarrow>
          bindA (attempt_succeeded xe wk (st_id s) started n dur attempts (ar_output res))
            (\<lambda>out. retA (Inl out))
      | (Some e, attempts) \<Rightarrow>
          if instance_of e ''WorkflowCancelledError'' then
            raised_cancelled xe wk (st_id s) n dur attempts e
          else if instance_of e ''WorkflowTimeoutError'' then
            raised_timed_out xe wk (st_id s) n dur attempts e
          else
            bindA (attempt_failed xe wk s n dur attempts res e) (\<lambda>attempts.
            bindA (after_failure xe wk s tok deadline maxn n attempts e)
              (\<lambda>attempts. retA (Inr attempts))))"

definition settle_attempt ::
    "'b exec_env \<Rightarrow> 'b workflow \<Rightarrow> 'b wf_step \<Rightarrow> nat \<Rightarrow> real option \<Rightarrow> real \<Rightarrow> int \<Rightarrow> int \<Rightarrow>
      attempt list \<Rightarrow> attempt_result \<times> real \<Rightarrow> ('b, step_outcome + attempt list) xact" where
  "settle_attempt xe wk s tok deadline started maxn n attempts ended =
     (case ended of (res, dur) \<Rightarrow>
        if ar_stop res = Some STOP_CANCELLED then
          attempt_cancelled xe wk (st_id s) tok n dur attempts
        else if ar_stop res = Some STOP_TIMED_OUT then
          attempt_out_of_time xe wk (st_id s) n dur attempts
        else
          bindA (attempt_error xe wk s n dur attempts res)
            (judge_attempt xe wk s tok deadline started maxn n res dur))"

text \<open>\<open>for number in range(1, max_attempts + 1)\<close>, the numbers left as a natural number.\<close>

fun attempt_loop ::
    "'b exec_env \<Rightarrow> 'b workflow \<Rightarrow> 'b wf_step \<Rightarrow> pyval \<Rightarrow> nat \<Rightarrow> real option \<Rightarrow> real \<Rightarrow> int \<Rightarrow>
      nat \<Rightarrow> int \<Rightarrow> attempt list \<Rightarrow> ('b, step_outcome) xact" where
  "attempt_loop xe wk s v tok deadline started maxn 0 n attempts =
     failA (Escaped (raised ''AssertionError''
       ''unreachable: the retry loop always returns or raises''))"
| "attempt_loop xe wk s v tok deadline started maxn (Suc left) n attempts =
     bindA (run_attempt xe wk s v tok deadline n) (\<lambda>ended.
     bindA (settle_attempt xe wk s tok deadline started maxn n attempts ended) (\<lambda>r.
       case r of
         Inl out \<Rightarrow> retA out
       | Inr attempts' \<Rightarrow>
           attempt_loop xe wk s v tok deadline started maxn left (n + 1) attempts'))"

definition max_attempts :: "'b wf_step \<Rightarrow> int" where
  "max_attempts s = (case st_retry s of None \<Rightarrow> 1 | Some r \<Rightarrow> r_max_attempts r)"

definition execute_step ::
    "'b exec_env \<Rightarrow> 'b workflow \<Rightarrow> 'b wf_step \<Rightarrow> pyval \<Rightarrow> nat \<Rightarrow> real option \<Rightarrow>
      ('b, step_outcome) xact" where
  "execute_step xe wk s v tok deadline =
     bindA (monotonic xe) (\<lambda>started.
     attempt_loop xe wk s v tok deadline started (max_attempts s) (nat (max_attempts s)) 1 [])"

section \<open>One run\<close>

text \<open>
  \<open>for edge in workflow.outgoing(step.id)\<close>: lower the target's counter and queue it at zero. A
  target that is not declared would be a missing key; validation excludes it.
\<close>

fun lower_waiters ::
    "'b workflow \<Rightarrow> edge list \<Rightarrow> (string \<Rightarrow> int) \<Rightarrow> exn + ((string \<Rightarrow> int) \<times> 'b wf_step list)" where
  "lower_waiters wk [] d = Inr (d, [])"
| "lower_waiters wk (e # es) d =
     (let t = e_target e; d1 = d(t := d t - 1) in
      if t \<notin> set (step_ids wk) then Inl (raised ''KeyError'' (py_repr t))
      else if d1 t = 0 then
        bindR (step_by_id wk t) (\<lambda>s.
        bindR (lower_waiters wk es d1) (\<lambda>(d2, new). Inr (d2, s # new)))
      else lower_waiters wk es d1)"

definition release_targets :: "'b workflow \<Rightarrow> string \<Rightarrow> ('b, unit) xact" where
  "release_targets wk sid =
     bindA (askA (\<lambda>w. Inr (xw_waiters w))) (\<lambda>d.
     bindA (escape (lower_waiters wk (outgoing wk sid) d)) (\<lambda>(d2, new).
     modA (\<lambda>w. w\<lparr>xw_waiters := d2, xw_ready := xw_ready w @ new\<rparr>)))"

definition edges_taken :: "(string \<times> string) list \<Rightarrow> edge list \<Rightarrow> edge list" where
  "edges_taken taken es = filter (\<lambda>e. (e_source e, e_target e) \<in> set taken) es"

definition msg_merging :: "string \<Rightarrow> edge list \<Rightarrow> string" where
  "msg_merging sid reached = ''step '' @ py_repr sid @ '' was reached by more than one branch ('' @
     join '', '' (sort (map e_source reached)) @
     ''); branches that merge into one step must be mutually exclusive''"

definition branch_output :: "'b workflow \<Rightarrow> string \<Rightarrow> pyval \<Rightarrow> ('b, unit) xact" where
  "branch_output wk sid v =
     (if outgoing wk sid \<noteq> [] then
        bindA (escape (select_edge (outgoing wk sid) v)) (\<lambda>sel. case sel of
          None \<Rightarrow> retA ()
        | Some e \<Rightarrow> modA (\<lambda>w. w\<lparr>xw_taken := (e_source e, e_target e) # xw_taken w\<rparr>))
      else modA (\<lambda>w. w\<lparr>xw_outputs := dict_set (xw_outputs w) sid v\<rparr>))"

definition record_outcome :: "string \<Rightarrow> step_outcome \<Rightarrow> ('b, unit) xact" where
  "record_outcome sid out = modA (\<lambda>w. w\<lparr>xw_outcomes := dict_set (xw_outcomes w) sid out\<rparr>)"

definition record_produced :: "string \<Rightarrow> pyval \<Rightarrow> ('b, unit) xact" where
  "record_produced sid v = modA (\<lambda>w. w\<lparr>xw_produced := dict_set (xw_produced w) sid v\<rparr>)"

text \<open>\<open>produced[reached[0].source]\<close>, or the run's input for an entry step.\<close>

definition step_input :: "pyval \<Rightarrow> edge list \<Rightarrow> ('b, pyval) xact" where
  "step_input inp reached = (case reached of
     [] \<Rightarrow> retA inp
   | e # _ \<Rightarrow> askA (\<lambda>w. case map_of (xw_produced w) (e_source e) of
       Some v \<Rightarrow> Inr v
     | None \<Rightarrow> Inl (Escaped (raised ''KeyError'' (py_repr (e_source e))))))"

definition run_reached ::
    "'b exec_env \<Rightarrow> 'b workflow \<Rightarrow> pyval \<Rightarrow> nat \<Rightarrow> real option \<Rightarrow> 'b wf_step \<Rightarrow> edge list \<Rightarrow>
      ('b, unit) xact" where
  "run_reached xe wk inp tok deadline s reached =
     seqA (require_live xe wk tok deadline (st_id s))
    (bindA (step_input inp reached) (\<lambda>v.
     bindA (execute_step xe wk s v tok deadline) (\<lambda>out.
     seqA (record_outcome (st_id s) out)
    (seqA (record_produced (st_id s) (so_output out))
          (branch_output wk (st_id s) (so_output out))))))"

text \<open>One turn of the loop for the step taken from the queue.\<close>

definition visit ::
    "'b exec_env \<Rightarrow> 'b workflow \<Rightarrow> pyval \<Rightarrow> nat \<Rightarrow> real option \<Rightarrow> 'b wf_step \<Rightarrow> ('b, unit) xact" where
  "visit xe wk inp tok deadline s =
     bindA (askA (\<lambda>w. Inr (edges_taken (xw_taken w) (incoming wk (st_id s))))) (\<lambda>reached.
       if 1 < length reached then
         failA (Aborted (new_abort AB_FAILED (msg_merging (st_id s) reached) (st_id s) [] None))
       else if incoming wk (st_id s) \<noteq> [] \<and> reached = [] then
         seqA (record_outcome (st_id s) (skipped_outcome (st_id s)))
        (seqA (emit xe wk ((new_event STEP_SKIPPED)
           \<lparr>xev_step := Some (st_id s), xev_detail := Some ''no branch reached this step''\<rparr>))
              (release_targets wk (st_id s)))
       else
         seqA (run_reached xe wk inp tok deadline s reached) (release_targets wk (st_id s)))"

text \<open>
  \<open>while ready\<close>: each turn spends one unit of fuel, and \<open>None\<close> stands for not having ended.
\<close>

fun drain ::
    "'b exec_env \<Rightarrow> 'b workflow \<Rightarrow> pyval \<Rightarrow> nat \<Rightarrow> real option \<Rightarrow> nat \<Rightarrow> 'b xworld \<Rightarrow>
      ((halt + unit) \<times> 'b xworld) option" where
  "drain xe wk inp tok deadline 0 w = None"
| "drain xe wk inp tok deadline (Suc fuel) w =
     (case xw_ready w of
        [] \<Rightarrow> Some (Inr (), w)
      | s # rest \<Rightarrow>
          (case visit xe wk inp tok deadline s (w\<lparr>xw_ready := rest\<rparr>) of
             (Inl h, w') \<Rightarrow> Some (Inl h, w')
           | (Inr u, w') \<Rightarrow> drain xe wk inp tok deadline fuel w'))"

text \<open>The error a run raises carries the steps' outcomes so far.\<close>

datatype run_error =
    RunFailed exn "string option" "attempt list" "(string \<times> step_outcome) list"
  | RunRaised exn

definition abort_exn :: "abort \<Rightarrow> exn" where
  "abort_exn a = raised (abort_error (ab_kind a)) (ab_message a)"

definition close_aborted ::
    "'b exec_env \<Rightarrow> 'b workflow \<Rightarrow> abort \<Rightarrow> 'b xworld \<Rightarrow> (run_error + workflow_result) \<times> 'b xworld" where
  "close_aborted xe wk a w =
     (case emit xe wk ((new_event (abort_event (ab_kind a)))\<lparr>xev_step := ab_step a,
             xev_detail := Some (ab_message a), xev_error := Some (error_name a)\<rparr>) w of
        (Inl (Escaped e), w') \<Rightarrow> (Inl (RunRaised e), w')
      | (r, w') \<Rightarrow>
          (Inl (RunFailed (abort_exn a) (ab_step a) (ab_attempts a) (xw_outcomes w')), w'))"

definition close_succeeded ::
    "'b exec_env \<Rightarrow> 'b workflow \<Rightarrow> real \<Rightarrow> ('b, workflow_result) xact" where
  "close_succeeded xe wk started =
     bindA (monotonic xe) (\<lambda>now.
     bindA (askA Inr) (\<lambda>w.
     seqA (emit xe wk ((new_event WORKFLOW_SUCCEEDED)\<lparr>xev_duration := Some (now - started),
             xev_detail := Some (''outputs='' @ dec_nat (length (xw_outputs w)))\<rparr>))
          (retA \<lparr>wr_workflow = w_name wk, wr_version = w_version wk, wr_outputs = xw_outputs w,
             wr_steps = xw_outcomes w, wr_duration = now - started\<rparr>)))"

text \<open>Outside \<open>try ... except _Abort\<close> nothing is caught.\<close>

definition uncaught :: "(halt + 'a) \<times> 'b xworld \<Rightarrow> (run_error + 'a) \<times> 'b xworld" where
  "uncaught r = (case r of
     (Inr x, w) \<Rightarrow> (Inr x, w)
   | (Inl (Escaped e), w) \<Rightarrow> (Inl (RunRaised e), w)
   | (Inl (Aborted a), w) \<Rightarrow> (Inl (RunRaised (raised ''_Abort'' (ab_message a))), w))"

definition start_world :: "'b workflow \<Rightarrow> surroundings \<Rightarrow> 'b xworld" where
  "start_world wk su =
     (let d = (\<lambda>sid. int (length (incoming wk sid))) in
      \<lparr>xw_env = su, xw_sequence = 0, xw_events = [], xw_outcomes = [], xw_outputs = [],
       xw_produced = [], xw_taken = [], xw_waiters = d,
       xw_ready = filter (\<lambda>s. d (st_id s) = 0) (w_steps wk)\<rparr>)"

text \<open>\<open>cancellation if cancellation is not None else CancellationToken()\<close>\<close>

definition run_token :: "nat option \<Rightarrow> ('b, nat) xact" where
  "run_token given_token = (case given_token of
     Some t \<Rightarrow> retA t
   | None \<Rightarrow> (\<lambda>w. (Inr (length (su_tokens (xw_env w))),
                 on_env (su_tokens_update (\<lambda>h. h @ [new_token])) w)))"

definition run_opening ::
    "'b exec_env \<Rightarrow> 'b workflow \<Rightarrow> pyval \<Rightarrow> real option \<Rightarrow> nat option \<Rightarrow>
      ('b, real \<times> real option \<times> nat) xact" where
  "run_opening xe wk inp timeout given_token =
     bindA (escape (validate (xe_classes xe) wk)) (\<lambda>_.
     bindA (escape (require_positive xe timeout ''timeout'')) (\<lambda>_.
     bindA (escape (require_input (xe_classes xe) wk inp)) (\<lambda>_.
     bindA (monotonic xe) (\<lambda>started.
     bindA (run_token given_token) (\<lambda>tok.
     seqA (emit xe wk ((new_event WORKFLOW_STARTED)
             \<lparr>xev_detail := Some (''steps='' @ dec_nat (length (w_steps wk)))\<rparr>))
          (retA (started, map_option (\<lambda>t. started + t) timeout, tok)))))))"

definition run_workflow ::
    "'b exec_env \<Rightarrow> 'b workflow \<Rightarrow> pyval \<Rightarrow> real option \<Rightarrow> nat option \<Rightarrow> surroundings \<Rightarrow>
      ((run_error + workflow_result) \<times> 'b xworld) option" where
  "run_workflow xe wk inp timeout given_token su =
     (case run_opening xe wk inp timeout given_token (start_world wk su) of
        (Inl h, w) \<Rightarrow> Some (uncaught (Inl h, w))
      | (Inr (started, deadline, tok), w) \<Rightarrow>
          (case drain xe wk inp tok deadline (Suc (length (w_steps wk))) w of
             None \<Rightarrow> None
           | Some (Inl (Aborted a), w') \<Rightarrow> Some (close_aborted xe wk a w')
           | Some (Inl (Escaped e), w') \<Rightarrow> Some (Inl (RunRaised e), w')
           | Some (Inr u, w') \<Rightarrow> Some (uncaught (close_succeeded xe wk started w'))))"

section \<open>Direct calls\<close>

text \<open>
  \<open>call\<close>, and \<open>direct\<close> of \<open>execution/direct.py\<close>, which hands its arguments on: the callable's own
  exception comes out unchanged. The name of the callable stands for the callable.
\<close>

definition call_cancelled :: "string \<Rightarrow> string \<Rightarrow> exn" where
  "call_cancelled label what =
     raised ''WorkflowCancelledError'' (''direct call '' @ py_repr label @ what)"

definition conclude_call ::
    "'b exec_env \<Rightarrow> string \<Rightarrow> real option \<Rightarrow> attempt_result \<Rightarrow> exn + pyval" where
  "conclude_call xe label timeout res =
     (if ar_stop res = Some STOP_CANCELLED then Inl (call_cancelled label '' was cancelled'')
      else if ar_stop res \<noteq> None then
        bindR (format_g xe timeout) (\<lambda>secs. Inl (raised ''WorkflowTimeoutError''
          (''direct call '' @ py_repr label @ '' exceeded its timeout of '' @ secs @ ''s'')))
      else case ar_error res of Some e \<Rightarrow> Inl e | None \<Rightarrow> Inr (ar_output res))"

definition call_deadline :: "'b exec_env \<Rightarrow> real option \<Rightarrow> ('b, real option) xact" where
  "call_deadline xe timeout = (case timeout of
     None \<Rightarrow> retA None
   | Some t \<Rightarrow> bindA (monotonic xe) (\<lambda>now. retA (Some (now + t))))"

definition direct_call ::
    "'b exec_env \<Rightarrow> string \<Rightarrow> real option \<Rightarrow> nat option \<Rightarrow> string option \<Rightarrow> ('b, pyval) xact" where
  "direct_call xe func timeout given_token name =
     bindA (escape (require_positive xe timeout ''timeout'')) (\<lambda>_.
     bindA (call_deadline xe timeout) (\<lambda>deadline.
     bindA (run_token given_token) (\<lambda>tok.
     bindA (askA (\<lambda>w. Inr (token_of w tok))) (\<lambda>t.
       if t_cancelled t then
         escape (Inl (call_cancelled (or_text name func) '' was cancelled before it started''))
       else
         bindA (step_budget xe None deadline) (\<lambda>budget.
         bindA (race xe (DirectCall (or_text name func)) budget tok deadline) (\<lambda>res.
         escape (conclude_call xe (or_text name func) timeout res)))))))"

end
