(* ===== verification/Executor_Facts.thy ===== *)
theory Executor_Facts
  imports Executor Scheduler
begin

text \<open>
  Lemmas on the executor: which parts of the world its operations touch, what a step's attempts
  look like when it ends, how the queue loop follows the counting loop of the theory \<open>Kahn\<close>, and
  the invariant of a run in the terms of the durable scheduler.
\<close>

section \<open>What the operations touch\<close>

text \<open>
  A relation between worlds that tolerates any change of the surroundings and any step event is
  kept by everything the executor does for one step.
\<close>

fun workflow_event :: "event_type \<Rightarrow> bool" where
  "workflow_event k \<longleftrightarrow> k \<in> {WORKFLOW_STARTED, WORKFLOW_SUCCEEDED, WORKFLOW_FAILED,
     WORKFLOW_TIMED_OUT, WORKFLOW_CANCELLED}"

locale run_relation = procedure_evolution R for R :: "'b xworld \<Rightarrow> 'b xworld \<Rightarrow> bool" +
  assumes env: "R w (on_env f w)"
    and emission: "\<not> workflow_event (xev_type ev) \<Longrightarrow> holds_along R (emit xe wk ev)"
begin

lemma monotonic: "holds_along R (monotonic xe)"
  by (simp add: holds_along_def monotonic_def env)

lemma escape: "holds_along R (escape r)"
  by (simp add: escape_def liftA)

lemma token_child: "holds_along R (token_child t)"
  by (auto simp: holds_along_def token_child_def env split: prod.splits)

lemma token_cancel: "holds_along R (token_cancel t reason)"
  by (simp add: token_cancel_def modA env)

lemma past_deadline: "holds_along R (past_deadline xe d)"
  by (cases d) (simp_all add: past_deadline_def procedure monotonic)

lemma stop_reason_of: "holds_along R (stop_reason_of xe tok d)"
  by (simp add: stop_reason_of_def procedure past_deadline)

lemma race: "holds_along R (race xe call b tok d)"
proof (rule holds_alongI)
  fix w r w' assume run: "race xe call b tok d w = (r, w')"
  obtain ended su where await: "xe_await xe call (watch_seconds b) tok (xw_env w) = (ended, su)"
    by fastforce
  have start: "R w (w\<lparr>xw_env := su\<rparr>)" using env [of w "\<lambda>_. su"] by (simp add: on_env_def)
  have "holds_along R (bindA (stop_reason_of xe tok d) (\<lambda>why. retA (stopped why)))"
    by (simp add: procedure stop_reason_of)
  then show "R w w'" using run await start
    by (cases ended) (auto simp: race_def retA_def failA_def intro: trans holds_alongD)
qed

lemma pause: "holds_along R (pause xe wk sid delay tok d attempts)"
proof -
  have "holds_along R (pause_for xe delay d)"
    by (cases d) (simp_all add: pause_for_def procedure monotonic)
  then show ?thesis by (simp add: pause_def procedure race past_deadline)
qed

lemma step_budget: "holds_along R (step_budget xe t d)"
  by (cases d) (simp_all add: step_budget_def Let_def procedure monotonic)

lemma require_live: "holds_along R (require_live xe wk tok d sid)"
  by (simp add: require_live_def procedure past_deadline)

lemmas basic = procedure monotonic escape token_child token_cancel past_deadline race pause
  step_budget require_live

lemma run_attempt: "holds_along R (run_attempt xe wk s v tok d n)"
  by (simp add: run_attempt_def step_event_def new_event_def basic emission)

lemma draw_delay: "holds_along R (draw_delay xe b n)"
proof (rule holds_alongI)
  fix w r w' assume "draw_delay xe b n w = (r, w')"
  then show "R w w'"
    by (auto simp: draw_delay_def escape_def liftA_def env refl split: if_splits)
qed

lemma attempt_error: "holds_along R (attempt_error xe wk s n dur attempts res)"
  by (simp add: attempt_error_def step_event_def new_event_def basic emission)

lemma attempt_ends:
  "holds_along R (attempt_cancelled xe wk sid tok n dur attempts)"
  "holds_along R (attempt_out_of_time xe wk sid n dur attempts)"
  "holds_along R (raised_cancelled xe wk sid n dur attempts e)"
  "holds_along R (raised_timed_out xe wk sid n dur attempts e)"
  "holds_along R (attempt_succeeded xe wk sid started n dur attempts v)"
  "holds_along R (attempt_failed xe wk s n dur attempts res e)"
  by (simp_all add: attempt_cancelled_def attempt_out_of_time_def raised_cancelled_def
      raised_timed_out_def attempt_succeeded_def attempt_failed_def step_event_def new_event_def
      basic emission)

lemma after_failure: "holds_along R (after_failure xe wk s tok d maxn n attempts e)"
  by (cases "should_retry s e")
     (simp_all add: after_failure_def step_event_def new_event_def basic draw_delay emission)

lemma judge_attempt: "holds_along R (judge_attempt xe wk s tok d started maxn n res dur x)"
proof (cases x)
  case (Pair err as)
  then show ?thesis
    by (cases err) (simp_all add: judge_attempt_def bindA retA attempt_ends after_failure
        del: workflow_event.simps)
qed

lemma settle_attempt: "holds_along R (settle_attempt xe wk s tok d started maxn n attempts ended)"
  unfolding settle_attempt_def
  by (cases ended) (auto intro!: branchA attempt_ends bindA attempt_error judge_attempt)

lemma attempt_loop: "holds_along R (attempt_loop xe wk s v tok d started maxn left n attempts)"
proof (induction left arbitrary: n attempts)
  case 0
  then show ?case by (simp add: failA)
next
  case (Suc left)
  then show ?case
    by (auto simp: intro!: bindA run_attempt settle_attempt retA split: sum.splits)
qed

lemma execute_step: "holds_along R (execute_step xe wk s v tok d)"
  by (simp add: execute_step_def bindA monotonic attempt_loop)

end

text \<open>A step leaves the local variables of the run alone.\<close>

definition same_locals :: "'b xworld \<Rightarrow> 'b xworld \<Rightarrow> bool" where
  "same_locals w w' \<longleftrightarrow> xw_outcomes w' = xw_outcomes w \<and> xw_outputs w' = xw_outputs w \<and>
     xw_produced w' = xw_produced w \<and> xw_taken w' = xw_taken w \<and>
     xw_waiters w' = xw_waiters w \<and> xw_ready w' = xw_ready w"

lemma emit_cases:
  assumes "emit xe wk ev w = (r, w')"
  obtains (silent) "xe_sink xe = None" "r = Inr ()" "w' = w"
  | (sent) sink full e su where "xe_sink xe = Some sink"
      "full = ev\<lparr>xev_sequence := Suc (xw_sequence w), xev_workflow := w_name wk,
         xev_version := w_version wk, xev_timestamp := xe_clock xe (su_ticks (xw_env w)),
         xev_correlation := xe_correlation xe\<rparr>"
      "w' = w\<lparr>xw_env := su, xw_sequence := Suc (xw_sequence w), xw_events := xw_events w @ [full]\<rparr>"
      "r = (case e of None \<Rightarrow> Inr () | Some x \<Rightarrow> Inl (Escaped x))"
proof (cases "xe_sink xe")
  case None
  then show thesis using assms silent by (simp add: emit_def)
next
  case (Some sink)
  define full where "full = ev\<lparr>xev_sequence := Suc (xw_sequence w), xev_workflow := w_name wk,
         xev_version := w_version wk, xev_timestamp := xe_clock xe (su_ticks (xw_env w)),
         xev_correlation := xe_correlation xe\<rparr>"
  obtain e su where "sink full (tick (xw_env w)) = (e, su)" by fastforce
  then have "w' = w\<lparr>xw_env := su, xw_sequence := Suc (xw_sequence w), xw_events := xw_events w @ [full]\<rparr>"
    and "r = (case e of None \<Rightarrow> Inr () | Some x \<Rightarrow> Inl (Escaped x))"
    using assms Some unfolding full_def
    by (auto simp: emit_def on_env_def Let_def split: option.splits)
  then show thesis using sent Some full_def by blast
qed

interpretation locals: run_relation same_locals
proof unfold_locales
  fix f and w :: "'b xworld" and ev :: wf_event and xe :: "'b exec_env" and wk :: "'b workflow"
  show "same_locals w (on_env f w)" by (simp add: same_locals_def on_env_def)
  show "holds_along same_locals (emit xe wk ev)"
    by (rule holds_alongI, erule emit_cases) (auto simp: same_locals_def)
qed (auto simp: same_locals_def)

text \<open>The events of a run are numbered one after the other.\<close>

definition step_log :: "'b xworld \<Rightarrow> 'b xworld \<Rightarrow> bool" where
  "step_log w w' \<longleftrightarrow> (\<exists>es. xw_events w' = xw_events w @ es \<and>
     map xev_sequence es = [Suc (xw_sequence w)..<Suc (xw_sequence w')] \<and>
     xw_sequence w \<le> xw_sequence w' \<and> (\<forall>e \<in> set es. \<not> workflow_event (xev_type e)))"

lemma step_log_trans: "step_log w u \<Longrightarrow> step_log u v \<Longrightarrow> step_log w v"
proof -
  assume "step_log w u" "step_log u v"
  then obtain es fs where
    es: "xw_events u = xw_events w @ es" "map xev_sequence es = [Suc (xw_sequence w)..<Suc (xw_sequence u)]"
      "xw_sequence w \<le> xw_sequence u" "\<forall>e \<in> set es. \<not> workflow_event (xev_type e)"
    and fs: "xw_events v = xw_events u @ fs" "map xev_sequence fs = [Suc (xw_sequence u)..<Suc (xw_sequence v)]"
      "xw_sequence u \<le> xw_sequence v" "\<forall>e \<in> set fs. \<not> workflow_event (xev_type e)"
    by (auto simp: step_log_def simp del: workflow_event.simps upt_Suc)
  have "[Suc (xw_sequence w)..<Suc (xw_sequence u)] @ [Suc (xw_sequence u)..<Suc (xw_sequence v)] =
      [Suc (xw_sequence w)..<Suc (xw_sequence v)]"
    using es(3) fs(3) by (metis Suc_le_mono le_iff_add upt_add_eq_append)
  then show ?thesis
    unfolding step_log_def using es fs
    by (intro exI [of _ "es @ fs"]) (auto simp del: workflow_event.simps upt_Suc)
qed

interpretation log: run_relation step_log
proof unfold_locales
  fix w u v :: "'b xworld" and f and ev :: wf_event and xe :: "'b exec_env" and wk :: "'b workflow"
  show "step_log w w" by (simp add: step_log_def)
  show "step_log w u \<Longrightarrow> step_log u v \<Longrightarrow> step_log w v" by (rule step_log_trans)
  show "step_log w (on_env f w)" by (simp add: step_log_def on_env_def)
  assume "\<not> workflow_event (xev_type ev)"
  then show "holds_along step_log (emit xe wk ev)"
    by (intro holds_alongI, elim emit_cases) (auto simp: step_log_def)
qed

lemma same_log: "\<lbrakk>xw_events w' = xw_events w; xw_sequence w' = xw_sequence w\<rbrakk> \<Longrightarrow> step_log w w'"
  by (simp add: step_log_def)

lemma visit_log: "holds_along step_log (visit xe wk inp tok d s)"
proof -
  have mods: "holds_along step_log (modA f)"
    if "\<And>w. xw_events (f w) = xw_events w" "\<And>w. xw_sequence (f w) = xw_sequence w"
    for f :: "'b xworld \<Rightarrow> 'b xworld"
    using that by (intro log.modA same_log)
  have rel: "holds_along step_log (release_targets wk sid)" for sid
    by (auto simp: release_targets_def log.basic mods intro!: log.bindA)
  have branch: "holds_along step_log (branch_output wk sid v)" for sid v
    by (auto simp: branch_output_def log.basic mods intro!: log.bindA split: option.splits)
  have inp: "holds_along step_log (step_input inp reached)" for reached
    by (cases reached) (simp_all add: step_input_def log.basic)
  show ?thesis
    by (simp add: visit_def run_reached_def record_outcome_def record_produced_def new_event_def
        log.basic log.emission log.execute_step rel branch inp mods)
qed

lemma drain_log:
  "drain xe wk inp tok d n w = Some (r, w') \<Longrightarrow> step_log w w'"
proof (induction n arbitrary: w)
  case 0
  then show ?case by simp
next
  case (Suc n)
  show ?case
  proof (cases "xw_ready w")
    case Nil
    with Suc.prems show ?thesis by (simp add: same_log)
  next
    case (Cons s rest)
    obtain r1 w1 where v: "visit xe wk inp tok d s (w\<lparr>xw_ready := rest\<rparr>) = (r1, w1)" by fastforce
    have "step_log w (w\<lparr>xw_ready := rest\<rparr>)" by (simp add: same_log)
    then have log1: "step_log w w1" using holds_alongD [OF visit_log v] by (rule step_log_trans)
    show ?thesis
    proof (cases r1)
      case (Inl h)
      with Suc.prems Cons v log1 show ?thesis by simp
    next
      case (Inr u)
      with Suc.prems Cons v have "drain xe wk inp tok d n w1 = Some (r, w')" by simp
      from Suc.IH [OF this] log1 show ?thesis by (metis step_log_trans)
    qed
  qed
qed

section \<open>The attempts of a step\<close>

text \<open>Attempts that did not end the step carry the numbers from one on.\<close>

definition earlier_attempts :: "int \<Rightarrow> attempt list \<Rightarrow> bool" where
  "earlier_attempts n as \<longleftrightarrow> map at_number as = [1..n - 1] \<and>
     (\<forall>a \<in> set as. at_status a \<in> {FAILED, TIMED_OUT})"

definition attempts_of_success :: "int \<Rightarrow> attempt list \<Rightarrow> bool" where
  "attempts_of_success maxn as \<longleftrightarrow> (\<exists>k before dur. 1 \<le> k \<and> k \<le> maxn \<and>
     as = before @ [new_attempt k SUCCEEDED dur None] \<and> earlier_attempts k before)"

lemma earlier_attempts_snoc:
  assumes "earlier_attempts n as" and "1 \<le> n" and "st \<in> {FAILED, TIMED_OUT}"
  shows "earlier_attempts (n + 1) (as @ [new_attempt n st dur et])"
proof -
  have "[1..n] = [1..n - 1] @ [n]" using assms(2) by (rule upto_rec2)
  then show ?thesis using assms(1,3) by (auto simp: earlier_attempts_def new_attempt_def)
qed

lemma ends_never_return:
  "attempt_cancelled xe wk sid tok n dur attempts w \<noteq> (Inr x, w')"
  "attempt_out_of_time xe wk sid n dur attempts w \<noteq> (Inr x, w')"
  "raised_cancelled xe wk sid n dur attempts e w \<noteq> (Inr x, w')"
  "raised_timed_out xe wk sid n dur attempts e w \<noteq> (Inr x, w')"
  by (simp_all add: attempt_cancelled_def attempt_out_of_time_def raised_cancelled_def
      raised_timed_out_def seqA_Inr_iff bindA_Inr_iff failA_def)

lemma after_failure_Inr: "after_failure xe wk s tok d maxn n attempts e w = (Inr as, w') \<Longrightarrow> as = attempts"
  by (auto simp: after_failure_def bindA_Inr_iff seqA_Inr_iff retA_def failA_def
      split: option.splits if_splits)

lemma attempt_failed_Inr:
  "attempt_failed xe wk s n dur attempts res e w = (Inr as, w') \<Longrightarrow>
     as = (if ar_stop res = None
           then attempts @ [new_attempt n FAILED dur (Some (type_name (class_of e)))] else attempts)"
  by (auto simp: attempt_failed_def seqA_Inr_iff retA_def split: if_splits)

lemma attempt_error_Inr:
  "attempt_error xe wk s n dur attempts res w = (Inr (err, as), w') \<Longrightarrow>
     (if ar_stop res = Some STOP_STEP_TIMEOUT
      then (\<exists>m. err = Some (raised ''StepTimeoutError'' m)) \<and> as = attempts @ [new_attempt n TIMED_OUT dur None]
      else err = ar_error res \<and> as = attempts)"
  by (auto simp: attempt_error_def seqA_Inr_iff bindA_Inr_iff retA_def split: if_splits)

lemma attempt_succeeded_Inr:
  "attempt_succeeded xe wk sid started n dur attempts v w = (Inr out, w') \<Longrightarrow>
     so_step out = sid \<and> so_status out = SUCCEEDED \<and> so_output out = v \<and>
     so_attempts out = attempts @ [new_attempt n SUCCEEDED dur None]"
  by (auto simp: attempt_succeeded_def seqA_Inr_iff bindA_Inr_iff retA_def)

text \<open>Only the attempt's own timeout stops an attempt that is judged.\<close>

definition judged :: "attempt_result \<Rightarrow> bool" where
  "judged res \<longleftrightarrow> ar_stop res = None \<or> ar_stop res = Some STOP_STEP_TIMEOUT"

lemma judgedI: "\<lbrakk>ar_stop res \<noteq> Some STOP_CANCELLED; ar_stop res \<noteq> Some STOP_TIMED_OUT\<rbrakk> \<Longrightarrow> judged res"
  unfolding judged_def by (metis option.exhaust stop_reason.exhaust)

definition one_more :: "int \<Rightarrow> attempt list \<Rightarrow> attempt list \<Rightarrow> bool" where
  "one_more n as as' \<longleftrightarrow> (\<exists>st \<in> {FAILED, TIMED_OUT}. \<exists>dur et. as' = as @ [new_attempt n st dur et])"

lemma one_more_failed:
  assumes "judged res" and "attempt_error xe wk s n dur attempts res w = (Inr (Some e, as), u)"
    and "attempt_failed xe wk s n dur as res e v = (Inr as2, v')"
  shows "one_more n attempts as2"
proof -
  have "as2 = attempts @ [new_attempt n FAILED dur (Some (type_name (class_of e)))] \<or>
      as2 = attempts @ [new_attempt n TIMED_OUT dur None]"
    using assms(1) attempt_error_Inr [OF assms(2)] attempt_failed_Inr [OF assms(3)]
    unfolding judged_def by (elim disjE) simp_all
  then show ?thesis unfolding one_more_def by blast
qed

lemma settle_attempt_Inr:
  assumes "settle_attempt xe wk s tok d started maxn n attempts ended w = (Inr r, w')"
  shows "case r of
      Inl out \<Rightarrow> so_step out = st_id s \<and> so_status out = SUCCEEDED \<and>
        (\<exists>dur. so_attempts out = attempts @ [new_attempt n SUCCEEDED dur None])
    | Inr as \<Rightarrow> one_more n attempts as"
proof -
  obtain res dur where ended: "ended = (res, dur)" by (cases ended)
  have stop: "ar_stop res \<noteq> Some STOP_CANCELLED" "ar_stop res \<noteq> Some STOP_TIMED_OUT"
    using assms by (auto simp: settle_attempt_def ended ends_never_return)
  then obtain err as u where err: "attempt_error xe wk s n dur attempts res w = (Inr (err, as), u)"
    and judge: "judge_attempt xe wk s tok d started maxn n res dur (err, as) u = (Inr r, w')"
    using assms by (auto simp: settle_attempt_def ended bindA_Inr_iff)
  show ?thesis
  proof (cases err)
    case None
    then obtain out v where
      "attempt_succeeded xe wk (st_id s) started n dur as (ar_output res) u = (Inr out, v)" "r = Inl out"
      using judge by (auto simp: judge_attempt_def bindA_Inr_iff retA_def)
    note finished = attempt_succeeded_Inr [OF this(1)] this(2)
    then show ?thesis using attempt_error_Inr [OF err] None by (auto split: if_splits)
  next
    case (Some e)
    then obtain as2 as3 v z where
      failed: "attempt_failed xe wk s n dur as res e u = (Inr as2, v)"
      "after_failure xe wk s tok d maxn n as2 e v = (Inr as3, z)" "r = Inr as3"
      using judge
      by (auto simp: judge_attempt_def bindA_Inr_iff retA_def ends_never_return split: if_splits)
    then have "r = Inr as2" by (simp add: after_failure_Inr)
    then show ?thesis using one_more_failed [OF judgedI [OF stop] err [unfolded Some] failed(1)] by simp
  qed
qed

lemma attempt_loop_Inr:
  assumes "attempt_loop xe wk s v tok d started maxn left n attempts w = (Inr out, w')"
    and "earlier_attempts n attempts" and "1 \<le> n"
  shows "so_step out = st_id s \<and> so_status out = SUCCEEDED \<and>
    attempts_of_success (n + int left - 1) (so_attempts out)"
  using assms
proof (induction left arbitrary: n attempts w)
  case 0
  then show ?case by (simp add: failA_def)
next
  case (Suc left)
  then obtain ended u r z where
    settle: "settle_attempt xe wk s tok d started maxn n attempts ended u = (Inr r, z)"
    and rest: "(case r of Inl out \<Rightarrow> retA out | Inr as \<Rightarrow>
       attempt_loop xe wk s v tok d started maxn left (n + 1) as) z = (Inr out, w')"
    by (auto simp: bindA_Inr_iff)
  show ?case
  proof (cases r)
    case (Inl out1)
    then show ?thesis using settle_attempt_Inr [OF settle] rest Suc.prems(2,3)
      by (fastforce simp: attempts_of_success_def retA_def)
  next
    case (Inr as)
    then obtain st dur et where "st \<in> {FAILED, TIMED_OUT}" "as = attempts @ [new_attempt n st dur et]"
      using settle_attempt_Inr [OF settle] by (auto simp: one_more_def)
    then have "earlier_attempts (n + 1) as" using Suc.prems(2,3) by (simp add: earlier_attempts_snoc)
    moreover have "attempt_loop xe wk s v tok d started maxn left (n + 1) as z = (Inr out, w')"
      using rest Inr by simp
    moreover have "1 \<le> n + 1" "n + 1 + int left - 1 = n + int (Suc left) - 1"
      using Suc.prems(3) by simp_all
    ultimately show ?thesis using Suc.IH by metis
  qed
qed

lemma execute_step_Inr:
  assumes "execute_step xe wk s v tok d w = (Inr out, w')"
  shows "so_step out = st_id s \<and> so_status out = SUCCEEDED \<and>
    attempts_of_success (max_attempts s) (so_attempts out)"
proof -
  obtain started u where loop:
    "attempt_loop xe wk s v tok d started (max_attempts s) (nat (max_attempts s)) 1 [] u = (Inr out, w')"
    using assms by (auto simp: execute_step_def bindA_Inr_iff)
  have "0 < max_attempts s"
    using loop by (cases "nat (max_attempts s)") (auto simp: failA_def)
  moreover have "earlier_attempts 1 []" by (simp add: earlier_attempts_def)
  ultimately show ?thesis using attempt_loop_Inr [OF loop] by simp
qed

section \<open>The queue\<close>

text \<open>
  Between two visits the counters, the queue and the steps already resolved are a state of the
  counting loop of the theory \<open>Kahn\<close>.
\<close>

lemma succs_outgoing: "succs (edge_pairs wk) sid = map e_target (outgoing wk sid)"
proof -
  have "succs (map (\<lambda>e. (e_source e, e_target e)) es) sid =
      map e_target (filter (\<lambda>e. e_source e = sid) es)" for es
    by (induction es) (auto simp: succs_def)
  then show ?thesis by (simp add: edge_pairs_def outgoing_def)
qed

lemma indegree_incoming: "indegree (edge_pairs wk) sid = int (length (incoming wk sid))"
proof -
  have "length (filter (\<lambda>p. snd p = sid) (map (\<lambda>e. (e_source e, e_target e)) es)) =
      length (filter (\<lambda>e. e_target e = sid) es)" for es
    by (induction es) auto
  then show ?thesis by (simp add: indegree_def edge_pairs_def incoming_def)
qed

lemma lower_waiters_relax:
  assumes "\<forall>e \<in> set es. e_target e \<in> set (step_ids wk)"
  shows "\<exists>d2 new. lower_waiters wk es d = Inr (d2, new) \<and>
    relax (map e_target es) d = (d2, map st_id new) \<and> set new \<subseteq> set (w_steps wk)"
  using assms
proof (induction es arbitrary: d)
  case Nil
  then show ?case by simp
next
  case (Cons e es)
  obtain d1 where d1: "d1 = d(e_target e := d (e_target e) - 1)" by simp
  obtain d2 new where rest: "lower_waiters wk es d1 = Inr (d2, new)"
    "relax (map e_target es) d1 = (d2, map st_id new)" "set new \<subseteq> set (w_steps wk)"
    using Cons.IH [of d1] Cons.prems by auto
  obtain s where "step_by_id wk (e_target e) = Inr s"
    using step_by_id_total Cons.prems by fastforce
  then show ?case
    using rest Cons.prems step_by_id_Inr [of wk "e_target e" s]
    by (auto simp: Let_def d1 [symmetric])
qed

definition queue_state :: "'b workflow \<Rightarrow> 'b xworld \<Rightarrow> bool" where
  "queue_state wk w \<longleftrightarrow> set (xw_ready w) \<subseteq> set (w_steps wk) \<and>
     kahn_inv (step_ids wk) (edge_pairs wk) (xw_waiters w) (map st_id (xw_ready w))
       (map fst (xw_outcomes w))"

lemma edge_targets:
  assumes "executable wk"
  shows "\<forall>e \<in> set (outgoing wk sid). e_target e \<in> set (step_ids wk)"
    and "(a, b) \<in> set (edge_pairs wk) \<Longrightarrow> b \<in> set (step_ids wk)"
    and "(a, b) \<in> set (edge_pairs wk) \<Longrightarrow> a \<in> set (step_ids wk)"
  using assms by (auto simp: executable_def edges_ok_def edge_pairs_def)

lemma release_targets_Inr:
  assumes exe: "executable wk" and run: "release_targets wk sid w = (r, w')"
  shows "\<exists>d2 new. r = Inr () \<and> relax (succs (edge_pairs wk) sid) (xw_waiters w) = (d2, map st_id new) \<and>
    set new \<subseteq> set (w_steps wk) \<and> w' = w\<lparr>xw_waiters := d2, xw_ready := xw_ready w @ new\<rparr>"
proof -
  obtain d2 new where "lower_waiters wk (outgoing wk sid) (xw_waiters w) = Inr (d2, new)"
    "relax (map e_target (outgoing wk sid)) (xw_waiters w) = (d2, map st_id new)"
    "set new \<subseteq> set (w_steps wk)"
    using lower_waiters_relax edge_targets(1) [OF exe] by blast
  then show ?thesis
    using run by (auto simp: release_targets_def succs_outgoing escape_def procA)
qed

lemma queue_start: "executable wk \<Longrightarrow> queue_state wk (start_world wk su)"
proof -
  assume "executable wk"
  then have dist: "distinct (step_ids wk)" by (simp add: executable_def steps_ok_def)
  have "indegree (edge_pairs wk) = (\<lambda>sid. int (length (incoming wk sid)))"
    by (rule ext) (rule indegree_incoming)
  then show "queue_state wk (start_world wk su)"
    using kahn_inv_start [OF dist, of "edge_pairs wk"]
    by (auto simp: queue_state_def start_world_def step_ids_def Let_def filter_map comp_def)
qed

text \<open>A visit that records the outcome of its step and releases its targets.\<close>

lemma queue_step:
  assumes exe: "executable wk" and q: "queue_state wk w" and ready: "xw_ready w = s # rest"
    and rel: "relax (succs (edge_pairs wk) (st_id s)) (xw_waiters w) = (d2, map st_id new)"
    and new: "set new \<subseteq> set (w_steps wk)"
    and w': "xw_outcomes w' = xw_outcomes w @ [(st_id s, out)]" "xw_waiters w' = d2"
      "xw_ready w' = rest @ new"
  shows "queue_state wk w'"
proof -
  have "kahn_inv (step_ids wk) (edge_pairs wk) (xw_waiters w) (st_id s # map st_id rest)
      (map fst (xw_outcomes w))"
    using q ready by (simp add: queue_state_def)
  from kahn_inv_step [OF this edge_targets(2) [OF exe] rel]
  show ?thesis using q ready new w' by (auto simp: queue_state_def)
qed

lemma queue_head:
  assumes exe: "executable wk" and q: "queue_state wk w" and ready: "xw_ready w = s # rest"
  shows "s \<in> set (w_steps wk)" and "st_id s \<notin> set (map fst (xw_outcomes w))"
    and "\<And>src. (src, st_id s) \<in> set (edge_pairs wk) \<Longrightarrow> src \<in> set (map fst (xw_outcomes w))"
    and "\<And>t. t \<in> set (map fst (xw_outcomes w)) \<Longrightarrow> (st_id s, t) \<notin> set (edge_pairs wk)"
proof -
  note inv = q [unfolded queue_state_def kahn_inv_def ready]
  show "s \<in> set (w_steps wk)" using inv by simp
  show fresh: "st_id s \<notin> set (map fst (xw_outcomes w))" using inv by auto
  have topo: "topo (edge_pairs wk) (map fst (xw_outcomes w))" using inv by simp
  have "xw_waiters w (st_id s) = 0" using inv by auto
  then have zero: "open_in (edge_pairs wk) (set (map fst (xw_outcomes w))) (st_id s) = 0"
    using inv by simp
  then show "\<And>src. (src, st_id s) \<in> set (edge_pairs wk) \<Longrightarrow> src \<in> set (map fst (xw_outcomes w))"
    unfolding open_in_0 by blast
  show "(st_id s, t) \<notin> set (edge_pairs wk)" if "t \<in> set (map fst (xw_outcomes w))" for t
    using topo_closed [OF topo that] fresh by blast
qed

section \<open>One visit\<close>

definition with_branch :: "edge option \<Rightarrow> (string \<times> string) list \<Rightarrow> (string \<times> string) list" where
  "with_branch sel taken = (case sel of
     None \<Rightarrow> taken | Some e \<Rightarrow> (e_source e, e_target e) # taken)"

definition with_output ::
    "'b workflow \<Rightarrow> string \<Rightarrow> pyval \<Rightarrow> (string \<times> pyval) list \<Rightarrow> (string \<times> pyval) list" where
  "with_output wk sid v outs = (if outgoing wk sid = [] then dict_set outs sid v else outs)"

definition ran_to_success :: "'b wf_step \<Rightarrow> step_outcome \<Rightarrow> bool" where
  "ran_to_success s out \<longleftrightarrow> so_step out = st_id s \<and> so_status out = SUCCEEDED \<and>
     attempts_of_success (max_attempts s) (so_attempts out)"

text \<open>What a visit that lets the run go on does to its local variables.\<close>

definition visit_effect :: "'b workflow \<Rightarrow> 'b wf_step \<Rightarrow> step_outcome \<Rightarrow> 'b xworld \<Rightarrow> 'b xworld \<Rightarrow> bool" where
  "visit_effect wk s out w w' \<longleftrightarrow>
     (\<exists>d2 new. relax (succs (edge_pairs wk) (st_id s)) (xw_waiters w) = (d2, map st_id new) \<and>
        set new \<subseteq> set (w_steps wk) \<and> xw_waiters w' = d2 \<and> xw_ready w' = xw_ready w @ new) \<and>
     xw_outcomes w' = dict_set (xw_outcomes w) (st_id s) out \<and>
     (let reached = edges_taken (xw_taken w) (incoming wk (st_id s)) in
      if out = skipped_outcome (st_id s) then
        incoming wk (st_id s) \<noteq> [] \<and> reached = [] \<and> xw_produced w' = xw_produced w \<and>
        xw_taken w' = xw_taken w \<and> xw_outputs w' = xw_outputs w
      else
        ran_to_success s out \<and> length reached \<le> 1 \<and> (incoming wk (st_id s) = [] \<or> reached \<noteq> []) \<and>
        xw_produced w' = dict_set (xw_produced w) (st_id s) (so_output out) \<and>
        (\<exists>sel. select_edge (outgoing wk (st_id s)) (so_output out) = Inr sel \<and>
           xw_taken w' = with_branch sel (xw_taken w)) \<and>
        xw_outputs w' = with_output wk (st_id s) (so_output out) (xw_outputs w))"

lemma not_skipped: "ran_to_success s out \<Longrightarrow> out \<noteq> skipped_outcome sid"
  by (auto simp: ran_to_success_def skipped_outcome_def)

lemma branch_output_Inr:
  assumes "branch_output wk sid v w = (Inr u, w')"
  shows "\<exists>sel. select_edge (outgoing wk sid) v = Inr sel \<and>
    w' = w\<lparr>xw_taken := with_branch sel (xw_taken w),
           xw_outputs := with_output wk sid v (xw_outputs w)\<rparr>"
proof (cases "outgoing wk sid = []")
  case True
  then show ?thesis using assms by (simp add: branch_output_def modA_def with_branch_def with_output_def)
next
  case False
  then obtain sel where "select_edge (outgoing wk sid) v = Inr sel"
    using assms by (auto simp: branch_output_def bindA_Inr_iff escape_def liftA_def split: sum.splits)
  then show ?thesis using assms False
    by (cases sel) (simp_all add: branch_output_def escape_def procA with_branch_def with_output_def)
qed

lemma run_reached_Inr:
  assumes "run_reached xe wk inp tok d s reached w = (Inr u, w')"
  shows "\<exists>out sel. ran_to_success s out \<and>
    xw_waiters w' = xw_waiters w \<and> xw_ready w' = xw_ready w \<and>
    xw_outcomes w' = dict_set (xw_outcomes w) (st_id s) out \<and>
    xw_produced w' = dict_set (xw_produced w) (st_id s) (so_output out) \<and>
    select_edge (outgoing wk (st_id s)) (so_output out) = Inr sel \<and>
    xw_taken w' = with_branch sel (xw_taken w) \<and>
    xw_outputs w' = with_output wk (st_id s) (so_output out) (xw_outputs w)"
proof -
  obtain x w1 v w2 out w3 where live: "require_live xe wk tok d (st_id s) w = (Inr x, w1)"
    and inp: "step_input inp reached w1 = (Inr v, w2)"
    and exec: "execute_step xe wk s v tok d w2 = (Inr out, w3)"
    and rest: "branch_output wk (st_id s) (so_output out) (w3\<lparr>
      xw_outcomes := dict_set (xw_outcomes w3) (st_id s) out,
      xw_produced := dict_set (xw_produced w3) (st_id s) (so_output out)\<rparr>) = (Inr u, w')"
    using assms by (auto simp: run_reached_def seqA_Inr_iff bindA_Inr_iff record_outcome_def
        record_produced_def modA_def)
  have "w2 = w1" using inp by (cases reached) (auto simp: step_input_def retA_def askA_def)
  then have "same_locals w w3"
    using holds_alongD [OF locals.require_live live] holds_alongD [OF locals.execute_step exec]
    by (auto intro: locals.trans)
  moreover obtain sel where "select_edge (outgoing wk (st_id s)) (so_output out) = Inr sel"
    "w' = w3\<lparr>xw_outcomes := dict_set (xw_outcomes w3) (st_id s) out,
      xw_produced := dict_set (xw_produced w3) (st_id s) (so_output out),
      xw_taken := with_branch sel (xw_taken w3),
      xw_outputs := with_output wk (st_id s) (so_output out) (xw_outputs w3)\<rparr>"
    using branch_output_Inr [OF rest] by auto
  moreover have "ran_to_success s out" using execute_step_Inr [OF exec] by (simp add: ran_to_success_def)
  ultimately show ?thesis
    by (intro exI [of _ out] exI [of _ sel]) (simp add: same_locals_def)
qed

lemma visit_Inr:
  assumes exe: "executable wk" and run: "visit xe wk inp tok d s w = (Inr u, w')"
  shows "\<exists>out. visit_effect wk s out w w'"
proof -
  define reached where "reached = edges_taken (xw_taken w) (incoming wk (st_id s))"
  have one: "length reached \<le> 1"
    using run by (auto simp: visit_def bindA_apply askA_apply failA_apply reached_def split: if_splits)
  show ?thesis
  proof (cases "incoming wk (st_id s) \<noteq> [] \<and> reached = []")
    case True
    then obtain x w1 where sent: "emit xe wk ((new_event STEP_SKIPPED)
           \<lparr>xev_step := Some (st_id s), xev_detail := Some ''no branch reached this step''\<rparr>)
         (w\<lparr>xw_outcomes := dict_set (xw_outcomes w) (st_id s) (skipped_outcome (st_id s))\<rparr>) = (Inr x, w1)"
      and rel: "release_targets wk (st_id s) w1 = (Inr u, w')"
      using run one by (auto simp: visit_def bindA_apply askA_apply seqA_Inr_iff record_outcome_def
          modA_apply reached_def)
    have "same_locals (w\<lparr>xw_outcomes := dict_set (xw_outcomes w) (st_id s) (skipped_outcome (st_id s))\<rparr>) w1"
      using sent by (intro holds_alongD [OF locals.emission]) (auto simp: new_event_def)
    then show ?thesis
      using release_targets_Inr [OF exe rel] True
      by (intro exI [of _ "skipped_outcome (st_id s)"])
         (auto simp: visit_effect_def same_locals_def reached_def)
  next
    case False
    then obtain x w1 where ran: "run_reached xe wk inp tok d s reached w = (Inr x, w1)"
      and rel: "release_targets wk (st_id s) w1 = (Inr u, w')"
      using run one by (auto simp: visit_def bindA_apply askA_apply seqA_Inr_iff reached_def)
    obtain out sel where out: "ran_to_success s out"
      "xw_waiters w1 = xw_waiters w" "xw_ready w1 = xw_ready w"
      "xw_outcomes w1 = dict_set (xw_outcomes w) (st_id s) out"
      "xw_produced w1 = dict_set (xw_produced w) (st_id s) (so_output out)"
      "select_edge (outgoing wk (st_id s)) (so_output out) = Inr sel"
      "xw_taken w1 = with_branch sel (xw_taken w)"
      "xw_outputs w1 = with_output wk (st_id s) (so_output out) (xw_outputs w)"
      using run_reached_Inr [OF ran] by blast
    then show ?thesis
      using release_targets_Inr [OF exe rel] False one not_skipped [OF out(1)]
      by (intro exI [of _ out]) (auto simp: visit_effect_def reached_def [symmetric])
  qed
qed

section \<open>What an aborted step reports\<close>

definition aborts_with :: "(abort \<Rightarrow> bool) \<Rightarrow> ('b, 'a) xact \<Rightarrow> bool" where
  "aborts_with P m \<longleftrightarrow> (\<forall>w a w'. m w = (Inl (Aborted a), w') \<longrightarrow> P a)"

lemma aborts_withI: "(\<And>w a w'. m w = (Inl (Aborted a), w') \<Longrightarrow> P a) \<Longrightarrow> aborts_with P m"
  by (simp add: aborts_with_def)

lemma aborts_withD: "aborts_with P m \<Longrightarrow> m w = (Inl (Aborted a), w') \<Longrightarrow> P a"
  by (auto simp: aborts_with_def)

lemma aborts_with_bind:
  "aborts_with P m \<Longrightarrow> (\<And>x w w'. m w = (Inr x, w') \<Longrightarrow> aborts_with P (f x)) \<Longrightarrow> aborts_with P (bindA m f)"
  unfolding aborts_with_def bindA_Inl_iff by blast

lemma aborts_with_seq: "aborts_with P m \<Longrightarrow> aborts_with P n \<Longrightarrow> aborts_with P (seqA m n)"
  unfolding seqA_def by (rule aborts_with_bind)

lemma aborts_with_fail: "P a \<Longrightarrow> aborts_with P (failA (Aborted a))"
  by (simp add: aborts_with_def failA_def)

lemma aborts_with_if: "(b \<Longrightarrow> aborts_with P m) \<Longrightarrow> (\<not> b \<Longrightarrow> aborts_with P n) \<Longrightarrow> aborts_with P (if b then m else n)"
  by simp

lemma never_aborts:
  "aborts_with P (retA x)" "aborts_with P (askA (\<lambda>w. Inr (g w)))" "aborts_with P (monotonic xe)"
  "aborts_with P (escape r)" "aborts_with P (token_child t)" "aborts_with P (token_cancel t why)"
  "aborts_with P (emit xe wk ev)" "aborts_with P (draw_delay xe b n)"
  by (auto simp: aborts_with_def retA_def askA_def monotonic_def escape_def liftA_def token_child_def
      token_cancel_def modA_def draw_delay_def elim!: emit_cases split: sum.splits prod.splits option.splits if_splits)

lemma past_deadline_never: "aborts_with P (past_deadline xe d)"
  by (cases d) (simp_all add: past_deadline_def never_aborts aborts_with_bind)

lemma race_never: "aborts_with P (race xe call b tok d)"
proof (rule aborts_withI)
  fix w a w' assume run: "race xe call b tok d w = (Inl (Aborted a), w')"
  have "aborts_with P (bindA (stop_reason_of xe tok d) (\<lambda>why. retA (stopped why)))"
    unfolding stop_reason_of_def
    by (intro aborts_with_bind aborts_with_if never_aborts past_deadline_never)
  then show "P a" using run
    by (auto simp: race_def retA_def failA_def aborts_with_def split: prod.splits race_end.splits)
qed

lemma run_attempt_never: "aborts_with P (run_attempt xe wk s v tok d n)"
proof -
  have "aborts_with P (step_budget xe t d)" for t
    by (cases d) (simp_all add: step_budget_def Let_def never_aborts aborts_with_bind)
  then show ?thesis unfolding run_attempt_def
    by (intro aborts_with_bind aborts_with_seq never_aborts race_never)
qed

text \<open>An abort names the step and carries attempts numbered from one, at most the allowed ones.\<close>

definition numbered :: "int \<Rightarrow> attempt list \<Rightarrow> bool" where
  "numbered k as \<longleftrightarrow> 0 \<le> k \<and> map at_number as = [1..k]"

definition bounded_abort :: "string \<Rightarrow> int \<Rightarrow> abort \<Rightarrow> bool" where
  "bounded_abort sid maxn a \<longleftrightarrow> ab_step a = Some sid \<and> (\<exists>k \<le> maxn. numbered k (ab_attempts a))"

lemma numbered_snoc: "numbered (n - 1) as \<Longrightarrow> 1 \<le> n \<Longrightarrow> numbered n (as @ [new_attempt n st dur et])"
  by (simp add: numbered_def new_attempt_def upto_rec2)

lemma new_abort_bounded:
  "numbered k as \<Longrightarrow> k \<le> maxn \<Longrightarrow> bounded_abort sid maxn (new_abort kind msg sid as cause)"
  by (auto simp: bounded_abort_def new_abort_def)

lemma pause_aborts:
  assumes "numbered k as" and "k \<le> maxn"
  shows "aborts_with (bounded_abort sid maxn) (pause xe wk sid delay tok d as)"
proof -
  have "aborts_with P (pause_for xe delay d)" for P
    by (cases d) (simp_all add: pause_for_def never_aborts aborts_with_bind)
  then show ?thesis unfolding pause_def
    by (intro aborts_with_bind aborts_with_seq aborts_with_if aborts_with_fail never_aborts
        race_never past_deadline_never new_abort_bounded [OF assms])
qed

lemma after_failure_aborts:
  assumes "numbered k as" and "k \<le> maxn"
  shows "aborts_with (bounded_abort (st_id s) maxn) (after_failure xe wk s tok d maxn n as e)"
proof (cases "should_retry s e")
  case None
  then show ?thesis unfolding after_failure_def give_up_def
    by (simp add: aborts_with_fail new_abort_bounded [OF assms])
next
  case (Some r)
  then show ?thesis unfolding after_failure_def give_up_def Some option.case
    by (intro aborts_with_if aborts_with_bind aborts_with_seq aborts_with_fail never_aborts
        pause_aborts [OF assms] new_abort_bounded [OF assms])
qed

lemma numbered_one_more: "\<lbrakk>numbered (n - 1) as; 1 \<le> n; one_more n as as'\<rbrakk> \<Longrightarrow> numbered n as'"
  by (auto simp: one_more_def numbered_snoc)

lemma step_timeout_bases:
  "fw_bases ''StepTimeoutError'' = [''WorkflowExecutionError'']"
  "fw_bases ''WorkflowExecutionError'' = [''WorkflowError'']"
  "fw_bases ''WorkflowError'' = [''XyberosError'']"
  "fw_bases ''XyberosError'' = [''Exception'']"
  "fw_bases ''Exception'' = [''BaseException'']"
  by (simp_all add: fw_bases_def python_classes_def xyberos_classes_def)

lemma timeout_error_instance:
  "\<not> instance_of (raised ''StepTimeoutError'' m) ''WorkflowCancelledError''"
  "\<not> instance_of (raised ''StepTimeoutError'' m) ''WorkflowTimeoutError''"
  by (simp_all add: instance_of_def fw_ancestors_def fw_up_def step_timeout_bases)

lemma judge_attempt_aborts:
  assumes as: "numbered (n - 1) attempts" and n: "1 \<le> n" "n \<le> maxn" and res: "judged res"
    and err: "attempt_error xe wk s n dur attempts res w = (Inr (err, as2), u)"
  shows "aborts_with (bounded_abort (st_id s) maxn)
    (judge_attempt xe wk s tok d started maxn n res dur (err, as2))"
proof (cases err)
  case None
  then show ?thesis unfolding judge_attempt_def attempt_succeeded_def
    by (simp add: aborts_with_bind aborts_with_seq never_aborts)
next
  case (Some e)
  have failed: "aborts_with P (attempt_failed xe wk s n dur as2 res e)" for P
    unfolding attempt_failed_def by (intro aborts_with_if aborts_with_seq never_aborts)
  have after: "aborts_with (bounded_abort (st_id s) maxn) (bindA (after_failure xe wk s tok d maxn n as3 e)
      (\<lambda>attempts. retA (Inr attempts :: step_outcome + attempt list)))"
    if "attempt_failed xe wk s n dur as2 res e v = (Inr as3, v')" for as3 v v'
  proof -
    have "numbered n as3"
      using numbered_one_more [OF as n(1)] one_more_failed [OF res err [unfolded Some] that] .
    then show ?thesis using n(2) by (intro aborts_with_bind after_failure_aborts never_aborts)
  qed
  have raised: "aborts_with (bounded_abort (st_id s) maxn) (raised_cancelled xe wk (st_id s) n dur attempts e)"
    "aborts_with (bounded_abort (st_id s) maxn) (raised_timed_out xe wk (st_id s) n dur attempts e)"
    unfolding raised_cancelled_def raised_timed_out_def using n
    by (intro aborts_with_seq aborts_with_fail never_aborts new_abort_bounded [OF as] 
        new_abort_bounded [OF numbered_snoc [OF as]]; simp)+
  have "as2 = attempts \<or> (\<exists>m. e = raised ''StepTimeoutError'' m)"
    using attempt_error_Inr [OF err] Some by (auto split: if_splits)
  then show ?thesis unfolding judge_attempt_def Some
    using raised aborts_with_bind [OF failed after] timeout_error_instance by auto
qed

lemma settle_attempt_aborts:
  assumes as: "numbered (n - 1) attempts" and n: "1 \<le> n" "n \<le> maxn"
  shows "aborts_with (bounded_abort (st_id s) maxn)
    (settle_attempt xe wk s tok d started maxn n attempts ended)"
proof -
  obtain res dur where ended: "ended = (res, dur)" by (cases ended)
  have timeout: "aborts_with P (attempt_error xe wk s n dur attempts res)" for P
    unfolding attempt_error_def by (intro aborts_with_if aborts_with_bind aborts_with_seq never_aborts)
  have early: "aborts_with (bounded_abort (st_id s) maxn) (attempt_cancelled xe wk (st_id s) tok n dur attempts)"
    "aborts_with (bounded_abort (st_id s) maxn) (attempt_out_of_time xe wk (st_id s) n dur attempts)"
    unfolding attempt_cancelled_def attempt_out_of_time_def using n
    by (intro aborts_with_bind aborts_with_seq aborts_with_fail never_aborts
        new_abort_bounded [OF as] new_abort_bounded [OF numbered_snoc [OF as]]; simp)+
  show ?thesis unfolding settle_attempt_def ended prod.case
    by (intro aborts_with_if early aborts_with_bind timeout)
       (auto intro: judge_attempt_aborts [OF as n] judgedI)
qed

lemma attempt_loop_aborts:
  assumes "numbered (n - 1) attempts" and "1 \<le> n" and "n + int left - 1 \<le> maxn"
  shows "aborts_with (bounded_abort (st_id s) maxn)
    (attempt_loop xe wk s v tok d started maxn left n attempts)"
  using assms
proof (induction left arbitrary: n attempts)
  case 0
  then show ?case by (simp add: aborts_with_def failA_def)
next
  case (Suc left)
  have more: "aborts_with (bounded_abort (st_id s) maxn) (case r of Inl out \<Rightarrow> retA out | Inr as \<Rightarrow>
      attempt_loop xe wk s v tok d started maxn left (n + 1) as)"
    if "settle_attempt xe wk s tok d started maxn n attempts ended w = (Inr r, w')" for r ended w w'
  proof (cases r)
    case (Inl out)
    then show ?thesis by (simp add: never_aborts)
  next
    case (Inr as)
    then have "numbered n as"
      using settle_attempt_Inr [OF that] numbered_one_more [OF Suc.prems(1,2)] by simp
    then show ?thesis using Suc.IH [of "n + 1" as] Suc.prems Inr by simp
  qed
  have "n \<le> maxn" using Suc.prems(3) by simp
  then show ?case
    using Suc.prems more by (auto intro!: aborts_with_bind run_attempt_never settle_attempt_aborts)
qed

lemma execute_step_aborts:
  "0 \<le> max_attempts s \<Longrightarrow> aborts_with (bounded_abort (st_id s) (max_attempts s)) (execute_step xe wk s v tok d)"
  unfolding execute_step_def
  by (intro aborts_with_bind never_aborts attempt_loop_aborts) (simp_all add: numbered_def)

end
