(* ===== verification/Executor_Invariant.thy ===== *)
theory Executor_Invariant
  imports Executor_Facts
begin

text \<open>
  The invariant of a run, in the terms of the durable scheduler (theory \<open>Scheduler\<close>): the outcomes
  recorded so far are read as the step states and outputs a journal would hold, and every
  decision the executor made is the one the scheduler's rules allow on them. It is kept by every
  turn of the queue loop, which ends with every step resolved.
\<close>

section \<open>Outcomes as a journal would hold them\<close>

definition journal_state :: "step_status \<Rightarrow> step_state" where
  "journal_state st = (if st = SUCCEEDED then S_SUCCEEDED else S_SKIPPED)"

definition states_of :: "(string \<times> step_outcome) list \<Rightarrow> states" where
  "states_of outs = map (\<lambda>(sid, out). (sid, journal_state (so_status out))) outs"

definition outputs_of :: "(string \<times> step_outcome) list \<Rightarrow> outputs" where
  "outputs_of outs =
     map (\<lambda>(sid, out). (sid, so_output out)) (filter (\<lambda>(sid, out). so_status out = SUCCEEDED) outs)"

lemma states_of_Nil [simp]: "states_of [] = []" "outputs_of [] = []"
  by (simp_all add: states_of_def outputs_of_def)

lemma keys_states_of [simp]: "map fst (states_of outs) = map fst outs"
  by (induction outs) (auto simp: states_of_def)

lemma keys_outputs_of: "set (map fst (outputs_of outs)) \<subseteq> set (map fst outs)"
  by (induction outs) (auto simp: outputs_of_def)

lemma map_of_states: "map_of (states_of outs) = map_option (\<lambda>out. journal_state (so_status out)) \<circ> map_of outs"
  by (induction outs) (auto simp: states_of_def fun_eq_iff)

lemma map_of_outputs:
  "distinct (map fst outs) \<Longrightarrow> map_of (outputs_of outs) sid = (case map_of outs sid of
     Some out \<Rightarrow> if so_status out = SUCCEEDED then Some (so_output out) else None | None \<Rightarrow> None)"
proof (induction outs)
  case Nil
  then show ?case by simp
next
  case (Cons p outs)
  obtain s out where p: "p = (s, out)" by (cases p)
  have "map_of outs s = None" using Cons.prems p by (auto simp: map_of_eq_None_iff)
  then show ?case using Cons p by (auto simp: outputs_of_def split: option.splits)
qed

lemma state_of_states:
  "state_of (states_of outs) sid = (case map_of outs sid of
     None \<Rightarrow> S_PENDING | Some out \<Rightarrow> journal_state (so_status out))"
  by (simp add: state_of_def map_of_states split: option.splits)

lemma state_terminal: "step_is_terminal (state_of (states_of outs) sid) \<longleftrightarrow> sid \<in> set (map fst outs)"
proof -
  have "sid \<in> set (map fst outs) \<longleftrightarrow> map_of outs sid \<noteq> None"
    by (simp add: map_of_eq_None_iff)
  then show ?thesis
    by (cases "map_of outs sid")
       (simp_all add: state_of_states step_is_terminal_def journal_state_def terminal_step_states_def)
qed

section \<open>The invariant\<close>

definition decided_by_rules :: "'b workflow \<Rightarrow> states \<Rightarrow> outputs \<Rightarrow> string \<Rightarrow> step_outcome \<Rightarrow> bool" where
  "decided_by_rules wk states outs sid out \<longleftrightarrow>
     (\<exists>s \<in> set (w_steps wk). st_id s = sid \<and>
        (if out = skipped_outcome sid then may_skip wk states outs sid
         else ran_to_success s out \<and> (\<exists>sources v. may_run wk states outs sid sources v)))"

definition run_invariant :: "'b workflow \<Rightarrow> 'b xworld \<Rightarrow> bool" where
  "run_invariant wk w \<longleftrightarrow>
     (let states = states_of (xw_outcomes w); outs = outputs_of (xw_outcomes w) in
      queue_state wk w \<and> xw_produced w = outs \<and>
      xw_outputs w = filter (\<lambda>(sid, v). outgoing wk sid = []) outs \<and>
      (\<forall>sid v. (sid, v) \<in> set outs \<longrightarrow> (\<exists>sel. select_edge (outgoing wk sid) v = Inr sel)) \<and>
      (\<forall>a b. (a, b) \<in> set (xw_taken w) \<longleftrightarrow> branches_to wk states outs a b) \<and>
      (\<forall>sid out. (sid, out) \<in> set (xw_outcomes w) \<longrightarrow> decided_by_rules wk states outs sid out))"

lemma queue_distinct: "queue_state wk w \<Longrightarrow> distinct (map fst (xw_outcomes w))"
  by (simp add: queue_state_def kahn_inv_def)

lemma run_invariant_start:
  assumes "executable wk"
  shows "run_invariant wk (start_world wk su)"
  using queue_start [OF assms]
  by (auto simp: run_invariant_def start_world_def Let_def branches_to_def state_of_def)

section \<open>One more outcome\<close>

text \<open>
  A step that is recorded after all of its sources changes nothing about the steps recorded before
  it: none of them is its target.
\<close>

definition comes_next :: "'b workflow \<Rightarrow> (string \<times> step_outcome) list \<Rightarrow> 'b wf_step \<Rightarrow> bool" where
  "comes_next wk outs s \<longleftrightarrow> s \<in> set (w_steps wk) \<and> st_id s \<notin> set (map fst outs) \<and>
     (\<forall>src. (src, st_id s) \<in> set (edge_pairs wk) \<longrightarrow> src \<in> set (map fst outs)) \<and>
     (\<forall>t. t \<in> set (map fst outs) \<longrightarrow> (st_id s, t) \<notin> set (edge_pairs wk))"

abbreviation later :: "(string \<times> step_outcome) list \<Rightarrow> 'b wf_step \<Rightarrow> step_outcome \<Rightarrow> (string \<times> step_outcome) list" where
  "later outs s out \<equiv> outs @ [(st_id s, out)]"

lemma comes_nextD:
  assumes "comes_next wk outs s"
  shows "s \<in> set (w_steps wk)" and "st_id s \<notin> set (map fst outs)"
    and "(src, st_id s) \<in> set (edge_pairs wk) \<Longrightarrow> src \<in> set (map fst outs)"
    and "t \<in> set (map fst outs) \<Longrightarrow> (st_id s, t) \<notin> set (edge_pairs wk)"
  using assms by (simp_all add: comes_next_def)

lemma fresh_None:
  assumes "comes_next wk outs s"
  shows "map_of outs (st_id s) = None" and "map_of (outputs_of outs) (st_id s) = None"
  using comes_nextD(2) [OF assms] keys_outputs_of [of outs] by (auto simp: map_of_eq_None_iff)

lemma states_later:
  assumes "comes_next wk outs s"
  shows "state_of (states_of (later outs s out)) x =
     (if x = st_id s then journal_state (so_status out) else state_of (states_of outs) x)"
  using fresh_None [OF assms] by (auto simp: state_of_states map_add_def split: option.splits)

lemma outputs_later_eq:
  "outputs_of (later outs s out) = outputs_of outs @
     (if so_status out = SUCCEEDED then [(st_id s, so_output out)] else [])"
  by (simp add: outputs_of_def)

lemma outputs_later:
  assumes "comes_next wk outs s"
  shows "output_of (outputs_of (later outs s out)) x =
     (if x = st_id s then (if so_status out = SUCCEEDED then so_output out else PNone)
      else output_of (outputs_of outs) x)"
  using fresh_None [OF assms] unfolding outputs_later_eq
  by (auto simp: output_of_def map_add_def split: option.splits)

lemma branches_later:
  assumes "comes_next wk outs s"
  shows "branches_to wk (states_of (later outs s out)) (outputs_of (later outs s out)) a b \<longleftrightarrow>
     (if a = st_id s then so_status out = SUCCEEDED \<and>
        (\<exists>e. select_edge (outgoing wk a) (so_output out) = Inr (Some e) \<and> e_target e = b)
      else branches_to wk (states_of outs) (outputs_of outs) a b)"
  by (auto simp: branches_to_def states_later [OF assms] outputs_later [OF assms] journal_state_def)

lemma no_branch_before:
  "comes_next wk outs s \<Longrightarrow> \<not> branches_to wk (states_of outs) (outputs_of outs) (st_id s) b"
  by (simp add: branches_to_def state_of_states fresh_None)

lemma branch_edge:
  "branches_to wk states os a b \<Longrightarrow> (a, b) \<in> set (edge_pairs wk)"
  unfolding branches_to_def edge_pairs_def using select_outgoing by fastforce

lemma branches_unchanged:
  assumes nxt: "comes_next wk outs s" and b: "b \<in> set (map fst outs) \<or> b = st_id s"
  shows "branches_to wk (states_of (later outs s out)) (outputs_of (later outs s out)) a b \<longleftrightarrow>
    branches_to wk (states_of outs) (outputs_of outs) a b"
proof (cases "a = st_id s")
  case True
  have "(st_id s, b) \<notin> set (edge_pairs wk)"
    using b comes_nextD(2,4) [OF nxt] comes_nextD(3) [OF nxt, of "st_id s"] by blast
  then show ?thesis using True branch_edge no_branch_before [OF nxt] by blast
next
  case False
  then show ?thesis by (simp add: branches_later [OF nxt])
qed

lemma resolved_later:
  "sources_resolved wk (states_of outs) sid \<Longrightarrow> sources_resolved wk (states_of (later outs s out)) sid"
  by (auto simp: sources_resolved_def state_terminal simp del: set_map)

lemma resolved_here:
  assumes "comes_next wk outs s"
  shows "sources_resolved wk (states_of (later outs s out)) (st_id s)"
proof (unfold sources_resolved_def, intro ballI impI)
  fix e assume e: "e \<in> set (w_edges wk)" "e_target e = st_id s"
  then have "(e_source e, st_id s) \<in> set (edge_pairs wk)" by (force simp: edge_pairs_def)
  then have "e_source e \<in> set (map fst (later outs s out))" using comes_nextD(3) [OF assms] by simp
  then show "step_is_terminal (state_of (states_of (later outs s out)) (e_source e))"
    unfolding state_terminal .
qed

lemma decided_later:
  assumes nxt: "comes_next wk outs s" and sid: "sid \<in> set (map fst outs)"
    and "decided_by_rules wk (states_of outs) (outputs_of outs) sid o1"
  shows "decided_by_rules wk (states_of (later outs s out)) (outputs_of (later outs s out)) sid o1"
proof -
  have ne: "sid \<noteq> st_id s" using sid comes_nextD(2) [OF nxt] by blast
  have br: "branches_to wk (states_of (later outs s out)) (outputs_of (later outs s out)) a sid \<longleftrightarrow>
      branches_to wk (states_of outs) (outputs_of outs) a sid" for a
    using sid by (simp add: branches_unchanged [OF nxt])
  have run: "\<exists>sources v. may_run wk (states_of (later outs s out)) (outputs_of (later outs s out)) sid sources v"
    if "may_run wk (states_of outs) (outputs_of outs) sid srcs v" for srcs v
  proof -
    have "may_run wk (states_of (later outs s out)) (outputs_of (later outs s out)) sid srcs
        (case srcs of [] \<Rightarrow> v | x # _ \<Rightarrow> output_of (outputs_of (later outs s out)) x)"
      using that ne by (auto simp: may_run_def br states_later [OF nxt] resolved_later)
    then show ?thesis by blast
  qed
  have skip: "may_skip wk (states_of (later outs s out)) (outputs_of (later outs s out)) sid"
    if "may_skip wk (states_of outs) (outputs_of outs) sid"
    using that by (simp add: may_skip_def br resolved_later)
  show ?thesis using assms(3) run skip unfolding decided_by_rules_def by (metis (full_types))
qed

section \<open>The invariant is kept\<close>

lemma run_invariantD:
  assumes "run_invariant wk w"
  shows "queue_state wk w" and "xw_produced w = outputs_of (xw_outcomes w)"
    and "xw_outputs w = filter (\<lambda>(sid, v). outgoing wk sid = []) (outputs_of (xw_outcomes w))"
    and "(sid, v) \<in> set (outputs_of (xw_outcomes w)) \<Longrightarrow>
      \<exists>sel. select_edge (outgoing wk sid) v = Inr sel"
    and "(a, b) \<in> set (xw_taken w) \<longleftrightarrow>
      branches_to wk (states_of (xw_outcomes w)) (outputs_of (xw_outcomes w)) a b"
    and "(sid, out) \<in> set (xw_outcomes w) \<Longrightarrow>
      decided_by_rules wk (states_of (xw_outcomes w)) (outputs_of (xw_outcomes w)) sid out"
  using assms by (auto simp: run_invariant_def Let_def)

lemma head_comes_next:
  assumes "executable wk" and "queue_state wk w" and "xw_ready w = s # rest"
  shows "comes_next wk (xw_outcomes w) s"
  using queue_head [OF assms] by (simp add: comes_next_def)

lemma taken_sources:
  assumes inv: "run_invariant wk w"
  shows "x \<in> set (map e_source (edges_taken (xw_taken w) (incoming wk sid))) \<longleftrightarrow>
    branches_to wk (states_of (xw_outcomes w)) (outputs_of (xw_outcomes w)) x sid"
proof
  assume "x \<in> set (map e_source (edges_taken (xw_taken w) (incoming wk sid)))"
  then have "(x, sid) \<in> set (xw_taken w)" by (auto simp: edges_taken_def)
  then show "branches_to wk (states_of (xw_outcomes w)) (outputs_of (xw_outcomes w)) x sid"
    using run_invariantD(5) [OF inv] by blast
next
  assume b: "branches_to wk (states_of (xw_outcomes w)) (outputs_of (xw_outcomes w)) x sid"
  then have "(x, sid) \<in> set (xw_taken w)" using run_invariantD(5) [OF inv] by blast
  moreover have "(x, sid) \<in> set (edge_pairs wk)" using b by (rule branch_edge)
  then obtain e where "e \<in> set (w_edges wk)" "e_source e = x" "e_target e = sid"
    by (auto simp: edge_pairs_def)
  ultimately show "x \<in> set (map e_source (edges_taken (xw_taken w) (incoming wk sid)))"
    by (force simp: edges_taken_def)
qed

lemma decided_here:
  assumes exe: "executable wk" and inv: "run_invariant wk w"
    and nxt: "comes_next wk (xw_outcomes w) s" and eff: "visit_effect wk s out (w\<lparr>xw_ready := rest\<rparr>) w'"
  shows "decided_by_rules wk (states_of (later (xw_outcomes w) s out))
    (outputs_of (later (xw_outcomes w) s out)) (st_id s) out"
proof -
  define reached where "reached = edges_taken (xw_taken w) (incoming wk (st_id s))"
  have br: "branches_to wk (states_of (later (xw_outcomes w) s out))
      (outputs_of (later (xw_outcomes w) s out)) a (st_id s) \<longleftrightarrow> a \<in> set (map e_source reached)" for a
    using taken_sources [OF inv, of a "st_id s"]
    by (simp add: branches_unchanged [OF nxt] reached_def)
  note res = resolved_here [OF nxt, of out]
  have s: "s \<in> set (w_steps wk)" using nxt by (rule comes_nextD)
  show ?thesis
  proof (cases "out = skipped_outcome (st_id s)")
    case True
    then have "incoming wk (st_id s) \<noteq> []" "reached = []"
      using eff by (auto simp: visit_effect_def Let_def reached_def)
    then have "may_skip wk (states_of (later (xw_outcomes w) s out))
        (outputs_of (later (xw_outcomes w) s out)) (st_id s)"
      using br res by (simp add: may_skip_def)
    then show ?thesis using s True by (auto simp: decided_by_rules_def)
  next
    case False
    then have ran: "ran_to_success s out" and one: "length reached \<le> 1"
      and some: "incoming wk (st_id s) = [] \<or> reached \<noteq> []"
      using eff by (auto simp: visit_effect_def Let_def reached_def)
    have st: "state_of (states_of (later (xw_outcomes w) s out)) (st_id s) = S_SUCCEEDED"
      using ran by (simp add: states_later [OF nxt] ran_to_success_def journal_state_def)
    have "\<exists>sources v. may_run wk (states_of (later (xw_outcomes w) s out))
        (outputs_of (later (xw_outcomes w) s out)) (st_id s) sources v"
    proof (cases "incoming wk (st_id s) = []")
      case True
      then show ?thesis using res st by (auto simp: may_run_def)
    next
      case False
      then obtain e where "reached = [e]" using one some by (cases reached) auto
      then show ?thesis using br res st False by (auto simp: may_run_def)
    qed
    then show ?thesis using s ran False by (auto simp: decided_by_rules_def)
  qed
qed

lemma invariant_step:
  assumes exe: "executable wk" and inv: "run_invariant wk w" and ready: "xw_ready w = s # rest"
    and eff: "visit_effect wk s out (w\<lparr>xw_ready := rest\<rparr>) w'"
  shows "run_invariant wk w' \<and> xw_outcomes w' = later (xw_outcomes w) s out"
proof -
  note q = run_invariantD(1) [OF inv]
  note nxt = head_comes_next [OF exe q ready]
  note fresh = fresh_None [OF nxt]
  have fresh': "st_id s \<notin> set (map fst (outputs_of (xw_outcomes w)))"
    using fresh(2) by (simp add: map_of_eq_None_iff)
  have outs: "xw_outcomes w' = later (xw_outcomes w) s out"
    using eff comes_nextD(2) [OF nxt] by (simp add: visit_effect_def dict_set_new)
  obtain d2 new where rel: "relax (succs (edge_pairs wk) (st_id s)) (xw_waiters w) = (d2, map st_id new)"
    "set new \<subseteq> set (w_steps wk)" "xw_waiters w' = d2" "xw_ready w' = rest @ new"
    using eff by (auto simp: visit_effect_def)
  have queue: "queue_state wk w'"
    using queue_step [OF exe q ready rel(1,2) outs rel(3,4)] .
  have decided: "decided_by_rules wk (states_of (xw_outcomes w')) (outputs_of (xw_outcomes w')) sid o1"
    if "(sid, o1) \<in> set (xw_outcomes w')" for sid o1
  proof (cases "(sid, o1) \<in> set (xw_outcomes w)")
    case True
    then have "sid \<in> set (map fst (xw_outcomes w))" by force
    then show ?thesis unfolding outs using decided_later [OF nxt] run_invariantD(6) [OF inv True] by blast
  next
    case False
    then have "sid = st_id s" "o1 = out" using that outs by auto
    then show ?thesis unfolding outs using decided_here [OF exe inv nxt eff] by simp
  qed
  have locals: "xw_produced w' = outputs_of (xw_outcomes w') \<and>
    xw_outputs w' = filter (\<lambda>(sid, v). outgoing wk sid = []) (outputs_of (xw_outcomes w')) \<and>
    (\<forall>sid v. (sid, v) \<in> set (outputs_of (xw_outcomes w')) \<longrightarrow>
       (\<exists>sel. select_edge (outgoing wk sid) v = Inr sel)) \<and>
    ((a, b) \<in> set (xw_taken w') \<longleftrightarrow>
      branches_to wk (states_of (xw_outcomes w')) (outputs_of (xw_outcomes w')) a b)" for a b
  proof (cases "out = skipped_outcome (st_id s)")
    case True
    then have same: "xw_produced w' = xw_produced w" "xw_taken w' = xw_taken w" "xw_outputs w' = xw_outputs w"
      using eff by (auto simp: visit_effect_def Let_def)
    have "so_status out \<noteq> SUCCEEDED" using True by (simp add: skipped_outcome_def)
    then have "outputs_of (xw_outcomes w') = outputs_of (xw_outcomes w)"
      and "branches_to wk (states_of (xw_outcomes w')) (outputs_of (xw_outcomes w')) a b \<longleftrightarrow>
        branches_to wk (states_of (xw_outcomes w)) (outputs_of (xw_outcomes w)) a b"
      using no_branch_before [OF nxt] unfolding outs branches_later [OF nxt]
      by (auto simp: outputs_later_eq)
    then show ?thesis using run_invariantD(2-5) [OF inv] same by simp
  next
    case False
    then obtain sel where ran: "ran_to_success s out"
      and sel: "select_edge (outgoing wk (st_id s)) (so_output out) = Inr sel"
      and new: "xw_produced w' = dict_set (xw_produced w) (st_id s) (so_output out)"
        "xw_taken w' = with_branch sel (xw_taken w)"
        "xw_outputs w' = with_output wk (st_id s) (so_output out) (xw_outputs w)"
      using eff by (auto simp: visit_effect_def Let_def)
    have succ: "so_status out = SUCCEEDED" using ran by (simp add: ran_to_success_def)
    have "st_id s \<notin> set (map fst (xw_outputs w))"
      using fresh' unfolding run_invariantD(3) [OF inv] by auto
    then have "xw_outputs w' = filter (\<lambda>(sid, v). outgoing wk sid = []) (outputs_of (xw_outcomes w'))"
      using new(3) succ run_invariantD(3) [OF inv]
      by (simp add: outs outputs_later_eq with_output_def dict_set_new)
    moreover have "xw_produced w' = outputs_of (xw_outcomes w')"
      using new(1) succ run_invariantD(2) [OF inv] fresh'
      by (simp add: outs outputs_later_eq dict_set_new)
    moreover have "(a, b) \<in> set (xw_taken w') \<longleftrightarrow>
        branches_to wk (states_of (xw_outcomes w')) (outputs_of (xw_outcomes w')) a b"
    proof -
      have "e_source e = st_id s" if "sel = Some e" for e
        using select_outgoing sel that by blast
      then show ?thesis
        using new(2) sel succ run_invariantD(5) [OF inv, of a b] no_branch_before [OF nxt]
        by (cases sel) (auto simp: outs branches_later [OF nxt] with_branch_def)
    qed
    ultimately show ?thesis
      using sel succ run_invariantD(4) [OF inv] by (auto simp: outs outputs_later_eq)
  qed
  show ?thesis using queue locals decided outs by (simp add: run_invariant_def Let_def)
qed

section \<open>The whole run\<close>

lemma queue_ids:
  assumes "queue_state wk w"
  shows "set (map fst (xw_outcomes w)) \<subseteq> set (step_ids wk)"
proof -
  have "set (map fst (xw_outcomes w) @ map st_id (xw_ready w)) = {t \<in> set (step_ids wk). xw_waiters w t = 0}"
    using assms unfolding queue_state_def kahn_inv_def by blast
  then show ?thesis by (metis (no_types, lifting) Un_upper1 mem_Collect_eq set_append subset_iff)
qed

lemma drain_ends:
  assumes exe: "executable wk" and inv: "run_invariant wk w"
    and fuel: "length (w_steps wk) < n + length (xw_outcomes w)"
  shows "\<exists>r w'. drain xe wk inp tok d n w = Some (r, w') \<and>
    (r = Inr () \<longrightarrow> run_invariant wk w' \<and> xw_ready w' = [])"
  using inv fuel
proof (induction n arbitrary: w)
  case 0
  note q = run_invariantD(1) [OF 0(1)]
  have "set (map fst (xw_outcomes w)) \<subseteq> set (step_ids wk)" using q by (rule queue_ids)
  then have "length (map fst (xw_outcomes w)) \<le> length (step_ids wk)"
    using queue_distinct [OF q] by (metis card_length card_mono distinct_card finite_set le_trans)
  then show ?case using 0(2) by (simp add: step_ids_def)
next
  case (Suc n)
  show ?case
  proof (cases "xw_ready w")
    case Nil
    then show ?thesis using Suc.prems by simp
  next
    case (Cons s rest)
    obtain r1 w1 where v: "visit xe wk inp tok d s (w\<lparr>xw_ready := rest\<rparr>) = (r1, w1)" by fastforce
    show ?thesis
    proof (cases r1)
      case (Inl h)
      then show ?thesis using Cons v by simp
    next
      case (Inr u)
      then obtain out where "visit_effect wk s out (w\<lparr>xw_ready := rest\<rparr>) w1"
        using visit_Inr [OF exe] v by blast
      from invariant_step [OF exe Suc.prems(1) Cons this]
      have "run_invariant wk w1" "length (w_steps wk) < n + length (xw_outcomes w1)"
        using Suc.prems(2) by auto
      from Suc.IH [OF this] show ?thesis using Cons v Inr by simp
    qed
  qed
qed

text \<open>With an empty queue every declared step is resolved, in an order that respects the edges.\<close>

lemma all_resolved:
  assumes exe: "executable wk" and inv: "run_invariant wk w" and empty: "xw_ready w = []"
  shows "set (map fst (xw_outcomes w)) = set (step_ids wk)" and "distinct (map fst (xw_outcomes w))"
    and "topo (edge_pairs wk) (map fst (xw_outcomes w))"
proof -
  note q = run_invariantD(1) [OF inv]
  then have k: "kahn_inv (step_ids wk) (edge_pairs wk) (xw_waiters w) [] (map fst (xw_outcomes w))"
    by (simp add: queue_state_def empty)
  show dist: "distinct (map fst (xw_outcomes w))" using q by (rule queue_distinct)
  show "topo (edge_pairs wk) (map fst (xw_outcomes w))" using k by (simp add: kahn_inv_def)
  have ids: "distinct (step_ids wk)" using exe by (simp add: executable_def steps_ok_def)
  have "set (edge_pairs wk) \<subseteq> set (step_ids wk) \<times> set (step_ids wk)"
    using edge_targets(2,3) [OF exe] by auto
  then have "length (map fst (xw_outcomes w)) = length (step_ids wk)"
    using kahn_complete_iff_acyclic [OF k] exe ids by (simp add: executable_def)
  moreover have "set (map fst (xw_outcomes w)) \<subseteq> set (step_ids wk)"
    using q by (rule queue_ids)
  ultimately show "set (map fst (xw_outcomes w)) = set (step_ids wk)"
    using dist ids by (metis List.finite_set card_subset_eq distinct_card)
qed

text \<open>The opening leaves the local variables of the run as they are set up.\<close>

lemma same_locals_invariant: "same_locals w w' \<Longrightarrow> run_invariant wk w \<Longrightarrow> run_invariant wk w'"
  by (simp add: run_invariant_def queue_state_def same_locals_def Let_def)

lemma run_token_locals: "holds_along same_locals (run_token t)"
  by (cases t) (simp_all add: run_token_def holds_along_def same_locals_def on_env_def retA_def)

lemma emit_locals: "holds_along same_locals (emit xe wk ev)"
  by (rule holds_alongI, erule emit_cases) (auto simp: same_locals_def)

lemma opening_Inr:
  assumes "run_opening xe wk inp timeout t w = (Inr r, w')"
  shows "\<exists>v. validate (xe_classes xe) wk = Inr v" and "same_locals w w'"
proof -
  show "\<exists>v. validate (xe_classes xe) wk = Inr v"
    using assms by (auto simp: run_opening_def bindA_Inr_iff escape_def liftA_def split: sum.splits)
  have "holds_along same_locals (run_opening xe wk inp timeout t)"
    by (simp add: run_opening_def locals.basic run_token_locals emit_locals)
  then show "same_locals w w'" using assms by (rule holds_alongD)
qed

lemma run_ends:
  assumes "memo_ok wk"
  shows "\<exists>r w. run_workflow xe wk inp timeout t su = Some (r, w)"
proof (cases "run_opening xe wk inp timeout t (start_world wk su)")
  case (Pair r w)
  show ?thesis
  proof (cases r)
    case (Inl h)
    then show ?thesis using Pair by (auto simp: run_workflow_def uncaught_def split: halt.splits)
  next
    case (Inr p)
    obtain started d tok where p: "p = (started, d, tok)" by (cases p)
    note o = opening_Inr [OF Pair [unfolded Inr]]
    have exe: "executable wk" using o(1) validate_executable assms by blast
    have "run_invariant wk w"
      using same_locals_invariant [OF o(2)] run_invariant_start [OF exe] .
    then obtain r' w' where "drain xe wk inp tok d (Suc (length (w_steps wk))) w = Some (r', w')"
      using drain_ends [OF exe, of w "Suc (length (w_steps wk))" xe inp tok d]
      by (auto simp del: drain.simps)
    then show ?thesis using Pair Inr p
      by (cases r') (auto simp: run_workflow_def simp del: drain.simps split: halt.splits prod.splits)
  qed
qed

text \<open>A result is what the invariant describes, with every step resolved.\<close>

lemma run_result:
  assumes "memo_ok wk" and "run_workflow xe wk inp timeout t su = Some (Inr r, w)"
  shows "executable wk \<and> (\<exists>v. run_invariant wk v \<and> xw_ready v = [] \<and>
    wr_steps r = xw_outcomes v \<and> wr_outputs r = xw_outputs v)"
proof -
  obtain started d tok w1 where o: "run_opening xe wk inp timeout t (start_world wk su) =
      (Inr (started, d, tok), w1)"
    using assms(2) by (auto simp: run_workflow_def uncaught_def split: prod.splits sum.splits halt.splits)
  note o' = opening_Inr [OF o]
  have exe: "executable wk" using o'(1) validate_executable assms(1) by blast
  have "run_invariant wk w1" using same_locals_invariant [OF o'(2)] run_invariant_start [OF exe] .
  then obtain r' w2 where dr: "drain xe wk inp tok d (Suc (length (w_steps wk))) w1 = Some (r', w2)"
    and fin: "r' = Inr () \<longrightarrow> run_invariant wk w2 \<and> xw_ready w2 = []"
    using drain_ends [OF exe, of w1 "Suc (length (w_steps wk))" xe inp tok d]
    by (auto simp del: drain.simps)
  have "r' = Inr ()"
    using assms(2) o dr by (cases r')
      (auto simp: run_workflow_def close_aborted_def simp del: drain.simps
        split: halt.splits prod.splits sum.splits)
  moreover have "uncaught (close_succeeded xe wk started w2) = (Inr r, w)"
    using assms(2) o dr \<open>r' = Inr ()\<close> by (simp add: run_workflow_def del: drain.simps)
  then have "wr_steps r = xw_outcomes w2 \<and> wr_outputs r = xw_outputs w2"
    by (auto simp: uncaught_def close_succeeded_def bindA_apply seqA_apply askA_def retA_def
        monotonic_def on_env_def split: prod.splits sum.splits halt.splits)
  ultimately show ?thesis using exe fin by blast
qed

section \<open>Agreement with the durable scheduler\<close>

lemma taken_edges_total:
  assumes "\<And>s. s \<in> set ss \<Longrightarrow> state_of states (st_id s) = S_SUCCEEDED \<Longrightarrow>
    \<exists>sel. select_edge (outgoing wk (st_id s)) (output_of outs (st_id s)) = Inr sel"
  shows "\<exists>taken. taken_edges wk states outs ss = Inr taken"
  using assms
proof (induction ss)
  case Nil
  then show ?case by simp
next
  case (Cons s ss)
  then obtain taken where "taken_edges wk states outs ss = Inr taken" by auto
  then show ?case using Cons.prems [of s] by (cases "state_of states (st_id s) = S_SUCCEEDED") auto
qed

lemma plan_all_terminal:
  "(\<And>s. s \<in> set ss \<Longrightarrow> \<not> is_open states s) \<Longrightarrow> \<exists>p. plan_steps wk states outs taken ss False = Inr p \<and>
     p_kind p = COMPLETE \<and> p_outputs p = Some (exit_outputs wk outs)"
  by (induction ss) (auto simp: is_open_def)

lemma distinct_outputs: "distinct (map fst outs) \<Longrightarrow> distinct (map fst (outputs_of outs))"
proof (induction outs)
  case Nil
  then show ?case by simp
next
  case (Cons p outs)
  have "fst p \<notin> set (map fst (outputs_of outs))"
    using Cons.prems keys_outputs_of [of outs] by auto
  moreover have "map fst (outputs_of (p # outs)) =
      (if so_status (snd p) = SUCCEEDED then [fst p] else []) @ map fst (outputs_of outs)"
    by (cases p) (simp add: outputs_of_def)
  ultimately show ?case using Cons by simp
qed

lemma output_of_outputs:
  assumes "distinct (map fst outs)" and "(sid, v) \<in> set (outputs_of outs)"
  shows "output_of (outputs_of outs) sid = v" and "map_of (outputs_of outs) sid = Some v"
proof -
  have "distinct (map fst (outputs_of outs))"
    using assms(1) by (rule distinct_outputs)
  then show "map_of (outputs_of outs) sid = Some v" using assms(2) by (simp add: map_of_is_SomeI)
  then show "output_of (outputs_of outs) sid = v" by (simp add: output_of_def)
qed

lemma exit_outputs_map:
  assumes ids: "\<And>sid. sid \<in> set (map fst outs) \<Longrightarrow> sid \<in> set (step_ids wk)"
    and dist: "distinct (map fst outs)"
  shows "map_of (exit_outputs wk (outputs_of outs)) =
    map_of (filter (\<lambda>(sid, v). outgoing wk sid = []) (outputs_of outs))"
proof
  fix sid
  let ?os = "outputs_of outs"
  have right: "map_of (filter (\<lambda>(sid, v). outgoing wk sid = []) os) sid =
      (if outgoing wk sid = [] then map_of os sid else None)" for os :: outputs
    by (induction os) auto
  have left: "map_of (map (\<lambda>s. (st_id s, f (st_id s))) (filter (\<lambda>s. P (st_id s)) ss)) sid =
      (if sid \<in> st_id ` set ss \<and> P sid then Some (f sid) else None)" for f P and ss :: "'a wf_step list"
    by (induction ss) auto
  have "exit_outputs wk ?os = map (\<lambda>s. (st_id s, output_of ?os (st_id s)))
      (filter (\<lambda>s. outgoing wk (st_id s) = [] \<and> st_id s \<in> set (map fst ?os)) (w_steps wk))"
    by (simp add: exit_outputs_def exits_def)
  then have "map_of (exit_outputs wk ?os) sid =
      (if sid \<in> set (step_ids wk) \<and> sid \<in> set (map fst ?os) \<and> outgoing wk sid = []
       then Some (output_of ?os sid) else None)"
    using left [of "output_of ?os" "\<lambda>i. outgoing wk i = [] \<and> i \<in> set (map fst ?os)" "w_steps wk"]
    by (auto simp: step_ids_def)
  also have "\<dots> = (if outgoing wk sid = [] then map_of ?os sid else None)"
  proof (cases "map_of ?os sid")
    case None
    then have "sid \<notin> set (map fst ?os)" by (simp add: map_of_eq_None_iff)
    then show ?thesis using None by simp
  next
    case (Some v)
    then have "(sid, v) \<in> set ?os" by (rule map_of_SomeD)
    then have "sid \<in> set (map fst ?os)" by force
    moreover from this have "sid \<in> set (step_ids wk)" using ids keys_outputs_of by blast
    ultimately show ?thesis using Some by (simp add: output_of_def)
  qed
  finally show "map_of (exit_outputs wk ?os) sid =
      map_of (filter (\<lambda>(sid, v). outgoing wk sid = []) ?os) sid"
    unfolding right .
qed

lemma scheduler_agrees:
  assumes exe: "executable wk" and inv: "run_invariant wk w" and empty: "xw_ready w = []"
  shows "\<exists>p. plan_next wk (states_of (xw_outcomes w)) (outputs_of (xw_outcomes w)) = Inr p \<and>
    p_kind p = COMPLETE \<and>
    (\<exists>kvs. p_outputs p = Some kvs \<and> map_of kvs = map_of (xw_outputs w))"
proof -
  let ?states = "states_of (xw_outcomes w)" and ?outs = "outputs_of (xw_outcomes w)"
  note all = all_resolved [OF exe inv empty]
  have terminal: "\<not> is_open ?states s" if "s \<in> set (w_steps wk)" for s
  proof -
    have "st_id s \<in> set (step_ids wk)" using that by (simp add: step_ids_def)
    then have "st_id s \<in> set (map fst (xw_outcomes w))" unfolding all(1) .
    then show ?thesis unfolding is_open_def state_terminal by blast
  qed
  have "\<exists>sel. select_edge (outgoing wk (st_id s)) (output_of ?outs (st_id s)) = Inr sel"
    if succ: "state_of ?states (st_id s) = S_SUCCEEDED" for s :: "'a wf_step"
  proof -
    obtain out where "map_of (xw_outcomes w) (st_id s) = Some out" "so_status out = SUCCEEDED"
      using succ by (auto simp: state_of_states journal_state_def split: option.splits if_splits)
    then have "map_of ?outs (st_id s) = Some (so_output out)"
      using all(2) by (simp add: map_of_outputs)
    then have "(st_id s, so_output out) \<in> set ?outs" by (rule map_of_SomeD)
    with output_of_outputs(1) [OF all(2) this] show ?thesis using run_invariantD(4) [OF inv] by simp
  qed
  then obtain taken where taken: "taken_edges wk ?states ?outs (w_steps wk) = Inr taken"
    using taken_edges_total by blast
  obtain p where "plan_steps wk ?states ?outs taken (w_steps wk) False = Inr p" "p_kind p = COMPLETE"
    "p_outputs p = Some (exit_outputs wk ?outs)"
    using plan_all_terminal terminal by blast
  moreover have "map_of (exit_outputs wk ?outs) = map_of (xw_outputs w)"
    unfolding run_invariantD(3) [OF inv] using all(1,2) by (intro exit_outputs_map) simp_all
  ultimately show ?thesis using taken by (simp add: plan_next_def)
qed

end
