(* ===== verification/Executor_Properties.thy ===== *)
theory Executor_Properties
  imports Executor_Invariant Definition_Properties
begin

text \<open>
  What one run of the executor promises: it ends, it resolves every step by the rules of the
  durable scheduler, it bounds the attempts of a step, and it reports itself in numbered events.
\<close>

section \<open>A sample run\<close>

text \<open>
  Steps answer at once with true; the clock counts its readings; the sink accepts every event.
\<close>

definition sample_exec :: "unit exec_env" where
  "sample_exec = \<lparr>xe_classes = classes sample_env, xe_clock = real, xe_random = (\<lambda>_. 0),
     xe_sink = Some (\<lambda>e su. (None, su)),
     xe_await = (\<lambda>call b t su. (case call of StepCall s v sc \<Rightarrow> Finished (PBool True) | _ \<Rightarrow> Finished PNone, su)),
     xe_correlation = None, xe_general = (\<lambda>_. ''1''), xe_repr = (\<lambda>_. ''1.0'')\<rparr>"

definition no_history :: surroundings where
  "no_history = \<lparr>su_ticks = 0, su_draws = 0, su_tokens = []\<rparr>"

lemma sample_memo: "memo_ok sample"
  by (simp add: memo_ok_def sample_def)

section \<open>Ending\<close>

text \<open>
  C16: every run ends. As long as each raced call comes back, the queue loop needs no more turns
  than the definition has steps, and one to find the queue empty.
\<close>
theorem run_always_ends:
  assumes "memo_ok wk"
  shows "\<exists>r w. run_workflow xe wk inp timeout t su = Some (r, w)"
  using assms by (rule run_ends)

theorem run_always_ends_witness:
  "\<exists>r w. run_workflow sample_exec sample PNone (Some 5) None no_history = Some (r, w)"
  using sample_memo by (rule run_always_ends)

section \<open>Deciding\<close>

section \<open>Deciding\<close>

definition sample_ends :: "((run_error + workflow_result) \<times> unit xworld) option" where
  "sample_ends = run_workflow sample_exec sample PNone None None no_history"

lemma sample_result:
  "case sample_ends of
     Some (Inr r, w) \<Rightarrow> map fst (wr_steps r) = [''a'', ''b'', ''c''] \<and>
       wr_outputs r = [(''b'', PBool True)] \<and> length (xw_events w) = 7 \<and>
       map_of (wr_steps r) ''c'' = Some (skipped_outcome ''c'') \<and>
       map_option so_status (map_of (wr_steps r) ''b'') = Some SUCCEEDED
   | _ \<Rightarrow> False"
  by code_simp

lemma sample_run:
  obtains r w where "run_workflow sample_exec sample PNone None None no_history = Some (Inr r, w)"
    and "map fst (wr_steps r) = [''a'', ''b'', ''c'']" and "wr_outputs r = [(''b'', PBool True)]"
    and "map_of (wr_steps r) ''c'' = Some (skipped_outcome ''c'')" and "length (xw_events w) = 7"
proof (cases "run_workflow sample_exec sample PNone None None no_history")
  case None
  then show thesis using sample_result by (simp add: sample_ends_def)
next
  case (Some p)
  obtain a w where p: "p = (a, w)" by (cases p)
  from sample_result Some p obtain r where r: "a = Inr r"
    and facts: "map fst (wr_steps r) = [''a'', ''b'', ''c'']" "wr_outputs r = [(''b'', PBool True)]"
      "map_of (wr_steps r) ''c'' = Some (skipped_outcome ''c'')" "length (xw_events w) = 7"
    by (cases a) (simp_all add: sample_ends_def del: map_of_eq_Some_iff)
  show thesis by (rule that [OF Some [unfolded p r] facts])
qed

text \<open>
  C17: a run that returns a result has resolved every declared step exactly once, in an order that
  puts the source of every edge before its target, and by the scheduler's rules: a step was
  skipped only if it has incoming edges and no source that succeeded branched to it, and it ran
  to success only if it is an entry or exactly one source branched to it.
\<close>
theorem every_step_resolved_by_rules:
  assumes "memo_ok wk" and "run_workflow xe wk inp timeout t su = Some (Inr r, w)"
  shows "set (map fst (wr_steps r)) = set (step_ids wk) \<and> topo (edge_pairs wk) (map fst (wr_steps r)) \<and>
    (\<forall>sid out. (sid, out) \<in> set (wr_steps r) \<longrightarrow>
       decided_by_rules wk (states_of (wr_steps r)) (outputs_of (wr_steps r)) sid out)"
proof -
  obtain v where exe: "executable wk" and v: "run_invariant wk v" "xw_ready v = []"
    "wr_steps r = xw_outcomes v"
    using run_result [OF assms] by blast
  show ?thesis
    unfolding v(3) using all_resolved [OF exe v(1,2)] run_invariantD(6) [OF v(1)] by blast
qed

theorem every_step_resolved_by_rules_witness:
  "\<exists>r w. run_workflow sample_exec sample PNone None None no_history = Some (Inr r, w) \<and>
     decided_by_rules sample (states_of (wr_steps r)) (outputs_of (wr_steps r)) ''c''
       (skipped_outcome ''c'')"
proof (rule sample_run)
  fix r w assume run: "run_workflow sample_exec sample PNone None None no_history = Some (Inr r, w)"
    and c: "map_of (wr_steps r) ''c'' = Some (skipped_outcome ''c'')"
  show ?thesis
    using every_step_resolved_by_rules [OF sample_memo run] run map_of_SomeD [OF c] by blast
qed

text \<open>
  C18: the two engines agree. Where the executor returns a result, the durable scheduler, given
  the steps' outcomes as persisted states and outputs, finds the execution complete, with the
  same outputs.
\<close>
theorem executor_agrees_with_scheduler:
  assumes "memo_ok wk" and "run_workflow xe wk inp timeout t su = Some (Inr r, w)"
  shows "\<exists>p kvs. plan_next wk (states_of (wr_steps r)) (outputs_of (wr_steps r)) = Inr p \<and>
    p_kind p = COMPLETE \<and> p_outputs p = Some kvs \<and> map_of kvs = map_of (wr_outputs r)"
proof -
  obtain v where exe: "executable wk" and v: "run_invariant wk v" "xw_ready v = []"
    "wr_steps r = xw_outcomes v" "wr_outputs r = xw_outputs v"
    using run_result [OF assms] by blast
  show ?thesis unfolding v(3,4) using scheduler_agrees [OF exe v(1,2)] by blast
qed

theorem executor_agrees_with_scheduler_witness:
  "\<exists>(r :: workflow_result) p kvs. plan_next sample (states_of (wr_steps r)) (outputs_of (wr_steps r)) = Inr p \<and>
     map fst (wr_steps r) = [''a'', ''b'', ''c''] \<and> p_kind p = COMPLETE \<and>
     p_outputs p = Some kvs \<and> map_of kvs = map_of [(''b'', PBool True)]"
proof (rule sample_run)
  fix r w assume run: "run_workflow sample_exec sample PNone None None no_history = Some (Inr r, w)"
    and r: "map fst (wr_steps r) = [''a'', ''b'', ''c'']" "wr_outputs r = [(''b'', PBool True)]"
  obtain p kvs where "plan_next sample (states_of (wr_steps r)) (outputs_of (wr_steps r)) = Inr p"
    "p_kind p = COMPLETE" "p_outputs p = Some kvs" "map_of kvs = map_of (wr_outputs r)"
    using executor_agrees_with_scheduler [OF sample_memo run] by blast
  then show ?thesis unfolding r(2) using r(1) by (intro exI conjI)
qed

section \<open>Attempts\<close>

text \<open>
  C19: the attempts of a step are numbered from one and never exceed its retry budget. A step that
  succeeds did so in its last attempt, after attempts that failed or timed out; a step that ends
  the run reports its attempts, at most as many as the budget allows.
\<close>
theorem attempts_within_budget:
  assumes "execute_step xe wk s v tok deadline w = (r, w')" and "0 \<le> max_attempts s"
  shows "case r of
      Inr out \<Rightarrow> so_step out = st_id s \<and> so_status out = SUCCEEDED \<and>
        attempts_of_success (max_attempts s) (so_attempts out)
    | Inl (Aborted a) \<Rightarrow> ab_step a = Some (st_id s) \<and>
        (\<exists>k \<le> max_attempts s. numbered k (ab_attempts a))
    | Inl (Escaped e) \<Rightarrow> True"
proof (cases r)
  case (Inr out)
  then show ?thesis using execute_step_Inr assms(1) by simp
next
  case (Inl h)
  show ?thesis
  proof (cases h)
    case (Aborted a)
    have "bounded_abort (st_id s) (max_attempts s) a"
      using aborts_withD [OF execute_step_aborts [OF assms(2)] assms(1) [unfolded Inl Aborted]] .
    then show ?thesis using Inl Aborted by (simp add: bounded_abort_def)
  next
    case (Escaped e)
    then show ?thesis using Inl by simp
  qed
qed

definition flaky_exec :: "unit exec_env" where
  "flaky_exec = sample_exec\<lparr>xe_await := (\<lambda>call b t su. (case call of
     StepCall s v sc \<Rightarrow> if sc_attempt sc = 1 then FailedWith (raised ''TransientError'' ''x'')
       else Finished (PBool True)
   | _ \<Rightarrow> Finished PNone, su))\<rparr>"

definition patient_step :: "unit wf_step" where
  "patient_step = (sample_step ''a'')\<lparr>st_retry := Some \<lparr>r_max_attempts = 3,
     r_retry_on = [Fw ''TransientError''], r_backoff = default_backoff\<rparr>\<rparr>"

definition one_token :: "unit xworld" where
  "one_token = (start_world sample (no_history\<lparr>su_tokens := [new_token]\<rparr>))"

lemma flaky_result:
  "case fst (execute_step flaky_exec sample patient_step PNone 0 None one_token) of
     Inr out \<Rightarrow> map at_status (so_attempts out) = [FAILED, SUCCEEDED] | _ \<Rightarrow> False"
  by code_simp

theorem attempts_within_budget_witness:
  "\<exists>out. fst (execute_step flaky_exec sample patient_step PNone 0 None one_token) = Inr out \<and>
     attempts_of_success 3 (so_attempts out) \<and> map at_status (so_attempts out) = [FAILED, SUCCEEDED]"
proof -
  obtain r w' where run: "execute_step flaky_exec sample patient_step PNone 0 None one_token = (r, w')"
    by fastforce
  have "max_attempts patient_step = 3" by (simp add: max_attempts_def patient_step_def)
  then show ?thesis
    using attempts_within_budget [OF run] flaky_result run by (auto split: sum.splits)
qed

section \<open>Events\<close>

definition unlogged :: "'b xworld \<Rightarrow> 'b xworld \<Rightarrow> bool" where
  "unlogged w w' \<longleftrightarrow> xw_events w' = xw_events w \<and> xw_sequence w' = xw_sequence w"

interpretation silence: procedure_evolution unlogged
  by unfold_locales (auto simp: unlogged_def)

lemma unlogged_basic:
  "holds_along unlogged (monotonic xe)" "holds_along unlogged (escape r)" "holds_along unlogged (run_token t)"
  by (auto simp: holds_along_def unlogged_def monotonic_def escape_def liftA_def run_token_def
      on_env_def retA_def split: option.splits)

text \<open>One emission with a sink appends one event with the next number.\<close>

lemma emit_appends:
  assumes "xe_sink xe \<noteq> None" and "emit xe wk ev w = (r, w')"
  shows "\<exists>e. xev_type e = xev_type ev \<and> xev_sequence e = Suc (xw_sequence w) \<and>
    xw_events w' = xw_events w @ [e] \<and> xw_sequence w' = Suc (xw_sequence w)"
  using assms(2) assms(1) by (cases rule: emit_cases) auto

lemma opening_events:
  assumes sink: "xe_sink xe \<noteq> None" and run: "run_opening xe wk inp timeout t (start_world wk su) = (Inr r, w)"
  shows "\<exists>e. xw_events w = [e] \<and> xev_type e = WORKFLOW_STARTED \<and> xev_sequence e = 1 \<and> xw_sequence w = 1"
proof -
  let ?ev = "(new_event WORKFLOW_STARTED)\<lparr>xev_detail := Some (''steps='' @ dec_nat (length (w_steps wk)))\<rparr>"
  define before where "before = bindA (escape (validate (xe_classes xe) wk)) (\<lambda>_.
     bindA (escape (require_positive xe timeout ''timeout'')) (\<lambda>_.
     bindA (escape (require_input (xe_classes xe) wk inp)) (\<lambda>_.
     bindA (monotonic xe) (\<lambda>started. bindA (run_token t) (\<lambda>tok. retA (started, tok))))))"
  have quiet: "holds_along unlogged before"
    unfolding before_def by (simp add: silence.procedure unlogged_basic)
  obtain started tok u x v where b: "before (start_world wk su) = (Inr (started, tok), u)"
    and e: "emit xe wk ?ev u = (Inr x, v)" and w: "w = v"
    using run by (auto simp: run_opening_def before_def bindA_Inr_iff seqA_Inr_iff retA_def)
  have "xw_events u = []" "xw_sequence u = 0"
    using holds_alongD [OF quiet b] by (auto simp: unlogged_def start_world_def Let_def)
  then show ?thesis using emit_appends [OF sink e] w by (auto simp: new_event_def)
qed

lemma numbered_log:
  assumes "xw_events u = [e0]" and "xev_sequence e0 = 1" and "xw_sequence u = 1" and "step_log u v"
    and "xw_events w = xw_events v @ [e1]" and "xev_sequence e1 = Suc (xw_sequence v)"
  shows "\<exists>es. xw_events w = e0 # es @ [e1] \<and> (\<forall>e \<in> set es. \<not> workflow_event (xev_type e)) \<and>
    map xev_sequence (xw_events w) = [1..<Suc (length (xw_events w))]"
proof -
  obtain es where es: "xw_events v = [e0] @ es" "map xev_sequence es = [Suc 1..<Suc (xw_sequence v)]"
    "1 \<le> xw_sequence v" "\<forall>e \<in> set es. \<not> workflow_event (xev_type e)"
    using assms(1,3,4) by (auto simp: step_log_def simp del: workflow_event.simps upt_Suc)
  have "length es = xw_sequence v - 1" using arg_cong [OF es(2), of length] by (simp del: upt_Suc)
  moreover have "[1..<Suc (xw_sequence v)] = 1 # [Suc 1..<Suc (xw_sequence v)]"
    using es(3) by (intro upt_conv_Cons) simp
  then have "[1..<Suc (Suc (xw_sequence v))] = (1 # [Suc 1..<Suc (xw_sequence v)]) @ [Suc (xw_sequence v)]"
    using upt_Suc_append [of 1 "Suc (xw_sequence v)"] by (metis le_add1 plus_1_eq_Suc)
  ultimately have "map xev_sequence (e0 # es @ [e1]) = [1..<Suc (length (e0 # es @ [e1]))]"
    using es(2,3) assms(2,6) by (simp del: upt_Suc)
  moreover have "xw_events w = e0 # es @ [e1]" using es(1) assms(5) by simp
  ultimately show ?thesis using es(4) by (intro exI [of _ es]) (simp only: simp_thms)
qed

text \<open>The event that says how a run ended.\<close>

definition closes :: "wf_event \<Rightarrow> run_error + workflow_result \<Rightarrow> bool" where
  "closes e r = (case r of
     Inr _ \<Rightarrow> xev_type e = WORKFLOW_SUCCEEDED
   | Inl (RunFailed x sid as outs) \<Rightarrow>
       (\<exists>k. class_of x = Fw (abort_error k) \<and> xev_type e = abort_event k)
   | Inl (RunRaised x) \<Rightarrow> False)"

lemma closes_type: "xev_type e = xev_type f \<Longrightarrow> closes e r = closes f r"
  unfolding closes_def by (cases r) (auto split: run_error.splits)

lemma close_aborted_event:
  assumes "close_aborted xe wk a v = (r, w)" and "case r of Inl (RunRaised e) \<Rightarrow> False | _ \<Rightarrow> True"
  shows "\<exists>ev x. emit xe wk ev v = (x, w) \<and> closes ev r"
proof -
  define ev where "ev = (new_event (abort_event (ab_kind a)))\<lparr>xev_step := ab_step a,
    xev_detail := Some (ab_message a), xev_error := Some (error_name a)\<rparr>"
  obtain x w1 where e: "emit xe wk ev v = (x, w1)" by fastforce
  have "w1 = w" and "r = Inl (RunFailed (abort_exn a) (ab_step a) (ab_attempts a) (xw_outcomes w1))"
    using assms e unfolding close_aborted_def ev_def by (auto split: sum.splits halt.splits)
  then have "closes ev r" by (auto simp: closes_def abort_exn_def ev_def new_event_def)
  then show ?thesis using e \<open>w1 = w\<close> by blast
qed

lemma close_succeeded_event:
  assumes "uncaught (close_succeeded xe wk started v) = (r, w)"
    and "case r of Inl (RunRaised e) \<Rightarrow> False | _ \<Rightarrow> True"
  shows "\<exists>ev x v1. emit xe wk ev v1 = (x, w) \<and> unlogged v v1 \<and> closes ev r"
proof -
  obtain res where r: "r = Inr res" and c: "close_succeeded xe wk started v = (Inr res, w)"
    using assms by (auto simp: uncaught_def split: prod.splits sum.splits halt.splits)
  then obtain now u ev x where "monotonic xe v = (Inr now, u)" "emit xe wk ev u = (Inr x, w)"
    "xev_type ev = WORKFLOW_SUCCEEDED"
    by (auto simp: close_succeeded_def bindA_Inr_iff seqA_Inr_iff retA_def askA_def new_event_def)
  moreover from this have "closes ev r" "unlogged v u"
    using r holds_alongD [OF unlogged_basic(1)] by (auto simp: closes_def)
  ultimately show ?thesis by blast
qed

text \<open>
  C20: with a sink, a run that ends with a result or with one of the executor's own errors reports
  itself completely: the events are numbered one, two, three and so on, the first says the run
  started, the last how it ended, matching the result or the error's class, and all between are
  about steps.
\<close>
theorem events_numbered_and_complete:
  assumes "xe_sink xe \<noteq> None" and "run_workflow xe wk inp timeout t su = Some (r, w)"
    and "case r of Inl (RunRaised e) \<Rightarrow> False | _ \<Rightarrow> True"
  shows "\<exists>e0 es e1. xw_events w = e0 # es @ [e1] \<and> xev_type e0 = WORKFLOW_STARTED \<and>
    (\<forall>e \<in> set es. \<not> workflow_event (xev_type e)) \<and>
    map xev_sequence (xw_events w) = [1..<Suc (length (xw_events w))] \<and>
    closes e1 r"
proof -
  obtain started d tok u where o: "run_opening xe wk inp timeout t (start_world wk su) =
      (Inr (started, d, tok), u)"
    using assms(2,3) by (auto simp: run_workflow_def uncaught_def split: prod.splits sum.splits halt.splits)
  obtain e0 where e0: "xw_events u = [e0]" "xev_type e0 = WORKFLOW_STARTED" "xev_sequence e0 = 1" "xw_sequence u = 1"
    using opening_events [OF assms(1) o] by blast
  obtain r' v where dr: "drain xe wk inp tok d (Suc (length (w_steps wk))) u = Some (r', v)"
    using assms(2) o by (cases "drain xe wk inp tok d (Suc (length (w_steps wk))) u")
      (auto simp: run_workflow_def simp del: drain.simps)
  have log: "step_log u v" by (rule drain_log [OF dr])
  obtain ev x v1 where e: "emit xe wk ev v1 = (x, w)" and v1: "unlogged v v1"
    and final: "closes ev r"
  proof (cases r')
    case (Inl h)
    then obtain a where "h = Aborted a"
      using assms(2,3) o dr by (cases h) (auto simp: run_workflow_def simp del: drain.simps)
    then have "close_aborted xe wk a v = (r, w)"
      using assms(2) o dr Inl by (simp add: run_workflow_def del: drain.simps)
    then show thesis using that close_aborted_event assms(3) silence.refl by blast
  next
    case (Inr u')
    then have "uncaught (close_succeeded xe wk started v) = (r, w)"
      using assms(2) o dr by (simp add: run_workflow_def del: drain.simps)
    then show thesis using that close_succeeded_event assms(3) by blast
  qed
  obtain e1 where e1: "xev_type e1 = xev_type ev" "xev_sequence e1 = Suc (xw_sequence v)"
    "xw_events w = xw_events v @ [e1]"
    using emit_appends [OF assms(1) e] v1 by (auto simp: unlogged_def)
  show ?thesis
    using numbered_log [OF e0(1,3,4) log e1(3,2)] e0(2) final closes_type [OF e1(1)] by blast
qed

theorem events_numbered_and_complete_witness:
  "\<exists>(w :: unit xworld) e0 es e1.
     xw_events w = e0 # es @ [e1] \<and> length es = 5 \<and> xev_type e1 = WORKFLOW_SUCCEEDED"
proof (rule sample_run)
  fix r w assume run: "run_workflow sample_exec sample PNone None None no_history = Some (Inr r, w)"
    and n: "length (xw_events w) = 7"
  have "xe_sink sample_exec \<noteq> None" by (simp add: sample_exec_def)
  from events_numbered_and_complete [OF this run] obtain e0 es e1
    where "xw_events w = e0 # es @ [e1]" "closes e1 (Inr r :: run_error + workflow_result)" by auto
  moreover from this n have "length es = 5" "xev_type e1 = WORKFLOW_SUCCEEDED" by (auto simp: closes_def)
  ultimately show ?thesis by blast
qed

section \<open>A fault at the deadline\<close>

text \<open>
  a step without a timeout of its own whose attempt is ended by the run's remaining time, by
  a timer that fires when the clock still reads a moment before the deadline, does not end the
  run as timed out: the attempt is taken for one that exceeded its own timeout, and the message
  about that timeout raises \<open>TypeError\<close>, which escapes the run.
\<close>
theorem early_timer_raises_type_error:
  assumes "xe_await xe call (watch_seconds budget) tok (xw_env w) = (StoppedFirst, su)"
    and "\<not> t_cancelled (su_tokens su ! tok)" and "xe_clock xe (su_ticks su) < d"
    and "st_timeout s = None"
  shows "fst (race xe call budget tok (Some d) w) = Inr (stopped STOP_STEP_TIMEOUT) \<and>
    fst (settle_attempt xe wk s rtok (Some d) started maxn n attempts
           (stopped STOP_STEP_TIMEOUT, dur) v) =
      Inl (Escaped (raised ''TypeError'' ''unsupported format string passed to NoneType.__format__''))"
  using assms
  by (simp add: race_def stop_reason_of_def past_deadline_def monotonic_def token_of_def on_env_def
      settle_attempt_def attempt_error_def escape_def format_g_def stopped_def procA)

definition late_exec :: "unit exec_env" where
  "late_exec = sample_exec\<lparr>xe_await := (\<lambda>call b t su. (StoppedFirst, su))\<rparr>"

theorem early_timer_raises_type_error_witness:
  "fst (race late_exec (DirectCall ''f'') (Some 1) 0 (Some 5) one_token) =
     Inr (stopped STOP_STEP_TIMEOUT)"
  using early_timer_raises_type_error [of late_exec "DirectCall ''f''" "Some 1" 0 one_token
      "xw_env one_token" 5 "sample_step ''a''"]
  by (simp add: late_exec_def sample_exec_def one_token_def start_world_def no_history_def Let_def
      new_token_def sample_step_def)

end
