(* ===== verification/Providers.thy ===== *)
theory Providers
  imports Errors
begin

text \<open>
  \<open>runtime/dependencies.py\<close>: the registry of providers, what registering one checks and infers,
  and the validation of the provider graph. What Python's introspection reports of a factory or
  a class (its signature, its hints, its bases) is data of the model.
\<close>

section \<open>Contracts, objects and factories\<close>

text \<open>
  A class: its name, its bases, whether it is a protocol, and whether \<open>issubclass\<close> and
  \<open>isinstance\<close> against it raise TypeError.
\<close>

datatype py_class =
  PyClass (k_name: string) (k_bases: "py_class list") (k_protocol: bool) (k_opaque: bool)

fun subclass_of :: "py_class \<Rightarrow> py_class \<Rightarrow> bool" where
  "subclass_of (PyClass n bs p q) d = (PyClass n bs p q = d \<or> (\<exists>b \<in> set bs. subclass_of b d))"

text \<open>A contract is any value; only a hashable one can be a key.\<close>

datatype contract = ClassKey py_class | ValueKey string nat | UnhashableKey string

fun contract_name :: "contract \<Rightarrow> string" where
  "contract_name (ClassKey k) = k_name k"
| "contract_name (ValueKey n i) = n"
| "contract_name (UnhashableKey n) = n"

definition ensure_hashable :: "contract \<Rightarrow> string \<Rightarrow> exn + unit" where
  "ensure_hashable c description = (case c of
     UnhashableKey n \<Rightarrow> Inl (raised ''RegistrationError'' (description @ '' must be hashable''))
   | _ \<Rightarrow> Inr ())"

definition format_path :: "contract list \<Rightarrow> string" where
  "format_path path = join '' -> '' (map contract_name path)"

text \<open>An instance: what it is, its class, and whether it has callable \<open>aclose\<close> and \<open>close\<close>.\<close>

datatype obj = Obj (o_id: nat) (o_class: py_class) (o_aclose: bool) (o_close: bool)

datatype scope = APP | REQUEST | TRANSIENT

fun scope_value :: "scope \<Rightarrow> string" where
  "scope_value APP = ''app''"
| "scope_value REQUEST = ''request''"
| "scope_value TRANSIENT = ''transient''"

fun scope_rank :: "scope \<Rightarrow> int" where
  "scope_rank APP = 3"
| "scope_rank REQUEST = 2"
| "scope_rank TRANSIENT = 1"

definition parse_scope :: "scope + string \<Rightarrow> exn + scope" where
  "parse_scope value = (case value of
     Inl s \<Rightarrow> Inr s
   | Inr t \<Rightarrow>
       (case find (\<lambda>s. scope_value s = t) [APP, REQUEST, TRANSIENT] of
          Some s \<Rightarrow> Inr s
        | None \<Rightarrow> Inl (raised ''RegistrationError''
            (''unsupported provider scope '' @ py_repr t @ ''; expected one of: '' @
             join '', '' (map scope_value [APP, REQUEST, TRANSIENT])))))"

text \<open>
  The annotation of a parameter: none that matters, or \<open>Annotated\<close> with its type and the
  contracts of the \<open>Inject\<close> markers among its metadata.
\<close>

datatype annotation = Unmarked | Marked contract "contract option list"

record parameter =
  p_name :: string
  p_variadic :: bool
  p_default :: bool
  p_annotation :: annotation

text \<open>
  A callable: its name, the class it is when it is one, its parameters (None when its signature
  or hints cannot be read), the class its return annotation names (None when its own hints cannot
  be read), and what identifies its behaviour.
\<close>

record callable =
  fn_name :: string
  fn_class :: "py_class option"
  fn_parameters :: "parameter list option"
  fn_returns :: "py_class option option"
  fn_id :: nat

datatype factory = Returns obj | Calls callable | NotCallable

datatype close_hook = Hook nat | NotCallableHook

record dependency =
  d_parameter :: string
  d_contract :: contract

record provider =
  pv_contract :: contract
  pv_factory :: factory
  pv_scope :: scope
  pv_dependencies :: "dependency list"
  pv_eager :: bool
  pv_close :: "close_hook option"
  pv_source :: string
  pv_order :: nat

record registry =
  rg_providers :: "(contract \<times> provider) list"
  rg_frozen :: bool
  rg_next_order :: nat

definition empty_registry :: registry where
  "empty_registry = \<lparr>rg_providers = [], rg_frozen = False, rg_next_order = 0\<rparr>"

section \<open>Inferring dependencies\<close>

definition inject_marker :: "annotation \<Rightarrow> exn + contract option option" where
  "inject_marker a = (case a of
     Unmarked \<Rightarrow> Inr None
   | Marked t markers \<Rightarrow>
       if 1 < length markers then Inl (raised ''RegistrationError''
         ''an injected parameter may declare at most one Inject marker'')
       else Inr (case markers of [] \<Rightarrow> None | m # _ \<Rightarrow> Some m))"

definition annotated_type :: "annotation \<Rightarrow> contract option" where
  "annotated_type a = (case a of Unmarked \<Rightarrow> None | Marked t markers \<Rightarrow> Some t)"

text \<open>One turn of the loop over the parameters: the dependency it adds, if any.\<close>

definition dependency_of :: "string \<Rightarrow> parameter \<Rightarrow> exn + dependency list" where
  "dependency_of fname p =
     (if p_name p \<in> {''self'', ''cls''} then Inr []
      else if p_variadic p then Inl (raised ''RegistrationError''
        (''provider factory '' @ fname @ '' cannot declare *args or **kwargs''))
      else bindR (inject_marker (p_annotation p)) (\<lambda>marker. case marker of
        None \<Rightarrow>
          if \<not> p_default p then Inl (raised ''RegistrationError''
            (''required parameter '' @ py_repr (p_name p) @ '' on '' @ fname @
             '' must use Annotated[T, Inject()]''))
          else Inr []
      | Some marked \<Rightarrow>
          (case (case marked of Some c \<Rightarrow> Some c | None \<Rightarrow> annotated_type (p_annotation p)) of
             None \<Rightarrow> Inl (raised ''RegistrationError''
               (''injected parameter '' @ py_repr (p_name p) @ '' on '' @ fname @
                '' needs a type contract''))
           | Some c \<Rightarrow>
               bindR (ensure_hashable c (''dependency for parameter '' @ py_repr (p_name p)))
                 (\<lambda>_. Inr [\<lparr>d_parameter = p_name p, d_contract = c\<rparr>]))))"

fun dependencies_from :: "string \<Rightarrow> parameter list \<Rightarrow> exn + dependency list" where
  "dependencies_from fname [] = Inr []"
| "dependencies_from fname (p # ps) =
     bindR (dependency_of fname p) (\<lambda>ds.
     bindR (dependencies_from fname ps) (\<lambda>rest. Inr (ds @ rest)))"

definition msg_cannot_inspect :: "string \<Rightarrow> exn" where
  "msg_cannot_inspect fname =
     raised ''RegistrationError'' (''cannot inspect provider factory '' @ fname)"

fun dependencies_from_factory :: "factory \<Rightarrow> exn + dependency list" where
  "dependencies_from_factory (Returns obj) = Inr []"
| "dependencies_from_factory NotCallable = Inl (msg_cannot_inspect '''')"
| "dependencies_from_factory (Calls f) = (case fn_parameters f of
     None \<Rightarrow> Inl (msg_cannot_inspect (fn_name f))
   | Some ps \<Rightarrow> dependencies_from (fn_name f) ps)"

definition ensure_assignable :: "py_class \<Rightarrow> py_class \<Rightarrow> string \<Rightarrow> exn + unit" where
  "ensure_assignable candidate k fname =
     (if k_protocol k then Inr ()
      else if k_opaque k then Inr ()
      else refuse_if (\<not> subclass_of candidate k) (raised ''RegistrationError''
        (''provider factory '' @ fname @ '' returns '' @ k_name candidate @
         '', which is not compatible with '' @ k_name k)))"

definition validate_factory_contract :: "contract \<Rightarrow> factory \<Rightarrow> exn + unit" where
  "validate_factory_contract c f = (case (c, f) of
     (ClassKey k, Calls g) \<Rightarrow>
       (case fn_class g of
          Some candidate \<Rightarrow> ensure_assignable candidate k (fn_name g)
        | None \<Rightarrow>
            (case fn_returns g of
               None \<Rightarrow> Inl (msg_cannot_inspect (fn_name g))
             | Some None \<Rightarrow> Inr ()
             | Some (Some candidate) \<Rightarrow> ensure_assignable candidate k (fn_name g)))
   | _ \<Rightarrow> Inr ())"

section \<open>Registering\<close>

record registration =
  ra_contract :: contract
  ra_factory :: "factory option"
  ra_instance :: "obj option"
  ra_scope :: "scope + string"
  ra_eager :: bool
  ra_close :: "close_hook option"
  ra_replace :: bool
  ra_source :: string

definition get_provider :: "registry \<Rightarrow> contract \<Rightarrow> provider option" where
  "get_provider r c = map_of (rg_providers r) c"

definition msg_no_provider :: "contract \<Rightarrow> string" where
  "msg_no_provider c = ''no provider is registered for '' @ contract_name c"

definition require_provider :: "registry \<Rightarrow> contract \<Rightarrow> exn + provider" where
  "require_provider r c = (case get_provider r c of
     Some p \<Rightarrow> Inr p
   | None \<Rightarrow> Inl (dependency_error ''MissingProviderError'' (msg_no_provider c) []))"

definition ensure_mutable :: "registry \<Rightarrow> exn + unit" where
  "ensure_mutable r = refuse_if (rg_frozen r) (raised ''RegistrationError''
     ''provider registrations are frozen after application startup'')"

text \<open>
  Which factory a registration means: the one given, one that returns the instance given, or the
  contract itself when it is a class; \<open>constructor\<close> says what a class is as a callable.
\<close>

definition chosen_factory :: "(py_class \<Rightarrow> callable) \<Rightarrow> registration \<Rightarrow> exn + factory" where
  "chosen_factory constructor a = (case ra_instance a of
     Some i \<Rightarrow> Inr (Returns i)
   | None \<Rightarrow>
       (case ra_factory a of
          Some f \<Rightarrow> Inr f
        | None \<Rightarrow>
            (case ra_contract a of
               ClassKey k \<Rightarrow> Inr (Calls (constructor k))
             | _ \<Rightarrow> Inl (raised ''RegistrationError''
                 (''a factory is required when '' @ contract_name (ra_contract a) @
                  '' is not a class contract'')))))"

definition check_registration :: "registry \<Rightarrow> registration \<Rightarrow> exn + scope" where
  "check_registration r a =
     bindR (ensure_mutable r) (\<lambda>_.
     bindR (ensure_hashable (ra_contract a) ''provider contract'') (\<lambda>_.
     bindR (parse_scope (ra_scope a)) (\<lambda>scope.
     bindR (refuse_if (ra_eager a \<and> scope \<noteq> APP) (raised ''RegistrationError''
       ''only app-scoped providers may be eager'')) (\<lambda>_.
     bindR (refuse_if (ra_close a = Some NotCallableHook) (raised ''RegistrationError''
       ''provider close hook must be callable'')) (\<lambda>_.
     bindR (refuse_if (get_provider r (ra_contract a) \<noteq> None \<and> \<not> ra_replace a)
       (raised ''RegistrationError''
         (''a provider is already registered for '' @ contract_name (ra_contract a) @
          ''; use an explicit replacement for tests or configuration''))) (\<lambda>_.
     bindR (refuse_if (ra_instance a \<noteq> None \<and> ra_factory a \<noteq> None) (raised ''RegistrationError''
       ''provide either a factory or an instance, not both'')) (\<lambda>_. Inr scope)))))))"

definition register ::
    "(py_class \<Rightarrow> callable) \<Rightarrow> registry \<Rightarrow> registration \<Rightarrow> exn + (provider \<times> registry)" where
  "register constructor r a =
     bindR (check_registration r a) (\<lambda>scope.
     bindR (chosen_factory constructor a) (\<lambda>factory.
     bindR (refuse_if (factory = NotCallable) (raised ''RegistrationError''
       ''provider factory must be callable'')) (\<lambda>_.
     bindR (dependencies_from_factory factory) (\<lambda>dependencies.
     bindR (if ra_instance a = None then validate_factory_contract (ra_contract a) factory
            else Inr ()) (\<lambda>_.
       let p = \<lparr>pv_contract = ra_contract a, pv_factory = factory, pv_scope = scope,
                pv_dependencies = dependencies, pv_eager = ra_eager a, pv_close = ra_close a,
                pv_source = ra_source a, pv_order = rg_next_order r\<rparr>
       in Inr (p, r\<lparr>rg_providers := dict_set (rg_providers r) (ra_contract a) p,
                    rg_next_order := rg_next_order r + 1\<rparr>))))))"

definition providers_of :: "registry \<Rightarrow> provider list" where
  "providers_of r = map snd (rg_providers r)"

definition freeze :: "registry \<Rightarrow> registry" where
  "freeze r = r\<lparr>rg_frozen := True\<rparr>"

definition clone_registry :: "registry \<Rightarrow> registry" where
  "clone_registry r = empty_registry\<lparr>rg_providers := rg_providers r, rg_next_order := rg_next_order r\<rparr>"

section \<open>Validating the graph\<close>

definition cycle_error :: "contract list \<Rightarrow> contract \<Rightarrow> exn" where
  "cycle_error active c =
     (let cycle = dropWhile (\<lambda>x. x \<noteq> c) active @ [c]
      in dependency_error ''DependencyCycleError''
           (''dependency cycle detected: '' @ format_path cycle) (map contract_name cycle))"

definition missing_error :: "contract list \<Rightarrow> contract \<Rightarrow> exn" where
  "missing_error active c = dependency_error ''MissingProviderError''
     (msg_no_provider c @ ''; required by '' @ format_path active)
     (map contract_name (active @ [c]))"

definition scope_error :: "contract list \<Rightarrow> provider \<Rightarrow> provider \<Rightarrow> contract \<Rightarrow> exn" where
  "scope_error active p q c = dependency_error ''ScopeViolationError''
     (scope_value (pv_scope p) @ ''-scoped '' @ contract_name (pv_contract p) @
      '' cannot depend on shorter-lived '' @ scope_value (pv_scope q) @ ''-scoped '' @
      contract_name c)
     (map contract_name (active @ [c]))"

text \<open>
  The two loops of \<open>validate\<close>: \<open>visit\<close> with the stack \<open>active\<close> of contracts being visited, and
  the loop over one provider's dependencies. They thread the contracts visited so far and the
  providers ordered so far. A contract on the stack raises, so the stack never holds a contract
  twice and the recursion ends.
\<close>

type_synonym visit_state = "contract list \<times> provider list"

lemma get_provider_in_keys: "get_provider r c = Some p \<Longrightarrow> c \<in> fst ` set (rg_providers r)"
  by (force simp: get_provider_def dest: map_of_SomeD)

lemma stack_grows:
  assumes "get_provider r c = Some p" and "c \<notin> set active"
  shows "card (fst ` set (rg_providers r) - set (active @ [c])) <
         card (fst ` set (rg_providers r) - set active)"
  using assms get_provider_in_keys [OF assms(1)] by (intro psubset_card_mono) auto

function (sequential) visit_contract ::
      "registry \<Rightarrow> contract list \<Rightarrow> contract \<Rightarrow> visit_state \<Rightarrow> exn + visit_state" and
    visit_dependencies ::
      "registry \<Rightarrow> contract list \<Rightarrow> provider \<Rightarrow> dependency list \<Rightarrow> visit_state \<Rightarrow>
       exn + visit_state" where
  "visit_contract r active c st =
     (if c \<in> set (fst st) then Inr st
      else if c \<in> set active then Inl (cycle_error active c)
      else case get_provider r c of
        None \<Rightarrow> Inl (missing_error active c)
      | Some p \<Rightarrow>
          (case visit_dependencies r (active @ [c]) p (pv_dependencies p) st of
             Inl e \<Rightarrow> Inl e
           | Inr (visited, ordered) \<Rightarrow> Inr (c # visited, ordered @ [p])))"
| "visit_dependencies r active p [] st = Inr st"
| "visit_dependencies r active p (d # ds) st =
     (case get_provider r (d_contract d) of
        None \<Rightarrow> Inl (missing_error active (d_contract d))
      | Some q \<Rightarrow>
          if scope_rank (pv_scope q) < scope_rank (pv_scope p)
          then Inl (scope_error active p q (d_contract d))
          else case visit_contract r active (d_contract d) st of
            Inl e \<Rightarrow> Inl e
          | Inr st' \<Rightarrow> visit_dependencies r active p ds st')"
  by pat_completeness auto

termination
proof (relation "measures [
    \<lambda>x. case x of Inl (r, active, c, st) \<Rightarrow> card (fst ` set (rg_providers r) - set active)
        | Inr (r, active, p, ds, st) \<Rightarrow> card (fst ` set (rg_providers r) - set active),
    \<lambda>x. case x of Inl (r, active, c, st) \<Rightarrow> 0 | Inr (r, active, p, ds, st) \<Rightarrow> length ds]",
    goal_cases)
  case (2 r active c st p)
  then show ?case using stack_grows [of r c p active] by simp
qed simp_all

declare visit_contract.simps [simp del]

fun visit_all :: "registry \<Rightarrow> provider list \<Rightarrow> visit_state \<Rightarrow> exn + visit_state" where
  "visit_all r [] st = Inr st"
| "visit_all r (p # ps) st = bindR (visit_contract r [] (pv_contract p) st) (visit_all r ps)"

definition validate_registry :: "registry \<Rightarrow> exn + provider list" where
  "validate_registry r =
     bindR (visit_all r (sort_key pv_order (providers_of r)) ([], []))
       (\<lambda>(visited, ordered). Inr ordered)"

end
