(* ===== verification/Routes.thy ===== *)
theory Routes
  imports Py_Parse
begin

text \<open>
  \<open>routing.py\<close>: route records and the registry that refuses ambiguous or malformed ones.
\<close>

record handler =
  h_id :: nat
  h_callable :: bool
  h_name :: string

record route =
  rt_method :: string
  rt_path :: string
  rt_handler :: handler
  rt_name :: string

record route_registry =
  rr_routes :: "route list"
  rr_version :: nat

definition empty_routes :: route_registry where
  "empty_routes = \<lparr>rr_routes = [], rr_version = 0\<rparr>"

definition supported_methods :: "string list" where
  "supported_methods = [''GET'', ''POST'', ''PUT'', ''PATCH'', ''DELETE'', ''HEAD'', ''OPTIONS'']"

section \<open>Path templates\<close>

definition param_start :: "char \<Rightarrow> bool" where
  "param_start c = (let n = of_char c :: nat in (65 \<le> n \<and> n \<le> 90) \<or> n = 95 \<or> (97 \<le> n \<and> n \<le> 122))"

definition param_part :: "char \<Rightarrow> bool" where
  "param_part c = (param_start c \<or> is_digit c)"

text \<open>The pattern at the start of a text: the name in the braces and the text after them.\<close>

definition match_parameter :: "string \<Rightarrow> (string \<times> string) option" where
  "match_parameter s = (case s of
     [] \<Rightarrow> None
   | b # t \<Rightarrow>
       (let name = takeWhile param_part t; rest = dropWhile param_part t
        in if b = CHR ''{'' \<and> name \<noteq> [] \<and> param_start (hd name) \<and> rest \<noteq> [] \<and> hd rest = CHR ''}''
           then Some (name, tl rest) else None))"

lemma match_parameter_shorter: "match_parameter s = Some (n, r) \<Longrightarrow> length r < length s"
proof (cases s)
  case (Cons b t)
  have "length (dropWhile param_part t) \<le> length t" by (rule length_dropWhile_le)
  moreover assume "match_parameter s = Some (n, r)"
  ultimately show ?thesis by (auto simp: Cons match_parameter_def Let_def split: if_splits)
qed (simp add: match_parameter_def)

text \<open>\<open>findall\<close> and \<open>sub("")\<close>: the names found, and what is left of the text without the matches.\<close>

function scan_path :: "string \<Rightarrow> string list \<times> string" where
  "scan_path s = (case s of
     [] \<Rightarrow> ([], [])
   | c # cs \<Rightarrow>
       (case match_parameter s of
          Some (name, rest) \<Rightarrow> (case scan_path rest of (names, left) \<Rightarrow> (name # names, left))
        | None \<Rightarrow> (case scan_path cs of (names, left) \<Rightarrow> (names, c # left))))"
  by pat_completeness auto

termination
  by (relation "measure length") (auto dest: match_parameter_shorter)

declare scan_path.simps [simp del]

definition path_parameters :: "route \<Rightarrow> string list" where
  "path_parameters r = fst (scan_path (rt_path r))"

definition route_error :: "string \<Rightarrow> exn" where
  "route_error msg = Exn (Fw ''RouteRegistrationError'') msg (StatusAttr 500)"

definition ensure_well_formed_path :: "string \<Rightarrow> exn + unit" where
  "ensure_well_formed_path path =
     (if \<not> starts_with path ''/''
      then Inl (route_error (''route path must start with '' @ py_repr ''/'' @ '': '' @ py_repr path))
      else let remainder = snd (scan_path path) in
        refuse_if (CHR ''{'' \<in> set remainder \<or> CHR ''}'' \<in> set remainder)
          (route_error (''route path has an unbalanced parameter: '' @ py_repr path)))"

section \<open>Registering\<close>

definition add_route ::
    "route_registry \<Rightarrow> string \<Rightarrow> string \<Rightarrow> handler \<Rightarrow> string option \<Rightarrow> exn + (route \<times> route_registry)" where
  "add_route rr verb path handler name =
     (let normalized = py_upper verb; label = normalized @ '' '' @ path in
      bindR (refuse_if (normalized \<notin> set supported_methods) (route_error
        (''unsupported HTTP method '' @ py_repr verb @ ''; expected one of: '' @
         join '', '' (sort supported_methods)))) (\<lambda>_.
      bindR (ensure_well_formed_path path) (\<lambda>_.
      bindR (refuse_if (\<not> h_callable handler) (route_error
        (''the handler for '' @ label @ '' must be callable''))) (\<lambda>_.
      let route_name = or_text name (h_name handler) in
      bindR (refuse_if (route_name = []) (route_error
        (''the route '' @ label @ '' needs an explicit name''))) (\<lambda>_.
      bindR (refuse_if (\<exists>r \<in> set (rr_routes rr). rt_method r = normalized \<and> rt_path r = path)
        (route_error (''a route is already registered for '' @ label))) (\<lambda>_.
      bindR (refuse_if (\<exists>r \<in> set (rr_routes rr). rt_name r = route_name)
        (route_error (''a route named '' @ py_repr route_name @ '' is already registered''))) (\<lambda>_.
      let r = \<lparr>rt_method = normalized, rt_path = path, rt_handler = handler, rt_name = route_name\<rparr>
      in Inr (r, rr\<lparr>rr_routes := rr_routes rr @ [r], rr_version := rr_version rr + 1\<rparr>))))))))"

definition clone_routes :: "route_registry \<Rightarrow> route_registry" where
  "clone_routes rr = \<lparr>rr_routes = rr_routes rr, rr_version = rr_version rr\<rparr>"

section \<open>What the registry holds\<close>

text \<open>Routes are unambiguous: no two share a method and a path, and no two share a name.\<close>

definition routes_ok :: "route_registry \<Rightarrow> bool" where
  "routes_ok rr \<longleftrightarrow>
     distinct (map (\<lambda>r. (rt_method r, rt_path r)) (rr_routes rr)) \<and>
     distinct (map rt_name (rr_routes rr)) \<and>
     (\<forall>r \<in> set (rr_routes rr). rt_method r \<in> set supported_methods \<and> rt_name r \<noteq> [] \<and>
        ensure_well_formed_path (rt_path r) = Inr ()) \<and>
     rr_version rr = length (rr_routes rr)"

lemma routes_ok_empty: "routes_ok empty_routes"
  by (simp add: routes_ok_def empty_routes_def)

lemma add_route_iff:
  "add_route rr verb path handler name = Inr (r, rr') \<longleftrightarrow>
     py_upper verb \<in> set supported_methods \<and> ensure_well_formed_path path = Inr () \<and>
     h_callable handler \<and> or_text name (h_name handler) \<noteq> [] \<and>
     (\<forall>r \<in> set (rr_routes rr). (rt_method r, rt_path r) \<noteq> (py_upper verb, path)) \<and>
     (\<forall>r \<in> set (rr_routes rr). rt_name r \<noteq> or_text name (h_name handler)) \<and>
     r = \<lparr>rt_method = py_upper verb, rt_path = path, rt_handler = handler,
          rt_name = or_text name (h_name handler)\<rparr> \<and>
     rr' = rr\<lparr>rr_routes := rr_routes rr @ [r], rr_version := rr_version rr + 1\<rparr>"
  by (auto simp: add_route_def Let_def bindR_Inr_iff)

lemma add_route_keeps:
  "add_route rr verb path handler name = Inr (r, rr') \<Longrightarrow> routes_ok rr \<Longrightarrow> routes_ok rr'"
  by (auto simp: add_route_iff routes_ok_def)

end
