(* ===== verification/Settings.thy ===== *)
theory Settings
  imports Py_Parse
begin

text \<open>
  \<open>config.py\<close>: the settings of an application, merged from a TOML file, the environment and
  explicit overrides, and read without unknown or untyped values. A table is a dictionary of
  Python values; the file system and the TOML reader are a parameter.
\<close>

type_synonym table = "(string \<times> pyval) list"

definition config_error :: "string \<Rightarrow> exn" where
  "config_error = raised ''ConfigurationError''"

section \<open>Reading values\<close>

definition as_non_empty_string :: "pyval \<Rightarrow> string \<Rightarrow> exn + string" where
  "as_non_empty_string v location = (case v of
     PStr s \<Rightarrow> if blank s then Inl (config_error (location @ '' must be a non-empty string''))
               else Inr s
   | _ \<Rightarrow> Inl (config_error (location @ '' must be a non-empty string'')))"

definition float_of_int :: "int \<Rightarrow> exn + pyfloat" where
  "float_of_int i = (case double_of (of_int i) of
     Infinite neg \<Rightarrow> Inl (raised ''OverflowError'' ''int too large to convert to float'')
   | x \<Rightarrow> Inr x)"

definition as_float :: "pyval \<Rightarrow> string \<Rightarrow> exn + pyfloat" where
  "as_float v location =
     (let refused = Inl (config_error (location @ '' must be a number''))
      in case v of
        PInt i \<Rightarrow> float_of_int i
      | PFloat t \<Rightarrow> (case py_float t of Some x \<Rightarrow> Inr x | None \<Rightarrow> refused)
      | PStr t \<Rightarrow> (case py_float (py_strip t) of Some x \<Rightarrow> Inr x | None \<Rightarrow> refused)
      | _ \<Rightarrow> refused)"

definition as_optional_timeout :: "pyval \<Rightarrow> string \<Rightarrow> exn + pyfloat option" where
  "as_optional_timeout v location =
     (let refused = Inl (config_error (location @ '' must be a positive number of seconds''))
      in case v of
        PNone \<Rightarrow> Inr None
      | PBool b \<Rightarrow> refused
      | _ \<Rightarrow>
          (case as_float v location of
             Inl e \<Rightarrow> if instance_of e ''ConfigurationError'' then refused else Inl e
           | Inr timeout \<Rightarrow> if float_not_positive timeout then refused else Inr (Some timeout)))"

definition as_bool :: "pyval \<Rightarrow> string \<Rightarrow> exn + bool" where
  "as_bool v location =
     (let refused = Inl (config_error (location @ '' must be a boolean''))
      in case v of
        PBool b \<Rightarrow> Inr b
      | PStr t \<Rightarrow>
          (let normalized = py_lower (py_strip t) in
           if normalized \<in> {''1'', ''true'', ''yes'', ''on''} then Inr True
           else if normalized \<in> {''0'', ''false'', ''no'', ''off''} then Inr False
           else refused)
      | _ \<Rightarrow> refused)"

definition as_int :: "pyval \<Rightarrow> string \<Rightarrow> exn + int" where
  "as_int v location =
     (let refused = Inl (config_error (location @ '' must be an integer''))
      in case v of
        PInt i \<Rightarrow> Inr i
      | PStr t \<Rightarrow> (case py_int t of Some i \<Rightarrow> Inr i | None \<Rightarrow> refused)
      | _ \<Rightarrow> refused)"

definition reject_unknown_keys :: "table \<Rightarrow> string list \<Rightarrow> string \<Rightarrow> exn + unit" where
  "reject_unknown_keys values allowed location =
     (let unknown = sort (remdups (filter (\<lambda>k. k \<notin> set allowed) (map fst values)))
      in refuse_if (unknown \<noteq> [])
           (config_error (''unknown setting(s) at '' @ location @ '': '' @ join '', '' unknown)))"

section \<open>Merging\<close>

fun deep_merge :: "table \<Rightarrow> table \<Rightarrow> table" where
  "deep_merge merged [] = merged"
| "deep_merge merged ((k, v) # override) =
     deep_merge
       (dict_set merged k
         (case v of
            PDict t \<Rightarrow>
              (case map_of merged k of
                 Some (PDict b) \<Rightarrow> PDict (deep_merge b t)
               | _ \<Rightarrow> v)
          | _ \<Rightarrow> v))
       override"

text \<open>The walk of the cursor along the parts of a variable's name.\<close>

fun set_path :: "string \<Rightarrow> table \<Rightarrow> string list \<Rightarrow> pyval \<Rightarrow> exn + table" where
  "set_path name cursor [] v = Inr cursor"
| "set_path name cursor [part] v = Inr (dict_set cursor part v)"
| "set_path name cursor (part # parts) v =
     (case (case map_of cursor part of None \<Rightarrow> PDict [] | Some existing \<Rightarrow> existing) of
        PDict inner \<Rightarrow>
          bindR (set_path name inner parts v) (\<lambda>inner'. Inr (dict_set cursor part (PDict inner')))
      | _ \<Rightarrow> Inl (config_error (''conflicting environment setting: '' @ name)))"

definition config_prefix :: string where
  "config_prefix = ''XYBEROS_''"

definition config_variable :: string where
  "config_variable = ''XYBEROS_CONFIG''"

definition setting_parts :: "string \<Rightarrow> string list" where
  "setting_parts name = split_on ''__'' (py_lower (drop (length config_prefix) name))"

definition environment_value :: "table \<Rightarrow> string \<Rightarrow> string \<Rightarrow> exn + table" where
  "environment_value values name value =
     (if name = config_variable \<or> \<not> starts_with name config_prefix then Inr values
      else if \<not> list_all (\<lambda>p. p \<noteq> []) (setting_parts name)
      then Inl (config_error (''invalid environment setting name: '' @ name))
      else set_path name values (setting_parts name) (PStr value))"

fun environment_values :: "table \<Rightarrow> (string \<times> string) list \<Rightarrow> exn + table" where
  "environment_values values [] = Inr values"
| "environment_values values ((name, value) # environ) =
     bindR (environment_value values name value) (\<lambda>values'. environment_values values' environ)"

section \<open>The settings\<close>

record app_settings =
  as_name :: string
  as_environment :: string
  as_debug :: bool
  as_shutdown_timeout :: "pyfloat option"

record settings =
  st_schema_version :: int
  st_app :: app_settings
  st_plugins :: "(string \<times> table) list"
  st_ai :: "(string \<times> table) list"

definition default_settings :: settings where
  "default_settings = \<lparr>st_schema_version = 1,
     st_app = \<lparr>as_name = ''xyberos'', as_environment = ''development'', as_debug = False,
              as_shutdown_timeout = None\<rparr>,
     st_plugins = [], st_ai = []\<rparr>"

definition section_options :: "(string \<times> table) list \<Rightarrow> string \<Rightarrow> table" where
  "section_options sections name =
     (case map_of sections (py_lower name) of Some t \<Rightarrow> t | None \<Rightarrow> [])"

definition plugin_options :: "settings \<Rightarrow> string \<Rightarrow> table" where
  "plugin_options s = section_options (st_plugins s)"

definition ai_options :: "settings \<Rightarrow> string \<Rightarrow> table" where
  "ai_options s = section_options (st_ai s)"

fun read_sections ::
    "string \<Rightarrow> (string \<times> table) list \<Rightarrow> table \<Rightarrow> exn + (string \<times> table) list" where
  "read_sections item sections [] = Inr sections"
| "read_sections item sections ((name, section) # rest) =
     (if blank name then Inl (config_error (item @ '' names must be non-empty strings''))
      else case section of
        PDict options \<Rightarrow> read_sections item (dict_set sections (py_lower name) options) rest
      | _ \<Rightarrow> Inl (config_error (''the configuration for '' @ item @ '' '' @ py_repr name @
                               '' must be a table/object'')))"

definition sections_from_mapping ::
    "pyval option \<Rightarrow> string \<Rightarrow> string \<Rightarrow> exn + (string \<times> table) list" where
  "sections_from_mapping values label item = (case values of
     None \<Rightarrow> Inr []
   | Some PNone \<Rightarrow> Inr []
   | Some (PDict t) \<Rightarrow> read_sections item [] t
   | Some v \<Rightarrow> Inl (config_error (label @ '' must be a table/object'')))"

definition value_or :: "table \<Rightarrow> string \<Rightarrow> pyval \<Rightarrow> pyval" where
  "value_or t k d = (case map_of t k of Some v \<Rightarrow> v | None \<Rightarrow> d)"

definition read_app_settings :: "pyval \<Rightarrow> exn + app_settings" where
  "read_app_settings v = (case v of
     PDict t \<Rightarrow>
       bindR (reject_unknown_keys t [''name'', ''environment'', ''debug'', ''shutdown_timeout''] ''app'') (\<lambda>_.
       bindR (as_non_empty_string (value_or t ''name'' (PStr ''xyberos'')) ''app.name'') (\<lambda>name.
       bindR (as_non_empty_string (value_or t ''environment'' (PStr ''development''))
               ''app.environment'') (\<lambda>environment.
       bindR (as_bool (value_or t ''debug'' (PBool False)) ''app.debug'') (\<lambda>debug.
       bindR (as_optional_timeout (value_or t ''shutdown_timeout'' PNone) ''app.shutdown_timeout'')
         (\<lambda>timeout.
       Inr \<lparr>as_name = name, as_environment = environment, as_debug = debug,
            as_shutdown_timeout = timeout\<rparr>)))))
   | _ \<Rightarrow> Inl (config_error ''app must be a table/object''))"

definition settings_from_mapping :: "table \<Rightarrow> exn + settings" where
  "settings_from_mapping values =
     bindR (reject_unknown_keys values [''schema_version'', ''app'', ''plugins'', ''ai''] ''root'') (\<lambda>_.
     bindR (as_int (value_or values ''schema_version'' (PInt 1)) ''schema_version'') (\<lambda>version.
     bindR (refuse_if (version \<noteq> 1) (config_error
       (''unsupported configuration schema_version: '' @ dec_int version @ ''; expected 1''))) (\<lambda>_.
     bindR (read_app_settings (value_or values ''app'' (PDict []))) (\<lambda>app.
     bindR (sections_from_mapping (map_of values ''plugins'') ''plugins'' ''plugin'') (\<lambda>plugins.
     bindR (sections_from_mapping (map_of values ''ai'') ''ai'' ''AI provider'') (\<lambda>ai.
     Inr \<lparr>st_schema_version = version, st_app = app, st_plugins = plugins, st_ai = ai\<rparr>))))))"

section \<open>Loading\<close>

text \<open>
  Paths are POSIX paths; \<open>pathlib\<close> drops empty and single-dot segments. What a path holds is a
  parameter: nothing, a file that cannot be read as TOML (\<open>OSError\<close> or \<open>TOMLDecodeError\<close>), a file
  on which reading raises something else, which \<open>_load_toml\<close> lets through (\<open>tomllib\<close> raises
  \<open>UnicodeDecodeError\<close> on bytes that are not UTF-8), or the table read from it.
\<close>

datatype file_state = NoFile | Unreadable | Raises exn | Holds table

definition path_text :: "string \<Rightarrow> string" where
  "path_text p =
     (let parts = filter (\<lambda>s. s \<noteq> [] \<and> s \<noteq> ''.'') (split_on ''/'' p);
          text = (if starts_with p ''/'' then ''/'' else []) @ join ''/'' parts
      in if text = [] then ''.'' else text)"

definition resolve_path :: "string \<Rightarrow> string \<Rightarrow> string" where
  "resolve_path v cwd =
     (if starts_with v ''/'' then path_text v else path_text (cwd @ ''/'' @ v))"

definition select_config_path ::
    "string option \<Rightarrow> (string \<times> string) list \<Rightarrow> string \<Rightarrow> string \<times> bool" where
  "select_config_path config_path environ cwd = (case config_path of
     Some p \<Rightarrow> (resolve_path p cwd, True)
   | None \<Rightarrow>
       (let configured = or_text (map_of environ config_variable) [] in
        if configured \<noteq> [] then (resolve_path configured cwd, True)
        else (path_text (cwd @ ''/xyberos.toml''), False)))"

definition file_values ::
    "(string \<Rightarrow> file_state) \<Rightarrow> string \<times> bool \<Rightarrow> exn + table" where
  "file_values files selected = (case files (fst selected) of
     NoFile \<Rightarrow>
       if snd selected
       then Inl (config_error (''configuration file does not exist: '' @ fst selected))
       else Inr []
   | Unreadable \<Rightarrow> Inl (config_error (''unable to read configuration file: '' @ fst selected))
   | Raises e \<Rightarrow> Inl e
   | Holds t \<Rightarrow> Inr t)"

definition load_settings ::
    "(string \<Rightarrow> file_state) \<Rightarrow> string option \<Rightarrow> (string \<times> string) list \<Rightarrow> table option \<Rightarrow> string \<Rightarrow>
     exn + settings" where
  "load_settings files config_path environ overrides cwd =
     bindR (file_values files (select_config_path config_path environ cwd)) (\<lambda>values.
     bindR (environment_values [] environ) (\<lambda>from_environment.
       let merged = deep_merge values from_environment
       in settings_from_mapping
            (case overrides of None \<Rightarrow> merged | Some t \<Rightarrow> deep_merge merged t)))"

end
