(* ===== verification/Plugins.thy ===== *)
theory Plugins
  imports Settings Procedures
begin

text \<open>
  \<open>plugins/protocol.py\<close>, \<open>plugins/config.py\<close> and \<open>plugins/registry.py\<close>: the metadata a plugin
  declares and what is checked of it, its typed configuration, and the registry that starts
  plugins in order and stops them in reverse. The hooks of a plugin are foreign code and act on an
  environment of their own; class attributes a plugin may declare wrongly are Python values.
\<close>

section \<open>Metadata\<close>

text \<open>
  A type hint as the configuration code distinguishes them; a union and any other hint carry
  their \<open>repr\<close>. A field of a configuration dataclass may have a default.
\<close>

datatype hint = HStr | HBool | HInt | HFloat | HNone | HUnion string "hint list" | HOther string

record config_field =
  cf_name :: string
  cf_hint :: hint
  cf_default :: bool

datatype config_type = NotDataclass | Dataclass nat "config_field list"

record plugin =
  pl_id :: nat
  pl_name :: pyval
  pl_api_version :: pyval
  pl_requires :: pyval
  pl_config_type :: "config_type option"

definition PLUGIN_API_VERSION :: string where
  "PLUGIN_API_VERSION = ''1''"

definition api_major :: "string \<Rightarrow> string" where
  "api_major version = takeWhile (\<lambda>c. c \<noteq> CHR ''.'') version"

definition invalid_plugin :: "string \<Rightarrow> string \<Rightarrow> exn" where
  "invalid_plugin msg plugin = plugin_error ''PluginValidationError'' msg plugin ''registration''"

definition invalid_config :: "string \<Rightarrow> string \<Rightarrow> exn" where
  "invalid_config msg plugin =
     plugin_error ''PluginConfigurationError'' msg plugin ''registration''"

definition plugin_name :: "plugin \<Rightarrow> exn + string" where
  "plugin_name p =
     (let unnamed = Inl (invalid_plugin ''every plugin must declare a non-empty name'' ''<unnamed>'')
      in case pl_name p of
        PStr name \<Rightarrow>
          if blank name then unnamed
          else if \<not> is_identifier (map (\<lambda>c. if c = CHR ''-'' then CHR ''_'' else c) name)
          then Inl (invalid_plugin (''plugin name '' @ py_repr name @
            '' must be an identifier so it can be used as a configuration key'') name)
          else Inr name
      | _ \<Rightarrow> unnamed)"

fun is_str :: "pyval \<Rightarrow> bool" where
  "is_str (PStr s) = True"
| "is_str _ = False"

fun text_of :: "pyval \<Rightarrow> string" where
  "text_of (PStr s) = s"
| "text_of _ = []"

definition check_api_version :: "string \<Rightarrow> pyval \<Rightarrow> exn + unit" where
  "check_api_version name version =
     (let undeclared = Inl (invalid_plugin (''plugin '' @ py_repr name @
            '' must declare a non-empty api_version'') name)
      in case version of
        PStr v \<Rightarrow>
          if blank v then undeclared
          else refuse_if (api_major v \<noteq> api_major PLUGIN_API_VERSION)
            (plugin_error ''PluginCompatibilityError''
              (''plugin '' @ py_repr name @ '' targets plugin API '' @ py_repr v @
               '', but this runtime supports '' @ py_repr PLUGIN_API_VERSION) name ''registration'')
      | _ \<Rightarrow> undeclared)"

definition check_requires :: "string \<Rightarrow> pyval \<Rightarrow> exn + unit" where
  "check_requires name requires =
     (let refused = Inl (invalid_plugin (''plugin '' @ py_repr name @
            '' must declare requires as a tuple of plugin names'') name)
      in case requires of
        PTuple items \<Rightarrow> if list_all is_str items then Inr () else refused
      | _ \<Rightarrow> refused)"

definition validate_plugin :: "plugin \<Rightarrow> exn + string" where
  "validate_plugin p =
     bindR (plugin_name p) (\<lambda>name.
     bindR (check_api_version name (pl_api_version p)) (\<lambda>_.
     bindR (check_requires name (pl_requires p)) (\<lambda>_. Inr name)))"

definition required_names :: "plugin \<Rightarrow> string list" where
  "required_names p = (case pl_requires p of PTuple items \<Rightarrow> map text_of items | _ \<Rightarrow> [])"

section \<open>Typed configuration\<close>

datatype config_value = CNone | CStr string | CBool bool | CInt int | CFloat pyfloat

text \<open>A configuration object: its class and the arguments it was built from.\<close>

datatype config_object = Configured nat "(string \<times> config_value) list"

definition unwrap_optional :: "hint \<Rightarrow> bool \<times> hint" where
  "unwrap_optional h = (case h of
     HUnion text [a, b] \<Rightarrow>
       if b = HNone then (True, a) else if a = HNone then (True, b) else (False, h)
   | _ \<Rightarrow> (False, h))"

fun hint_repr :: "hint \<Rightarrow> string" where
  "hint_repr HStr = ''<class '' @ py_repr ''str'' @ ''>''"
| "hint_repr HBool = ''<class '' @ py_repr ''bool'' @ ''>''"
| "hint_repr HInt = ''<class '' @ py_repr ''int'' @ ''>''"
| "hint_repr HFloat = ''<class '' @ py_repr ''float'' @ ''>''"
| "hint_repr HNone = ''<class '' @ py_repr ''NoneType'' @ ''>''"
| "hint_repr (HUnion text hs) = text"
| "hint_repr (HOther text) = text"

definition translate_error :: "string \<Rightarrow> exn \<Rightarrow> exn" where
  "translate_error plugin e =
     (if instance_of e ''ConfigurationError''
      then invalid_config (''plugin '' @ py_repr plugin @ '' has an invalid setting: '' @ str_of e) plugin
      else e)"

definition translate :: "string \<Rightarrow> ('a \<Rightarrow> config_value) \<Rightarrow> exn + 'a \<Rightarrow> exn + config_value" where
  "translate plugin f r = (case r of Inl e \<Rightarrow> Inl (translate_error plugin e) | Inr x \<Rightarrow> Inr (f x))"

definition coerce_value :: "pyval \<Rightarrow> hint \<Rightarrow> string \<Rightarrow> string \<Rightarrow> exn + config_value" where
  "coerce_value v annotation location plugin =
     (case unwrap_optional annotation of (optional, inner) \<Rightarrow>
      if v = PNone then
        (if optional then Inr CNone
         else Inl (invalid_config (location @ '' must not be null'') plugin))
      else case inner of
        HStr \<Rightarrow> (case v of PStr s \<Rightarrow> Inr (CStr s)
                 | _ \<Rightarrow> Inl (invalid_config (location @ '' must be a string'') plugin))
      | HBool \<Rightarrow> translate plugin CBool (as_bool v location)
      | HInt \<Rightarrow> translate plugin CInt (as_int v location)
      | HFloat \<Rightarrow> translate plugin CFloat (as_float v location)
      | _ \<Rightarrow> Inl (invalid_plugin (''plugin '' @ py_repr plugin @ '' setting '' @ location @
               '' uses an unsupported type '' @ hint_repr inner @ ''; use str, int, float, or bool'')
               plugin))"

fun config_arguments ::
    "string \<Rightarrow> table \<Rightarrow> config_field list \<Rightarrow> exn + (string \<times> config_value) list" where
  "config_arguments plugin values [] = Inr []"
| "config_arguments plugin values (f # fs) =
     (let location = ''plugins.'' @ plugin @ ''.'' @ cf_name f in
      bindR (case map_of values (cf_name f) of
          Some v \<Rightarrow> bindR (coerce_value v (cf_hint f) location plugin) (\<lambda>x. Inr [(cf_name f, x)])
        | None \<Rightarrow>
            if \<not> cf_default f then Inl (invalid_config (''plugin '' @ py_repr plugin @
              '' is missing the required setting '' @ py_repr location) plugin)
            else Inr []) (\<lambda>now.
      bindR (config_arguments plugin values fs) (\<lambda>later. Inr (now @ later))))"

text \<open>\<open>ctor\<close> is the dataclass's constructor: the exception it raises for the arguments, if any.\<close>

definition build_plugin_config ::
    "(nat \<Rightarrow> (string \<times> config_value) list \<Rightarrow> exn option) \<Rightarrow> config_type option \<Rightarrow> table \<Rightarrow> string \<Rightarrow>
     exn + config_object option" where
  "build_plugin_config ctor ct values plugin = (case ct of
     None \<Rightarrow>
       if values \<noteq> [] then Inl (invalid_config (''plugin '' @ py_repr plugin @
         '' received configuration but declares no config_type: '' @
         join '', '' (sort (map fst values))) plugin)
       else Inr None
   | Some NotDataclass \<Rightarrow> Inl (invalid_plugin (''plugin '' @ py_repr plugin @
       '' config_type must be a dataclass'') plugin)
   | Some (Dataclass k fs) \<Rightarrow>
       (let unknown = sort (remdups (filter (\<lambda>n. n \<notin> set (map cf_name fs)) (map fst values))) in
        bindR (refuse_if (unknown \<noteq> []) (invalid_config (''plugin '' @ py_repr plugin @
          '' received unknown configuration key(s): '' @ join '', '' unknown) plugin)) (\<lambda>_.
        bindR (config_arguments plugin values fs) (\<lambda>arguments.
        case ctor k arguments of
          None \<Rightarrow> Inr (Some (Configured k arguments))
        | Some e \<Rightarrow>
            if instance_of e ''TypeError'' \<or> instance_of e ''ValueError''
            then Inl (invalid_config (''plugin '' @ py_repr plugin @
              '' configuration could not be built'') plugin)
            else Inl e))))"

section \<open>The registry\<close>

datatype plugin_state = P_REGISTERED | P_STARTED | P_STOPPED | P_FAILED

fun plugin_state_value :: "plugin_state \<Rightarrow> string" where
  "plugin_state_value P_REGISTERED = ''registered''"
| "plugin_state_value P_STARTED = ''started''"
| "plugin_state_value P_STOPPED = ''stopped''"
| "plugin_state_value P_FAILED = ''failed''"

record plugin_entry =
  pe_plugin :: plugin
  pe_config :: "config_object option"
  pe_state :: plugin_state

text \<open>What a plugin registry acts on: its entries, the names being registered, the environment.\<close>

record 'w plugin_world =
  pw_entries :: "(string \<times> plugin_entry) list"
  pw_active :: "string list"
  pw_env :: 'w

text \<open>The hooks of the plugins, by the identity of the plugin.\<close>

record 'w plugin_hooks =
  hk_start :: "nat \<Rightarrow> 'w \<Rightarrow> (exn + unit) \<times> 'w"
  hk_stop :: "nat \<Rightarrow> 'w \<Rightarrow> (exn + unit) \<times> 'w"

definition active_source :: "('w, 'z) plugin_world_scheme \<Rightarrow> string option" where
  "active_source w = (if pw_active w = [] then None else Some (''plugin:'' @ last (pw_active w)))"

definition plugin_names :: "('w, 'z) plugin_world_scheme \<Rightarrow> string list" where
  "plugin_names w = map fst (pw_entries w)"

definition entry_of :: "('w, 'z) plugin_world_scheme \<Rightarrow> string \<Rightarrow> plugin_entry option" where
  "entry_of w name = map_of (pw_entries w) name"

definition state_of_plugin :: "('w, 'z) plugin_world_scheme \<Rightarrow> string \<Rightarrow> plugin_state option" where
  "state_of_plugin w name = map_option pe_state (entry_of w name)"

definition ensure_requirements_registered ::
    "('w, 'z) plugin_world_scheme \<Rightarrow> plugin \<Rightarrow> string \<Rightarrow> exn + unit" where
  "ensure_requirements_registered w p name =
     (let missing = filter (\<lambda>r. entry_of w r = None) (required_names p)
      in refuse_if (missing \<noteq> []) (plugin_error ''PluginDependencyError''
           (''plugin '' @ py_repr name @ '' requires '' @ join '', '' (sort missing) @
            '', which must be registered first'') name ''registration''))"

text \<open>The value or exception a procedure ends with, and the foreign code of the environment.\<close>

definition tryA :: "('w, 'e, 'a) proc \<Rightarrow> ('w, 'e, 'e + 'a) proc" where
  "tryA m = (\<lambda>w. case m w of (r, w') \<Rightarrow> (Inr r, w'))"

definition foreign ::
    "('w \<Rightarrow> (exn + 'a) \<times> 'w) \<Rightarrow> (('w, 'z) plugin_world_scheme, exn, 'a) proc" where
  "foreign f = (\<lambda>w. case f (pw_env w) of (r, v) \<Rightarrow> (r, w\<lparr>pw_env := v\<rparr>))"

definition set_plugin_state ::
    "string \<Rightarrow> plugin_state \<Rightarrow> (('w, 'z) plugin_world_scheme, exn, unit) proc" where
  "set_plugin_state name st = modA (\<lambda>w. w\<lparr>pw_entries :=
     map (\<lambda>(n, e). if n = name then (n, e\<lparr>pe_state := st\<rparr>) else (n, e)) (pw_entries w)\<rparr>)"

fun stop_entries ::
    "'w plugin_hooks \<Rightarrow> string list \<Rightarrow> (string \<times> exn) list \<Rightarrow>
     (('w, 'z) plugin_world_scheme, exn, (string \<times> exn) list) proc" where
  "stop_entries hk [] failures = retA failures"
| "stop_entries hk (name # names) failures =
     bindA (askA (\<lambda>w. Inr (entry_of w name))) (\<lambda>entry. case entry of
       None \<Rightarrow> stop_entries hk names failures
     | Some e \<Rightarrow>
         if pe_state e \<noteq> P_STARTED then stop_entries hk names failures
         else bindA (tryA (foreign (hk_stop hk (pl_id (pe_plugin e))))) (\<lambda>r. case r of
           Inl err \<Rightarrow>
             seqA (set_plugin_state name P_FAILED)
               (if instance_of err ''Exception''
                then stop_entries hk names (failures @ [(''plugin:'' @ name, err)])
                else failA err)
         | Inr u \<Rightarrow> seqA (set_plugin_state name P_STOPPED) (stop_entries hk names failures)))"

definition stop_all ::
    "'w plugin_hooks \<Rightarrow> (('w, 'z) plugin_world_scheme, exn, (string \<times> exn) list) proc" where
  "stop_all hk = bindA (askA (\<lambda>w. Inr (rev (plugin_names w)))) (\<lambda>names. stop_entries hk names [])"

definition lifecycle_message :: "string \<Rightarrow> string \<Rightarrow> exn \<Rightarrow> (string \<times> exn) list \<Rightarrow> string" where
  "lifecycle_message name phase e cleanup =
     ''plugin '' @ py_repr name @ '' failed during '' @ phase @ '': '' @ str_of e @
     (if cleanup = [] then []
      else '' (cleanup also failed for: '' @ join '', '' (map fst cleanup) @ '')'')"

text \<open>\<open>started\<close> holds the names started so far, the latest first.\<close>

definition start_failed ::
    "'w plugin_hooks \<Rightarrow> string \<Rightarrow> string list \<Rightarrow> exn \<Rightarrow>
     (('w, 'z) plugin_world_scheme, exn, unit) proc" where
  "start_failed hk name started e =
     bindA (stop_entries hk started []) (\<lambda>cleanup.
       if instance_of e ''Exception''
       then failA (plugin_error ''PluginLifecycleError'' (lifecycle_message name ''start'' e cleanup)
              name ''start'')
       else failA e)"

fun start_each ::
    "'w plugin_hooks \<Rightarrow> string list \<Rightarrow> string list \<Rightarrow>
     (('w, 'z) plugin_world_scheme, exn, unit) proc" where
  "start_each hk started [] = retA ()"
| "start_each hk started (name # names) =
     bindA (askA (\<lambda>w. Inr (entry_of w name))) (\<lambda>entry. case entry of
       None \<Rightarrow> start_each hk started names
     | Some e \<Rightarrow>
         bindA (tryA (foreign (hk_start hk (pl_id (pe_plugin e))))) (\<lambda>r. case r of
           Inl err \<Rightarrow> start_failed hk name started err
         | Inr u \<Rightarrow>
             seqA (set_plugin_state name P_STARTED) (start_each hk (name # started) names)))"

definition start_all :: "'w plugin_hooks \<Rightarrow> (('w, 'z) plugin_world_scheme, exn, unit) proc" where
  "start_all hk = bindA (askA (\<lambda>w. Inr (plugin_names w))) (start_each hk [])"

end
