(* ===== verification/App.thy ===== *)
theory App
  imports Providers Routes Plugins
begin

text \<open>
  \<open>app.py\<close> with \<open>runtime/lifecycle.py\<close>: one application, its lifecycle, the resolution of
  dependencies in application, request and transient scope, and the release of what it owns.
  Factories, close hooks and plugin hooks are foreign code that acts on an environment of its own.
  One task runs at a time between two operations of the application: the locks of the code
  serialise the constructions of one contract, and an operation here is one such construction with
  all it needs. The wait of \<open>stop\<close> for requests in flight is the gap between two operations.
\<close>

section \<open>State\<close>

datatype lifecycle = L_NEW | L_VALIDATED | L_STARTING | L_READY | L_STOPPING | L_STOPPED | L_FAILED

fun lifecycle_value :: "lifecycle \<Rightarrow> string" where
  "lifecycle_value L_NEW = ''new''"
| "lifecycle_value L_VALIDATED = ''validated''"
| "lifecycle_value L_STARTING = ''starting''"
| "lifecycle_value L_READY = ''ready''"
| "lifecycle_value L_STOPPING = ''stopping''"
| "lifecycle_value L_STOPPED = ''stopped''"
| "lifecycle_value L_FAILED = ''failed''"

record request =
  rq_instances :: "(contract \<times> obj) list"
  rq_owned :: "(provider \<times> obj) list"
  rq_closed :: bool

definition new_request :: request where
  "new_request = \<lparr>rq_instances = [], rq_owned = [], rq_closed = False\<rparr>"

text \<open>Requests are named by numbers; \<open>ap_next\<close> is the next one.\<close>

record 'w app = "'w plugin_world" +
  ap_settings :: settings
  ap_registry :: registry
  ap_routes :: route_registry
  ap_state :: lifecycle
  ap_plan :: "provider list option"
  ap_instances :: "(contract \<times> obj) list"
  ap_owned :: "(provider \<times> obj) list"
  ap_requests :: "nat \<Rightarrow> request"
  ap_next :: nat
  ap_active :: "nat list"

definition new_app :: "settings \<Rightarrow> 'w \<Rightarrow> 'w app" where
  "new_app s env = \<lparr>pw_entries = [], pw_active = [], pw_env = env, ap_settings = s,
     ap_registry = empty_registry, ap_routes = empty_routes, ap_state = L_NEW, ap_plan = None,
     ap_instances = [], ap_owned = [], ap_requests = (\<lambda>_. new_request), ap_next = 0, ap_active = []\<rparr>"

type_synonym ('w, 'a) act = "('w app, exn, 'a) proc"

text \<open>
  Foreign code: what constructing a class or calling a factory does with its arguments, what
  calling a close hook or a close method does, and the plugins' hooks. \<open>fo_limit\<close> is how deep the
  interpreter lets constructions nest, counted in providers.
\<close>

datatype close_call = CallHook nat obj | CallMethod string obj

record 'w foreign_code =
  fo_factory :: "nat \<Rightarrow> (string \<times> obj) list \<Rightarrow> 'w \<Rightarrow> (exn + obj) \<times> 'w"
  fo_close :: "close_call \<Rightarrow> 'w \<Rightarrow> (exn + unit) \<times> 'w"
  fo_plugins :: "'w plugin_hooks"
  fo_limit :: nat

definition lifecycle_error :: "string \<Rightarrow> lifecycle \<Rightarrow> string \<Rightarrow> exn" where
  "lifecycle_error before st after = raised ''LifecycleStateError''
     (before @ py_repr (lifecycle_value st) @ after)"

definition open_for_registration :: "lifecycle \<Rightarrow> bool" where
  "open_for_registration st = (st \<in> {L_NEW, L_VALIDATED})"

definition ensure_registration_allowed :: "('w, unit) act" where
  "ensure_registration_allowed = askA (\<lambda>w. refuse_if (\<not> open_for_registration (ap_state w))
     (lifecycle_error ''cannot register providers in '' (ap_state w) '' application state''))"

definition ensure_ready :: "string \<Rightarrow> ('w, unit) act" where
  "ensure_ready action = askA (\<lambda>w. refuse_if (ap_state w \<noteq> L_READY)
     (lifecycle_error (''cannot '' @ action @ '' while application state is '') (ap_state w) ''''))"

section \<open>Composing\<close>

text \<open>\<open>self._validated_plan = None\<close> and back to new when it was validated.\<close>

definition forget_plan :: "('w, unit) act" where
  "forget_plan = modA (\<lambda>w. w\<lparr>ap_plan := None,
     ap_state := (if ap_state w = L_VALIDATED then L_NEW else ap_state w)\<rparr>)"

text \<open>A provider's source is given, or the plugin being registered, or the application.\<close>

definition resolved_source :: "'w app \<Rightarrow> string option \<Rightarrow> string" where
  "resolved_source w source = (case source of
     Some s \<Rightarrow> s | None \<Rightarrow> or_text (active_source w) ''application'')"

definition register_in_app ::
    "(py_class \<Rightarrow> callable) \<Rightarrow> registration \<Rightarrow> string option \<Rightarrow> ('w, unit) act" where
  "register_in_app constructor a source = (\<lambda>w.
     case register constructor (ap_registry w) (a\<lparr>ra_source := resolved_source w source\<rparr>) of
       Inl e \<Rightarrow> (Inl e, w)
     | Inr (p, r) \<Rightarrow> (Inr (), w\<lparr>ap_registry := r\<rparr>))"

definition provide ::
    "(py_class \<Rightarrow> callable) \<Rightarrow> registration \<Rightarrow> string option \<Rightarrow> ('w, unit) act" where
  "provide constructor a source =
     seqA ensure_registration_allowed (seqA (register_in_app constructor a source) forget_plan)"

definition add_app_route :: "string \<Rightarrow> string \<Rightarrow> handler \<Rightarrow> string option \<Rightarrow> ('w, unit) act" where
  "add_app_route verb path handler name = (\<lambda>w.
     case add_route (ap_routes w) verb path handler name of
       Inl e \<Rightarrow> (Inl e, w)
     | Inr (r, rr) \<Rightarrow> (Inr (), w\<lparr>ap_routes := rr\<rparr>))"

definition app_route :: "string \<Rightarrow> string \<Rightarrow> handler \<Rightarrow> string option \<Rightarrow> ('w, unit) act" where
  "app_route verb path handler name =
     seqA ensure_registration_allowed (add_app_route verb path handler name)"

text \<open>
  The \<open>register\<close> hook of a plugin: the calls it makes on the application, in order, and the
  exception it raises after them, if any. Both may depend on its configuration.
\<close>

datatype app_call =
    ProvideCall registration "string option"
  | RouteCall string string handler "string option"

record register_hooks =
  rh_calls :: "nat \<Rightarrow> config_object option \<Rightarrow> app_call list"
  rh_raises :: "nat \<Rightarrow> config_object option \<Rightarrow> exn option"
  rh_config :: "nat \<Rightarrow> (string \<times> config_value) list \<Rightarrow> exn option"
  rh_constructor :: "py_class \<Rightarrow> callable"

fun make_call :: "register_hooks \<Rightarrow> app_call \<Rightarrow> ('w, unit) act" where
  "make_call rh (ProvideCall a source) = provide (rh_constructor rh) a source"
| "make_call rh (RouteCall verb path handler name) = app_route verb path handler name"

fun app_calls :: "register_hooks \<Rightarrow> app_call list \<Rightarrow> ('w, unit) act" where
  "app_calls rh [] = retA ()"
| "app_calls rh (c # cs) = seqA (make_call rh c) (app_calls rh cs)"

definition register_hook ::
    "register_hooks \<Rightarrow> plugin \<Rightarrow> config_object option \<Rightarrow> ('w, unit) act" where
  "register_hook rh p config =
     seqA (app_calls rh (rh_calls rh (pl_id p) config))
       (case rh_raises rh (pl_id p) config of None \<Rightarrow> retA () | Some e \<Rightarrow> failA e)"

definition registration_failed :: "string \<Rightarrow> exn \<Rightarrow> exn" where
  "registration_failed name e =
     (if instance_of e ''Exception''
      then invalid_plugin (''plugin '' @ py_repr name @ '' failed to register: '' @ str_of e) name
      else e)"

text \<open>\<open>enter\<close>, the hook and \<open>exit\<close>, whichever way the hook ends.\<close>

definition registering :: "register_hooks \<Rightarrow> plugin \<Rightarrow> string \<Rightarrow> config_object option \<Rightarrow> ('w, unit) act" where
  "registering rh p name config =
     seqA (modA (\<lambda>w. w\<lparr>pw_active := pw_active w @ [name]\<rparr>))
     (bindA (tryA (register_hook rh p config)) (\<lambda>r.
      seqA (modA (\<lambda>w. w\<lparr>pw_active := butlast (pw_active w)\<rparr>))
      (case r of Inl e \<Rightarrow> failA (registration_failed name e) | Inr u \<Rightarrow> retA ())))"

definition add_to_plugins :: "register_hooks \<Rightarrow> plugin \<Rightarrow> table option \<Rightarrow> ('w, unit) act" where
  "add_to_plugins rh p config =
     bindA (liftA (validate_plugin p)) (\<lambda>name.
     seqA (askA (\<lambda>w. refuse_if (entry_of w name \<noteq> None) (invalid_plugin
       (''a plugin named '' @ py_repr name @ '' is already registered'') name)))
     (seqA (askA (\<lambda>w. ensure_requirements_registered w p name))
     (bindA (askA (\<lambda>w. build_plugin_config (rh_config rh) (pl_config_type p)
        (case config of Some t \<Rightarrow> t | None \<Rightarrow> plugin_options (ap_settings w) name) name)) (\<lambda>typed.
      seqA (registering rh p name typed)
        (modA (\<lambda>w. w\<lparr>pw_entries := dict_set (pw_entries w) name
           \<lparr>pe_plugin = p, pe_config = typed, pe_state = P_REGISTERED\<rparr>\<rparr>))))))"

definition add_plugin :: "register_hooks \<Rightarrow> plugin \<Rightarrow> table option \<Rightarrow> ('w, unit) act" where
  "add_plugin rh p config =
     seqA ensure_registration_allowed (seqA (add_to_plugins rh p config) forget_plan)"

definition validate_app :: "('w, provider list) act" where
  "validate_app =
     seqA (askA (\<lambda>w. refuse_if (\<not> open_for_registration (ap_state w))
       (lifecycle_error ''cannot validate an application in '' (ap_state w) '' state'')))
     (bindA (askA (\<lambda>w. validate_registry (ap_registry w))) (\<lambda>plan.
      seqA (modA (\<lambda>w. w\<lparr>ap_plan := Some plan, ap_state := L_VALIDATED\<rparr>)) (retA plan)))"

section \<open>Resolving\<close>

definition needs_cleanup :: "provider \<Rightarrow> obj \<Rightarrow> bool" where
  "needs_cleanup p i = (pv_close p \<noteq> None \<or> o_aclose i \<or> o_close i)"

definition validate_instance :: "provider \<Rightarrow> obj \<Rightarrow> contract list \<Rightarrow> exn + unit" where
  "validate_instance p i path = (case pv_contract p of
     ClassKey k \<Rightarrow>
       refuse_if (\<not> k_protocol k \<and> \<not> k_opaque k \<and> \<not> subclass_of (o_class i) k)
         (dependency_error ''DependencyResolutionError''
           (''provider for '' @ contract_name (pv_contract p) @ '' returned '' @ k_name (o_class i))
           (map contract_name path))
   | _ \<Rightarrow> Inr ())"

definition managed_transient :: "provider \<Rightarrow> obj \<Rightarrow> contract list \<Rightarrow> exn + unit" where
  "managed_transient p i path =
     refuse_if (pv_scope p = TRANSIENT \<and> needs_cleanup p i)
       (dependency_error ''DependencyResolutionError''
         (''transient '' @ contract_name (pv_contract p) @
          '' returned a managed resource; use request or app scope instead'')
         (map contract_name path))"

definition close_calls :: "provider \<Rightarrow> obj \<Rightarrow> close_call list" where
  "close_calls p i = (case pv_close p of
     Some (Hook h) \<Rightarrow> [CallHook h i]
   | Some NotCallableHook \<Rightarrow> []
   | None \<Rightarrow> if o_aclose i then [CallMethod ''aclose'' i]
             else if o_close i then [CallMethod ''close'' i] else [])"

definition close_resource :: "'w foreign_code \<Rightarrow> provider \<Rightarrow> obj \<Rightarrow> ('w, unit) act" where
  "close_resource fo p i =
     (case close_calls p i of [] \<Rightarrow> retA () | c # cs \<Rightarrow> foreign (fo_close fo c))"

definition construction_failed :: "provider \<Rightarrow> contract list \<Rightarrow> exn \<Rightarrow> exn" where
  "construction_failed p path e =
     (if instance_of e ''DependencyResolutionError'' then e
      else dependency_error ''DependencyResolutionError''
        (''failed to construct '' @ contract_name (pv_contract p) @ '' from '' @ pv_source p)
        (map contract_name path))"

definition call_factory ::
    "'w foreign_code \<Rightarrow> provider \<Rightarrow> (string \<times> obj) list \<Rightarrow> ('w, obj) act" where
  "call_factory fo p arguments = (case pv_factory p of
     Returns i \<Rightarrow> retA i
   | Calls f \<Rightarrow> foreign (fo_factory fo (fn_id f) arguments)
   | NotCallable \<Rightarrow> failA (raised ''TypeError'' ''object is not callable''))"

fun build_arguments ::
    "(contract \<Rightarrow> ('w, obj) act) \<Rightarrow> dependency list \<Rightarrow> ('w, (string \<times> obj) list) act" where
  "build_arguments res [] = retA []"
| "build_arguments res (d # ds) =
     bindA (res (d_contract d)) (\<lambda>i.
     bindA (build_arguments res ds) (\<lambda>rest. retA ((d_parameter d, i) # rest)))"

definition accept_instance ::
    "'w foreign_code \<Rightarrow> provider \<Rightarrow> contract list \<Rightarrow> obj \<Rightarrow> ('w, obj) act" where
  "accept_instance fo p path i =
     (case bindR (validate_instance p i path) (\<lambda>_. managed_transient p i path) of
        Inl e \<Rightarrow> seqA (close_resource fo p i) (failA e)
      | Inr u \<Rightarrow> retA i)"

definition create_instance ::
    "'w foreign_code \<Rightarrow> (contract \<Rightarrow> ('w, obj) act) \<Rightarrow> provider \<Rightarrow> contract list \<Rightarrow> ('w, obj) act" where
  "create_instance fo res p path =
     bindA (build_arguments res (pv_dependencies p)) (\<lambda>arguments.
     bindA (tryA (call_factory fo p arguments)) (\<lambda>r. case r of
       Inl e \<Rightarrow> failA (construction_failed p path e)
     | Inr i \<Rightarrow> accept_instance fo p path i))"

definition keep_app_instance :: "provider \<Rightarrow> obj \<Rightarrow> ('w, unit) act" where
  "keep_app_instance p i = modA (\<lambda>w. w\<lparr>
     ap_instances := dict_set (ap_instances w) (pv_contract p) i,
     ap_owned := ap_owned w @ (if needs_cleanup p i then [(p, i)] else [])\<rparr>)"

definition keep_request_instance :: "nat \<Rightarrow> provider \<Rightarrow> obj \<Rightarrow> ('w, unit) act" where
  "keep_request_instance q p i = modA (\<lambda>w. w\<lparr>ap_requests := (ap_requests w)(q := (ap_requests w q)\<lparr>
     rq_instances := dict_set (rq_instances (ap_requests w q)) (pv_contract p) i,
     rq_owned := rq_owned (ap_requests w q) @ (if needs_cleanup p i then [(p, i)] else [])\<rparr>)\<rparr>)"

text \<open>The instance already there, or one created and kept.\<close>

definition cached_or ::
    "('w app \<Rightarrow> obj option) \<Rightarrow> ('w, obj) act \<Rightarrow> (obj \<Rightarrow> ('w, unit) act) \<Rightarrow> ('w, obj) act" where
  "cached_or existing create keep =
     bindA (askA (\<lambda>w. Inr (existing w))) (\<lambda>found. case found of
       Some i \<Rightarrow> retA i
     | None \<Rightarrow> bindA create (\<lambda>i. seqA (keep i) (retA i)))"

definition resolve_provider ::
    "'w foreign_code \<Rightarrow> (contract \<Rightarrow> ('w, obj) act) \<Rightarrow> nat option \<Rightarrow> contract list \<Rightarrow> provider \<Rightarrow>
     ('w, obj) act" where
  "resolve_provider fo res request path p = (case pv_scope p of
     APP \<Rightarrow> cached_or (\<lambda>w. map_of (ap_instances w) (pv_contract p))
              (create_instance fo res p path) (keep_app_instance p)
   | REQUEST \<Rightarrow>
       (case request of
          None \<Rightarrow> failA (dependency_error ''DependencyResolutionError''
            (''request-scoped '' @ contract_name (pv_contract p) @
             '' requires an active request context'') (map contract_name path))
        | Some q \<Rightarrow> cached_or (\<lambda>w. map_of (rq_instances (ap_requests w q)) (pv_contract p))
              (create_instance fo res p path) (keep_request_instance q p))
   | TRANSIENT \<Rightarrow> create_instance fo res p path)"

fun resolve_contract ::
    "'w foreign_code \<Rightarrow> nat \<Rightarrow> nat option \<Rightarrow> contract list \<Rightarrow> contract \<Rightarrow> ('w, obj) act" where
  "resolve_contract fo 0 request path c =
     failA (raised ''RecursionError'' ''maximum recursion depth exceeded'')"
| "resolve_contract fo (Suc n) request path c =
     bindA (askA (\<lambda>w. Inr (get_provider (ap_registry w) c))) (\<lambda>found. case found of
       None \<Rightarrow> failA (dependency_error ''MissingProviderError'' (msg_no_provider c)
                (map contract_name (path @ [c])))
     | Some p \<Rightarrow>
         resolve_provider fo (resolve_contract fo n request (path @ [c])) request (path @ [c]) p)"

text \<open>\<open>App.resolve\<close> with the request bound in the context, and \<open>RequestContext.resolve\<close>.\<close>

definition resolve_in_app :: "'w foreign_code \<Rightarrow> nat option \<Rightarrow> contract \<Rightarrow> ('w, obj) act" where
  "resolve_in_app fo current c =
     seqA (ensure_ready ''resolve dependencies'') (resolve_contract fo (fo_limit fo) current [] c)"

definition resolve_in_request :: "'w foreign_code \<Rightarrow> nat \<Rightarrow> contract \<Rightarrow> ('w, obj) act" where
  "resolve_in_request fo q c =
     seqA (askA (\<lambda>w. refuse_if (rq_closed (ap_requests w q))
       (raised ''LifecycleStateError'' ''request context is already closed'')))
     (resolve_contract fo (fo_limit fo) (Some q) [] c)"

section \<open>Releasing\<close>

text \<open>The loop of \<open>_close_owned\<close> over the owned entries, the last first; \<open>pop\<close> drops that one.\<close>

fun close_each ::
    "'w foreign_code \<Rightarrow> ('w, unit) act \<Rightarrow> (provider \<times> obj) list \<Rightarrow> (string \<times> exn) list \<Rightarrow>
     ('w, (string \<times> exn) list) act" where
  "close_each fo pop [] failures = retA failures"
| "close_each fo pop ((p, i) # rest) failures =
     seqA pop (bindA (tryA (close_resource fo p i)) (\<lambda>r.
       close_each fo pop rest (case r of
         Inl e \<Rightarrow> failures @ [(contract_name (pv_contract p), e)]
       | Inr u \<Rightarrow> failures)))"

definition close_app_owned :: "'w foreign_code \<Rightarrow> ('w, (string \<times> exn) list) act" where
  "close_app_owned fo =
     bindA (askA (\<lambda>w. Inr (rev (ap_owned w)))) (\<lambda>owned.
       close_each fo (modA (\<lambda>w. w\<lparr>ap_owned := butlast (ap_owned w)\<rparr>)) owned [])"

definition update_request :: "nat \<Rightarrow> (request \<Rightarrow> request) \<Rightarrow> ('w, unit) act" where
  "update_request q f = modA (\<lambda>w. w\<lparr>ap_requests := (ap_requests w)(q := f (ap_requests w q))\<rparr>)"

definition close_request_owned :: "'w foreign_code \<Rightarrow> nat \<Rightarrow> ('w, (string \<times> exn) list) act" where
  "close_request_owned fo q =
     bindA (askA (\<lambda>w. Inr (rev (rq_owned (ap_requests w q))))) (\<lambda>owned.
       close_each fo (update_request q (\<lambda>r. r\<lparr>rq_owned := butlast (rq_owned r)\<rparr>)) owned [])"

definition raise_failures :: "(string \<times> exn) list \<Rightarrow> ('w, unit) act" where
  "raise_failures failures = (if failures \<noteq> [] then failA (shutdown_error failures) else retA ())"

definition close_request :: "'w foreign_code \<Rightarrow> nat \<Rightarrow> ('w, unit) act" where
  "close_request fo q =
     bindA (askA (\<lambda>w. Inr (rq_closed (ap_requests w q)))) (\<lambda>closed.
       if closed then retA ()
       else seqA (update_request q (\<lambda>r. r\<lparr>rq_closed := True\<rparr>))
         (bindA (close_request_owned fo q) (\<lambda>failures.
          seqA (update_request q (\<lambda>r. r\<lparr>rq_instances := []\<rparr>)) (raise_failures failures))))"

text \<open>Entering and leaving \<open>request_context\<close>.\<close>

definition enter_request :: "('w, nat) act" where
  "enter_request =
     seqA (ensure_ready ''create a request context'')
     (bindA (askA (\<lambda>w. Inr (ap_next w))) (\<lambda>q.
      seqA (modA (\<lambda>w. w\<lparr>ap_requests := (ap_requests w)(q := new_request), ap_next := q + 1,
                       ap_active := q # ap_active w\<rparr>)) (retA q)))"

definition leave_request :: "'w foreign_code \<Rightarrow> nat \<Rightarrow> ('w, unit) act" where
  "leave_request fo q =
     bindA (tryA (close_request fo q)) (\<lambda>r.
     seqA (modA (\<lambda>w. w\<lparr>ap_active := removeAll q (ap_active w)\<rparr>)) (liftA r))"

section \<open>Starting and stopping\<close>

definition set_state :: "lifecycle \<Rightarrow> ('w, unit) act" where
  "set_state st = modA (\<lambda>w. w\<lparr>ap_state := st\<rparr>)"

definition plan_or_validate :: "('w, provider list) act" where
  "plan_or_validate = askA (\<lambda>w. case ap_plan w of
     Some (p # ps) \<Rightarrow> Inr (p # ps) | _ \<Rightarrow> validate_registry (ap_registry w))"

fun start_eager :: "'w foreign_code \<Rightarrow> provider list \<Rightarrow> ('w, unit) act" where
  "start_eager fo [] = retA ()"
| "start_eager fo (p # ps) =
     (if pv_scope p = APP \<and> pv_eager p
      then bindA (resolve_contract fo (fo_limit fo) None [] (pv_contract p)) (\<lambda>_. start_eager fo ps)
      else start_eager fo ps)"

definition start_resources :: "'w foreign_code \<Rightarrow> ('w, unit) act" where
  "start_resources fo =
     bindA plan_or_validate (\<lambda>plan.
     seqA (modA (\<lambda>w. w\<lparr>ap_registry := freeze (ap_registry w)\<rparr>))
     (seqA (start_eager fo plan) (start_all (fo_plugins fo))))"

definition abandon_start :: "'w foreign_code \<Rightarrow> exn \<Rightarrow> ('w, unit) act" where
  "abandon_start fo e =
     bindA (close_app_owned fo) (\<lambda>failures.
     seqA (modA (\<lambda>w. w\<lparr>ap_instances := [], ap_state := L_FAILED\<rparr>))
     (if failures \<noteq> [] then failA (shutdown_error failures) else failA e))"

definition start :: "'w foreign_code \<Rightarrow> ('w, unit) act" where
  "start fo = bindA (askA (\<lambda>w. Inr (ap_state w))) (\<lambda>st.
     if st = L_READY then retA ()
     else if \<not> open_for_registration st
     then failA (lifecycle_error ''cannot start an application in '' st '' state'')
     else seqA (set_state L_STARTING)
       (bindA (tryA (start_resources fo)) (\<lambda>r. case r of
          Inl e \<Rightarrow> abandon_start fo e
        | Inr u \<Rightarrow> set_state L_READY)))"

text \<open>
  \<open>stop\<close> up to its wait for the requests in flight; the answer says whether there is a wait. What
  follows the wait: \<open>timed_out\<close> says how the wait ended.
\<close>

definition begin_stop :: "('w, bool) act" where
  "begin_stop = bindA (askA (\<lambda>w. Inr (ap_state w))) (\<lambda>st.
     if st = L_STOPPED then retA False
     else if st \<in> {L_NEW, L_VALIDATED, L_FAILED} then seqA (set_state L_STOPPED) (retA False)
     else if st \<noteq> L_READY
     then failA (lifecycle_error ''cannot stop an application in '' st '' state'')
     else seqA (set_state L_STOPPING) (retA True))"

definition in_flight_failure :: "(pyfloat option \<Rightarrow> string) \<Rightarrow> 'w app \<Rightarrow> bool \<Rightarrow> (string \<times> exn) list" where
  "in_flight_failure float_text w timed_out =
     (if timed_out then
        [(dec_nat (length (ap_active w)) @ '' in-flight request context(s)'',
          raised ''LifecycleError'' (''shutdown timed out after '' @
            float_text (as_shutdown_timeout (st_app (ap_settings w))) @ ''s''))]
      else [])"

definition finish_stop :: "(pyfloat option \<Rightarrow> string) \<Rightarrow> 'w foreign_code \<Rightarrow> bool \<Rightarrow> ('w, unit) act" where
  "finish_stop float_text fo timed_out =
     bindA (askA (\<lambda>w. Inr (in_flight_failure float_text w timed_out))) (\<lambda>waiting.
     bindA (stop_all (fo_plugins fo)) (\<lambda>plugins.
     bindA (close_app_owned fo) (\<lambda>owned.
     seqA (modA (\<lambda>w. w\<lparr>ap_instances := [], ap_state := L_STOPPED\<rparr>))
       (raise_failures (waiting @ plugins @ owned)))))"

section \<open>Overrides and diagnostics\<close>

fun override_each ::
    "(py_class \<Rightarrow> callable) \<Rightarrow> registry \<Rightarrow> (contract \<times> obj) list \<Rightarrow> exn + registry" where
  "override_each constructor r [] = Inr r"
| "override_each constructor r ((c, v) # rest) = (case get_provider r c of
     None \<Rightarrow> Inl (dependency_error ''MissingProviderError''
       (''cannot override '' @ contract_name c @ '' because it is not registered'') [])
   | Some original \<Rightarrow>
       bindR (register constructor r \<lparr>ra_contract = c, ra_factory = None, ra_instance = Some v,
         ra_scope = Inl (pv_scope original), ra_eager = pv_eager original, ra_close = None,
         ra_replace = True, ra_source = ''test override''\<rparr>) (\<lambda>(p, r'). override_each constructor r' rest))"

definition with_overrides ::
    "(py_class \<Rightarrow> callable) \<Rightarrow> 'w app \<Rightarrow> (contract \<times> obj) list \<Rightarrow> 'w \<Rightarrow> exn + 'w app" where
  "with_overrides constructor w overrides env =
     bindR (override_each constructor (clone_registry (ap_registry w)) overrides) (\<lambda>r.
       Inr ((new_app (ap_settings w) env)\<lparr>ap_registry := r, ap_routes := clone_routes (ap_routes w)\<rparr>))"

record provider_info =
  pi_contract :: string
  pi_scope :: string
  pi_eager :: bool
  pi_source :: string
  pi_dependencies :: "string list"

record plugin_info =
  gi_name :: string
  gi_api_version :: string
  gi_requires :: "string list"
  gi_state :: plugin_state

definition describe_provider :: "provider \<Rightarrow> provider_info" where
  "describe_provider p = \<lparr>pi_contract = contract_name (pv_contract p),
     pi_scope = scope_value (pv_scope p), pi_eager = pv_eager p, pi_source = pv_source p,
     pi_dependencies = map (contract_name \<circ> d_contract) (pv_dependencies p)\<rparr>"

definition describe_plugin :: "plugin_entry \<Rightarrow> plugin_info" where
  "describe_plugin e = \<lparr>gi_name = text_of (pl_name (pe_plugin e)),
     gi_api_version = text_of (pl_api_version (pe_plugin e)),
     gi_requires = required_names (pe_plugin e), gi_state = pe_state e\<rparr>"

record diagnostics =
  dg_providers :: "provider_info list"
  dg_plugins :: "plugin_info list"

definition diagnose :: "'w app \<Rightarrow> diagnostics" where
  "diagnose w = \<lparr>dg_providers = map describe_provider (providers_of (ap_registry w)),
     dg_plugins = map (describe_plugin \<circ> snd) (pw_entries w)\<rparr>"

definition render_provider :: "provider_info \<Rightarrow> string" where
  "render_provider p = ''  '' @ pi_contract p @ '' ['' @ pi_scope p @
     (if pi_eager p then '', eager'' else []) @ ''] from '' @ pi_source p"

definition render_plugin :: "plugin_info \<Rightarrow> string" where
  "render_plugin g = gi_name g @ '' '' @ gi_api_version g @ '' ['' @
     plugin_state_value (gi_state g) @ ''] requires: '' @
     (if gi_requires g \<noteq> [] then join '', '' (gi_requires g) else ''-'')"

definition render_diagnostics :: "diagnostics \<Rightarrow> string" where
  "render_diagnostics d = join_lines ([''providers:''] @ map render_provider (dg_providers d) @
     [''plugins:''] @
     (if dg_plugins d \<noteq> [] then map (\<lambda>g. ''  '' @ render_plugin g) (dg_plugins d)
      else [''  (none)'']))"

end
