(* ===== verification/Provider_Facts.thy ===== *)
theory Provider_Facts
  imports Providers
begin

text \<open>
  What the registry of providers guarantees: a registration keeps it well formed, and validation
  accepts exactly the graphs without a missing dependency, a captured shorter-lived dependency or
  a cycle, giving every provider after what it depends on.
\<close>

section \<open>Lists in which every element fits what comes before it\<close>

definition each_after :: "('a list \<Rightarrow> 'a \<Rightarrow> bool) \<Rightarrow> 'a list \<Rightarrow> bool" where
  "each_after P zs \<longleftrightarrow> (\<forall>xs x ys. zs = xs @ x # ys \<longrightarrow> P xs x)"

lemma each_after_Nil [simp]: "each_after P []"
  by (simp add: each_after_def)

lemma each_afterD: "each_after P (xs @ x # ys) \<Longrightarrow> P xs x"
  unfolding each_after_def by blast

lemma each_after_mono:
  assumes "each_after P zs" and "\<And>xs x. P xs x \<Longrightarrow> Q xs x"
  shows "each_after Q zs"
  using assms unfolding each_after_def by blast

lemma each_after_snoc [simp]: "each_after P (zs @ [z]) \<longleftrightarrow> each_after P zs \<and> P zs z"
proof
  assume all: "each_after P (zs @ [z])"
  have "P xs x" if "zs = xs @ x # ys" for xs x ys
    using each_afterD [of P xs x "ys @ [z]"] all that by simp
  then show "each_after P zs \<and> P zs z" using each_afterD [OF all] unfolding each_after_def by blast
next
  assume parts: "each_after P zs \<and> P zs z"
  have "P xs x" if split: "zs @ [z] = xs @ x # ys" for xs x ys
  proof (cases ys rule: rev_cases)
    case Nil
    then show ?thesis using split parts by simp
  next
    case (snoc us u)
    then have "zs = xs @ x # us" using split by (simp flip: append_assoc append_Cons)
    then show ?thesis using parts each_afterD [of P xs x us] by simp
  qed
  then show "each_after P (zs @ [z])" unfolding each_after_def by blast
qed

section \<open>A well-formed registry\<close>

definition registry_ok :: "registry \<Rightarrow> bool" where
  "registry_ok r \<longleftrightarrow> distinct (map fst (rg_providers r)) \<and>
     (\<forall>(c, p) \<in> set (rg_providers r). pv_contract p = c \<and> pv_order p < rg_next_order r) \<and>
     distinct (map (pv_order \<circ> snd) (rg_providers r))"

lemma registry_ok_empty: "registry_ok empty_registry"
  by (simp add: registry_ok_def empty_registry_def)

lemma get_provider_Some:
  assumes "registry_ok r"
  shows "get_provider r c = Some p \<longleftrightarrow> p \<in> set (providers_of r) \<and> pv_contract p = c"
  using assms by (force simp: registry_ok_def get_provider_def providers_of_def)

lemma set_dict_set_subset: "set (dict_set kvs k v) \<subseteq> insert (k, v) (set kvs)"
  by (induction kvs) (auto split: if_splits)

lemma distinct_orders_dict_set:
  assumes "distinct (map (f \<circ> snd) kvs)" and "\<forall>kv \<in> set kvs. f (snd kv) \<noteq> f v"
  shows "distinct (map (f \<circ> snd) (dict_set kvs k v))"
  using assms
proof (induction kvs)
  case (Cons kv kvs)
  obtain k' v' where kv: "kv = (k', v')" by (cases kv)
  have "f v' \<noteq> f (snd x)" if "x \<in> set (dict_set kvs k v)" for x
    using subsetD [OF set_dict_set_subset that] Cons.prems by (auto simp: kv)
  then have "f v' \<notin> f ` snd ` set (dict_set kvs k v)" by force
  with Cons kv show ?case by auto
qed simp

lemma register_iff:
  "register constructor r a = Inr (p, r') \<Longrightarrow>
     \<not> rg_frozen r \<and> pv_contract p = ra_contract a \<and> pv_order p = rg_next_order r \<and>
     (get_provider r (ra_contract a) = None \<or> ra_replace a) \<and>
     r' = r\<lparr>rg_providers := dict_set (rg_providers r) (ra_contract a) p,
            rg_next_order := rg_next_order r + 1\<rparr>"
  by (auto simp: register_def check_registration_def ensure_mutable_def bindR_Inr_iff Let_def)

lemma register_keeps_ok:
  assumes reg: "register constructor r a = Inr (p, r')" and ok: "registry_ok r"
  shows "registry_ok r'"
proof -
  let ?kvs = "dict_set (rg_providers r) (ra_contract a) p"
  note res = register_iff [OF reg]
  have old: "pv_contract q = c \<and> pv_order q < rg_next_order r" if "(c, q) \<in> set (rg_providers r)" for c q
    using ok that by (auto simp: registry_ok_def)
  have "distinct (map fst ?kvs)" using ok by (simp add: registry_ok_def keys_dict_set)
  moreover have "\<forall>(c, q) \<in> set ?kvs. pv_contract q = c \<and> pv_order q < rg_next_order r + 1"
    using set_dict_set_subset [of "rg_providers r" "ra_contract a" p] res old by fastforce
  moreover have "distinct (map (pv_order \<circ> snd) ?kvs)"
    using ok res old by (intro distinct_orders_dict_set) (force simp: registry_ok_def)+
  ultimately show ?thesis using res by (simp add: registry_ok_def)
qed

section \<open>The graph\<close>

definition dependency_edges :: "registry \<Rightarrow> (contract \<times> contract) set" where
  "dependency_edges r =
     {(c, e). \<exists>p. get_provider r c = Some p \<and> e \<in> d_contract ` set (pv_dependencies p)}"

definition outlives :: "registry \<Rightarrow> contract \<Rightarrow> contract \<Rightarrow> bool" where
  "outlives r c e \<longleftrightarrow> (\<forall>p q. get_provider r c = Some p \<longrightarrow> get_provider r e = Some q \<longrightarrow>
     scope_rank (pv_scope p) \<le> scope_rank (pv_scope q))"

definition graph_ok :: "registry \<Rightarrow> bool" where
  "graph_ok r \<longleftrightarrow>
     (\<forall>(c, e) \<in> dependency_edges r. get_provider r e \<noteq> None \<and> outlives r c e) \<and>
     acyclic (dependency_edges r)"

text \<open>Every provider comes after the providers of its dependencies.\<close>

definition dependency_ordered :: "provider list \<Rightarrow> bool" where
  "dependency_ordered = each_after (\<lambda>before p. d_contract ` set (pv_dependencies p) \<subseteq> pv_contract ` set before)"

lemma dependency_ordered_Nil [simp]: "dependency_ordered []"
  by (simp add: dependency_ordered_def)

section \<open>A visit that returns\<close>

definition visit_ok :: "registry \<Rightarrow> visit_state \<Rightarrow> bool" where
  "visit_ok r st \<longleftrightarrow>
     set (fst st) = pv_contract ` set (snd st) \<and> distinct (map pv_contract (snd st)) \<and>
     (\<forall>p \<in> set (snd st). get_provider r (pv_contract p) = Some p \<and>
        (\<forall>d \<in> set (pv_dependencies p). outlives r (pv_contract p) (d_contract d))) \<and>
     dependency_ordered (snd st)"

text \<open>What a visit with the stack \<open>active\<close> may do to the state it threads.\<close>

definition visit_grows :: "contract list \<Rightarrow> visit_state \<Rightarrow> visit_state \<Rightarrow> bool" where
  "visit_grows active st st' \<longleftrightarrow>
     set (fst st) \<subseteq> set (fst st') \<and> set (fst st') \<inter> set active \<subseteq> set (fst st)"

lemma visit_grows_refl: "visit_grows active st st"
  by (auto simp: visit_grows_def)

lemma visit_grows_trans: "visit_grows active st su \<Longrightarrow> visit_grows active su sv \<Longrightarrow> visit_grows active st sv"
  by (auto simp: visit_grows_def)

lemma visit_ok_push:
  assumes "visit_ok r (visited, ordered)" and "get_provider r c = Some p" and "pv_contract p = c"
    and "c \<notin> set visited"
    and "\<forall>d \<in> set (pv_dependencies p). d_contract d \<in> set visited \<and> outlives r c (d_contract d)"
  shows "visit_ok r (c # visited, ordered @ [p])"
  using assms unfolding visit_ok_def by (auto simp: dependency_ordered_def)

lemma visit_sound:
  assumes "registry_ok r"
  shows "visit_contract r active c st = Inr st' \<Longrightarrow> visit_ok r st \<Longrightarrow>
           visit_ok r st' \<and> visit_grows active st st' \<and> c \<in> set (fst st')"
    and "visit_dependencies r active p ds st = Inr st' \<Longrightarrow> visit_ok r st \<Longrightarrow>
           get_provider r (pv_contract p) = Some p \<Longrightarrow>
           visit_ok r st' \<and> visit_grows active st st' \<and>
           (\<forall>d \<in> set ds. d_contract d \<in> set (fst st') \<and> outlives r (pv_contract p) (d_contract d))"
  using assms
proof (induction r active c st and r active p ds st arbitrary: st' and st'
    rule: visit_contract_visit_dependencies.induct)
  case (1 r active c st)
  show ?case
  proof (cases "c \<in> set (fst st)")
    case True
    then show ?thesis using "1.prems" by (simp add: visit_contract.simps visit_grows_refl)
  next
    case new: False
    with "1.prems" obtain p where inactive: "c \<notin> set active" and p: "get_provider r c = Some p"
      by (auto simp: visit_contract.simps split: if_splits option.splits)
    with new "1.prems" obtain visited ordered where
      sub: "visit_dependencies r (active @ [c]) p (pv_dependencies p) st = Inr (visited, ordered)"
      and st': "st' = (c # visited, ordered @ [p])"
      by (auto simp: visit_contract.simps split: sum.splits)
    have pc: "pv_contract p = c" using p by (simp add: get_provider_Some [OF "1.prems"(3)])
    have IH: "visit_ok r (visited, ordered) \<and> visit_grows (active @ [c]) st (visited, ordered) \<and>
       (\<forall>d \<in> set (pv_dependencies p). d_contract d \<in> set visited \<and> outlives r c (d_contract d))"
      using "1.IH" [OF new inactive p sub "1.prems"(2)] p pc "1.prems"(3) by simp
    then have "c \<notin> set visited" using new by (auto simp: visit_grows_def)
    with IH have "visit_ok r st'" unfolding st' using p pc by (intro visit_ok_push) auto
    then show ?thesis using IH inactive st' by (auto simp: visit_grows_def)
  qed
next
  case (2 r active p st)
  then show ?case by (simp add: visit_grows_refl)
next
  case (3 r active p d ds st)
  then obtain q su where q: "get_provider r (d_contract d) = Some q"
    and rank: "\<not> scope_rank (pv_scope q) < scope_rank (pv_scope p)"
    and first: "visit_contract r active (d_contract d) st = Inr su"
    and rest: "visit_dependencies r active p ds su = Inr st'"
    by (auto split: option.splits if_splits sum.splits)
  have one: "visit_ok r su \<and> visit_grows active st su \<and> d_contract d \<in> set (fst su)"
    using "3.IH"(1) [OF q rank first] "3.prems" by simp
  have two: "visit_ok r st' \<and> visit_grows active su st' \<and>
      (\<forall>d \<in> set ds. d_contract d \<in> set (fst st') \<and> outlives r (pv_contract p) (d_contract d))"
    using "3.IH"(2) [OF q rank first rest] one "3.prems" by simp
  have "outlives r (pv_contract p) (d_contract d)"
    using "3.prems"(3) q rank by (simp add: outlives_def)
  with one two show ?case by (auto simp: visit_grows_def)
qed

section \<open>A visit that raises\<close>

abbreviation chain :: "registry \<Rightarrow> contract list \<Rightarrow> bool" where
  "chain r path \<equiv> successively (\<lambda>a b. (a, b) \<in> dependency_edges r) path"

text \<open>The three defects a raised error names, each with the path of dependencies that leads to it.\<close>

definition names_cycle :: "registry \<Rightarrow> exn \<Rightarrow> bool" where
  "names_cycle r e \<longleftrightarrow> (\<exists>active c. chain r (active @ [c]) \<and> c \<in> set active \<and> e = cycle_error active c)"

definition names_missing :: "registry \<Rightarrow> exn \<Rightarrow> bool" where
  "names_missing r e \<longleftrightarrow> (\<exists>active c. active \<noteq> [] \<and> chain r (active @ [c]) \<and>
     get_provider r c = None \<and> e = missing_error active c)"

definition names_capture :: "registry \<Rightarrow> exn \<Rightarrow> bool" where
  "names_capture r e \<longleftrightarrow> (\<exists>active c p q. active \<noteq> [] \<and> chain r (active @ [c]) \<and>
     get_provider r (last active) = Some p \<and> get_provider r c = Some q \<and>
     scope_rank (pv_scope q) < scope_rank (pv_scope p) \<and> e = scope_error active p q c)"

definition names_defect :: "registry \<Rightarrow> exn \<Rightarrow> bool" where
  "names_defect r e \<longleftrightarrow> names_cycle r e \<or> names_missing r e \<or> names_capture r e"

lemma chain_snoc:
  "chain r (xs @ [y]) \<longleftrightarrow> chain r xs \<and> (xs = [] \<or> (last xs, y) \<in> dependency_edges r)"
  by (auto simp: successively_append_iff)

lemma visit_complete:
  assumes "registry_ok r"
  shows "visit_contract r active c st = Inl e \<Longrightarrow> chain r (active @ [c]) \<Longrightarrow>
           active = [] \<longrightarrow> get_provider r c \<noteq> None \<Longrightarrow> names_defect r e"
    and "visit_dependencies r active p ds st = Inl e \<Longrightarrow> active \<noteq> [] \<Longrightarrow> chain r active \<Longrightarrow>
           get_provider r (last active) = Some p \<Longrightarrow> set ds \<subseteq> set (pv_dependencies p) \<Longrightarrow>
           names_defect r e"
  using assms
proof (induction r active c st and r active p ds st
    rule: visit_contract_visit_dependencies.induct)
  case (1 r active c st)
  show ?case
  proof (cases "c \<in> set active")
    case True
    then have "e = cycle_error active c"
      using "1.prems"(1) by (simp add: visit_contract.simps split: if_splits)
    then show ?thesis
      using True "1.prems"(2) unfolding names_defect_def names_cycle_def by blast
  next
    case inactive: False
    then have new: "c \<notin> set (fst st)" using "1.prems"(1) by (auto simp: visit_contract.simps)
    show ?thesis
    proof (cases "get_provider r c")
      case None
      then have "e = missing_error active c"
        using inactive new "1.prems"(1) by (simp add: visit_contract.simps)
      then show ?thesis
        using None "1.prems"(2,3) unfolding names_defect_def names_missing_def by blast
    next
      case (Some p)
      then have "visit_dependencies r (active @ [c]) p (pv_dependencies p) st = Inl e"
        using inactive new "1.prems"(1) by (simp add: visit_contract.simps split: sum.splits prod.splits)
      then show ?thesis
        using "1.IH" [OF new inactive Some] Some "1.prems"(2,4) by simp
    qed
  qed
next
  case (2 r active p st)
  then show ?case by simp
next
  case (3 r active p d ds st)
  have edge: "(last active, d_contract d) \<in> dependency_edges r"
    using "3.prems"(4,5) by (auto simp: dependency_edges_def)
  then have path: "chain r (active @ [d_contract d])" using "3.prems"(3) by (simp add: chain_snoc)
  show ?case
  proof (cases "get_provider r (d_contract d)")
    case None
    then have "e = missing_error active (d_contract d)" using "3.prems"(1) by simp
    then show ?thesis
      using None path "3.prems"(2) unfolding names_defect_def names_missing_def by blast
  next
    case (Some q)
    show ?thesis
    proof (cases "scope_rank (pv_scope q) < scope_rank (pv_scope p)")
      case True
      then have "e = scope_error active p q (d_contract d)" using Some "3.prems"(1) by simp
      then show ?thesis
        using True Some path "3.prems"(2,4) unfolding names_defect_def names_capture_def by blast
    next
      case rank: False
      show ?thesis
      proof (cases "visit_contract r active (d_contract d) st")
        case (Inl e')
        then have "visit_contract r active (d_contract d) st = Inl e"
          using "3.prems"(1) Some rank by simp
        then show ?thesis using "3.IH"(1) [OF Some rank _ path] "3.prems"(2,6) by simp
      next
        case (Inr su)
        then have "visit_dependencies r active p ds su = Inl e" using "3.prems"(1) Some rank by simp
        then show ?thesis using "3.IH"(2) [OF Some rank Inr] "3.prems" by simp
      qed
    qed
  qed
qed

lemma chain_trancl: "chain r (x # xs @ [y]) \<Longrightarrow> (x, y) \<in> (dependency_edges r)\<^sup>+"
proof (induction xs arbitrary: x)
  case (Cons z zs)
  then have "(x, z) \<in> dependency_edges r" and "(z, y) \<in> (dependency_edges r)\<^sup>+" by simp_all
  then show ?case by (rule trancl_into_trancl2)
qed auto

lemma defect_not_ok:
  assumes "names_defect r e" shows "\<not> graph_ok r"
  using assms unfolding names_defect_def
proof (elim disjE)
  assume "names_cycle r e"
  then obtain active c where path: "chain r (active @ [c])" and "c \<in> set active"
    unfolding names_cycle_def by blast
  then obtain xs ys where "active = xs @ c # ys" by (auto dest: split_list)
  with path have "chain r (c # ys @ [c])" by (simp add: successively_append_iff)
  then have "\<not> acyclic (dependency_edges r)" by (auto simp: acyclic_def dest: chain_trancl)
  then show ?thesis by (simp add: graph_ok_def)
next
  assume "names_missing r e"
  then obtain active c where "active \<noteq> []" and "chain r (active @ [c])" and "get_provider r c = None"
    unfolding names_missing_def by blast
  then have "(last active, c) \<in> dependency_edges r" and "get_provider r c = None"
    by (simp_all add: chain_snoc)
  then show ?thesis by (force simp: graph_ok_def)
next
  assume "names_capture r e"
  then obtain active c p q where "active \<noteq> []" and "chain r (active @ [c])"
    and "get_provider r (last active) = Some p" and "get_provider r c = Some q"
    and "scope_rank (pv_scope q) < scope_rank (pv_scope p)"
    unfolding names_capture_def by blast
  then have "(last active, c) \<in> dependency_edges r" and "\<not> outlives r (last active) c"
    by (simp_all add: chain_snoc outlives_def)
  then show ?thesis by (force simp: graph_ok_def)
qed

section \<open>Validation\<close>

lemma visit_all_sound:
  assumes ok: "registry_ok r"
  shows "visit_all r ps st = Inr st' \<Longrightarrow> visit_ok r st \<Longrightarrow>
           visit_ok r st' \<and> set (fst st) \<union> pv_contract ` set ps \<subseteq> set (fst st')"
proof (induction ps arbitrary: st)
  case (Cons p ps)
  then obtain su where first: "visit_contract r [] (pv_contract p) st = Inr su"
    and rest: "visit_all r ps su = Inr st'" by (auto simp: bindR_Inr_iff)
  note one = visit_sound(1) [OF ok first Cons.prems(2)]
  note two = Cons.IH [OF rest conjunct1 [OF one]]
  then show ?case using one by (auto simp: visit_grows_def)
qed simp

lemma visit_all_complete:
  assumes ok: "registry_ok r"
  shows "visit_all r ps st = Inl e \<Longrightarrow> set ps \<subseteq> set (providers_of r) \<Longrightarrow> names_defect r e"
proof (induction ps arbitrary: st)
  case (Cons p ps)
  have here: "get_provider r (pv_contract p) \<noteq> None"
    using Cons.prems(2) get_provider_Some [OF ok, of "pv_contract p" p] by auto
  show ?case
  proof (cases "visit_contract r [] (pv_contract p) st")
    case (Inl e')
    then show ?thesis
      using Cons.prems(1) visit_complete(1) [OF ok, of "[]" "pv_contract p" st e] here by simp
  next
    case (Inr su)
    then show ?thesis using Cons by simp
  qed
qed simp

definition plan_ok :: "registry \<Rightarrow> provider list \<Rightarrow> bool" where
  "plan_ok r plan \<longleftrightarrow> set plan = set (providers_of r) \<and> distinct (map pv_contract plan) \<and>
     dependency_ordered plan"

lemma validate_sound:
  assumes ok: "registry_ok r" and run: "validate_registry r = Inr plan"
  shows "plan_ok r plan \<and>
    (\<forall>p \<in> set plan. \<forall>d \<in> set (pv_dependencies p). outlives r (pv_contract p) (d_contract d))"
proof -
  obtain visited where
    "visit_all r (sort_key pv_order (providers_of r)) ([], []) = Inr (visited, plan)"
    using run by (auto simp: validate_registry_def bindR_Inr_iff)
  then have res: "visit_ok r (visited, plan)" "pv_contract ` set (providers_of r) \<subseteq> set visited"
    using visit_all_sound [OF ok, of "sort_key pv_order (providers_of r)" "([], [])" "(visited, plan)"]
    by (auto simp: visit_ok_def)
  have "set plan = set (providers_of r)"
  proof
    show "set plan \<subseteq> set (providers_of r)"
      using res(1) get_provider_Some [OF ok] by (auto simp: visit_ok_def)
    show "set (providers_of r) \<subseteq> set plan"
    proof
      fix p assume p: "p \<in> set (providers_of r)"
      then have "pv_contract p \<in> pv_contract ` set plan" using res by (auto simp: visit_ok_def)
      then obtain q where q: "q \<in> set plan" and same: "pv_contract p = pv_contract q" by blast
      then have "get_provider r (pv_contract p) = Some q" using res(1) by (simp add: visit_ok_def)
      moreover have "get_provider r (pv_contract p) = Some p" using p get_provider_Some [OF ok] by simp
      ultimately show "p \<in> set plan" using q by simp
    qed
  qed
  then show ?thesis using res(1) by (simp add: plan_ok_def visit_ok_def)
qed

lemma plan_positions:
  assumes "plan_ok r plan" and ok: "registry_ok r" and "(c, e) \<in> dependency_edges r"
  shows "\<exists>xs p ys. plan = xs @ p # ys \<and> pv_contract p = c \<and> e \<in> pv_contract ` set xs"
proof -
  obtain p where p: "get_provider r c = Some p" and e: "e \<in> d_contract ` set (pv_dependencies p)"
    using assms(3) by (auto simp: dependency_edges_def)
  then have "p \<in> set plan" and "pv_contract p = c"
    using assms(1) get_provider_Some [OF ok] by (auto simp: plan_ok_def)
  then obtain xs ys where plan: "plan = xs @ p # ys" by (auto dest: split_list)
  have "dependency_ordered plan" using assms(1) by (simp add: plan_ok_def)
  then have "d_contract ` set (pv_dependencies p) \<subseteq> pv_contract ` set xs"
    unfolding dependency_ordered_def plan by (rule each_afterD)
  then show ?thesis using plan e \<open>pv_contract p = c\<close> by blast
qed

text \<open>The place of a contract in the plan falls along every dependency, so there is no cycle.\<close>

definition place :: "provider list \<Rightarrow> contract \<Rightarrow> nat" where
  "place plan c = length (takeWhile (\<lambda>p. pv_contract p \<noteq> c) plan)"

lemma place_split:
  assumes "distinct (map pv_contract (xs @ p # ys))"
  shows "place (xs @ p # ys) (pv_contract p) = length xs"
proof -
  have "pv_contract p \<notin> pv_contract ` set xs" using assms by simp
  then have "takeWhile (\<lambda>q. pv_contract q \<noteq> pv_contract p) (xs @ p # ys) = xs"
    by (induction xs) auto
  then show ?thesis by (simp add: place_def)
qed

lemma place_before: "e \<in> pv_contract ` set xs \<Longrightarrow> place (xs @ ys) e < length xs"
  unfolding place_def by (induction xs) auto

lemma plan_order:
  assumes "plan_ok r plan" and "registry_ok r" and "(c, e) \<in> dependency_edges r"
  shows "place plan e < place plan c"
proof -
  obtain xs p ys where plan: "plan = xs @ p # ys" "pv_contract p = c" "e \<in> pv_contract ` set xs"
    using plan_positions [OF assms] by blast
  have "place plan c = length xs"
    using place_split [of xs p ys] assms(1) plan by (simp add: plan_ok_def)
  then show ?thesis using place_before [of e xs "p # ys"] plan by simp
qed

lemma plan_acyclic:
  assumes "plan_ok r plan" and "registry_ok r"
  shows "acyclic (dependency_edges r)"
proof -
  have "(dependency_edges r)\<inverse> \<subseteq> measure (place plan)" using plan_order [OF assms] by auto
  then have "wf ((dependency_edges r)\<inverse>)" using wf_measure wf_subset by blast
  then show ?thesis using wf_acyclic acyclic_converse by blast
qed

lemma validate_graph_ok:
  assumes ok: "registry_ok r" and run: "validate_registry r = Inr plan"
  shows "graph_ok r"
  unfolding graph_ok_def
proof (intro conjI ballI)
  note sound = validate_sound [OF assms]
  show "acyclic (dependency_edges r)" using sound ok by (blast intro: plan_acyclic)
  fix ce assume ce: "ce \<in> dependency_edges r"
  obtain c e where "ce = (c, e)" by (cases ce)
  moreover obtain p where p: "get_provider r c = Some p" "e \<in> d_contract ` set (pv_dependencies p)"
    using ce \<open>ce = (c, e)\<close> by (auto simp: dependency_edges_def)
  moreover have "\<exists>q \<in> set plan. pv_contract q = e"
    using plan_positions [of r plan c e] sound ok ce \<open>ce = (c, e)\<close> by auto
  ultimately show "case ce of (c, e) \<Rightarrow> get_provider r e \<noteq> None \<and> outlives r c e"
    using sound get_provider_Some [OF ok] by (fastforce simp: plan_ok_def)
qed

lemma validate_error:
  assumes "registry_ok r" and "validate_registry r = Inl e"
  shows "names_defect r e"
  using assms visit_all_complete [of r "sort_key pv_order (providers_of r)" "([], [])" e]
  by (auto simp: validate_registry_def bindR_Inl_iff split: prod.splits)

lemma validate_iff: "registry_ok r \<Longrightarrow> (\<exists>plan. validate_registry r = Inr plan) \<longleftrightarrow> graph_ok r"
  using validate_graph_ok validate_error defect_not_ok by (metis sumE)

end
