(* ===== verification/App_Facts.thy ===== *)
theory App_Facts
  imports App Provider_Facts
begin

text \<open>
  What resolving keeps: an instance once cached stays the instance of its contract, everything
  that needs releasing is owned, and an owned instance comes after the owned instances of the same
  scope that went into it. From it: how deep a resolution nests, and in which order an
  application or a request releases what it owns.
\<close>

section \<open>A store of instances\<close>

text \<open>
  The instances and owned entries of one scope. \<open>store_ok\<close>: a cached contract has a provider of
  the scope and, when its instance needs releasing, an owned entry; owned entries are of cached
  instances, one per contract, each after those it depends on.
\<close>

definition entry_ok :: "registry \<Rightarrow> scope \<Rightarrow> (contract \<rightharpoonup> obj) \<Rightarrow> provider \<times> obj \<Rightarrow> bool" where
  "entry_ok r s insts e \<longleftrightarrow> get_provider r (pv_contract (fst e)) = Some (fst e) \<and>
     pv_scope (fst e) = s \<and> insts (pv_contract (fst e)) = Some (snd e) \<and>
     needs_cleanup (fst e) (snd e)"

definition deps_in ::
    "registry \<Rightarrow> scope \<Rightarrow> (contract \<rightharpoonup> obj) \<Rightarrow> (provider \<times> obj) set \<Rightarrow> provider \<Rightarrow> bool" where
  "deps_in r s insts before p \<longleftrightarrow> (\<forall>d \<in> set (pv_dependencies p). \<forall>q.
     get_provider r (d_contract d) = Some q \<longrightarrow> pv_scope q = s \<longrightarrow>
     (\<exists>j. insts (d_contract d) = Some j \<and> (needs_cleanup q j \<longrightarrow> (q, j) \<in> before)))"

definition owned_ordered ::
    "registry \<Rightarrow> scope \<Rightarrow> (contract \<rightharpoonup> obj) \<Rightarrow> (provider \<times> obj) list \<Rightarrow> bool" where
  "owned_ordered r s insts owned \<longleftrightarrow>
     each_after (\<lambda>before e. deps_in r s insts (set before) (fst e)) owned"

definition cached_ok ::
    "registry \<Rightarrow> scope \<Rightarrow> (contract \<rightharpoonup> obj) \<Rightarrow> (provider \<times> obj) list \<Rightarrow> bool" where
  "cached_ok r s insts owned \<longleftrightarrow> (\<forall>c j. insts c = Some j \<longrightarrow> (\<exists>p. get_provider r c = Some p \<and>
     pv_scope p = s \<and> (needs_cleanup p j \<longrightarrow> (p, j) \<in> set owned)))"

definition store_ok ::
    "registry \<Rightarrow> scope \<Rightarrow> (contract \<times> obj) list \<Rightarrow> (provider \<times> obj) list \<Rightarrow> bool" where
  "store_ok r s insts owned \<longleftrightarrow>
     cached_ok r s (map_of insts) owned \<and> (\<forall>e \<in> set owned. entry_ok r s (map_of insts) e) \<and>
     distinct (map (pv_contract \<circ> fst) owned) \<and> owned_ordered r s (map_of insts) owned"

lemma store_ok_Nil [simp]: "store_ok r s [] []"
  by (simp add: store_ok_def cached_ok_def owned_ordered_def)

lemma deps_in_mono:
  "deps_in r s insts A p \<Longrightarrow> insts \<subseteq>\<^sub>m insts' \<Longrightarrow> A \<subseteq> B \<Longrightarrow> deps_in r s insts' B p"
  unfolding deps_in_def map_le_def by (metis domI subsetD)

lemma owned_ordered_mono:
  "owned_ordered r s insts owned \<Longrightarrow> insts \<subseteq>\<^sub>m insts' \<Longrightarrow> owned_ordered r s insts' owned"
  unfolding owned_ordered_def by (erule each_after_mono) (erule deps_in_mono, assumption, simp)

definition release_entry :: "provider \<Rightarrow> obj \<Rightarrow> (provider \<times> obj) list" where
  "release_entry p i = (if needs_cleanup p i then [(p, i)] else [])"

lemma map_le_new: "m c = None \<Longrightarrow> m \<subseteq>\<^sub>m m(c \<mapsto> i)"
  by (auto simp: map_le_def)

text \<open>Keeping a new instance whose dependencies of the same scope are cached keeps the store.\<close>

lemma store_ok_keep:
  assumes ok: "store_ok r s insts owned" and p: "get_provider r c = Some p" "pv_contract p = c"
    and s: "pv_scope p = s" and new: "map_of insts c = None"
    and deps: "\<forall>d \<in> set (pv_dependencies p). \<forall>q. get_provider r (d_contract d) = Some q \<longrightarrow>
      pv_scope q = s \<longrightarrow> map_of insts (d_contract d) \<noteq> None"
  shows "store_ok r s (dict_set insts c i) (owned @ release_entry p i)"
proof -
  let ?new = "(map_of insts)(c \<mapsto> i)"
  have cached: "cached_ok r s (map_of insts) owned"
    and entries: "\<forall>e \<in> set owned. entry_ok r s (map_of insts) e"
    and distinct: "distinct (map (pv_contract \<circ> fst) owned)"
    and ordered: "owned_ordered r s (map_of insts) owned"
    using ok by (simp_all add: store_ok_def)
  have le: "map_of insts \<subseteq>\<^sub>m ?new" using new by (rule map_le_new)
  have apart: "pv_contract (fst e) \<noteq> c" if "e \<in> set owned" for e
    using entries that new by (auto simp: entry_ok_def)
  have "cached_ok r s ?new (owned @ release_entry p i)"
    using cached p s by (auto simp: cached_ok_def release_entry_def)
  moreover have "\<forall>e \<in> set (owned @ release_entry p i). entry_ok r s ?new e"
    using entries apart p s by (auto simp: entry_ok_def release_entry_def)
  moreover have "distinct (map (pv_contract \<circ> fst) (owned @ release_entry p i))"
    using distinct apart p by (force simp: release_entry_def)
  moreover have "deps_in r s (map_of insts) (set owned) p"
    using deps cached unfolding deps_in_def cached_ok_def by fastforce
  then have "deps_in r s ?new (set owned) p" by (rule deps_in_mono [OF _ le subset_refl])
  then have "owned_ordered r s ?new (owned @ release_entry p i)"
    using owned_ordered_mono [OF ordered le] by (simp add: release_entry_def owned_ordered_def)
  ultimately show ?thesis by (simp add: store_ok_def)
qed

section \<open>What a resolution keeps and how it grows\<close>

definition resolver_ok :: "'w app \<Rightarrow> bool" where
  "resolver_ok w \<longleftrightarrow> registry_ok (ap_registry w) \<and> graph_ok (ap_registry w) \<and>
     store_ok (ap_registry w) APP (ap_instances w) (ap_owned w) \<and>
     (\<forall>q. store_ok (ap_registry w) REQUEST (rq_instances (ap_requests w q)) (rq_owned (ap_requests w q)))"

definition instance_map :: "nat option \<Rightarrow> 'w app \<Rightarrow> scope \<Rightarrow> (contract \<rightharpoonup> obj)" where
  "instance_map request w s = (case s of
     APP \<Rightarrow> map_of (ap_instances w)
   | REQUEST \<Rightarrow> (case request of None \<Rightarrow> Map.empty | Some q \<Rightarrow> map_of (rq_instances (ap_requests w q)))
   | TRANSIENT \<Rightarrow> Map.empty)"

text \<open>
  A resolution in a request changes nothing but the environment, the caches and the owned lists
  of the application and of that request, and those only by additions.
\<close>

definition prefix_of :: "'a list \<Rightarrow> 'a list \<Rightarrow> bool" where
  "prefix_of xs ys \<longleftrightarrow> (\<exists>zs. ys = xs @ zs)"

lemma prefix_of_refl [simp]: "prefix_of xs xs"
  by (simp add: prefix_of_def)

lemma prefix_of_trans: "prefix_of xs ys \<Longrightarrow> prefix_of ys zs \<Longrightarrow> prefix_of xs zs"
  by (auto simp: prefix_of_def)

definition grows :: "nat option \<Rightarrow> 'w app \<Rightarrow> 'w app \<Rightarrow> bool" where
  "grows request w w' \<longleftrightarrow>
     ap_registry w' = ap_registry w \<and> ap_state w' = ap_state w \<and> ap_plan w' = ap_plan w \<and>
     ap_active w' = ap_active w \<and> ap_next w' = ap_next w \<and> ap_routes w' = ap_routes w \<and>
     ap_settings w' = ap_settings w \<and> pw_entries w' = pw_entries w \<and> pw_active w' = pw_active w \<and>
     prefix_of (ap_owned w) (ap_owned w') \<and>
     (\<forall>q. rq_closed (ap_requests w' q) = rq_closed (ap_requests w q) \<and>
        prefix_of (rq_owned (ap_requests w q)) (rq_owned (ap_requests w' q))) \<and>
     (\<forall>q. request \<noteq> Some q \<longrightarrow> ap_requests w' q = ap_requests w q) \<and>
     (\<forall>s. instance_map request w s \<subseteq>\<^sub>m instance_map request w' s)"

lemma grows_refl: "grows request w w"
  by (simp add: grows_def)

lemma grows_trans: "grows request w v \<Longrightarrow> grows request v u \<Longrightarrow> grows request w u"
  unfolding grows_def by (auto intro: prefix_of_trans map_le_trans)

lemma grows_env: "grows request w (w\<lparr>pw_env := v\<rparr>)"
  by (auto simp: grows_def instance_map_def split: scope.splits option.splits)

lemma resolver_ok_env [simp]: "resolver_ok (w\<lparr>pw_env := v\<rparr>) = resolver_ok w"
  by (simp add: resolver_ok_def)

text \<open>The contracts a step added to the caches.\<close>

definition added :: "nat option \<Rightarrow> 'w app \<Rightarrow> 'w app \<Rightarrow> contract set" where
  "added request w w' = {c. \<exists>s. instance_map request w' s c \<noteq> instance_map request w s c}"

lemma added_trans: "added request w u \<subseteq> added request w v \<union> added request v u"
  by (auto simp: added_def)

lemma added_env [simp]: "added request w (v\<lparr>pw_env := x\<rparr>) = added request w v"
  by (simp add: added_def instance_map_def cong: scope.case_cong option.case_cong)

lemma added_refl [simp]: "added request w w = {}"
  by (simp add: added_def)

text \<open>The answer of a resolution is what is cached, where the scope of its provider is cached.\<close>

definition served :: "nat option \<Rightarrow> 'w app \<Rightarrow> contract \<Rightarrow> obj \<Rightarrow> bool" where
  "served request w c i \<longleftrightarrow> (\<forall>p. get_provider (ap_registry w) c = Some p \<longrightarrow>
     pv_scope p \<noteq> TRANSIENT \<longrightarrow> instance_map request w (pv_scope p) c = Some i)"

lemma served_grows: "served request w c i \<Longrightarrow> grows request w w' \<Longrightarrow> served request w' c i"
  unfolding served_def grows_def by (metis domI map_le_def)

definition below :: "registry \<Rightarrow> contract \<Rightarrow> contract set" where
  "below r c = (dependency_edges r)\<^sup>* `` {c}"

text \<open>What is shown of every resolution: \<open>C\<close> bounds the contracts it may cache.\<close>

definition progress ::
    "nat option \<Rightarrow> contract set \<Rightarrow> 'w app \<Rightarrow> 'w app \<Rightarrow> bool" where
  "progress request C w w' \<longleftrightarrow> resolver_ok w' \<and> grows request w w' \<and> added request w w' \<subseteq> C"

lemma progress_refl: "resolver_ok w \<Longrightarrow> progress request C w w"
  by (simp add: progress_def grows_refl)

lemma progress_env: "resolver_ok w \<Longrightarrow> progress request C w (w\<lparr>pw_env := v\<rparr>)"
  by (simp add: progress_def grows_env)

lemma progress_trans: "progress request C w v \<Longrightarrow> progress request C v u \<Longrightarrow> progress request C w u"
  using added_trans [of request w u v] by (auto simp: progress_def intro: grows_trans)

lemma progress_mono: "progress request C w v \<Longrightarrow> C \<subseteq> D \<Longrightarrow> progress request D w v"
  by (auto simp: progress_def)

section \<open>Constructing an instance\<close>

lemma bindA_cases:
  assumes "bindA m f w = (r, w')"
  obtains (raises) e where "m w = (Inl e, w')" and "r = Inl e"
    | (returns) x v where "m w = (Inr x, v)" and "f x v = (r, w')"
  using assms by (auto simp: bindA_def split: prod.splits sum.splits)

lemma foreign_progress:
  assumes "foreign f w = (r, w')" and "resolver_ok w"
  shows "progress request C w w'"
proof -
  have "w' = w\<lparr>pw_env := snd (f (pw_env w))\<rparr>" using assms(1) by (auto simp: foreign_def split: prod.splits)
  then show ?thesis using assms(2) by (simp add: progress_env)
qed

lemma close_resource_progress:
  assumes "close_resource fo p i w = (r, w')" and "resolver_ok w"
  shows "progress request C w w'"
  using assms by (auto simp: close_resource_def retA_def intro: foreign_progress progress_refl
      split: list.splits)

lemma call_factory_progress:
  assumes "call_factory fo p arguments w = (r, w')" and "resolver_ok w"
  shows "progress request C w w'"
  using assms by (auto simp: call_factory_def retA_def failA_def intro: foreign_progress progress_refl
      split: factory.splits)

text \<open>What one resolution shows, and the same of all the arguments of a construction.\<close>

definition resolves ::
    "nat option \<Rightarrow> contract \<Rightarrow> ('w, obj) act \<Rightarrow> bool" where
  "resolves request c m \<longleftrightarrow> (\<forall>w r w'. m w = (r, w') \<longrightarrow> resolver_ok w \<longrightarrow>
     progress request (below (ap_registry w) c) w w' \<and> (\<forall>i. r = Inr i \<longrightarrow> served request w' c i))"

lemma resolvesD:
  "resolves request c m \<Longrightarrow> m w = (r, w') \<Longrightarrow> resolver_ok w \<Longrightarrow>
     progress request (below (ap_registry w) c) w w' \<and> (\<forall>i. r = Inr i \<longrightarrow> served request w' c i)"
  by (simp add: resolves_def)

lemma progress_registry: "progress request C w w' \<Longrightarrow> ap_registry w' = ap_registry w"
  by (simp add: progress_def grows_def)

lemma build_arguments_progress:
  assumes "\<And>d. d \<in> set ds \<Longrightarrow> resolves request (d_contract d) (res (d_contract d))"
    and "build_arguments res ds w = (r, w')" and "resolver_ok w"
  shows "progress request (\<Union>d \<in> set ds. below (ap_registry w) (d_contract d)) w w' \<and>
    ((\<exists>arguments. r = Inr arguments) \<longrightarrow>
       (\<forall>d \<in> set ds. \<exists>i. served request w' (d_contract d) i))"
  using assms
proof (induction ds arbitrary: w r)
  case Nil
  then show ?case by (simp add: retA_def progress_refl)
next
  case (Cons d ds)
  let ?C = "\<Union>d \<in> set (d # ds). below (ap_registry w) (d_contract d)"
  have first: "resolves request (d_contract d) (res (d_contract d))" using Cons.prems(1) by simp
  from Cons.prems(2) [simplified] show ?case
  proof (cases rule: bindA_cases)
    case (raises e)
    then show ?thesis
      using resolvesD [OF first raises(1) Cons.prems(3)] by (auto intro: progress_mono)
  next
    case (returns i v)
    note one = resolvesD [OF first returns(1) Cons.prems(3)]
    then have reg: "ap_registry v = ap_registry w" and ok: "resolver_ok v"
      by (simp_all add: progress_def grows_def)
    from returns(2) obtain r' where rest: "build_arguments res ds v = (r', w')"
      and shape: "(\<exists>a. r = Inr a) \<longrightarrow> (\<exists>a. r' = Inr a)"
      by (cases rule: bindA_cases) (auto simp: retA_def)
    note two = Cons.IH [OF Cons.prems(1) rest ok]
    have "progress request ?C w v" "progress request ?C v w'"
      using one two reg by (auto intro: progress_mono)
    moreover have "served request w' (d_contract d) i"
      using one two by (auto simp: progress_def intro: served_grows)
    ultimately show ?thesis using two shape by (auto intro: progress_trans)
  qed
qed

lemma below_dependency:
  assumes "get_provider r c = Some p" and "d \<in> set (pv_dependencies p)"
  shows "below r (d_contract d) \<subseteq> below r c" and "graph_ok r \<Longrightarrow> c \<notin> below r (d_contract d)"
proof -
  have edge: "(c, d_contract d) \<in> dependency_edges r" using assms by (auto simp: dependency_edges_def)
  then show "below r (d_contract d) \<subseteq> below r c"
    unfolding below_def by (auto intro: converse_rtrancl_into_rtrancl)
  assume "graph_ok r"
  then have "(c, c) \<notin> (dependency_edges r)\<^sup>+" by (simp add: graph_ok_def acyclic_def)
  then show "c \<notin> below r (d_contract d)"
    using edge unfolding below_def by (auto dest: rtrancl_into_trancl2)
qed

text \<open>
  Constructing an instance: the contracts cached meanwhile are strictly below, and when it
  succeeds every dependency has been served.
\<close>

lemma create_instance_progress:
  assumes deps: "\<And>d. d \<in> set (pv_dependencies p) \<Longrightarrow> resolves request (d_contract d) (res (d_contract d))"
    and run: "create_instance fo res p path w = (r, w')" and ok: "resolver_ok w"
  shows "progress request (\<Union>d \<in> set (pv_dependencies p). below (ap_registry w) (d_contract d)) w w' \<and>
    ((\<exists>i. r = Inr i) \<longrightarrow> (\<forall>d \<in> set (pv_dependencies p). \<exists>i. served request w' (d_contract d) i))"
    (is "progress request ?C w w' \<and> _")
proof -
  from run [unfolded create_instance_def] show ?thesis
  proof (cases rule: bindA_cases)
    case (raises e)
    then show ?thesis using build_arguments_progress [OF deps raises(1) ok] by simp
  next
    case (returns arguments v)
    note one = build_arguments_progress [OF deps returns(1) ok, simplified]
    then have okv: "resolver_ok v" by (simp add: progress_def)
    obtain answer u where call: "call_factory fo p arguments v = (answer, u)"
      by (cases "call_factory fo p arguments v")
    have two: "progress request ?C v u" using call_factory_progress [OF call okv] .
    then have oku: "resolver_ok u" by (simp add: progress_def)
    have "progress request ?C u w'"
      using returns(2) call oku
      by (auto simp: bindA_apply tryA_def failA_def retA_def accept_instance_def seqA_apply
            intro: progress_refl close_resource_progress split: sum.splits prod.splits)
    then have "progress request ?C v w'" using two by (blast intro: progress_trans)
    moreover have "served request w' (d_contract d) i"
      if "served request v (d_contract d) i" for d i
      using that \<open>progress request ?C v w'\<close> by (auto simp: progress_def intro: served_grows)
    ultimately show ?thesis using one by (blast intro: progress_trans)
  qed
qed

section \<open>Resolving a contract\<close>

text \<open>The dependencies of a provider that share its scope are cached.\<close>

definition deps_cached :: "nat option \<Rightarrow> 'w app \<Rightarrow> provider \<Rightarrow> bool" where
  "deps_cached request w p \<longleftrightarrow> (\<forall>d \<in> set (pv_dependencies p). \<forall>q.
     get_provider (ap_registry w) (d_contract d) = Some q \<longrightarrow> pv_scope q = pv_scope p \<longrightarrow>
     instance_map request w (pv_scope p) (d_contract d) \<noteq> None)"

lemma served_deps_cached:
  assumes "\<forall>d \<in> set (pv_dependencies p). \<exists>i. served request w (d_contract d) i"
    and "pv_scope p \<noteq> TRANSIENT"
  shows "deps_cached request w p"
  using assms unfolding deps_cached_def served_def by (metis option.distinct(1))

text \<open>A statement that keeps a new instance of \<open>p\<close> in the cache of its scope.\<close>

definition keeps_instance ::
    "nat option \<Rightarrow> provider \<Rightarrow> (obj \<Rightarrow> ('w, unit) act) \<Rightarrow> bool" where
  "keeps_instance request p keep \<longleftrightarrow> (\<forall>w i. resolver_ok w \<longrightarrow>
     get_provider (ap_registry w) (pv_contract p) = Some p \<longrightarrow>
     instance_map request w (pv_scope p) (pv_contract p) = None \<longrightarrow> deps_cached request w p \<longrightarrow>
     (\<exists>w'. keep i w = (Inr (), w') \<and> progress request {pv_contract p} w w' \<and>
       instance_map request w' (pv_scope p) (pv_contract p) = Some i))"

lemma keep_app_instance_keeps:
  assumes "pv_scope p = APP"
  shows "keeps_instance request p (keep_app_instance p)"
  unfolding keeps_instance_def
proof (intro allI impI exI conjI)
  fix w :: "'a app" and i
  assume ok: "resolver_ok w" and p: "get_provider (ap_registry w) (pv_contract p) = Some p"
    and new: "instance_map request w (pv_scope p) (pv_contract p) = None"
    and deps: "deps_cached request w p"
  let ?w' = "w\<lparr>ap_instances := dict_set (ap_instances w) (pv_contract p) i,
    ap_owned := ap_owned w @ release_entry p i\<rparr>"
  have maps: "instance_map request ?w' s = (if s = APP
      then (instance_map request w APP)(pv_contract p \<mapsto> i) else instance_map request w s)" for s
    by (cases s) (simp_all add: instance_map_def split: option.splits)
  show "keep_app_instance p i w = (Inr (), ?w')"
    by (simp add: keep_app_instance_def modA_def release_entry_def)
  show "instance_map request ?w' (pv_scope p) (pv_contract p) = Some i"
    using assms by (simp add: maps)
  have "store_ok (ap_registry w) APP (ap_instances ?w') (ap_owned ?w')"
    using store_ok_keep [of "ap_registry w" APP "ap_instances w" "ap_owned w" "pv_contract p" p i]
      ok p new deps assms by (auto simp: resolver_ok_def deps_cached_def instance_map_def)
  then have "resolver_ok ?w'" using ok by (simp add: resolver_ok_def)
  moreover have "grows request w ?w'"
    using new assms unfolding grows_def maps by (auto simp: prefix_of_def map_le_def)
  moreover have "added request w ?w' \<subseteq> {pv_contract p}"
    unfolding added_def maps by (auto split: if_splits)
  ultimately show "progress request {pv_contract p} w ?w'" by (simp add: progress_def)
qed

lemma keep_request_instance_keeps:
  assumes "pv_scope p = REQUEST"
  shows "keeps_instance (Some q) p (keep_request_instance q p)"
  unfolding keeps_instance_def
proof (intro allI impI exI conjI)
  fix w :: "'a app" and i
  assume ok: "resolver_ok w" and p: "get_provider (ap_registry w) (pv_contract p) = Some p"
    and new: "instance_map (Some q) w (pv_scope p) (pv_contract p) = None"
    and deps: "deps_cached (Some q) w p"
  let ?r = "(ap_requests w q)\<lparr>
    rq_instances := dict_set (rq_instances (ap_requests w q)) (pv_contract p) i,
    rq_owned := rq_owned (ap_requests w q) @ release_entry p i\<rparr>"
  let ?w' = "w\<lparr>ap_requests := (ap_requests w)(q := ?r)\<rparr>"
  have maps: "instance_map (Some q) ?w' s = (if s = REQUEST
      then (instance_map (Some q) w REQUEST)(pv_contract p \<mapsto> i) else instance_map (Some q) w s)" for s
    by (cases s) (simp_all add: instance_map_def)
  show "keep_request_instance q p i w = (Inr (), ?w')"
    by (simp add: keep_request_instance_def modA_def release_entry_def)
  show "instance_map (Some q) ?w' (pv_scope p) (pv_contract p) = Some i"
    using assms by (simp add: maps)
  have "store_ok (ap_registry w) REQUEST (rq_instances ?r) (rq_owned ?r)"
    using store_ok_keep [of "ap_registry w" REQUEST "rq_instances (ap_requests w q)"
        "rq_owned (ap_requests w q)" "pv_contract p" p i]
      ok p new deps assms by (auto simp: resolver_ok_def deps_cached_def instance_map_def)
  then have "resolver_ok ?w'" using ok by (simp add: resolver_ok_def)
  moreover have "grows (Some q) w ?w'"
    using new assms unfolding grows_def maps by (auto simp: prefix_of_def map_le_def)
  moreover have "added (Some q) w ?w' \<subseteq> {pv_contract p}"
    unfolding added_def maps by (auto split: if_splits)
  ultimately show "progress (Some q) {pv_contract p} w ?w'" by (simp add: progress_def)
qed

lemma instance_map_new:
  assumes "progress request C w w'" and "c \<notin> C"
  shows "instance_map request w' s c = instance_map request w s c"
  using assms by (auto simp: progress_def added_def)

text \<open>One construction of the provider of \<open>c\<close>, its dependencies resolved by \<open>res\<close>.\<close>

lemma cached_or_resolves:
  fixes res :: "contract \<Rightarrow> ('w, obj) act"
  assumes deps: "\<And>d. d \<in> set (pv_dependencies p) \<Longrightarrow> resolves request (d_contract d) (res (d_contract d))"
    and keep: "keeps_instance request p keep" and scope: "pv_scope p \<noteq> TRANSIENT"
    and w: "resolver_ok w" and p: "get_provider (ap_registry w) c = Some p"
    and run: "cached_or (\<lambda>w. instance_map request w (pv_scope p) (pv_contract p))
      (create_instance fo res p path) keep w = (r, w')"
  shows "progress request (below (ap_registry w) c) w w' \<and> (\<forall>i. r = Inr i \<longrightarrow> served request w' c i)"
proof (cases "instance_map request w (pv_scope p) (pv_contract p)")
  have pc: "pv_contract p = c" using w p get_provider_Some by (auto simp: resolver_ok_def)
  case (Some i)
  then have "r = Inr i" "w' = w" using run by (auto simp: cached_or_def bindA_apply askA_def retA_def)
  then show ?thesis using Some p pc w by (simp add: progress_refl served_def)
next
  have pc: "pv_contract p = c" using w p get_provider_Some by (auto simp: resolver_ok_def)
  let ?C = "\<Union>d \<in> set (pv_dependencies p). below (ap_registry w) (d_contract d)"
  have below: "?C \<subseteq> below (ap_registry w) c" and fresh: "c \<notin> ?C" and self: "{c} \<subseteq> below (ap_registry w) c"
    using below_dependency [OF p] w by (auto simp: resolver_ok_def below_def)
  case None
  then have "bindA (create_instance fo res p path) (\<lambda>i. seqA (keep i) (retA i)) w = (r, w')"
    using run by (simp add: cached_or_def bindA_apply askA_def)
  then show ?thesis
  proof (cases rule: bindA_cases)
    case (raises e)
    then show ?thesis
      using create_instance_progress [OF deps raises(1) w] below by (auto intro: progress_mono)
  next
    case (returns i v)
    note one = create_instance_progress [OF deps returns(1) w, simplified]
    have prog: "progress request ?C w v" using one by blast
    have reg: "ap_registry v = ap_registry w" using prog by (rule progress_registry)
    have "instance_map request v (pv_scope p) (pv_contract p) = None"
      using None instance_map_new [OF prog fresh] pc by simp
    moreover have "deps_cached request v p" using one scope by (blast intro: served_deps_cached)
    ultimately obtain u where u: "keep i v = (Inr (), u)" "progress request {c} v u"
        "instance_map request u (pv_scope p) c = Some i"
      using keep prog p reg pc unfolding keeps_instance_def by (metis progress_def)
    then have "r = Inr i" "w' = u" using returns(2) by (auto simp: seqA_apply retA_def)
    moreover have "progress request (below (ap_registry w) c) w u"
      using prog u(2) below self by (blast intro: progress_trans progress_mono)
    moreover have "served request u c i"
      using u(3) p reg progress_registry [OF u(2)] by (simp add: served_def)
    ultimately show ?thesis by simp
  qed
qed

lemma resolve_provider_resolves:
  fixes res :: "contract \<Rightarrow> ('w, obj) act"
  assumes deps: "\<And>d. d \<in> set (pv_dependencies p) \<Longrightarrow> resolves request (d_contract d) (res (d_contract d))"
    and w: "resolver_ok w" and p: "get_provider (ap_registry w) c = Some p"
    and run: "resolve_provider fo res request path p w = (r, w')"
  shows "progress request (below (ap_registry w) c) w w' \<and> (\<forall>i. r = Inr i \<longrightarrow> served request w' c i)"
proof (cases "pv_scope p")
  case APP
  then show ?thesis
    using cached_or_resolves [OF deps keep_app_instance_keeps _ w p, of fo path] run
    by (simp add: resolve_provider_def instance_map_def)
next
  case REQUEST
  then show ?thesis
  proof (cases request)
    case None
    then show ?thesis using run REQUEST w by (auto simp: resolve_provider_def failA_def progress_refl)
  next
    case (Some q)
    have "resolves (Some q) (d_contract d) (res (d_contract d))"
      if "d \<in> set (pv_dependencies p)" for d using deps [OF that] Some by simp
    then show ?thesis
      using cached_or_resolves [OF _ keep_request_instance_keeps [OF REQUEST] _ w p, of q res fo path r w']
        REQUEST run Some
      by (simp add: resolve_provider_def instance_map_def)
  qed
next
  case TRANSIENT
  then have "create_instance fo res p path w = (r, w')" using run by (simp add: resolve_provider_def)
  note one = create_instance_progress [OF deps this w, simplified]
  have "(\<Union>d \<in> set (pv_dependencies p). below (ap_registry w) (d_contract d)) \<subseteq> below (ap_registry w) c"
    using below_dependency(1) [OF p] by blast
  moreover have "served request w' c i" for i
    using TRANSIENT one p by (auto simp: served_def dest: progress_registry)
  ultimately show ?thesis using one by (blast intro: progress_mono)
qed

lemma resolve_contract_resolves: "resolves request c (resolve_contract fo n request path c)"
proof (induction n arbitrary: c path)
  case 0
  then show ?case by (simp add: resolves_def failA_def progress_refl)
next
  case (Suc n)
  show ?case unfolding resolves_def
  proof (intro allI impI)
    fix w r w' assume run: "resolve_contract fo (Suc n) request path c w = (r, w')" and ok: "resolver_ok w"
    show "progress request (below (ap_registry w) c) w w' \<and> (\<forall>i. r = Inr i \<longrightarrow> served request w' c i)"
    proof (cases "get_provider (ap_registry w) c")
      case None
      then show ?thesis using run ok by (auto simp: bindA_apply askA_def failA_def progress_refl)
    next
      case (Some p)
      then have "resolve_provider fo (resolve_contract fo n request (path @ [c])) request (path @ [c]) p w
          = (r, w')"
        using run by (simp add: bindA_apply askA_def)
      then show ?thesis by (rule resolve_provider_resolves [OF Suc ok Some])
    qed
  qed
qed

section \<open>How deep a resolution nests, and how it fails\<close>

text \<open>
  A resolution in a valid graph fails only in the construction of a provider the contract depends
  on: the last call made was the one of its factory, which raised, or the one of the checks of the
  instance it returned, which refused it and closed it. Without an active request a request-scoped
  provider is refused before anything of it is constructed.
\<close>

definition construction_failure ::
    "'w foreign_code \<Rightarrow> provider \<Rightarrow> contract list \<Rightarrow> exn \<Rightarrow> 'w app \<Rightarrow> bool" where
  "construction_failure fo p path e w' \<longleftrightarrow>
     (\<exists>arguments v e'. call_factory fo p arguments v = (Inl e', w') \<and> e = construction_failed p path e') \<or>
     (\<exists>arguments u i v. call_factory fo p arguments u = (Inr i, v) \<and>
        accept_instance fo p path i v = (Inl e, w'))"

definition missing_request :: "provider \<Rightarrow> contract list \<Rightarrow> exn" where
  "missing_request p path = dependency_error ''DependencyResolutionError''
     (''request-scoped '' @ contract_name (pv_contract p) @ '' requires an active request context'')
     (map contract_name path)"

definition resolution_failure ::
    "'w foreign_code \<Rightarrow> nat option \<Rightarrow> registry \<Rightarrow> contract \<Rightarrow> exn \<Rightarrow> 'w app \<Rightarrow> bool" where
  "resolution_failure fo request rg c e w' \<longleftrightarrow>
     (\<exists>p path. get_provider rg (pv_contract p) = Some p \<and> (c, pv_contract p) \<in> (dependency_edges rg)\<^sup>* \<and>
        (construction_failure fo p path e w' \<or>
         request = None \<and> pv_scope p = REQUEST \<and> e = missing_request p path))"

lemma resolution_failure_dependency:
  assumes "resolution_failure fo request rg d e w'" and "(c, d) \<in> dependency_edges rg"
  shows "resolution_failure fo request rg c e w'"
  using assms unfolding resolution_failure_def by (blast intro: converse_rtrancl_into_rtrancl)

lemma resolution_failure_here:
  assumes "get_provider rg (pv_contract p) = Some p"
  shows "construction_failure fo p path e w' \<Longrightarrow> resolution_failure fo request rg (pv_contract p) e w'"
    and "pv_scope p = REQUEST \<Longrightarrow>
      resolution_failure fo None rg (pv_contract p) (missing_request p path) w'"
  using assms unfolding resolution_failure_def by blast+

text \<open>What an action fails with, and the state it then leaves.\<close>

definition fails_with :: "registry \<Rightarrow> (exn \<Rightarrow> 'w app \<Rightarrow> bool) \<Rightarrow> ('w, 'a) act \<Rightarrow> bool" where
  "fails_with rg P m \<longleftrightarrow> (\<forall>w e w'. m w = (Inl e, w') \<longrightarrow> resolver_ok w \<longrightarrow>
     ap_registry w = rg \<longrightarrow> P e w')"

lemma fails_withD:
  "fails_with rg P m \<Longrightarrow> m w = (Inl e, w') \<Longrightarrow> resolver_ok w \<Longrightarrow> ap_registry w = rg \<Longrightarrow> P e w'"
  unfolding fails_with_def by blast

lemma fails_with_mono: "fails_with rg P m \<Longrightarrow> (\<And>e w. P e w \<Longrightarrow> Q e w) \<Longrightarrow> fails_with rg Q m"
  unfolding fails_with_def by blast

lemma fails_with_failA: "(\<And>w. P e w) \<Longrightarrow> fails_with rg P (failA e)"
  by (simp add: fails_with_def failA_def)

lemma build_arguments_fails:
  assumes "\<And>d. d \<in> set ds \<Longrightarrow> resolves request (d_contract d) (res (d_contract d))"
    and "\<And>d. d \<in> set ds \<Longrightarrow> fails_with rg P (res (d_contract d))"
  shows "fails_with rg P (build_arguments res ds)"
  using assms
proof (induction ds)
  case Nil
  then show ?case by (simp add: fails_with_def retA_def)
next
  case (Cons d ds)
  have rest: "fails_with rg P (build_arguments res ds)" using Cons by simp
  show ?case unfolding fails_with_def
  proof (intro allI impI)
    fix w e w' assume run: "build_arguments res (d # ds) w = (Inl e, w')"
      and w: "resolver_ok w" "ap_registry w = rg"
    have first: "resolves request (d_contract d) (res (d_contract d))"
      "fails_with rg P (res (d_contract d))" using Cons.prems by simp_all
    from run [simplified] show "P e w'"
    proof (cases rule: bindA_cases)
      case (raises e')
      then show ?thesis using first(2) w by (auto dest: fails_withD)
    next
      case (returns i v)
      then have "resolver_ok v" "ap_registry v = rg"
        using resolvesD [OF first(1) returns(1) w(1)] w(2) by (auto simp: progress_def grows_def)
      then show ?thesis
        using returns(2) rest by (auto simp: bindA_Inl_iff retA_def dest: fails_withD)
    qed
  qed
qed

lemma create_instance_fails:
  assumes "\<And>d. d \<in> set (pv_dependencies p) \<Longrightarrow> resolves request (d_contract d) (res (d_contract d))"
    and "\<And>d. d \<in> set (pv_dependencies p) \<Longrightarrow> fails_with rg P (res (d_contract d))"
    and own: "\<And>e w. construction_failure fo p path e w \<Longrightarrow> P e w"
  shows "fails_with rg P (create_instance fo res p path)"
  unfolding fails_with_def
proof (intro allI impI)
  fix w e w' assume run: "create_instance fo res p path w = (Inl e, w')"
    and w: "resolver_ok w" "ap_registry w = rg"
  from run [unfolded create_instance_def] show "P e w'"
  proof (cases rule: bindA_cases)
    case (raises e')
    then show ?thesis using build_arguments_fails [OF assms(1,2)] w by (auto dest: fails_withD)
  next
    case (returns arguments v)
    obtain answer u where call: "call_factory fo p arguments v = (answer, u)"
      by (cases "call_factory fo p arguments v")
    have "construction_failure fo p path e w'"
      using returns(2) call
      by (cases answer) (auto simp: bindA_apply tryA_def failA_def construction_failure_def)
    then show ?thesis by (rule own)
  qed
qed

lemma keep_no_error:
  "keep_app_instance p i w = (r, w') \<Longrightarrow> r = Inr ()"
  "keep_request_instance q p i w = (r, w') \<Longrightarrow> r = Inr ()"
  by (auto simp: keep_app_instance_def keep_request_instance_def modA_def)

lemma cached_or_fails:
  assumes "fails_with rg P create" and "\<And>i w r w'. keep i w = (r, w') \<Longrightarrow> r = Inr ()"
  shows "fails_with rg P (cached_or existing create keep)"
  using assms(1) unfolding fails_with_def cached_or_def
  by (auto simp: bindA_apply askA_def retA_def seqA_apply split: option.splits sum.splits prod.splits
      dest: assms(2))

lemma resolve_provider_fails:
  assumes create: "fails_with rg P (create_instance fo res p path)"
    and missing: "\<And>w. request = None \<Longrightarrow> pv_scope p = REQUEST \<Longrightarrow> P (missing_request p path) w"
  shows "fails_with rg P (resolve_provider fo res request path p)"
proof (cases "pv_scope p")
  case REQUEST
  then show ?thesis
    using create missing
    by (cases request) (auto simp: resolve_provider_def missing_request_def intro!: fails_with_failA
        cached_or_fails dest: keep_no_error)
qed (auto simp: resolve_provider_def intro!: cached_or_fails create dest: keep_no_error)

lemma resolve_contract_fails:
  assumes plan: "plan_ok rg plan" "registry_ok rg" "graph_ok rg"
  shows "get_provider rg c \<noteq> None \<Longrightarrow> place plan c < n \<Longrightarrow>
    fails_with rg (resolution_failure fo request rg c) (resolve_contract fo n request path c)"
proof (induction n arbitrary: c path)
  case (Suc n)
  then obtain p where p: "get_provider rg c = Some p" by blast
  then have pc: "pv_contract p = c" using plan(2) by (auto simp: get_provider_Some)
  have edge: "(c, d_contract d) \<in> dependency_edges rg" if "d \<in> set (pv_dependencies p)" for d
    using p that by (auto simp: dependency_edges_def)
  let ?res = "resolve_contract fo n request (path @ [c])"
  have deps: "fails_with rg (resolution_failure fo request rg c) (?res (d_contract d))"
    if "d \<in> set (pv_dependencies p)" for d
  proof (rule fails_with_mono [OF Suc.IH])
    show "get_provider rg (d_contract d) \<noteq> None" using plan(3) edge [OF that] by (auto simp: graph_ok_def)
    show "place plan (d_contract d) < n" using plan_order [OF plan(1,2) edge [OF that]] Suc.prems(2) by simp
    show "resolution_failure fo request rg c e w" if "resolution_failure fo request rg (d_contract d) e w" for e w
      using that edge [OF \<open>d \<in> set (pv_dependencies p)\<close>] by (rule resolution_failure_dependency)
  qed
  note here = resolution_failure_here [of rg p, unfolded pc, OF p]
  have "fails_with rg (resolution_failure fo request rg c) (create_instance fo ?res p (path @ [c]))"
    by (rule create_instance_fails [OF resolve_contract_resolves deps here(1)])
  then have made: "fails_with rg (resolution_failure fo request rg c)
      (resolve_provider fo ?res request (path @ [c]) p)"
    by (rule resolve_provider_fails) (simp add: here(2))
  show ?case unfolding fails_with_def
  proof (intro allI impI)
    fix w e w' assume "resolve_contract fo (Suc n) request path c w = (Inl e, w')"
      and w: "resolver_ok w" "ap_registry w = rg"
    then have "resolve_provider fo ?res request (path @ [c]) p w = (Inl e, w')"
      using p by (simp add: bindA_apply askA_def)
    then show "resolution_failure fo request rg c e w'" by (rule fails_withD [OF made _ w])
  qed
qed simp

lemma place_bound:
  assumes "plan_ok rg plan" and "registry_ok rg" and "get_provider rg c \<noteq> None"
  shows "place plan c < length (providers_of rg)"
proof -
  have dist: "distinct (map pv_contract (providers_of rg))"
  proof -
    have "map pv_contract (providers_of rg) = map fst (rg_providers rg)"
      using assms(2) by (auto simp: registry_ok_def providers_of_def)
    then show ?thesis using assms(2) by (simp add: registry_ok_def)
  qed
  have "length plan = length (providers_of rg)"
    using assms(1) dist distinct_card [of plan] distinct_card [of "providers_of rg"]
    by (simp add: plan_ok_def distinct_map)
  moreover obtain p where "p \<in> set plan" "pv_contract p = c"
    using assms by (auto simp: get_provider_Some plan_ok_def)
  then obtain xs ys where "plan = xs @ p # ys" by (auto dest: split_list)
  then have "place plan c < length plan"
    using assms(1) \<open>pv_contract p = c\<close> place_split [of xs p ys] by (auto simp: plan_ok_def)
  ultimately show ?thesis by simp
qed

lemma resolve_failure:
  assumes w: "resolver_ok w" and c: "get_provider (ap_registry w) c \<noteq> None"
    and limit: "length (providers_of (ap_registry w)) \<le> n"
    and run: "resolve_contract fo n request path c w = (Inl e, w')"
  shows "resolution_failure fo request (ap_registry w) c e w'"
proof -
  have ok: "registry_ok (ap_registry w)" "graph_ok (ap_registry w)" using w by (simp_all add: resolver_ok_def)
  then obtain plan where "plan_ok (ap_registry w) plan" using validate_iff validate_sound by blast
  then have "fails_with (ap_registry w) (resolution_failure fo request (ap_registry w) c)
      (resolve_contract fo n request path c)"
    using resolve_contract_fails [of "ap_registry w" plan c n fo request path]
      place_bound [of "ap_registry w" plan c] ok c limit by simp
  then show ?thesis using run w by (auto dest: fails_withD)
qed

end
