(* ===== verification/App_Run.thy ===== *)
theory App_Run
  imports App_Facts
begin

text \<open>
  The operations of an application as steps, in any order its callers choose, and what holds in
  every application they can reach: which states the lifecycle passes through, when there is
  something to release, and that every plugin is registered after the plugins it requires.
\<close>

section \<open>Releasing\<close>

text \<open>What closing a list of owned entries amounts to, in the order of the list.\<close>

definition perform_close :: "'w foreign_code \<Rightarrow> provider \<Rightarrow> obj \<Rightarrow> 'w \<Rightarrow> (exn + unit) \<times> 'w" where
  "perform_close fo p i v = (case close_calls p i of [] \<Rightarrow> (Inr (), v) | c # cs \<Rightarrow> fo_close fo c v)"

fun perform_closes ::
    "'w foreign_code \<Rightarrow> (provider \<times> obj) list \<Rightarrow> 'w \<Rightarrow> (string \<times> exn) list \<times> 'w" where
  "perform_closes fo [] v = ([], v)"
| "perform_closes fo ((p, i) # rest) v =
     (case perform_close fo p i v of (r, v') \<Rightarrow>
        (case perform_closes fo rest v' of (failures, v'') \<Rightarrow>
          ((case r of Inl e \<Rightarrow> [(contract_name (pv_contract p), e)] | Inr u \<Rightarrow> []) @ failures, v'')))"

lemma close_resource_env:
  "close_resource fo p i w =
     (case perform_close fo p i (pw_env w) of (r, v) \<Rightarrow> (r, w\<lparr>pw_env := v\<rparr>))"
  by (cases "close_calls p i") (simp_all add: perform_close_def close_resource_def retA_def foreign_def)

lemma close_each_app:
  assumes "ap_owned w = rev owned"
  shows "close_each fo (modA (\<lambda>w. w\<lparr>ap_owned := butlast (ap_owned w)\<rparr>)) owned failures w =
    (Inr (failures @ fst (perform_closes fo owned (pw_env w))),
     w\<lparr>ap_owned := [], pw_env := snd (perform_closes fo owned (pw_env w))\<rparr>)"
  using assms
proof (induction owned arbitrary: w failures)
  case Nil
  then show ?case by (simp add: retA_def)
next
  case (Cons e owned)
  obtain p i where e: "e = (p, i)" by (cases e)
  obtain r v where call: "perform_close fo p i (pw_env w) = (r, v)" by (metis surj_pair)
  let ?w = "w\<lparr>ap_owned := rev owned, pw_env := v\<rparr>"
  have "ap_owned ?w = rev owned" by simp
  note IH = Cons.IH [OF this]
  show ?case
    using Cons.prems IH call
    by (cases r) (simp_all add: e seqA_apply modA_def bindA_apply tryA_def close_resource_env
        butlast_append split: prod.splits)
qed

lemma close_app_owned_eq:
  "close_app_owned fo w = (Inr (fst (perform_closes fo (rev (ap_owned w)) (pw_env w))),
     w\<lparr>ap_owned := [], pw_env := snd (perform_closes fo (rev (ap_owned w)) (pw_env w))\<rparr>)"
  by (simp add: close_app_owned_def bindA_apply askA_def close_each_app)

lemma close_each_request:
  assumes "rq_owned (ap_requests w q) = rev owned"
  shows "close_each fo (update_request q (\<lambda>r. r\<lparr>rq_owned := butlast (rq_owned r)\<rparr>)) owned failures w =
    (Inr (failures @ fst (perform_closes fo owned (pw_env w))),
     w\<lparr>ap_requests := (ap_requests w)(q := (ap_requests w q)\<lparr>rq_owned := []\<rparr>),
       pw_env := snd (perform_closes fo owned (pw_env w))\<rparr>)"
  using assms
proof (induction owned arbitrary: w failures)
  case Nil
  then have "ap_requests w = (ap_requests w)(q := (ap_requests w q)\<lparr>rq_owned := []\<rparr>)" by (simp add: fun_eq_iff)
  then show ?case by (simp add: retA_def)
next
  case (Cons e owned)
  obtain p i where e: "e = (p, i)" by (cases e)
  obtain r v where call: "perform_close fo p i (pw_env w) = (r, v)" by (metis surj_pair)
  let ?w = "w\<lparr>ap_requests := (ap_requests w)(q := (ap_requests w q)\<lparr>rq_owned := rev owned\<rparr>), pw_env := v\<rparr>"
  have "rq_owned (ap_requests ?w q) = rev owned" by simp
  note IH = Cons.IH [OF this]
  show ?case
    using Cons.prems IH call
    by (cases r) (simp_all add: e seqA_apply modA_def bindA_apply tryA_def close_resource_env
        update_request_def butlast_append split: prod.splits cong: if_cong)
qed

lemma close_request_owned_eq:
  "close_request_owned fo q w =
     (Inr (fst (perform_closes fo (rev (rq_owned (ap_requests w q))) (pw_env w))),
      w\<lparr>ap_requests := (ap_requests w)(q := (ap_requests w q)\<lparr>rq_owned := []\<rparr>),
        pw_env := snd (perform_closes fo (rev (rq_owned (ap_requests w q))) (pw_env w))\<rparr>)"
  by (simp add: close_request_owned_def bindA_apply askA_def close_each_request)

text \<open>
  In the order of release, what an instance was built from, in its own scope, is released after
  it: the entry of a dependency stands further down the list.
\<close>

definition dependents_first :: "(provider \<times> obj) list \<Rightarrow> bool" where
  "dependents_first es \<longleftrightarrow> (\<forall>xs p i ys. es = xs @ (p, i) # ys \<longrightarrow>
     (\<forall>d \<in> set (pv_dependencies p). \<forall>q j. (q, j) \<in> set es \<longrightarrow> pv_contract q = d_contract d \<longrightarrow>
        (q, j) \<in> set ys))"

lemma store_ok_dependents_first:
  assumes ok: "store_ok r s insts owned"
  shows "dependents_first (rev owned)"
  unfolding dependents_first_def
proof (intro allI impI ballI)
  fix xs p i ys d q j
  assume split: "rev owned = xs @ (p, i) # ys" and d: "d \<in> set (pv_dependencies p)"
    and q: "(q, j) \<in> set (rev owned)" "pv_contract q = d_contract d"
  have "owned = rev ys @ (p, i) # rev xs" using split by (metis append.assoc append_Cons append_Nil
        rev.simps(2) rev_append rev_rev_ident)
  then have "deps_in r s (map_of insts) (set (rev ys)) p"
    using ok each_afterD [of _ "rev ys" "(p, i)" "rev xs"] by (force simp: store_ok_def owned_ordered_def)
  moreover have "entry_ok r s (map_of insts) (q, j)" using ok q(1) by (simp add: store_ok_def)
  ultimately show "(q, j) \<in> set ys"
    using d q(2) unfolding deps_in_def entry_ok_def by fastforce
qed

section \<open>Steps\<close>

text \<open>
  The calls an application takes. A request is a number handed out by \<open>enter_request\<close>; a
  resolution outside a request has none bound. \<open>finish_stop\<close> follows the wait of \<open>stop\<close>, which
  ends when no request is active or, under a shutdown timeout, earlier.
\<close>

definition wait_over :: "'w app \<Rightarrow> bool \<Rightarrow> bool" where
  "wait_over w timed_out \<longleftrightarrow> (if timed_out
     then as_shutdown_timeout (st_app (ap_settings w)) \<noteq> None else ap_active w = [])"

inductive app_step ::
    "(pyfloat option \<Rightarrow> string) \<Rightarrow> register_hooks \<Rightarrow> 'w foreign_code \<Rightarrow> 'w app \<Rightarrow> 'w app \<Rightarrow> bool"
  for ft :: "pyfloat option \<Rightarrow> string" and rh :: register_hooks and fo :: "'w foreign_code" where
  provide: "provide (rh_constructor rh) a source w = (r, w') \<Longrightarrow> app_step ft rh fo w w'"
| route: "app_route verb path handler name w = (r, w') \<Longrightarrow> app_step ft rh fo w w'"
| plugin: "add_plugin rh p config w = (r, w') \<Longrightarrow> app_step ft rh fo w w'"
| validate: "validate_app w = (plan, w') \<Longrightarrow> app_step ft rh fo w w'"
| start: "start fo w = (r, w') \<Longrightarrow> app_step ft rh fo w w'"
| begin_stop: "begin_stop w = (b, w') \<Longrightarrow> app_step ft rh fo w w'"
| finish_stop: "ap_state w = L_STOPPING \<Longrightarrow> wait_over w timed_out \<Longrightarrow>
    finish_stop ft fo timed_out w = (r, w') \<Longrightarrow> app_step ft rh fo w w'"
| enter: "enter_request w = (q, w') \<Longrightarrow> app_step ft rh fo w w'"
| resolve: "(\<forall>q. current = Some q \<longrightarrow> q < ap_next w) \<Longrightarrow> resolve_in_app fo current c w = (i, w') \<Longrightarrow>
    app_step ft rh fo w w'"
| resolve_request: "q < ap_next w \<Longrightarrow> resolve_in_request fo q c w = (i, w') \<Longrightarrow> app_step ft rh fo w w'"
| close: "q < ap_next w \<Longrightarrow> close_request fo q w = (r, w') \<Longrightarrow> app_step ft rh fo w w'"
| leave: "q < ap_next w \<Longrightarrow> leave_request fo q w = (r, w') \<Longrightarrow> app_step ft rh fo w w'"

inductive app_runs ::
    "(pyfloat option \<Rightarrow> string) \<Rightarrow> register_hooks \<Rightarrow> 'w foreign_code \<Rightarrow> 'w app \<Rightarrow> 'w app \<Rightarrow> bool"
  for ft :: "pyfloat option \<Rightarrow> string" and rh :: register_hooks and fo :: "'w foreign_code" where
  runs_refl: "app_runs ft rh fo w w"
| runs_step: "app_runs ft rh fo w v \<Longrightarrow> app_step ft rh fo v u \<Longrightarrow> app_runs ft rh fo w u"

lemma app_runs_trans: "app_runs ft rh fo v u \<Longrightarrow> app_runs ft rh fo w v \<Longrightarrow> app_runs ft rh fo w u"
  by (induction rule: app_runs.induct) (auto intro: runs_step)

definition app_reachable ::
    "(pyfloat option \<Rightarrow> string) \<Rightarrow> register_hooks \<Rightarrow> 'w foreign_code \<Rightarrow> 'w app \<Rightarrow> bool" where
  "app_reachable ft rh fo w \<longleftrightarrow> (\<exists>s env. app_runs ft rh fo (new_app s env) w)"

section \<open>Plugins\<close>

text \<open>Every plugin stands after the plugins it requires, under a name of its own.\<close>

definition declared :: "(string \<times> plugin_entry) list \<Rightarrow> (string \<times> plugin) list" where
  "declared es = map (map_prod id pe_plugin) es"

definition plugins_ok :: "(string \<times> plugin) list \<Rightarrow> bool" where
  "plugins_ok ps \<longleftrightarrow> distinct (map fst ps) \<and>
     each_after (\<lambda>before (n, p). set (required_names p) \<subseteq> fst ` set before) ps"

lemma declared_keys: "map fst (declared es) = map fst es"
  by (simp add: declared_def)

text \<open>Starting and stopping plugins changes their states and the environment, nothing else.\<close>

definition states_only :: "('w, 'z) plugin_world_scheme \<Rightarrow> ('w, 'z) plugin_world_scheme \<Rightarrow> bool" where
  "states_only w w' \<longleftrightarrow> (\<exists>es v. w' = w\<lparr>pw_entries := es, pw_env := v\<rparr> \<and> declared es = declared (pw_entries w))"

lemma states_only_refl: "states_only w w"
  unfolding states_only_def by (rule exI [of _ "pw_entries w"], rule exI [of _ "pw_env w"]) simp

lemma states_only_trans: "states_only w v \<Longrightarrow> states_only v u \<Longrightarrow> states_only w u"
  unfolding states_only_def by fastforce

interpretation plugin_states: procedure_evolution
  "states_only :: ('w, 'z) plugin_world_scheme \<Rightarrow> ('w, 'z) plugin_world_scheme \<Rightarrow> bool"
  by unfold_locales (rule states_only_refl, rule states_only_trans)

lemma tryA_along: "holds_along R m \<Longrightarrow> holds_along R (tryA m)"
  by (auto simp: holds_along_def tryA_def split: prod.splits)

lemma states_only_env: "states_only w (w\<lparr>pw_env := v\<rparr>)"
  unfolding states_only_def by (rule exI [of _ "pw_entries w"], rule exI [of _ v]) simp

lemma states_only_entries:
  "declared es = declared (pw_entries w) \<Longrightarrow> states_only w (w\<lparr>pw_entries := es\<rparr>)"
  unfolding states_only_def by (rule exI [of _ es], rule exI [of _ "pw_env w"]) simp

lemma foreign_states: "holds_along states_only (foreign f)"
  by (rule holds_alongI) (auto simp: foreign_def intro: states_only_env split: prod.splits)

lemma set_plugin_state_states: "holds_along states_only (set_plugin_state name st)"
  unfolding set_plugin_state_def
  by (intro plugin_states.modA states_only_entries) (auto simp: declared_def)

lemma stop_entries_states: "holds_along states_only (stop_entries hk names failures)"
proof (induction names arbitrary: failures)
  case Nil
  then show ?case by (simp add: plugin_states.retA)
next
  case (Cons name names)
  show ?case
    by (auto intro!: plugin_states.procedure tryA_along foreign_states set_plugin_state_states Cons
        split: option.split sum.split)
qed

lemma stop_all_states: "holds_along states_only (stop_all hk)"
  unfolding stop_all_def by (intro plugin_states.procedure stop_entries_states)

lemma start_each_states: "holds_along states_only (start_each hk started names)"
proof (induction names arbitrary: started)
  case Nil
  then show ?case by (simp add: plugin_states.retA)
next
  case (Cons name names)
  show ?case
    by (auto intro!: plugin_states.procedure tryA_along foreign_states set_plugin_state_states Cons
        stop_entries_states simp: start_failed_def split: option.split sum.split)
qed

lemma start_all_states: "holds_along states_only (start_all hk)"
  unfolding start_all_def by (intro plugin_states.procedure start_each_states)

section \<open>What holds in every application\<close>

definition holds_nothing :: "'w app \<Rightarrow> bool" where
  "holds_nothing w \<longleftrightarrow> ap_next w = 0 \<and> ap_instances w = [] \<and> ap_owned w = [] \<and>
     ap_requests w = (\<lambda>_. new_request)"

definition app_ok :: "'w app \<Rightarrow> bool" where
  "app_ok w \<longleftrightarrow> registry_ok (ap_registry w) \<and> routes_ok (ap_routes w) \<and>
     plugins_ok (declared (pw_entries w)) \<and>
     ap_state w \<noteq> L_STARTING \<and>
     (ap_state w \<in> {L_NEW, L_VALIDATED, L_FAILED} \<longrightarrow> holds_nothing w) \<and>
     (ap_state w \<in> {L_NEW, L_VALIDATED} \<longrightarrow> \<not> rg_frozen (ap_registry w) \<and>
       (\<forall>plan. ap_plan w = Some plan \<longrightarrow> validate_registry (ap_registry w) = Inr plan)) \<and>
     (ap_state w \<in> {L_READY, L_STOPPING} \<longrightarrow> rg_frozen (ap_registry w) \<and> resolver_ok w) \<and>
     (ap_state w = L_STOPPED \<longrightarrow> holds_nothing w \<or> resolver_ok w)"

lemma holds_nothing_update [simp]:
  "holds_nothing (w\<lparr>ap_routes := x\<rparr>) = holds_nothing w"
  "holds_nothing (w\<lparr>pw_active := y\<rparr>) = holds_nothing w"
  by (simp_all add: holds_nothing_def)

lemma resolver_ok_update [simp]:
  "resolver_ok (w\<lparr>ap_routes := x\<rparr>) = resolver_ok w"
  "resolver_ok (w\<lparr>pw_active := y\<rparr>) = resolver_ok w"
  "resolver_ok (w\<lparr>pw_entries := z\<rparr>) = resolver_ok w"
  "resolver_ok (w\<lparr>ap_state := st\<rparr>) = resolver_ok w"
  by (simp_all add: resolver_ok_def)

lemma app_ok_new: "app_ok (new_app s env)"
  by (simp add: app_ok_def new_app_def registry_ok_empty routes_ok_empty holds_nothing_def
      plugins_ok_def declared_def) (simp add: empty_registry_def)

text \<open>While the application is being composed: what every statement of a registration keeps.\<close>

definition composes :: "'w app \<Rightarrow> 'w app \<Rightarrow> bool" where
  "composes w w' \<longleftrightarrow> pw_entries w' = pw_entries w \<and>
     (app_ok w \<longrightarrow> open_for_registration (ap_state w) \<longrightarrow> app_ok w' \<and> open_for_registration (ap_state w'))"

interpretation composing: procedure_evolution "composes :: 'w app \<Rightarrow> 'w app \<Rightarrow> bool"
  by unfold_locales (auto simp: composes_def)

lemma ensure_registration_allowed_cases:
  "ensure_registration_allowed w = (r, w') \<Longrightarrow> w' = w \<and> (r = Inr () \<longleftrightarrow> open_for_registration (ap_state w))"
  by (auto simp: ensure_registration_allowed_def askA_def)

lemma guarded_composes:
  assumes "holds_along composes m"
  shows "holds_along composes (seqA ensure_registration_allowed m)"
  unfolding ensure_registration_allowed_def by (intro composing.procedure assms)

lemma forget_plan_composes: "holds_along composes forget_plan"
  by (rule holds_alongI) (auto simp: forget_plan_def modA_def composes_def app_ok_def
      open_for_registration_def holds_nothing_def)

lemma register_frozen: "register constructor r a = Inr (p, r') \<Longrightarrow> rg_frozen r' = rg_frozen r"
  by (drule register_iff) simp

lemma provide_composes: "holds_along composes (provide constructor a source)"
proof (rule holds_alongI)
  fix w :: "'a app" and r w' assume run: "provide constructor a source w = (r, w')"
  let ?a = "a\<lparr>ra_source := resolved_source w source\<rparr>"
  show "composes w w'"
  proof (cases "open_for_registration (ap_state w)")
    case False
    then have "w' = w" using run
      by (auto simp: provide_def seqA_apply ensure_registration_allowed_def askA_def)
    then show ?thesis by (simp add: composing.refl)
  next
    case opened: True
    show ?thesis
    proof (cases "register constructor (ap_registry w) ?a")
      case (Inl e)
      then have "w' = w" using run opened
        by (auto simp: provide_def seqA_apply ensure_registration_allowed_def askA_def register_in_app_def)
      then show ?thesis by (simp add: composing.refl)
    next
      case (Inr pr)
      then obtain p rg where reg: "register constructor (ap_registry w) ?a = Inr (p, rg)" by (cases pr) simp
      then have w': "w' = w\<lparr>ap_registry := rg, ap_plan := None,
          ap_state := (if ap_state w = L_VALIDATED then L_NEW else ap_state w)\<rparr>"
        using run opened by (auto simp: provide_def seqA_apply ensure_registration_allowed_def askA_def
            register_in_app_def forget_plan_def modA_def)
      show ?thesis
        using register_keeps_ok [OF reg] register_frozen [OF reg] opened
        by (auto simp: w' composes_def app_ok_def holds_nothing_def open_for_registration_def)
    qed
  qed
qed

lemma app_route_composes: "holds_along composes (app_route verb path handler name)"
  unfolding app_route_def
proof (rule guarded_composes, rule holds_alongI)
  fix w :: "'a app" and r w' assume run: "add_app_route verb path handler name w = (r, w')"
  show "composes w w'"
  proof (cases "add_route (ap_routes w) verb path handler name")
    case (Inl e)
    then show ?thesis using run by (simp add: add_app_route_def composing.refl)
  next
    case (Inr pr)
    then obtain rt rr where add: "add_route (ap_routes w) verb path handler name = Inr (rt, rr)"
      by (cases pr) simp
    then have w': "w' = w\<lparr>ap_routes := rr\<rparr>" using run by (simp add: add_app_route_def)
    show ?thesis
      using add_route_keeps [OF add] unfolding w' composes_def app_ok_def by simp
  qed
qed

lemma register_hook_composes: "holds_along composes (register_hook rh p config)"
proof -
  have "holds_along composes (make_call rh c)" for c
    by (cases c) (simp_all add: provide_composes app_route_composes)
  then have "holds_along composes (app_calls rh cs)" for cs
    by (induction cs) (auto intro!: composing.procedure)
  then show ?thesis unfolding register_hook_def
    by (auto intro!: composing.procedure split: option.split)
qed

lemma registering_composes: "holds_along composes (registering rh p name config)"
proof -
  have active: "composes w (w\<lparr>pw_active := x\<rparr>)" for w :: "'b app" and x
    by (simp add: composes_def app_ok_def)
  show ?thesis unfolding registering_def
    by (intro composing.procedure composing.modA tryA_along register_hook_composes active)
      (simp add: composing.failA composing.retA split: sum.split)
qed

section \<open>Every step keeps it\<close>

definition sound :: "('w, 'a) act \<Rightarrow> bool" where
  "sound m \<longleftrightarrow> (\<forall>w r w'. m w = (r, w') \<longrightarrow> app_ok w \<longrightarrow> app_ok w')"

lemma soundI: "(\<And>w r w'. m w = (r, w') \<Longrightarrow> app_ok w \<Longrightarrow> app_ok w') \<Longrightarrow> sound m"
  by (auto simp: sound_def)

lemma ensured_sound:
  assumes "\<And>w r w'. seqA ensure_registration_allowed m w = (r, w') \<Longrightarrow> app_ok w \<Longrightarrow>
    open_for_registration (ap_state w) \<Longrightarrow> app_ok w'"
  shows "sound (seqA ensure_registration_allowed m)"
proof (rule soundI)
  fix w r w' assume run: "seqA ensure_registration_allowed m w = (r, w')" and ok: "app_ok w"
  show "app_ok w'"
  proof (cases "open_for_registration (ap_state w)")
    case True
    with assms run ok show ?thesis by blast
  next
    case False
    then show ?thesis using run ok by (auto simp: seqA_apply ensure_registration_allowed_def askA_def)
  qed
qed

lemma provide_sound: "sound (provide constructor a source)"
  unfolding provide_def
  by (rule ensured_sound) (metis provide_def provide_composes holds_alongD composes_def)

lemma route_sound: "sound (app_route verb path handler name)"
  unfolding app_route_def
  by (rule ensured_sound) (metis app_route_def app_route_composes holds_alongD composes_def)

text \<open>Adding a plugin: the hook composes, and the new entry follows the entries it requires.\<close>

lemma add_to_plugins_composes_and_adds:
  assumes run: "add_to_plugins rh p config w = (r, w')" and ok: "app_ok w"
    and opened: "open_for_registration (ap_state w)"
  shows "app_ok w' \<and> open_for_registration (ap_state w')"
proof (cases "validate_plugin p")
  case (Inl e)
  then show ?thesis using assms by (simp add: add_to_plugins_def bindA_apply liftA_def)
next
  case (Inr name)
  have unchanged: ?thesis if "w' = w" using that ok opened by simp
  show ?thesis
  proof (cases "entry_of w name = None \<and> ensure_requirements_registered w p name = Inr ()")
    case False
    then show ?thesis using run Inr
      by (intro unchanged) (auto simp: add_to_plugins_def bindA_apply liftA_def seqA_apply askA_def
          split: sum.splits)
  next
    case checked: True
    show ?thesis
    proof (cases "build_plugin_config (rh_config rh) (pl_config_type p)
        (case config of Some t \<Rightarrow> t | None \<Rightarrow> plugin_options (ap_settings w) name) name")
      case (Inl e)
      then show ?thesis using run Inr checked
        by (intro unchanged) (auto simp: add_to_plugins_def bindA_apply liftA_def seqA_apply askA_def)
    next
      case config: (Inr typed)
      obtain r1 v where hook: "registering rh p name typed w = (r1, v)"
        by (cases "registering rh p name typed w")
      have v: "composes w v" using registering_composes hook by (rule holds_alongD)
      let ?es = "dict_set (pw_entries v) name \<lparr>pe_plugin = p, pe_config = typed, pe_state = P_REGISTERED\<rparr>"
      have w': "w' = v \<or> w' = v\<lparr>pw_entries := ?es\<rparr>"
        using run Inr checked config hook
        by (cases r1) (auto simp: add_to_plugins_def bindA_apply liftA_def seqA_apply askA_def modA_def)
      have new: "name \<notin> set (map fst (pw_entries w))"
        using checked by (auto simp: entry_of_def map_of_eq_None_iff)
      then have es: "declared ?es = declared (pw_entries w) @ [(name, p)]"
        using v by (simp add: composes_def dict_set_new declared_def)
      have "set (required_names p) \<subseteq> fst ` set (declared (pw_entries w))"
        using checked by (auto simp: ensure_requirements_registered_def filter_empty_conv entry_of_def
            declared_def image_image map_of_eq_None_iff)
      then have "plugins_ok (declared ?es)"
        using ok new unfolding es by (simp add: app_ok_def plugins_ok_def declared_keys)
      then have "app_ok (v\<lparr>pw_entries := ?es\<rparr>)"
        using v ok opened by (simp add: composes_def app_ok_def holds_nothing_def)
      then show ?thesis using w' v ok opened by (auto simp: composes_def)
    qed
  qed
qed

lemma add_plugin_sound: "sound (add_plugin rh p config)"
  unfolding add_plugin_def
proof (rule ensured_sound)
  fix w :: "'a app" and r w'
  assume run: "seqA ensure_registration_allowed (seqA (add_to_plugins rh p config) forget_plan) w = (r, w')"
    and ok: "app_ok w" and opened: "open_for_registration (ap_state w)"
  obtain r1 v where add: "add_to_plugins rh p config w = (r1, v)" by (cases "add_to_plugins rh p config w")
  note mid = add_to_plugins_composes_and_adds [OF add ok opened]
  have "composes v (snd (forget_plan v))"
    by (rule holds_alongD [OF forget_plan_composes]) (rule prod.collapse [symmetric])
  then show "app_ok w'"
    using run add mid opened
    by (cases r1) (auto simp: seqA_apply ensure_registration_allowed_def askA_def composes_def)
qed

lemma validate_app_sound: "sound validate_app"
proof (rule soundI)
  fix w :: "'a app" and r w' assume run: "validate_app w = (r, w')" and ok: "app_ok w"
  show "app_ok w'"
  proof (cases "open_for_registration (ap_state w)")
    case False
    then show ?thesis using run ok by (simp add: validate_app_def seqA_apply askA_def)
  next
    case opened: True
    show ?thesis
    proof (cases "validate_registry (ap_registry w)")
      case (Inl e)
      then show ?thesis using run ok opened by (simp add: validate_app_def seqA_apply bindA_apply askA_def)
    next
      case (Inr plan)
      then have "w' = w\<lparr>ap_plan := Some plan, ap_state := L_VALIDATED\<rparr>"
        using run opened by (simp add: validate_app_def seqA_apply bindA_apply askA_def modA_def retA_def)
      then show ?thesis using ok opened Inr
        by (auto simp: app_ok_def open_for_registration_def holds_nothing_def)
    qed
  qed
qed

subsection \<open>Starting\<close>

lemma freeze_simps [simp]:
  "get_provider (freeze r) = get_provider r" "providers_of (freeze r) = providers_of r"
  "registry_ok (freeze r) = registry_ok r" "rg_frozen (freeze r)"
  by (simp_all add: freeze_def get_provider_def providers_of_def registry_ok_def fun_eq_iff)

lemma graph_ok_freeze [simp]: "graph_ok (freeze r) = graph_ok r"
  by (simp add: graph_ok_def dependency_edges_def outlives_def)

lemma resolve_grows:
  assumes "resolve_contract fo n request path c w = (r, w')" and "resolver_ok w"
  shows "resolver_ok w' \<and> grows request w w'"
  using resolvesD [OF resolve_contract_resolves assms] by (simp add: progress_def)

lemma start_eager_grows:
  assumes "start_eager fo ps w = (r, w')" and "resolver_ok w"
  shows "resolver_ok w' \<and> grows None w w'"
  using assms
proof (induction ps arbitrary: w)
  case Nil
  then show ?case by (simp add: retA_def grows_refl)
next
  case (Cons p ps)
  show ?case
  proof (cases "pv_scope p = APP \<and> pv_eager p")
    case True
    with Cons.prems(1)
    have "bindA (resolve_contract fo (fo_limit fo) None [] (pv_contract p)) (\<lambda>_. start_eager fo ps) w = (r, w')"
      by simp
    then show ?thesis
    proof (cases rule: bindA_cases)
      case (raises e)
      then show ?thesis using resolve_grows [OF raises(1) Cons.prems(2)] by simp
    next
      case (returns i v)
      note one = resolve_grows [OF returns(1) Cons.prems(2)]
      note two = Cons.IH [OF returns(2) conjunct1 [OF one]]
      show ?thesis using grows_trans [OF conjunct2 [OF one] conjunct2 [OF two]] two by blast
    qed
  next
    case False
    then have "start_eager fo ps w = (r, w')"
      using Cons.prems(1) by (simp only: start_eager.simps False if_False)
    then show ?thesis using Cons by blast
  qed
qed

text \<open>
  An application being started: nothing is held but what the start itself creates, no request
  exists, and once the plan is found the graph is valid and frozen.
\<close>

definition starting :: "'w app \<Rightarrow> 'w app \<Rightarrow> bool" where
  "starting w v \<longleftrightarrow> ap_registry v \<in> {ap_registry w, freeze (ap_registry w)} \<and>
     ap_routes v = ap_routes w \<and> ap_plan v = ap_plan w \<and> ap_next v = 0 \<and>
     ap_requests v = (\<lambda>_. new_request) \<and> declared (pw_entries v) = declared (pw_entries w)"

lemma states_only_app:
  assumes "states_only w w'"
  shows "\<exists>es v. w' = w\<lparr>pw_entries := es, pw_env := v\<rparr> \<and> declared es = declared (pw_entries w)"
  using assms by (simp add: states_only_def)

lemma start_resources_starting:
  assumes run: "start_resources fo w = (r, w')" and ok: "app_ok w0"
    and opened: "open_for_registration (ap_state w0)" and w: "w = w0\<lparr>ap_state := L_STARTING\<rparr>"
  shows "starting w w' \<and> ap_state w' = L_STARTING \<and>
    (r = Inr () \<longrightarrow> resolver_ok w' \<and> rg_frozen (ap_registry w'))"
proof -
  have idle: "holds_nothing w" using ok opened by (auto simp: w app_ok_def open_for_registration_def holds_nothing_def)
  have reg: "registry_ok (ap_registry w)" using ok by (simp add: w app_ok_def)
  have valid: "graph_ok (ap_registry w)" if "plan_or_validate w = (Inr plan, w1)" for plan w1
  proof -
    have planned: "ap_plan w = Some ps \<Longrightarrow> validate_registry (ap_registry w) = Inr ps" for ps
      using ok opened by (auto simp: w app_ok_def open_for_registration_def)
    have "\<exists>plan. validate_registry (ap_registry w) = Inr plan"
    proof (cases "\<exists>p ps. ap_plan w = Some (p # ps)")
      case True
      then show ?thesis using planned by blast
    next
      case False
      then have "validate_registry (ap_registry w) = Inr plan"
        using that by (auto simp: plan_or_validate_def askA_def split: option.splits list.splits)
      then show ?thesis by blast
    qed
    then show ?thesis using validate_iff [OF reg] by simp
  qed
  have same: "snd (plan_or_validate w) = w" by (simp add: plan_or_validate_def askA_def)
  from run [unfolded start_resources_def] show ?thesis
  proof (cases rule: bindA_cases)
    case (raises e)
    then have "w' = w" using same by simp
    then show ?thesis using raises idle by (auto simp: starting_def holds_nothing_def w)
  next
    case (returns plan w1)
    then have w1: "w1 = w" using same by simp
    let ?f = "w\<lparr>ap_registry := freeze (ap_registry w)\<rparr>"
    have fok: "resolver_ok ?f"
      using valid [of plan w] returns(1) w1 reg idle
      by (simp add: resolver_ok_def holds_nothing_def new_request_def)
    have rest: "seqA (start_eager fo plan) (start_all (fo_plugins fo)) ?f = (r, w')"
      using returns(2) w1 by (simp add: seqA_apply modA_def)
    obtain r2 u where eager: "start_eager fo plan ?f = (r2, u)" by (cases "start_eager fo plan ?f")
    have u: "resolver_ok u" "grows None ?f u" using start_eager_grows [OF eager fok] by simp_all
    have ureq: "ap_requests u = (\<lambda>_. new_request)" 
      using u(2) idle by (auto simp: grows_def holds_nothing_def)
    have ustart: "starting w u" "ap_state u = L_STARTING" "rg_frozen (ap_registry u)"
      using u(2) idle ureq by (auto simp: starting_def grows_def holds_nothing_def w)
    show ?thesis
    proof (cases r2)
      case (Inl e)
      then show ?thesis using rest eager ustart by (auto simp: seqA_apply)
    next
      case (Inr x)
      then have "start_all (fo_plugins fo) u = (r, w')" using rest eager by (simp add: seqA_apply)
      then have "states_only u w'" by (rule holds_alongD [OF start_all_states])
      then obtain es v where "w' = u\<lparr>pw_entries := es, pw_env := v\<rparr>" "declared es = declared (pw_entries u)"
        by (blast dest: states_only_app)
      then show ?thesis using ustart u(1) by (simp add: starting_def)
    qed
  qed
qed

lemma start_cases:
  assumes run: "start fo w = (r, w')"
  obtains (stays) "w' = w" and "\<not> open_for_registration (ap_state w)"
  | (ready) v where "open_for_registration (ap_state w)" and "r = Inr ()"
      and "start_resources fo (w\<lparr>ap_state := L_STARTING\<rparr>) = (Inr (), v)" and "w' = v\<lparr>ap_state := L_READY\<rparr>"
  | (failed) e e' v env where "open_for_registration (ap_state w)" and "r = Inl e'"
      and "start_resources fo (w\<lparr>ap_state := L_STARTING\<rparr>) = (Inl e, v)"
      and "w' = v\<lparr>ap_owned := [], pw_env := env, ap_instances := [], ap_state := L_FAILED\<rparr>"
proof (cases "open_for_registration (ap_state w)")
  case False
  then have "w' = w"
    using run by (auto simp: start_def bindA_apply askA_def retA_def failA_def split: if_splits)
  then show ?thesis using stays False by blast
next
  case True
  obtain r1 v where res: "start_resources fo (w\<lparr>ap_state := L_STARTING\<rparr>) = (r1, v)"
    by (metis surj_pair)
  show ?thesis
  proof (cases r1)
    case (Inl e)
    then have "abandon_start fo e v = (r, w')"
      using run True res
      by (auto simp: start_def bindA_apply askA_def seqA_apply set_state_def modA_def tryA_def
          open_for_registration_def)
    then have "\<exists>e' env. r = Inl e' \<and>
      w' = v\<lparr>ap_owned := [], pw_env := env, ap_instances := [], ap_state := L_FAILED\<rparr>"
      by (auto simp: abandon_start_def bindA_apply seqA_apply close_app_owned_eq modA_def failA_def
          split: if_splits)
    then show ?thesis using failed True res Inl by blast
  next
    case (Inr x)
    then show ?thesis
      using run True res ready
      by (auto simp: start_def bindA_apply askA_def seqA_apply set_state_def modA_def tryA_def
          open_for_registration_def)
  qed
qed

lemma start_sound: "sound (start fo)"
proof (rule soundI)
  fix w :: "'a app" and r w' assume run: "start fo w = (r, w')" and ok: "app_ok w"
  from run show "app_ok w'"
  proof (cases rule: start_cases)
    case stays
    then show ?thesis using ok by simp
  next
    case (ready v)
    note v = start_resources_starting [OF ready(3) ok ready(1) refl]
    have "rg_frozen (ap_registry v)" "resolver_ok v" "declared (pw_entries v) = declared (pw_entries w)"
      "ap_routes v = ap_routes w" using v by (simp_all add: starting_def)
    moreover from this have "registry_ok (ap_registry v)" by (simp add: resolver_ok_def)
    ultimately show ?thesis using ok by (simp add: ready app_ok_def)
  next
    case (failed e e' v env)
    note v = start_resources_starting [OF failed(3) ok failed(1) refl]
    have "registry_ok (ap_registry v)" using v ok by (auto simp: starting_def app_ok_def)
    moreover have "declared (pw_entries v) = declared (pw_entries w)" "ap_routes v = ap_routes w"
      "ap_next v = 0" "ap_requests v = (\<lambda>_. new_request)" using v by (simp_all add: starting_def)
    ultimately show ?thesis using ok by (simp add: failed app_ok_def holds_nothing_def)
  qed
qed

subsection \<open>Stopping\<close>

lemma begin_stop_sound: "sound begin_stop"
  by (rule soundI) (auto simp: begin_stop_def bindA_apply askA_def seqA_apply set_state_def modA_def
      retA_def failA_def app_ok_def holds_nothing_def split: if_splits)

lemma raise_failures_apply:
  "raise_failures fs w = (if fs = [] then Inr () else Inl (shutdown_error fs), w)"
  by (simp add: raise_failures_def failA_def retA_def)

text \<open>The plugins' stop hooks first; if they let nothing escape, everything owned is closed.\<close>

lemma finish_stop_cases:
  assumes run: "finish_stop ft fo timed_out w = (r, w')"
  obtains (escapes) e where "stop_all (fo_plugins fo) w = (Inl e, w')" and "r = Inl e"
  | (stops) failures v where "stop_all (fo_plugins fo) w = (Inr failures, v)"
      and "w' = v\<lparr>ap_owned := [], ap_instances := [], ap_state := L_STOPPED,
             pw_env := snd (perform_closes fo (rev (ap_owned v)) (pw_env v))\<rparr>"
      and "r = (let fs = in_flight_failure ft w timed_out @ failures @
               fst (perform_closes fo (rev (ap_owned v)) (pw_env v))
             in if fs = [] then Inr () else Inl (shutdown_error fs))"
proof (cases "stop_all (fo_plugins fo) w")
  case (Pair r1 v)
  show ?thesis
  proof (cases r1)
    case (Inl e)
    then show ?thesis using run Pair escapes by (simp add: finish_stop_def bindA_apply askA_def)
  next
    case (Inr failures)
    then show ?thesis
      using run Pair by (intro stops) (auto simp: finish_stop_def bindA_apply askA_def
          close_app_owned_eq seqA_apply modA_def raise_failures_apply Let_def)
  qed
qed

lemma stop_all_app:
  assumes "stop_all hk w = (r, v)"
  shows "\<exists>es env. v = w\<lparr>pw_entries := es, pw_env := env\<rparr> \<and> declared es = declared (pw_entries w)"
  using assms by (intro states_only_app) (rule holds_alongD [OF stop_all_states])

lemma resolver_ok_emptied:
  "resolver_ok w \<Longrightarrow> resolver_ok (w\<lparr>ap_owned := [], ap_instances := [], ap_state := st, pw_env := env\<rparr>)"
  by (simp add: resolver_ok_def)

lemma finish_stop_sound:
  assumes run: "finish_stop ft fo timed_out w = (r, w')" and ok: "app_ok w" and st: "ap_state w = L_STOPPING"
  shows "app_ok w'"
  using run
proof (cases rule: finish_stop_cases)
  case (escapes e)
  then show ?thesis using stop_all_app [OF escapes(1)] ok st by (auto simp: app_ok_def)
next
  case (stops failures v)
  obtain es env where v: "v = w\<lparr>pw_entries := es, pw_env := env\<rparr>" "declared es = declared (pw_entries w)"
    using stop_all_app [OF stops(1)] by blast
  have "resolver_ok v" using ok st v by (simp add: app_ok_def)
  then have "resolver_ok w'" unfolding stops(2) by (rule resolver_ok_emptied)
  then show ?thesis using ok v by (simp add: app_ok_def stops(2))
qed

subsection \<open>Requests\<close>

lemma resolver_ok_request:
  assumes "resolver_ok w" and "rq_instances r = []" and "rq_owned r = []"
  shows "resolver_ok (w\<lparr>ap_requests := (ap_requests w)(q := r)\<rparr>)"
  using assms by (simp add: resolver_ok_def)

lemma enter_request_sound: "sound enter_request"
proof (rule soundI)
  fix w :: "'a app" and r w' assume run: "enter_request w = (r, w')" and ok: "app_ok w"
  show "app_ok w'"
  proof (cases "ap_state w = L_READY")
    case False
    then show ?thesis using run ok by (simp add: enter_request_def ensure_ready_def seqA_apply askA_def)
  next
    case True
    then have w': "w' = w\<lparr>ap_requests := (ap_requests w)(ap_next w := new_request),
        ap_next := ap_next w + 1, ap_active := ap_next w # ap_active w\<rparr>"
      using run by (simp add: enter_request_def ensure_ready_def seqA_apply bindA_apply askA_def modA_def retA_def)
    have "resolver_ok w" using ok True by (simp add: app_ok_def)
    then have "resolver_ok w'" by (simp add: w' resolver_ok_def new_request_def)
    then show ?thesis using ok True by (simp add: w' app_ok_def)
  qed
qed

lemma grown_sound:
  assumes "app_ok w" and "resolver_ok w'" and "grows request w w'"
    and "ap_state w \<in> {L_READY, L_STOPPING, L_STOPPED}"
  shows "app_ok w'"
  using assms by (auto simp: app_ok_def grows_def)

text \<open>A request that exists keeps the resolver's invariant alive, whatever the lifecycle state.\<close>

lemma request_exists:
  assumes "app_ok w" and "q < ap_next w"
  shows "resolver_ok w \<and> ap_state w \<in> {L_READY, L_STOPPING, L_STOPPED}"
proof (cases "ap_state w")
  case L_STOPPED
  then show ?thesis using assms by (auto simp: app_ok_def holds_nothing_def)
qed (use assms in \<open>auto simp: app_ok_def holds_nothing_def\<close>)

lemma resolve_in_app_cases:
  assumes "resolve_in_app fo current c w = (r, w')"
  shows "(ap_state w \<noteq> L_READY \<and> w' = w) \<or>
    (ap_state w = L_READY \<and> resolve_contract fo (fo_limit fo) current [] c w = (r, w'))"
  using assms by (cases "ap_state w = L_READY") (simp_all add: resolve_in_app_def ensure_ready_def seqA_apply askA_def)

lemma resolve_in_app_sound: "sound (resolve_in_app fo current c)"
proof (rule soundI)
  fix w :: "'a app" and r w' assume run: "resolve_in_app fo current c w = (r, w')" and ok: "app_ok w"
  from resolve_in_app_cases [OF run] show "app_ok w'"
  proof
    assume ready: "ap_state w = L_READY \<and> resolve_contract fo (fo_limit fo) current [] c w = (r, w')"
    then have "resolver_ok w" using ok by (simp add: app_ok_def)
    then show ?thesis using resolve_grows ready ok grown_sound by blast
  qed (use ok in simp)
qed

lemma resolve_in_request_cases:
  assumes "resolve_in_request fo q c w = (r, w')"
  shows "(rq_closed (ap_requests w q) \<and> w' = w \<and> (\<exists>e. r = Inl e)) \<or>
    (\<not> rq_closed (ap_requests w q) \<and> resolve_contract fo (fo_limit fo) (Some q) [] c w = (r, w'))"
  using assms by (cases "rq_closed (ap_requests w q)") (auto simp: resolve_in_request_def seqA_apply askA_def)

lemma resolve_in_request_sound:
  assumes run: "resolve_in_request fo q c w = (r, w')" and ok: "app_ok w" and q: "q < ap_next w"
  shows "app_ok w'"
  using resolve_in_request_cases [OF run]
proof
  assume "\<not> rq_closed (ap_requests w q) \<and> resolve_contract fo (fo_limit fo) (Some q) [] c w = (r, w')"
  then show ?thesis using resolve_grows request_exists [OF ok q] grown_sound [OF ok] by blast
qed (use ok in simp)

text \<open>What closing a request leaves, and what it raises.\<close>

lemma close_request_eq:
  assumes "\<not> rq_closed (ap_requests w q)"
  shows "close_request fo q w =
    (let (failures, env) = perform_closes fo (rev (rq_owned (ap_requests w q))) (pw_env w)
     in (if failures = [] then Inr () else Inl (shutdown_error failures),
         w\<lparr>ap_requests := (ap_requests w)(q :=
             (ap_requests w q)\<lparr>rq_closed := True, rq_owned := [], rq_instances := []\<rparr>),
           pw_env := env\<rparr>))"
  using assms
  by (simp add: close_request_def bindA_apply askA_def seqA_apply update_request_def modA_def
      close_request_owned_eq raise_failures_apply Let_def split: prod.splits)

lemma close_request_sound:
  assumes run: "close_request fo q w = (r, w')" and ok: "app_ok w" and q: "q < ap_next w"
  shows "app_ok w'"
proof (cases "rq_closed (ap_requests w q)")
  case True
  then show ?thesis using run ok by (simp add: close_request_def bindA_apply askA_def retA_def)
next
  case False
  then obtain env where w': "w' = w\<lparr>ap_requests := (ap_requests w)(q :=
      (ap_requests w q)\<lparr>rq_closed := True, rq_owned := [], rq_instances := []\<rparr>), pw_env := env\<rparr>"
    using run by (auto simp: close_request_eq Let_def split: prod.splits)
  note here = request_exists [OF ok q]
  then have "resolver_ok w'" unfolding w' by (simp add: resolver_ok_request)
  then show ?thesis using here ok by (auto simp: w' app_ok_def)
qed

lemma leave_request_sound:
  assumes run: "leave_request fo q w = (r, w')" and ok: "app_ok w" and q: "q < ap_next w"
  shows "app_ok w'"
proof -
  obtain r1 v where close: "close_request fo q w = (r1, v)" by (cases "close_request fo q w")
  then have w': "w' = v\<lparr>ap_active := removeAll q (ap_active v)\<rparr>"
    using run by (simp add: leave_request_def bindA_apply tryA_def seqA_apply modA_def liftA_def)
  have "app_ok v" using close_request_sound [OF close ok q] .
  moreover have "holds_nothing w' = holds_nothing v" "resolver_ok w' = resolver_ok v"
    by (simp_all add: w' holds_nothing_def resolver_ok_def)
  ultimately show ?thesis by (simp add: app_ok_def) (simp add: w')
qed

lemma soundD: "sound m \<Longrightarrow> m w = (r, w') \<Longrightarrow> app_ok w \<Longrightarrow> app_ok w'"
  by (simp add: sound_def)

lemmas calls_sound = provide_sound [THEN soundD] route_sound [THEN soundD] add_plugin_sound [THEN soundD]
  validate_app_sound [THEN soundD] start_sound [THEN soundD] begin_stop_sound [THEN soundD]
  enter_request_sound [THEN soundD] resolve_in_app_sound [THEN soundD]
  finish_stop_sound resolve_in_request_sound close_request_sound leave_request_sound

lemma app_step_ok: "app_step ft rh fo w w' \<Longrightarrow> app_ok w \<Longrightarrow> app_ok w'"
  by (induction rule: app_step.induct) (blast intro: calls_sound)+

lemma app_runs_ok: "app_runs ft rh fo w w' \<Longrightarrow> app_ok w \<Longrightarrow> app_ok w'"
  by (induction rule: app_runs.induct) (auto intro: app_step_ok)

lemma app_reachable_ok: "app_reachable ft rh fo w \<Longrightarrow> app_ok w"
  by (auto simp: app_reachable_def intro: app_runs_ok app_ok_new)

section \<open>The lifecycle and what outlasts a step\<close>

fun lifecycle_moves :: "lifecycle \<Rightarrow> lifecycle list" where
  "lifecycle_moves L_NEW = [L_NEW, L_VALIDATED, L_READY, L_FAILED, L_STOPPED]"
| "lifecycle_moves L_VALIDATED = [L_VALIDATED, L_NEW, L_READY, L_FAILED, L_STOPPED]"
| "lifecycle_moves L_STARTING = []"
| "lifecycle_moves L_READY = [L_READY, L_STOPPING]"
| "lifecycle_moves L_STOPPING = [L_STOPPING, L_STOPPED]"
| "lifecycle_moves L_STOPPED = [L_STOPPED]"
| "lifecycle_moves L_FAILED = [L_FAILED, L_STOPPED]"

definition running :: "lifecycle \<Rightarrow> bool" where
  "running st \<longleftrightarrow> st \<in> {L_READY, L_STOPPING}"

lemma refused_unchanged:
  assumes "\<not> open_for_registration (ap_state w)"
  shows "provide constructor a source w = (r, w') \<Longrightarrow> w' = w"
    and "app_route verb path handler name w = (r, w') \<Longrightarrow> w' = w"
    and "add_plugin rh p config w = (r, w') \<Longrightarrow> w' = w"
    and "validate_app w = (plan, w') \<Longrightarrow> w' = w"
    and "start fo w = (r, w') \<Longrightarrow> w' = w"
  using assms
  by (auto simp: provide_def app_route_def add_plugin_def validate_app_def start_def
      seqA_apply bindA_apply askA_def ensure_registration_allowed_def retA_def failA_def split: if_splits)

text \<open>
  What a step of a running application that leaves it running retains: the registry, every
  instance of the application, and of a request that was not closed.
\<close>

definition retains :: "'w app \<Rightarrow> 'w app \<Rightarrow> bool" where
  "retains w w' \<longleftrightarrow> ap_registry w' = ap_registry w \<and> ap_next w \<le> ap_next w' \<and>
     map_of (ap_instances w) \<subseteq>\<^sub>m map_of (ap_instances w') \<and>
     (\<forall>q < ap_next w. (rq_closed (ap_requests w q) \<longrightarrow> rq_closed (ap_requests w' q)) \<and>
        (\<not> rq_closed (ap_requests w' q) \<longrightarrow>
           map_of (rq_instances (ap_requests w q)) \<subseteq>\<^sub>m map_of (rq_instances (ap_requests w' q))))"

lemma retains_refl: "retains w w"
  by (simp add: retains_def)

lemma retains_trans: "retains w v \<Longrightarrow> retains v u \<Longrightarrow> retains w u"
  unfolding retains_def by (smt (verit) map_le_trans order_less_le_trans order_trans)

lemma grows_retains: "grows request w w' \<Longrightarrow> retains w w'"
proof -
  assume grown: "grows request w w'"
  have "map_of (rq_instances (ap_requests w q)) \<subseteq>\<^sub>m map_of (rq_instances (ap_requests w' q))" for q
  proof (cases "request = Some q")
    case True
    have "instance_map request w REQUEST \<subseteq>\<^sub>m instance_map request w' REQUEST"
      using grown by (simp add: grows_def)
    then show ?thesis by (simp add: instance_map_def True)
  next
    case False
    then show ?thesis using grown by (simp add: grows_def)
  qed
  moreover have "instance_map request w APP \<subseteq>\<^sub>m instance_map request w' APP"
    using grown by (simp add: grows_def)
  ultimately show ?thesis using grown by (simp add: retains_def grows_def instance_map_def)
qed

lemma resolve_moves:
  assumes "app_ok w"
  shows "resolve_in_app fo current c w = (r, w') \<Longrightarrow> ap_state w' = ap_state w \<and> retains w w'"
    and "q < ap_next w \<Longrightarrow> resolve_in_request fo q c w = (r, w') \<Longrightarrow>
      ap_state w' = ap_state w \<and> retains w w'"
proof -
  have grown: "ap_state w' = ap_state w \<and> retains w w'"
    if "resolver_ok w" and "resolve_contract fo n request path c w = (r, w')" for n request path
    using resolve_grows [OF that(2,1)] grows_retains by (auto simp: grows_def)
  show "ap_state w' = ap_state w \<and> retains w w'" if "resolve_in_app fo current c w = (r, w')"
    using resolve_in_app_cases [OF that]
  proof
    assume "ap_state w = L_READY \<and> resolve_contract fo (fo_limit fo) current [] c w = (r, w')"
    moreover from this have "resolver_ok w" using assms by (simp add: app_ok_def)
    ultimately show ?thesis using grown by blast
  qed (simp add: retains_refl)
  show "ap_state w' = ap_state w \<and> retains w w'"
    if "q < ap_next w" and "resolve_in_request fo q c w = (r, w')"
    using resolve_in_request_cases [OF that(2)] request_exists [OF assms that(1)] grown retains_refl by blast
qed

lemma request_moves:
  "enter_request w = (q, w') \<Longrightarrow> ap_state w' = ap_state w \<and> retains w w'"
  by (auto simp: enter_request_def ensure_ready_def seqA_apply bindA_apply askA_def modA_def retA_def
      retains_def split: sum.splits)

lemma close_moves: "close_request fo q w = (r, w') \<Longrightarrow> ap_state w' = ap_state w \<and> retains w w'"
proof (cases "rq_closed (ap_requests w q)")
  case True
  moreover assume "close_request fo q w = (r, w')"
  ultimately show ?thesis by (simp add: close_request_def bindA_apply askA_def retA_def retains_refl)
next
  case False
  moreover assume "close_request fo q w = (r, w')"
  ultimately show ?thesis by (auto simp: close_request_eq Let_def retains_def split: prod.splits)
qed

lemma leave_moves: "leave_request fo q w = (r, w') \<Longrightarrow> ap_state w' = ap_state w \<and> retains w w'"
proof -
  assume run: "leave_request fo q w = (r, w')"
  obtain r1 v where close: "close_request fo q w = (r1, v)" by (cases "close_request fo q w")
  then have "w' = v\<lparr>ap_active := removeAll q (ap_active v)\<rparr>"
    using run by (simp add: leave_request_def bindA_apply tryA_def seqA_apply modA_def liftA_def)
  then show ?thesis using close_moves [OF close] by (simp add: retains_def)
qed

lemma begin_stop_moves:
  "begin_stop w = (b, w') \<Longrightarrow> w' = w \<or>
     (ap_state w \<in> {L_NEW, L_VALIDATED, L_FAILED} \<and> w' = w\<lparr>ap_state := L_STOPPED\<rparr>) \<or>
     (ap_state w = L_READY \<and> w' = w\<lparr>ap_state := L_STOPPING\<rparr>)"
  by (auto simp: begin_stop_def bindA_apply askA_def seqA_apply set_state_def modA_def retA_def failA_def
      split: if_splits)

lemma finish_stop_moves:
  "finish_stop ft fo timed_out w = (r, w') \<Longrightarrow>
     ap_state w' = L_STOPPED \<or> (ap_state w' = ap_state w \<and> retains w w')"
proof (erule finish_stop_cases)
  fix e assume "stop_all (fo_plugins fo) w = (Inl e, w')"
  from stop_all_app [OF this] show ?thesis by (auto simp: retains_def)
qed simp

lemma step_moves:
  assumes "app_step ft rh fo w w'" and "app_ok w"
  shows "ap_state w' \<in> set (lifecycle_moves (ap_state w)) \<and>
    (running (ap_state w) \<longrightarrow> running (ap_state w') \<longrightarrow> retains w w')"
proof -
  have same: ?thesis if "ap_state w' = ap_state w \<and> retains w w'"
    using that assms(2) by (cases "ap_state w") (auto simp: app_ok_def)
  have composed: ?thesis
    if "\<not> open_for_registration (ap_state w) \<Longrightarrow> w' = w"
      and "open_for_registration (ap_state w) \<Longrightarrow> ap_state w' \<in> {L_NEW, L_VALIDATED, L_READY, L_FAILED}"
  proof (cases "open_for_registration (ap_state w)")
    case True
    then show ?thesis using that(2) by (auto simp: open_for_registration_def running_def)
  next
    case False
    then show ?thesis using that(1) by (intro same) (simp add: retains_refl)
  qed
  from assms(1) show ?thesis
  proof cases
    case (provide a source r)
    then show ?thesis
      by (intro composed) (use refused_unchanged provide_composes in blast,
        use holds_alongD [OF provide_composes provide] assms(2) in \<open>auto simp: composes_def open_for_registration_def\<close>)
  next
    case (route verb path handler name r)
    then show ?thesis
      by (intro composed) (use refused_unchanged in blast,
        use holds_alongD [OF app_route_composes route] assms(2) in \<open>auto simp: composes_def open_for_registration_def\<close>)
  next
    case (plugin p config r)
    have "ap_state w' \<in> {L_NEW, L_VALIDATED}" if "open_for_registration (ap_state w)"
    proof -
      obtain r1 v where add: "add_to_plugins rh p config w = (r1, v)" by (cases "add_to_plugins rh p config w")
      have "ap_state v \<in> {L_NEW, L_VALIDATED}"
        using add_to_plugins_composes_and_adds [OF add assms(2) that] by (simp add: open_for_registration_def)
      then show ?thesis using plugin add that
        by (cases r1) (auto simp: add_plugin_def seqA_apply ensure_registration_allowed_def askA_def
            forget_plan_def modA_def)
    qed
    then show ?thesis using plugin refused_unchanged(3) by (intro composed) blast+
  next
    case (validate plan)
    have "ap_state w' \<in> {L_NEW, L_VALIDATED}" if "open_for_registration (ap_state w)"
      using validate that by (auto simp: validate_app_def seqA_apply bindA_apply askA_def modA_def retA_def
          open_for_registration_def split: sum.splits)
    then show ?thesis using validate refused_unchanged(4) by (intro composed) blast+
  next
    case (start r)
    then show ?thesis
    proof (cases rule: start_cases)
      case stays
      then show ?thesis by (intro same) (simp add: retains_refl)
    next
      case (ready v)
      then show ?thesis by (auto simp: open_for_registration_def running_def)
    next
      case (failed e e' v env)
      then show ?thesis by (auto simp: open_for_registration_def running_def)
    qed
  next
    case (begin_stop b)
    from begin_stop_moves [OF this] show ?thesis
    proof
      assume "w' = w"
      then show ?thesis by (intro same) (simp add: retains_refl)
    qed (auto simp: running_def retains_def)
  next
    case (finish_stop timed_out r)
    from finish_stop_moves [OF finish_stop(3)] show ?thesis
      using finish_stop(1) same by (auto simp: running_def)
  next
    case (enter q)
    then show ?thesis by (intro same request_moves)
  next
    case (resolve current c i)
    show ?thesis by (rule same) (rule resolve_moves(1) [OF assms(2) resolve(2)])
  next
    case (resolve_request q c i)
    show ?thesis by (rule same) (rule resolve_moves(2) [OF assms(2) resolve_request])
  next
    case (close q r)
    show ?thesis by (rule same) (rule close_moves [OF close(2)])
  next
    case (leave q r)
    show ?thesis by (rule same) (rule leave_moves [OF leave(2)])
  qed
qed

text \<open>A running application stays running, retaining what it has, until it is stopped for good.\<close>

lemma runs_retain:
  assumes "app_runs ft rh fo w w'" and "app_ok w"
  shows "(running (ap_state w) \<longrightarrow> (running (ap_state w') \<and> retains w w') \<or> ap_state w' = L_STOPPED) \<and>
    (ap_state w = L_STOPPED \<longrightarrow> ap_state w' = L_STOPPED)"
  using assms
proof (induction rule: app_runs.induct)
  case (runs_refl w)
  then show ?case by (simp add: retains_refl)
next
  case (runs_step w v u)
  have "app_ok v" using app_runs_ok runs_step.hyps(1) runs_step.prems .
  note step = step_moves [OF runs_step.hyps(2) this]
  have "running (ap_state v) \<longrightarrow> running (ap_state u) \<or> ap_state u = L_STOPPED"
    using step by (cases "ap_state v") (auto simp: running_def)
  moreover have "ap_state v = L_STOPPED \<longrightarrow> ap_state u = L_STOPPED" using step by auto
  ultimately show ?case using runs_step.IH [OF runs_step.prems] step by (auto intro: retains_trans)
qed

end
