(* ===== verification/Plugin_Facts.thy ===== *)
theory Plugin_Facts
  imports Plugins
begin

text \<open>
  Starting plugins is all or nothing: when a start hook fails, the plugins started before it are
  stopped again, unless a stop hook lets something other than an \<open>Exception\<close> escape.
\<close>

abbreviation is_started :: "('w, 'z) plugin_world_scheme \<Rightarrow> string \<Rightarrow> bool" where
  "is_started w n \<equiv> state_of_plugin w n = Some P_STARTED"

lemma state_of_env [simp]: "state_of_plugin (w\<lparr>pw_env := v\<rparr>) n = state_of_plugin w n"
  by (simp add: state_of_plugin_def entry_of_def)

lemma entry_of_env [simp]: "entry_of (w\<lparr>pw_env := v\<rparr>) n = entry_of w n"
  by (simp add: entry_of_def)

lemma plugin_names_env [simp]: "plugin_names (w\<lparr>pw_env := v\<rparr>) = plugin_names w"
  by (simp add: plugin_names_def)

definition with_state :: "string \<Rightarrow> plugin_state \<Rightarrow> ('w, 'z) plugin_world_scheme \<Rightarrow> ('w, 'z) plugin_world_scheme" where
  "with_state name st w = w\<lparr>pw_entries :=
     map (\<lambda>(n, e). if n = name then (n, e\<lparr>pe_state := st\<rparr>) else (n, e)) (pw_entries w)\<rparr>"

lemma set_plugin_state_apply: "set_plugin_state name st w = (Inr (), with_state name st w)"
  by (simp add: set_plugin_state_def modA_def with_state_def)

lemma map_of_with_state:
  "map_of (map (\<lambda>(n, e). if n = name then (n, e\<lparr>pe_state := st\<rparr>) else (n, e)) es) n =
     (if n = name then map_option (\<lambda>e. e\<lparr>pe_state := st\<rparr>) (map_of es n) else map_of es n)"
  by (induction es) auto

lemma state_with_state [simp]:
  "state_of_plugin (with_state name st w) n =
     (if n = name then map_option (\<lambda>_. st) (state_of_plugin w n) else state_of_plugin w n)"
  by (simp add: state_of_plugin_def entry_of_def with_state_def map_of_with_state option.map_comp comp_def)

lemma names_with_state [simp]: "plugin_names (with_state name st w) = plugin_names w"
  by (auto simp: plugin_names_def with_state_def)

text \<open>One turn of the stopping loop on a started plugin.\<close>

lemma stop_started:
  assumes "entry_of w name = Some e" and "pe_state e = P_STARTED"
    and "stop_entries hk (name # names) failures w = (r, w')"
  obtains (escapes) err where "r = Inl err" and "\<not> instance_of err ''Exception''"
  | (continues) st v failures' where "st \<noteq> P_STARTED"
      and "stop_entries hk names failures' (with_state name st (w\<lparr>pw_env := v\<rparr>)) = (r, w')"
proof -
  obtain a v where hook: "hk_stop hk (pl_id (pe_plugin e)) (pw_env w) = (a, v)" by (metis surj_pair)
  show ?thesis
  proof (cases a)
    case (Inl err)
    then show ?thesis
      using assms hook continues [of P_FAILED "failures @ [(''plugin:'' @ name, err)]" v] escapes [of err]
      by (auto simp: bindA_apply askA_def tryA_def foreign_def seqA_apply set_plugin_state_apply failA_def
          split: if_splits)
  next
    case (Inr u)
    then show ?thesis
      using assms hook continues [of P_STOPPED failures v]
      by (simp add: bindA_apply askA_def tryA_def foreign_def seqA_apply set_plugin_state_apply)
  qed
qed

lemma stop_not_started:
  assumes "\<not> is_started w name"
  shows "stop_entries hk (name # names) failures w = stop_entries hk names failures w"
  using assms by (auto simp: bindA_apply askA_def state_of_plugin_def split: option.splits)

lemma stop_entries_result:
  assumes "stop_entries hk names failures w = (r, w')"
  shows "(\<exists>e. r = Inl e \<and> \<not> instance_of e ''Exception'') \<or>
    ((\<exists>fs. r = Inr fs) \<and> (\<forall>n \<in> set names. \<not> is_started w' n) \<and>
     (\<forall>n. is_started w' n \<longrightarrow> is_started w n))"
  using assms
proof (induction names arbitrary: w failures)
  case Nil
  then have "r = Inr failures \<and> w' = w" by (simp add: retA_def)
  then show ?case by simp
next
  case (Cons name names)
  show ?case
  proof (cases "is_started w name")
    case False
    then have "stop_entries hk names failures w = (r, w')" using Cons.prems stop_not_started by metis
    from Cons.IH [OF this] show ?thesis using False by auto
  next
    case True
    then obtain e where "entry_of w name = Some e" "pe_state e = P_STARTED"
      by (auto simp: state_of_plugin_def)
    then show ?thesis using Cons.prems
    proof (cases rule: stop_started)
      case (escapes err)
      then show ?thesis by blast
    next
      case (continues st v failures')
      from Cons.IH [OF continues(2)] show ?thesis
        using True continues(1) by (auto split: if_splits)
    qed
  qed
qed

lemma plugin_error_Exception:
  "instance_of (plugin_error ''PluginLifecycleError'' msg name phase) ''Exception''"
proof -
  have "''Exception'' \<in> set (fw_ancestors ''PluginLifecycleError'')" by code_simp
  then show ?thesis by (simp add: instance_of_def plugin_error_def)
qed

lemma start_failed_result:
  assumes "start_failed hk name started err w = (r, w')" and "\<forall>n. is_started w n \<longrightarrow> n \<in> set started"
  shows "\<exists>e. r = Inl e \<and> (instance_of e ''Exception'' \<longrightarrow> (\<forall>n. \<not> is_started w' n))"
proof -
  obtain r1 v where stop: "stop_entries hk started [] w = (r1, v)" by (metis surj_pair)
  from stop_entries_result [OF stop] show ?thesis
  proof
    assume "\<exists>e. r1 = Inl e \<and> \<not> instance_of e ''Exception''"
    then show ?thesis using assms(1) stop by (auto simp: start_failed_def bindA_apply)
  next
    assume stopped: "(\<exists>fs. r1 = Inr fs) \<and> (\<forall>n \<in> set started. \<not> is_started v n) \<and>
      (\<forall>n. is_started v n \<longrightarrow> is_started w n)"
    then have "w' = v" "\<exists>e. r = Inl e"
      using assms(1) stop by (auto simp: start_failed_def bindA_apply failA_def split: if_splits)
    then show ?thesis using stopped assms(2) by blast
  qed
qed

lemma start_each_result:
  assumes "start_each hk started names w = (r, w')" and "\<forall>n. is_started w n \<longrightarrow> n \<in> set started"
    and "set names \<subseteq> set (plugin_names w)" and "\<forall>n \<in> set started. is_started w n"
  shows "(r = Inr () \<and> (\<forall>n \<in> set names \<union> set started. is_started w' n)) \<or>
    (\<exists>e. r = Inl e \<and> (instance_of e ''Exception'' \<longrightarrow> (\<forall>n. \<not> is_started w' n)))"
  using assms
proof (induction names arbitrary: w started)
  case Nil
  then show ?case by (simp add: retA_def)
next
  case (Cons name names)
  have "name \<in> fst ` set (pw_entries w)" using Cons.prems(3) by (simp add: plugin_names_def)
  then obtain e where e: "entry_of w name = Some e"
    by (metis entry_of_def map_of_eq_None_iff not_None_eq)
  obtain a v where hook: "hk_start hk (pl_id (pe_plugin e)) (pw_env w) = (a, v)" by (metis surj_pair)
  show ?case
  proof (cases a)
    case (Inl err)
    then have "start_failed hk name started err (w\<lparr>pw_env := v\<rparr>) = (r, w')"
      using Cons.prems(1) e hook by (simp add: bindA_apply askA_def tryA_def foreign_def)
    from start_failed_result [OF this] show ?thesis using Cons.prems(2) by simp
  next
    case (Inr u)
    let ?w = "with_state name P_STARTED (w\<lparr>pw_env := v\<rparr>)"
    have rest: "start_each hk (name # started) names ?w = (r, w')"
      using Cons.prems(1) e hook Inr
      by (simp add: bindA_apply askA_def tryA_def foreign_def seqA_apply set_plugin_state_apply)
    have "state_of_plugin w name \<noteq> None" using e by (simp add: state_of_plugin_def)
    then have here: "is_started ?w name" by auto
    have "\<forall>n. is_started ?w n \<longrightarrow> n \<in> set (name # started)" using Cons.prems(2) by auto
    moreover have "\<forall>n \<in> set (name # started). is_started ?w n" using Cons.prems(4) here by auto
    moreover have "set names \<subseteq> set (plugin_names ?w)" using Cons.prems(3) by simp
    ultimately show ?thesis using Cons.IH [OF rest] by auto
  qed
qed

lemma start_all_result:
  assumes "start_all hk w = (r, w')" and "\<forall>n. \<not> is_started w n"
  shows "(r = Inr () \<and> (\<forall>n \<in> set (plugin_names w). is_started w' n)) \<or>
    (\<exists>e. r = Inl e \<and> (instance_of e ''Exception'' \<longrightarrow> (\<forall>n. \<not> is_started w' n)))"
  using start_each_result [of hk "[]" "plugin_names w" w r w'] assms
  by (simp add: start_all_def bindA_apply askA_def)

end
