(* ===== verification/App_Properties.thy ===== *)
theory App_Properties
  imports App_Run Plugin_Facts
begin

text \<open>
  The properties of the provider graph, of plugins and of a running application, with the sample
  application their witnesses use.
\<close>

section \<open>A sample application\<close>

text \<open>
  An application-scoped database with a close method, a request-scoped service built from it, and
  foreign code that constructs a closable object and logs every close.
\<close>

definition sample_class :: "string \<Rightarrow> py_class" where
  "sample_class n = PyClass n [] False False"

definition sample_contract :: "string \<Rightarrow> contract" where
  "sample_contract n = ClassKey (sample_class n)"

definition sample_callable :: "string \<Rightarrow> nat \<Rightarrow> string list \<Rightarrow> callable" where
  "sample_callable n i deps = \<lparr>fn_name = n, fn_class = Some (sample_class n),
     fn_parameters = Some (map (\<lambda>d. \<lparr>p_name = d, p_variadic = False, p_default = False,
       p_annotation = Marked (sample_contract d) [None]\<rparr>) deps),
     fn_returns = Some None, fn_id = i\<rparr>"

definition sample_registration :: "string \<Rightarrow> nat \<Rightarrow> string list \<Rightarrow> scope \<Rightarrow> bool \<Rightarrow> registration" where
  "sample_registration n i deps s eager = \<lparr>ra_contract = sample_contract n,
     ra_factory = Some (Calls (sample_callable n i deps)), ra_instance = None, ra_scope = Inl s,
     ra_eager = eager, ra_close = None, ra_replace = False, ra_source = []\<rparr>"

definition sample_classes :: "nat \<Rightarrow> py_class" where
  "sample_classes i = sample_class (if i = 0 then ''Db'' else ''Service'')"

definition sample_code :: "close_call list foreign_code" where
  "sample_code = \<lparr>fo_factory = (\<lambda>i args v. (Inr (Obj i (sample_classes i) False True), v)),
     fo_close = (\<lambda>c v. (Inr (), v @ [c])),
     fo_plugins = \<lparr>hk_start = (\<lambda>i v. (Inr (), v)), hk_stop = (\<lambda>i v. (Inr (), v))\<rparr>,
     fo_limit = 10\<rparr>"

definition sample_hooks :: register_hooks where
  "sample_hooks = \<lparr>rh_calls = (\<lambda>i c. []), rh_raises = (\<lambda>i c. None), rh_config = (\<lambda>k args. None),
     rh_constructor = (\<lambda>k. sample_callable (k_name k) 0 [])\<rparr>"

definition sample_text :: "pyfloat option \<Rightarrow> string" where
  "sample_text x = ''1.0''"

definition sample_settings :: settings where
  "sample_settings = default_settings\<lparr>st_app := (st_app default_settings)\<lparr>as_shutdown_timeout := Some (Finite 1)\<rparr>\<rparr>"

definition provided :: "registration \<Rightarrow> close_call list app \<Rightarrow> close_call list app" where
  "provided a w = snd (provide (rh_constructor sample_hooks) a None w)"

definition sample_new :: "close_call list app" where
  "sample_new = provided (sample_registration ''Service'' 1 [''Db''] REQUEST False)
     (provided (sample_registration ''Db'' 0 [] APP False) (new_app sample_settings []))"

definition sample_ready :: "close_call list app" where
  "sample_ready = snd (enter_request (snd (start sample_code sample_new)))"

definition sample_resolved :: "close_call list app" where
  "sample_resolved = snd (resolve_in_request sample_code 0 (sample_contract ''Service'') sample_ready)"

lemma sample_provided_step: "app_step sample_text sample_hooks fo w (provided a w)"
  unfolding provided_def by (rule app_step.provide [OF prod.collapse [symmetric]])

lemma sample_new_runs: "app_runs sample_text sample_hooks sample_code (new_app sample_settings []) sample_new"
  unfolding sample_new_def by (intro runs_step [OF _ sample_provided_step] runs_refl)

lemma sample_ready_runs: "app_runs sample_text sample_hooks sample_code (new_app sample_settings []) sample_ready"
  unfolding sample_ready_def
  by (rule runs_step [OF runs_step [OF sample_new_runs app_step.start [OF prod.collapse [symmetric]]]
        app_step.enter [OF prod.collapse [symmetric]]])

lemma sample_ready_reachable: "app_reachable sample_text sample_hooks sample_code sample_ready"
  unfolding app_reachable_def using sample_ready_runs by blast

lemma sample_new_reachable: "app_reachable sample_text sample_hooks sample_code sample_new"
  unfolding app_reachable_def using sample_new_runs by blast

lemma sample_ready_state: "ap_state sample_ready = L_READY" "ap_next sample_ready = 1"
  by code_simp+

section \<open>The provider graph\<close>

text \<open>
  C21: Validation of the provider graph is exact: it returns a plan if and only if every dependency
  has a provider, no provider depends on a shorter-lived one, and there is no cycle.
\<close>

theorem provider_check_exact:
  assumes "registry_ok r"
  shows "(\<exists>plan. validate_registry r = Inr plan) \<longleftrightarrow> graph_ok r"
  using assms by (rule validate_iff)

lemma sample_new_validates: "\<exists>plan. validate_registry (ap_registry sample_new) = Inr plan"
proof -
  have "case validate_registry (ap_registry sample_new) of Inl e \<Rightarrow> False | Inr plan \<Rightarrow> True" by code_simp
  then show ?thesis by (simp split: sum.splits)
qed

lemma reachable_registry_ok: "app_reachable ft rh fo w \<Longrightarrow> registry_ok (ap_registry w)"
  by (drule app_reachable_ok) (simp add: app_ok_def)

theorem provider_check_exact_witness: "graph_ok (ap_registry sample_new)"
  using provider_check_exact [OF reachable_registry_ok [OF sample_new_reachable]] sample_new_validates
  by blast

text \<open>
  The plan validation returns lists every registered provider exactly once, each after the
  providers of everything it depends on, so its dependencies have strictly smaller positions.
\<close>

theorem plan_is_dependency_safe:
  assumes "registry_ok r" and "validate_registry r = Inr plan"
  shows "set plan = set (providers_of r) \<and> distinct (map pv_contract plan) \<and>
    (\<forall>before p after. plan = before @ p # after \<longrightarrow> (\<forall>d \<in> set (pv_dependencies p).
       \<exists>q \<in> set before. pv_contract q = d_contract d \<and> scope_rank (pv_scope p) \<le> scope_rank (pv_scope q)))"
proof (intro conjI allI impI ballI)
  note sound = validate_sound [OF assms]
  then show "set plan = set (providers_of r)" and "distinct (map pv_contract plan)"
    by (simp_all add: plan_ok_def)
  fix before p after d assume split: "plan = before @ p # after" and d: "d \<in> set (pv_dependencies p)"
  have "d_contract ` set (pv_dependencies p) \<subseteq> pv_contract ` set before"
    using sound unfolding plan_ok_def dependency_ordered_def split by (blast dest: each_afterD)
  then obtain q where q: "q \<in> set before" "pv_contract q = d_contract d" using d by force
  moreover have "get_provider r (pv_contract p) = Some p" "get_provider r (pv_contract q) = Some q"
    using sound q(1) assms(1) by (auto simp: get_provider_Some plan_ok_def split)
  moreover have "outlives r (pv_contract p) (d_contract d)" using sound d split by auto
  ultimately show "\<exists>q \<in> set before. pv_contract q = d_contract d \<and>
      scope_rank (pv_scope p) \<le> scope_rank (pv_scope q)"
    by (auto simp: outlives_def)
qed

definition sample_plan :: "provider list" where
  "sample_plan = (case validate_registry (ap_registry sample_new) of Inr plan \<Rightarrow> plan | Inl e \<Rightarrow> [])"

lemma sample_plan_valid: "validate_registry (ap_registry sample_new) = Inr sample_plan"
  using sample_new_validates by (auto simp: sample_plan_def)

theorem plan_is_dependency_safe_witness:
  "length sample_plan = 2 \<and> set sample_plan = set (providers_of (ap_registry sample_new)) \<and>
   distinct (map pv_contract sample_plan)"
proof -
  have "length sample_plan = 2" by code_simp
  with plan_is_dependency_safe [OF reachable_registry_ok [OF sample_new_reachable] sample_plan_valid]
  show ?thesis by blast
qed

text \<open>
  When validation raises, the error names a real defect, with the path of declared dependencies
  that leads to it: a cycle, a dependency without a provider, or a provider that would capture a
  shorter-lived one.
\<close>

theorem validation_error_names_defect:
  assumes "registry_ok r" and "validate_registry r = Inl e"
  shows "names_cycle r e \<or> names_missing r e \<or> names_capture r e"
  using validate_error [OF assms] by (simp add: names_defect_def)

definition sample_incomplete :: "close_call list app" where
  "sample_incomplete = provided (sample_registration ''Service'' 1 [''Db''] REQUEST False)
     (new_app sample_settings [])"

lemma sample_incomplete_reachable: "app_reachable sample_text sample_hooks sample_code sample_incomplete"
  unfolding app_reachable_def sample_incomplete_def by (blast intro: runs_step [OF runs_refl sample_provided_step])

theorem validation_error_names_defect_witness:
  "\<exists>e. validate_registry (ap_registry sample_incomplete) = Inl e \<and>
     (names_cycle (ap_registry sample_incomplete) e \<or> names_missing (ap_registry sample_incomplete) e \<or>
      names_capture (ap_registry sample_incomplete) e)"
proof -
  have "case validate_registry (ap_registry sample_incomplete) of Inl e \<Rightarrow> True | Inr plan \<Rightarrow> False" by code_simp
  then obtain e where "validate_registry (ap_registry sample_incomplete) = Inl e" by (auto split: sum.splits)
  with validation_error_names_defect [OF reachable_registry_ok [OF sample_incomplete_reachable] this]
  show ?thesis by blast
qed

section \<open>Resolving in a running application\<close>

lemma ready_resolver_ok: "app_reachable ft rh fo w \<Longrightarrow> running (ap_state w) \<Longrightarrow> resolver_ok w"
  by (drule app_reachable_ok) (auto simp: app_ok_def running_def)

text \<open>
  C22: In a ready application a registered contract resolves to an instance, or the resolution ended
  with the construction of a registered provider the contract depends on: its factory raised, and
  the error is the one raised for it, or the instance it returned was refused. The one other failure
  is a request-scoped provider resolved without an active request. No dependency is missing, and
  nesting no deeper than the number of providers is enough.
\<close>

theorem ready_application_resolves:
  assumes "app_reachable ft rh fo w" and "ap_state w = L_READY"
    and "get_provider (ap_registry w) c \<noteq> None" and "length (providers_of (ap_registry w)) \<le> fo_limit fo"
    and "resolve_in_app fo current c w = (r, w')"
  shows "(\<exists>i. r = Inr i \<and> served current w' c i) \<or>
    (\<exists>e p path. r = Inl e \<and> get_provider (ap_registry w) (pv_contract p) = Some p \<and>
       (c, pv_contract p) \<in> (dependency_edges (ap_registry w))\<^sup>* \<and>
       (construction_failure fo p path e w' \<or>
        current = None \<and> pv_scope p = REQUEST \<and> e = missing_request p path))"
proof -
  have ok: "resolver_ok w" using ready_resolver_ok [OF assms(1)] assms(2) by (simp add: running_def)
  have run: "resolve_contract fo (fo_limit fo) current [] c w = (r, w')"
    using resolve_in_app_cases [OF assms(5)] assms(2) by simp
  show ?thesis
  proof (cases r)
    case (Inl e)
    then have "resolution_failure fo current (ap_registry w) c e w'"
      using resolve_failure [OF ok assms(3,4)] run by blast
    then show ?thesis using Inl unfolding resolution_failure_def by blast
  next
    case (Inr i)
    then show ?thesis using resolvesD [OF resolve_contract_resolves run ok] by blast
  qed
qed

text \<open>The service is resolved in a request; outside one it is refused.\<close>

theorem ready_application_resolves_witness:
  "(\<exists>i w'. resolve_in_app sample_code (Some 0) (sample_contract ''Service'') sample_ready = (Inr i, w') \<and>
      served (Some 0) w' (sample_contract ''Service'') i) \<and>
   (\<exists>e w'. resolve_in_app sample_code None (sample_contract ''Service'') sample_ready = (Inl e, w'))"
proof
  let ?c = "sample_contract ''Service''"
  have known: "get_provider (ap_registry sample_ready) ?c \<noteq> None"
    "length (providers_of (ap_registry sample_ready)) \<le> fo_limit sample_code" by code_simp+
  note resolves = ready_application_resolves [OF sample_ready_reachable sample_ready_state(1) known prod.collapse [symmetric]]
  have "case fst (resolve_in_app sample_code (Some 0) ?c sample_ready) of Inl e \<Rightarrow> False | Inr i \<Rightarrow> True"
    by code_simp
  then show "\<exists>i w'. resolve_in_app sample_code (Some 0) ?c sample_ready = (Inr i, w') \<and> served (Some 0) w' ?c i"
    using resolves [of "Some 0"] by (auto split: sum.splits) (metis prod.collapse)
  have "case fst (resolve_in_app sample_code None ?c sample_ready) of Inl e \<Rightarrow> True | Inr i \<Rightarrow> False"
    by code_simp
  then show "\<exists>e w'. resolve_in_app sample_code None ?c sample_ready = (Inl e, w')"
    by (auto split: sum.splits) (metis prod.collapse)
qed

text \<open>
  C23: An instance is shared while the application runs: what a request resolved for an application-
  or request-scoped contract is what it resolves again, in any later state in which the application
  still runs and the request is still open.
\<close>

theorem instance_shared_while_running:
  assumes reach: "app_reachable ft rh fo w" and ready: "running (ap_state w)" and q: "q < ap_next w"
    and first: "resolve_in_request fo q c w = (Inr i, w')"
    and p: "get_provider (ap_registry w) c = Some p" and scope: "pv_scope p \<noteq> TRANSIENT"
    and later: "app_runs ft rh fo w' w''" "running (ap_state w'')" "\<not> rq_closed (ap_requests w'' q)"
  shows "resolve_in_request fo q c w'' = (Inr i, w'')"
proof -
  have ok: "app_ok w" using reach by (rule app_reachable_ok)
  have res: "resolve_contract fo (fo_limit fo) (Some q) [] c w = (Inr i, w')"
    using resolve_in_request_cases [OF first] by blast
  have w': "ap_state w' = ap_state w" "retains w w'" using resolve_moves(2) [OF ok q first] by simp_all
  have "served (Some q) w' c i"
    using resolvesD [OF resolve_contract_resolves res] request_exists [OF ok q] by blast
  then have here: "instance_map (Some q) w' (pv_scope p) c = Some i"
    using p scope w'(2) by (simp add: served_def retains_def)
  have "app_ok w'" using calls_sound(10) [OF first ok q] .
  then have "retains w' w''" using runs_retain [OF later(1)] ready later(2) w'(1) by (auto simp: running_def)
  moreover have "q < ap_next w'" using q w'(2) by (simp add: retains_def)
  ultimately have "instance_map (Some q) w' (pv_scope p) \<subseteq>\<^sub>m instance_map (Some q) w'' (pv_scope p)"
    and reg: "get_provider (ap_registry w'') c = Some p"
    using later(3) p w'(2) by (auto simp: retains_def instance_map_def split: scope.split)
  then have now: "instance_map (Some q) w'' (pv_scope p) c = Some i"
    using here by (auto simp: map_le_def dom_def)
  obtain n where "fo_limit fo = Suc n" using res by (cases "fo_limit fo") (auto simp: failA_def)
  moreover have "pv_contract p = c" using p get_provider_Some ok by (auto simp: app_ok_def)
  ultimately show ?thesis
    using now reg scope later(3)
    by (cases "pv_scope p") (simp_all add: resolve_in_request_def seqA_apply askA_def bindA_apply retA_def
        resolve_provider_def cached_or_def instance_map_def)
qed

theorem instance_shared_while_running_witness:
  "\<exists>i w'. resolve_in_request sample_code 0 (sample_contract ''Service'') sample_ready = (Inr i, w') \<and>
     resolve_in_request sample_code 0 (sample_contract ''Service'') w' = (Inr i, w')"
proof -
  have served: "case fst (resolve_in_request sample_code 0 (sample_contract ''Service'') sample_ready) of
      Inl e \<Rightarrow> False | Inr i \<Rightarrow> True" by code_simp
  then obtain i where "fst (resolve_in_request sample_code 0 (sample_contract ''Service'') sample_ready) = Inr i"
    by (auto split: sum.splits)
  then have run: "resolve_in_request sample_code 0 (sample_contract ''Service'') sample_ready =
      (Inr i, sample_resolved)"
    by (simp add: sample_resolved_def prod_eq_iff)
  have p: "case get_provider (ap_registry sample_ready) (sample_contract ''Service'') of
      None \<Rightarrow> False | Some p \<Rightarrow> pv_scope p \<noteq> TRANSIENT" by code_simp
  then obtain p where p: "get_provider (ap_registry sample_ready) (sample_contract ''Service'') = Some p"
    "pv_scope p \<noteq> TRANSIENT" by (auto split: option.splits)
  have states: "running (ap_state sample_ready)" "running (ap_state sample_resolved)"
    "\<not> rq_closed (ap_requests sample_resolved 0)" "0 < ap_next sample_ready"
    by code_simp+
  show ?thesis
    using instance_shared_while_running [OF sample_ready_reachable states(1,4) run p runs_refl states(2,3)] run
    by blast
qed

section \<open>Releasing\<close>

text \<open>
  C24: Closing an open request releases what it owns in the reverse of the order in which it was
  created, and leaves it owning nothing; so does finishing a stop with what the application owns,
  if the stop hooks of the plugins return or raise an \<open>Exception\<close>. If another exception escapes
  from them, the stop ends with it and everything stays owned. In the order of release every
  instance comes before the instances of its scope it was built from.
\<close>

theorem released_in_reverse_dependency_order:
  assumes reach: "app_reachable ft rh fo w" and ready: "running (ap_state w)"
  shows "dependents_first (rev (ap_owned w)) \<and> dependents_first (rev (rq_owned (ap_requests w q))) \<and>
    (\<forall>r w'. \<not> rq_closed (ap_requests w q) \<longrightarrow> close_request fo q w = (r, w') \<longrightarrow>
      pw_env w' = snd (perform_closes fo (rev (rq_owned (ap_requests w q))) (pw_env w)) \<and>
      rq_owned (ap_requests w' q) = []) \<and>
    (\<forall>r w'. finish_stop ft fo timed_out w = (r, w') \<longrightarrow>
      (case stop_all (fo_plugins fo) w of
         (Inr failures, v) \<Rightarrow>
           pw_env w' = snd (perform_closes fo (rev (ap_owned w)) (pw_env v)) \<and> ap_owned w' = []
       | (Inl e, v) \<Rightarrow> r = Inl e \<and> pw_env w' = pw_env v \<and> ap_owned w' = ap_owned w))"
proof (intro conjI allI impI)
  have ok: "resolver_ok w" using reach ready by (rule ready_resolver_ok)
  then show "dependents_first (rev (ap_owned w))" and "dependents_first (rev (rq_owned (ap_requests w q)))"
    by (auto simp: resolver_ok_def intro: store_ok_dependents_first)
  fix r w' assume "\<not> rq_closed (ap_requests w q)" and "close_request fo q w = (r, w')"
  then show "pw_env w' = snd (perform_closes fo (rev (rq_owned (ap_requests w q))) (pw_env w))"
    and "rq_owned (ap_requests w' q) = []"
    by (auto simp: close_request_eq Let_def split: prod.splits)
next
  fix r w' assume fin: "finish_stop ft fo timed_out w = (r, w')"
  obtain stopped v where stop: "stop_all (fo_plugins fo) w = (stopped, v)" by (cases "stop_all (fo_plugins fo) w")
  from fin stop_all_app [OF stop]
  show "case stop_all (fo_plugins fo) w of
       (Inr failures, v) \<Rightarrow>
         pw_env w' = snd (perform_closes fo (rev (ap_owned w)) (pw_env v)) \<and> ap_owned w' = []
     | (Inl e, v) \<Rightarrow> r = Inl e \<and> pw_env w' = pw_env v \<and> ap_owned w' = ap_owned w"
    by (cases rule: finish_stop_cases) (use stop in auto)
qed

lemma sample_resolved_runs: "app_runs sample_text sample_hooks sample_code (new_app sample_settings []) sample_resolved"
  unfolding sample_resolved_def
  using runs_step [OF sample_ready_runs app_step.resolve_request [OF _ prod.collapse [symmetric]]]
    sample_ready_state(2) by (metis less_one)

lemma sample_resolved_reachable: "app_reachable sample_text sample_hooks sample_code sample_resolved"
  unfolding app_reachable_def using sample_resolved_runs by blast

definition sample_closing :: "close_call list app" where
  "sample_closing = snd (begin_stop sample_resolved)"

lemma sample_closing_reachable: "app_reachable sample_text sample_hooks sample_code sample_closing"
  unfolding app_reachable_def sample_closing_def
  using runs_step [OF sample_resolved_runs app_step.begin_stop [OF prod.collapse [symmetric]]] by blast

theorem released_in_reverse_dependency_order_witness:
  "length (ap_owned sample_closing) = 1 \<and> length (rq_owned (ap_requests sample_closing 0)) = 1 \<and>
   dependents_first (rev (ap_owned sample_closing)) \<and>
   pw_env (snd (close_request sample_code 0 sample_closing)) =
     snd (perform_closes sample_code (rev (rq_owned (ap_requests sample_closing 0))) (pw_env sample_closing)) \<and>
   pw_env (snd (finish_stop sample_text sample_code True sample_closing)) =
     snd (perform_closes sample_code (rev (ap_owned sample_closing))
       (pw_env (snd (stop_all (fo_plugins sample_code) sample_closing)))) \<and>
   ap_owned (snd (finish_stop sample_text sample_code True sample_closing)) = []"
proof -
  have states: "running (ap_state sample_closing)" "\<not> rq_closed (ap_requests sample_closing 0)"
    "length (ap_owned sample_closing) = 1" "length (rq_owned (ap_requests sample_closing 0)) = 1"
    by code_simp+
  have "case fst (stop_all (fo_plugins sample_code) sample_closing) of Inl e \<Rightarrow> False | Inr fs \<Rightarrow> True"
    by code_simp
  then obtain fs v where stop: "stop_all (fo_plugins sample_code) sample_closing = (Inr fs, v)"
    by (auto split: sum.splits) (metis prod.collapse)
  note released = released_in_reverse_dependency_order
    [OF sample_closing_reachable states(1), of 0 True, unfolded stop, simplified]
  have "pw_env w' = snd (perform_closes sample_code (rev (rq_owned (ap_requests sample_closing 0))) (pw_env sample_closing))"
    if "close_request sample_code 0 sample_closing = (r, w')" for r w'
    using released states(2) that by blast
  moreover have "pw_env w' = snd (perform_closes sample_code (rev (ap_owned sample_closing)) (pw_env v)) \<and>
      ap_owned w' = []" if "finish_stop sample_text sample_code True sample_closing = (r, w')" for r w'
    using released that by blast
  ultimately show ?thesis using released states stop by (simp add: prod_eq_iff)
qed

text \<open>
  C25: A start that fails leaves a failed application that owns nothing and keeps no instance, with
  its error or the errors of the release; a start that succeeds leaves a ready one.
\<close>

theorem failed_start_keeps_nothing:
  assumes "app_reachable ft rh fo w" and "ap_state w \<in> {L_NEW, L_VALIDATED}" and "start fo w = (r, w')"
  shows "(r = Inr () \<and> ap_state w' = L_READY \<and> graph_ok (ap_registry w') \<and> rg_frozen (ap_registry w')) \<or>
    ((\<exists>e. r = Inl e) \<and> ap_state w' = L_FAILED \<and> ap_owned w' = [] \<and> ap_instances w' = [])"
  using assms(3)
proof (cases rule: start_cases)
  case stays
  then show ?thesis using assms(2) by (simp add: open_for_registration_def)
next
  case (ready v)
  have "app_ok w'" using calls_sound(5) [OF assms(3) app_reachable_ok [OF assms(1)]] .
  then show ?thesis using ready by (simp add: app_ok_def resolver_ok_def)
next
  case (failed e e' v env)
  then show ?thesis by simp
qed

theorem failed_start_keeps_nothing_witness:
  "ap_state (snd (start sample_code sample_incomplete)) = L_FAILED \<and>
   ap_owned (snd (start sample_code sample_incomplete)) = []"
proof -
  have "ap_state sample_incomplete \<in> {L_NEW, L_VALIDATED}" and
    "ap_state (snd (start sample_code sample_incomplete)) = L_FAILED" by code_simp+
  then show ?thesis
    using failed_start_keeps_nothing [OF sample_incomplete_reachable _ prod.collapse [symmetric], of] by auto
qed

text \<open>
  A request that outlives the application - \<open>stop\<close> timed out on it - still resolves: an
  application-scoped instance it creates is owned by the stopped application, which no later call
  of \<open>stop\<close> releases.
\<close>

theorem resolve_after_stop_leaks:
  assumes "app_reachable ft rh fo w" and "ap_state w = L_STOPPED" and "q < ap_next w"
    and "get_provider (ap_registry w) c = Some p" and "pv_scope p = APP"
    and "resolve_in_request fo q c w = (Inr i, w')" and "needs_cleanup p i"
    and "app_runs ft rh fo w' w''"
  shows "(p, i) \<in> set (ap_owned w') \<and> ap_state w'' = L_STOPPED \<and> begin_stop w'' = (Inr False, w'')"
proof (intro conjI)
  have ok: "app_ok w" using assms(1) by (rule app_reachable_ok)
  have okr: "resolver_ok w" using request_exists [OF ok assms(3)] by simp
  have res: "resolve_contract fo (fo_limit fo) (Some q) [] c w = (Inr i, w')"
    using resolve_in_request_cases [OF assms(6)] by blast
  note prog = resolvesD [OF resolve_contract_resolves res okr]
  have reg: "ap_registry w' = ap_registry w" and okr': "resolver_ok w'" and st: "ap_state w' = ap_state w"
    using prog by (simp_all add: progress_def grows_def)
  have "map_of (ap_instances w') c = Some i"
    using prog assms(4,5) reg by (simp add: served_def instance_map_def)
  moreover have "cached_ok (ap_registry w) APP (map_of (ap_instances w')) (ap_owned w')"
    using okr' reg by (simp add: resolver_ok_def store_ok_def)
  ultimately show "(p, i) \<in> set (ap_owned w')"
    using assms(4,7) unfolding cached_ok_def by (metis option.inject)
  have "app_ok w'" using calls_sound(10) [OF assms(6) ok assms(3)] .
  then show "ap_state w'' = L_STOPPED" using runs_retain [OF assms(8)] st assms(2) by simp
  then show "begin_stop w'' = (Inr False, w'')" by (simp add: begin_stop_def bindA_apply askA_def retA_def)
qed

definition sample_stopped :: "close_call list app" where
  "sample_stopped = snd (finish_stop sample_text sample_code True (snd (begin_stop sample_ready)))"

lemma sample_stopped_reachable: "app_reachable sample_text sample_hooks sample_code sample_stopped"
proof -
  have "ap_state (snd (begin_stop sample_ready)) = L_STOPPING" "wait_over (snd (begin_stop sample_ready)) True"
    by code_simp+
  then show ?thesis unfolding app_reachable_def sample_stopped_def
    using runs_step [OF runs_step [OF sample_ready_runs app_step.begin_stop [OF prod.collapse [symmetric]]]
        app_step.finish_stop [OF _ _ prod.collapse [symmetric]]] by blast
qed

theorem resolve_after_stop_leaks_witness:
  "\<exists>p i w'. resolve_in_request sample_code 0 (sample_contract ''Db'') sample_stopped = (Inr i, w') \<and>
     (p, i) \<in> set (ap_owned w') \<and> begin_stop w' = (Inr False, w')"
proof -
  let ?run = "resolve_in_request sample_code 0 (sample_contract ''Db'') sample_stopped"
  have "case (fst ?run, get_provider (ap_registry sample_stopped) (sample_contract ''Db'')) of
      (Inr i, Some p) \<Rightarrow> pv_scope p = APP \<and> needs_cleanup p i | _ \<Rightarrow> False" by code_simp
  then obtain i p where run: "fst ?run = Inr i"
    and p: "get_provider (ap_registry sample_stopped) (sample_contract ''Db'') = Some p"
      "pv_scope p = APP" "needs_cleanup p i" by (auto split: sum.splits option.splits)
  have eq: "?run = (Inr i, snd ?run)" using run by (simp add: prod_eq_iff)
  have states: "ap_state sample_stopped = L_STOPPED" "0 < ap_next sample_stopped" by code_simp+
  from resolve_after_stop_leaks [OF sample_stopped_reachable states p(1,2) eq p(3) runs_refl] eq
  show ?thesis by blast
qed

text \<open>
  A stop whose plugin hooks let a \<open>BaseException\<close> escape, as a cancelled hook does, releases
  nothing and leaves the application stopping; from then on every \<open>stop\<close> is refused.
\<close>

theorem interrupted_stop_releases_nothing:
  assumes "stop_all (fo_plugins fo) w = (Inl e, v)" and "ap_state w = L_STOPPING"
    and "finish_stop ft fo timed_out w = (r, w')"
  shows "r = Inl e \<and> ap_owned w' = ap_owned w \<and> ap_state w' = L_STOPPING \<and>
    (\<exists>refusal. begin_stop w' = (Inl refusal, w') \<and> class_of refusal = Fw ''LifecycleStateError'')"
proof -
  have ended: "r = Inl e \<and> w' = v" using assms(3)
    by (cases rule: finish_stop_cases) (use assms(1) in auto)
  moreover have "ap_owned v = ap_owned w \<and> ap_state v = L_STOPPING"
    using stop_all_app [OF assms(1)] assms(2) by auto
  ultimately show ?thesis by (simp add: begin_stop_def bindA_apply askA_def failA_def lifecycle_error_def)
qed

definition sample_plugin :: "nat \<Rightarrow> string \<Rightarrow> string list \<Rightarrow> plugin" where
  "sample_plugin i name requires = \<lparr>pl_id = i, pl_name = PStr name, pl_api_version = PStr ''1'',
     pl_requires = PTuple (map PStr requires), pl_config_type = None\<rparr>"

definition plugged :: "plugin \<Rightarrow> close_call list app \<Rightarrow> close_call list app" where
  "plugged p w = snd (add_plugin sample_hooks p None w)"

definition sample_plugged :: "close_call list app" where
  "sample_plugged = plugged (sample_plugin 1 ''metrics'' [''database'']) (plugged (sample_plugin 0 ''database'' []) sample_new)"

text \<open>The same foreign code, with a stop hook of the second plugin that is cancelled.\<close>

definition cancelled_code :: "close_call list foreign_code" where
  "cancelled_code = sample_code\<lparr>fo_plugins := (fo_plugins sample_code)\<lparr>hk_stop :=
     (\<lambda>i v. (if i = 1 then Inl (raised ''CancelledError'' []) else Inr (), v))\<rparr>\<rparr>"

definition sample_stopping :: "close_call list app" where
  "sample_stopping = snd (begin_stop (snd (start cancelled_code sample_plugged)))"

theorem interrupted_stop_releases_nothing_witness:
  "\<exists>r w' refusal. finish_stop sample_text cancelled_code False sample_stopping = (r, w') \<and>
     begin_stop w' = (Inl refusal, w') \<and> class_of refusal = Fw ''LifecycleStateError''"
proof -
  have "case fst (stop_all (fo_plugins cancelled_code) sample_stopping) of Inl e \<Rightarrow> True | Inr fs \<Rightarrow> False"
    and st: "ap_state sample_stopping = L_STOPPING" by code_simp+
  then obtain e where "fst (stop_all (fo_plugins cancelled_code) sample_stopping) = Inl e"
    by (auto split: sum.splits)
  then have stop: "stop_all (fo_plugins cancelled_code) sample_stopping =
      (Inl e, snd (stop_all (fo_plugins cancelled_code) sample_stopping))" by (simp add: prod_eq_iff)
  obtain r w' where "finish_stop sample_text cancelled_code False sample_stopping = (r, w')" by (metis surj_pair)
  with interrupted_stop_releases_nothing [OF stop st this] show ?thesis by blast
qed

section \<open>Plugins\<close>

text \<open>
  In every reachable application plugins have names of their own and each stands, in start
  order, after every plugin it requires.
\<close>

theorem requirements_registered_first:
  assumes "app_reachable ft rh fo w" and "pw_entries w = before @ (name, e) # after"
  shows "name \<notin> fst ` set before \<and> set (required_names (pe_plugin e)) \<subseteq> fst ` set before"
proof
  have ok: "plugins_ok (declared (pw_entries w))" using app_reachable_ok [OF assms(1)] by (simp add: app_ok_def)
  then show "name \<notin> fst ` set before" using assms(2) by (force simp: plugins_ok_def declared_def)
  have "each_after (\<lambda>before (n, p). set (required_names p) \<subseteq> fst ` set before)
      (declared before @ (name, pe_plugin e) # declared after)"
    using ok assms(2) by (simp add: plugins_ok_def declared_def)
  from each_afterD [OF this] show "set (required_names (pe_plugin e)) \<subseteq> fst ` set before"
    by (simp add: declared_def image_image)
qed

lemma sample_plugged_reachable: "app_reachable sample_text sample_hooks sample_code sample_plugged"
proof -
  have "app_step sample_text sample_hooks sample_code w (plugged p w)" for p w
    unfolding plugged_def by (rule app_step.plugin [OF prod.collapse [symmetric]])
  then show ?thesis unfolding app_reachable_def sample_plugged_def
    using sample_new_runs by (blast intro: runs_step)
qed

theorem requirements_registered_first_witness:
  "map fst (pw_entries sample_plugged) = [''database'', ''metrics''] \<and>
   set (required_names (pe_plugin (snd (pw_entries sample_plugged ! 1)))) \<subseteq> {''database''}"
proof -
  have names: "map fst (pw_entries sample_plugged) = [''database'', ''metrics'']" by code_simp
  then obtain d m where "pw_entries sample_plugged = [(''database'', d)] @ (''metrics'', m) # []"
    by (cases "pw_entries sample_plugged"; cases "tl (pw_entries sample_plugged)") auto
  from requirements_registered_first [OF sample_plugged_reachable this] names this show ?thesis by auto
qed

text \<open>
  C26: Starting plugins is all or nothing: either every plugin is started, or the start raises and,
  unless something other than an \<open>Exception\<close> escapes, no plugin is left started.
\<close>

theorem plugins_start_together:
  assumes "start_all hk w = (r, w')" and "\<forall>n. state_of_plugin w n \<noteq> Some P_STARTED"
  shows "(r = Inr () \<and> (\<forall>n \<in> set (plugin_names w). state_of_plugin w' n = Some P_STARTED)) \<or>
    (\<exists>e. r = Inl e \<and> (instance_of e ''Exception'' \<longrightarrow>
       (\<forall>n. state_of_plugin w' n \<noteq> Some P_STARTED)))"
  using start_all_result [OF assms(1)] assms(2) by blast

definition failing_hooks :: "close_call list plugin_hooks" where
  "failing_hooks = (fo_plugins sample_code)\<lparr>hk_start :=
     (\<lambda>i v. (if i = 1 then Inl (raised ''OSError'' ''refused'') else Inr (), v))\<rparr>"

theorem plugins_start_together_witness:
  "\<exists>e. fst (start_all failing_hooks sample_plugged) = Inl e"
proof -
  have "list_all (\<lambda>(n, e). pe_state e \<noteq> P_STARTED) (pw_entries sample_plugged)" by code_simp
  then have none: "\<forall>n. state_of_plugin sample_plugged n \<noteq> Some P_STARTED"
    by (auto simp: state_of_plugin_def entry_of_def list_all_iff dest: map_of_SomeD)
  have "state_of_plugin (snd (start_all failing_hooks sample_plugged)) ''metrics'' \<noteq> Some P_STARTED"
    "''metrics'' \<in> set (plugin_names sample_plugged)" by code_simp+
  with plugins_start_together [OF prod.collapse [symmetric] none, of failing_hooks] show ?thesis by blast
qed

end
