(* ===== verification/Settings_Facts.thy ===== *)
theory Settings_Facts
  imports Settings
begin

text \<open>
  What the merged settings hold: an explicit override wins over the environment, the environment
  over the file, the file over the defaults; and what the sections of the plugins and of the
  providers are when one name is spelled in two ways.
\<close>

section \<open>Layers\<close>

text \<open>The value at a path of keys.\<close>

fun setting_at :: "table \<Rightarrow> string list \<Rightarrow> pyval option" where
  "setting_at t [] = None"
| "setting_at t [k] = map_of t k"
| "setting_at t (k # ks) =
     (case map_of t k of Some (PDict u) \<Rightarrow> setting_at u ks | _ \<Rightarrow> None)"

text \<open>A table says nothing about a path: it neither binds it nor puts a plain value on the way.\<close>

fun silent_at :: "table \<Rightarrow> string list \<Rightarrow> bool" where
  "silent_at t [] = False"
| "silent_at t [k] = (map_of t k = None)"
| "silent_at t (k # ks) =
     (case map_of t k of None \<Rightarrow> True | Some (PDict u) \<Rightarrow> silent_at u ks | _ \<Rightarrow> False)"

definition is_table :: "pyval \<Rightarrow> bool" where
  "is_table v = (case v of PDict t \<Rightarrow> True | _ \<Rightarrow> False)"

text \<open>No dictionary inside a value has a key twice, as no Python dictionary has.\<close>

fun well_keyed :: "pyval \<Rightarrow> bool" where
  "well_keyed (PDict t) = (distinct (map fst t) \<and> (\<forall>(k, v) \<in> set t. well_keyed v))"
| "well_keyed v = True"

definition merged_value :: "pyval option \<Rightarrow> pyval \<Rightarrow> pyval" where
  "merged_value base v =
     (case v of PDict t \<Rightarrow> (case base of Some (PDict b) \<Rightarrow> PDict (deep_merge b t) | _ \<Rightarrow> v) | _ \<Rightarrow> v)"

lemma is_table_iff: "is_table v \<longleftrightarrow> (\<exists>t. v = PDict t)"
  by (cases v) (simp_all add: is_table_def)

lemma deep_merge_Cons:
  "deep_merge b ((k, v) # override) =
     deep_merge (dict_set b k (merged_value (map_of b k) v)) override"
  by (simp add: merged_value_def)

lemma merged_value_plain [simp]: "\<not> is_table v \<Longrightarrow> merged_value base v = v"
  by (cases v) (simp_all add: is_table_def merged_value_def)

declare deep_merge.simps(2) [simp del]

lemma map_of_deep_merge:
  "distinct (map fst override) \<Longrightarrow>
   map_of (deep_merge b override) k =
     (case map_of override k of None \<Rightarrow> map_of b k | Some v \<Rightarrow> Some (merged_value (map_of b k) v))"
proof (induction override arbitrary: b)
  case Nil
  then show ?case by simp
next
  case (Cons kv override)
  obtain k' v' where kv: "kv = (k', v')" by fastforce
  from Cons.prems have fresh: "map_of override k' = None" and distinct: "distinct (map fst override)"
    by (simp_all add: kv map_of_eq_None_iff)
  show ?case using fresh
    by (auto simp: kv deep_merge_Cons Cons.IH [OF distinct] map_of_dict_set split: option.splits)
qed

lemma well_keyed_member: "\<lbrakk>well_keyed (PDict t); map_of t k = Some v\<rbrakk> \<Longrightarrow> well_keyed v"
  by (auto dest: map_of_SomeD)

lemma override_wins:
  "\<lbrakk>setting_at override path = Some v; \<not> is_table v; well_keyed (PDict override)\<rbrakk> \<Longrightarrow>
   setting_at (deep_merge b override) path = Some v"
proof (induction override path arbitrary: b rule: setting_at.induct)
  case (3 t k k' ks)
  from "3.prems"(1) obtain u where u: "map_of t k = Some (PDict u)" and rest: "setting_at u (k' # ks) = Some v"
    by (auto split: option.splits pyval.splits)
  have keyed: "well_keyed (PDict u)" using "3.prems"(3) u by (rule well_keyed_member)
  have "setting_at (deep_merge b' u) (k' # ks) = Some v" for b'
    using "3.IH" u rest "3.prems"(2) keyed by blast
  then show ?case using u rest "3.prems"(3)
    by (auto simp: map_of_deep_merge merged_value_def split: option.splits pyval.splits)
qed (simp_all add: map_of_deep_merge)

lemma silent_not_bound: "silent_at t path \<Longrightarrow> setting_at t path = None"
  by (induction t path rule: silent_at.induct) (auto split: option.splits pyval.splits)

lemma base_survives:
  "\<lbrakk>silent_at override path; well_keyed (PDict override)\<rbrakk> \<Longrightarrow>
   setting_at (deep_merge b override) path = setting_at b path"
proof (induction override path arbitrary: b rule: silent_at.induct)
  case (3 t k k' ks)
  show ?case
  proof (cases "map_of t k")
    case None
    then show ?thesis using "3.prems" by (simp add: map_of_deep_merge)
  next
    case (Some w)
    with "3.prems"(1) obtain u where u: "map_of t k = Some (PDict u)" and rest: "silent_at u (k' # ks)"
      by (auto split: pyval.splits)
    have keyed: "well_keyed (PDict u)" using "3.prems"(2) u by (rule well_keyed_member)
    have "setting_at (deep_merge b' u) (k' # ks) = setting_at b' (k' # ks)" for b'
      using "3.IH" u rest keyed by blast
    then show ?thesis using u silent_not_bound [OF rest] "3.prems"(2)
      by (auto simp: map_of_deep_merge merged_value_def split: option.splits pyval.splits)
  qed
qed (simp_all add: map_of_deep_merge)

text \<open>The first layer that binds a path, the layers listed from the strongest.\<close>

fun layered :: "table list \<Rightarrow> string list \<Rightarrow> pyval \<Rightarrow> pyval" where
  "layered [] path d = d"
| "layered (t # ts) path d = (case setting_at t path of Some v \<Rightarrow> v | None \<Rightarrow> layered ts path d)"

section \<open>Sections\<close>

text \<open>The contents of a table, and its entries under the names in lower case.\<close>

definition table_of :: "pyval \<Rightarrow> table" where
  "table_of v = (case v of PDict t \<Rightarrow> t | _ \<Rightarrow> [])"

definition lowered :: "table \<Rightarrow> (string \<times> table) list" where
  "lowered t = map (\<lambda>(k, v). (py_lower k, table_of v)) t"

lemma map_of_read_sections:
  "read_sections item sections t = Inr sections' \<Longrightarrow>
   map_of sections' n =
     (case map_of (rev (lowered t)) n of Some options \<Rightarrow> Some options | None \<Rightarrow> map_of sections n)"
proof (induction item sections t rule: read_sections.induct)
  case (1 item sections)
  then show ?case by (simp add: lowered_def)
next
  case (2 item sections name table rest)
  from "2.prems" obtain options where s: "table = PDict options" "\<not> blank name"
    and rest: "read_sections item (dict_set sections (py_lower name) options) rest = Inr sections'"
    by (auto split: if_splits pyval.splits)
  show ?case using "2.IH" [OF s(2) s(1) rest]
    by (auto simp: s lowered_def table_of_def map_of_dict_set map_add_def split: option.splits)
qed

end
