(* ===== verification/Settings_Properties.thy ===== *)
theory Settings_Properties
  imports Settings_Facts
begin

text \<open>
  The layers of the settings as \<open>load_settings\<close> merges them, and what an application reads from
  them.
\<close>

section \<open>The environment\<close>

lemma well_keyed_dict_set:
  assumes "well_keyed (PDict t)" and "well_keyed v"
  shows "well_keyed (PDict (dict_set t k v))"
proof -
  have "distinct (map fst (dict_set t k v))" using assms(1) by (simp add: keys_dict_set)
  moreover have "set (dict_set t k v) \<subseteq> insert (k, v) (set t)"
    by (induction t k v rule: dict_set.induct) auto
  ultimately show ?thesis using assms by fastforce
qed

lemma set_path_keyed:
  "\<lbrakk>set_path name t parts v = Inr t'; well_keyed (PDict t); well_keyed v\<rbrakk> \<Longrightarrow> well_keyed (PDict t')"
proof (induction name t parts v arbitrary: t' rule: set_path.induct)
  case (2 name cursor part v)
  show ?case using "2.prems"(1) well_keyed_dict_set [OF "2.prems"(2,3)] by auto
next
  case (3 name cursor part p parts v)
  from "3.prems"(1) obtain inner inner' where
      inner: "(case map_of cursor part of None \<Rightarrow> PDict [] | Some existing \<Rightarrow> existing) = PDict inner"
    and set: "set_path name inner (p # parts) v = Inr inner'"
    and t': "t' = dict_set cursor part (PDict inner')"
    by (auto simp: bindR_Inr_iff split: pyval.splits)
  have "well_keyed (PDict inner)"
    using inner well_keyed_member [OF "3.prems"(2), of part] by (cases "map_of cursor part") simp_all
  then have "well_keyed (PDict inner')" using "3.IH" [OF inner set] "3.prems"(3) by blast
  then show ?case using well_keyed_dict_set [OF "3.prems"(2)] t' by blast
qed simp

lemma environment_keyed:
  "\<lbrakk>environment_values t environ = Inr t'; well_keyed (PDict t)\<rbrakk> \<Longrightarrow> well_keyed (PDict t')"
proof (induction t environ rule: environment_values.induct)
  case (2 t name val environ)
  then obtain u where u: "environment_value t name val = Inr u"
    and rest: "environment_values u environ = Inr t'"
    by (auto simp: bindR_Inr_iff)
  have "well_keyed (PDict u)"
    using u set_path_keyed [of name t "setting_parts name" "PStr val" u] "2.prems"(2)
    by (auto simp: environment_value_def split: if_splits)
  then show ?case using "2.IH" [OF rest] by blast
qed simp

section \<open>Three layers\<close>

definition table_or_absent :: "table \<Rightarrow> string \<Rightarrow> bool" where
  "table_or_absent t k = (case map_of t k of None \<Rightarrow> True | Some v \<Rightarrow> is_table v)"

lemma setting_at_merge:
  assumes "well_keyed (PDict override)" and "table_or_absent override a"
  shows "setting_at (deep_merge b override) [a, k] =
    (case setting_at override [a, k] of
       None \<Rightarrow> setting_at b [a, k]
     | Some v \<Rightarrow> Some (merged_value (setting_at b [a, k]) v))"
proof (cases "map_of override a")
  case None
  then show ?thesis using assms by (simp add: map_of_deep_merge)
next
  case (Some w)
  with assms(2) obtain u where u: "map_of override a = Some (PDict u)"
    by (auto simp: table_or_absent_def is_table_iff)
  have "distinct (map fst u)" using well_keyed_member [OF assms(1) u] by simp
  then show ?thesis using u assms(1)
    by (auto simp: map_of_deep_merge merged_value_def split: option.splits pyval.splits)
qed

lemma is_table_merged: "is_table (merged_value base v) = is_table v"
  by (cases v) (simp_all add: is_table_def merged_value_def split: pyval.split option.split)

lemma layered_merge:
  assumes "well_keyed (PDict over)" and "table_or_absent over a"
    and "well_keyed (PDict env)" and "table_or_absent env a"
    and "setting_at (deep_merge (deep_merge file env) over) [a, k] = r"
    and "\<not> is_table (case r of Some v \<Rightarrow> v | None \<Rightarrow> d)"
  shows "layered [over, env, file] [a, k] d = (case r of Some v \<Rightarrow> v | None \<Rightarrow> d)"
  using assms(5,6) unfolding setting_at_merge [OF assms(1,2)] setting_at_merge [OF assms(3,4)]
  by (auto simp del: setting_at.simps simp: is_table_merged split: option.splits)

lemma read_app_settings_iff:
  "read_app_settings v = Inr a \<longleftrightarrow> (\<exists>t. v = PDict t \<and>
     set (map fst t) \<subseteq> {''name'', ''environment'', ''debug'', ''shutdown_timeout''} \<and>
     value_or t ''name'' (PStr ''xyberos'') = PStr (as_name a) \<and> \<not> blank (as_name a) \<and>
     value_or t ''environment'' (PStr ''development'') = PStr (as_environment a) \<and>
     \<not> blank (as_environment a) \<and>
     as_bool (value_or t ''debug'' (PBool False)) ''app.debug'' = Inr (as_debug a) \<and>
     as_optional_timeout (value_or t ''shutdown_timeout'' PNone) ''app.shutdown_timeout'' =
       Inr (as_shutdown_timeout a))"
proof -
  have name: "as_non_empty_string v l = Inr s \<longleftrightarrow> v = PStr s \<and> \<not> blank s" for v l s
    by (auto simp: as_non_empty_string_def split: pyval.splits)
  have keys: "reject_unknown_keys t allowed l = Inr u \<longleftrightarrow> set (map fst t) \<subseteq> set allowed" for t allowed l u
    by (simp add: reject_unknown_keys_def Let_def flip: set_empty) auto
  show ?thesis
    by (cases a) (auto simp: read_app_settings_def bindR_Inr_iff name keys split: pyval.splits)
qed

lemma as_bool_plain: "as_bool v l = Inr b \<Longrightarrow> \<not> is_table v"
  by (auto simp: as_bool_def is_table_iff)

lemma as_optional_timeout_plain: "as_optional_timeout v l = Inr b \<Longrightarrow> \<not> is_table v"
  by (auto simp: as_optional_timeout_def as_float_def is_table_iff Let_def split: if_splits)

lemma settings_from_mapping_app:
  "settings_from_mapping t = Inr s \<Longrightarrow>
   read_app_settings (value_or t ''app'' (PDict [])) = Inr (st_app s)"
  by (auto simp: settings_from_mapping_def bindR_Inr_iff)

lemma settings_from_mapping_sections:
  "settings_from_mapping t = Inr s \<Longrightarrow>
   sections_from_mapping (map_of t ''plugins'') ''plugins'' ''plugin'' = Inr (st_plugins s) \<and>
   sections_from_mapping (map_of t ''ai'') ''ai'' ''AI provider'' = Inr (st_ai s)"
  by (auto simp: settings_from_mapping_def bindR_Inr_iff)

section \<open>Properties\<close>

text \<open>
  C27: an application's settings come from the strongest layer that gives them: an explicit
  override, else the environment, else the configuration file, else the default. This is so for
  the name, the environment, the debug flag and the shutdown timeout, each read by its type,
  whenever the settings load and the environment has no variable that sets the whole of
  \<open>app\<close>.
\<close>

theorem settings_precedence:
  assumes load: "load_settings files path environ (Some over) cwd = Inr s"
    and conf: "file_values files (select_config_path path environ cwd) = Inr file"
    and env: "environment_values [] environ = Inr env"
    and keyed: "well_keyed (PDict over)" and env_app: "table_or_absent env ''app''"
  shows "layered [over, env, file] [''app'', ''name''] (PStr ''xyberos'') = PStr (as_name (st_app s)) \<and>
    layered [over, env, file] [''app'', ''environment''] (PStr ''development'') =
      PStr (as_environment (st_app s)) \<and>
    as_bool (layered [over, env, file] [''app'', ''debug''] (PBool False)) ''app.debug'' =
      Inr (as_debug (st_app s)) \<and>
    as_optional_timeout (layered [over, env, file] [''app'', ''shutdown_timeout''] PNone)
      ''app.shutdown_timeout'' = Inr (as_shutdown_timeout (st_app s))"
proof -
  let ?m = "deep_merge (deep_merge file env) over"
  have "settings_from_mapping ?m = Inr s"
    using load by (simp add: load_settings_def conf env)
  then have app: "read_app_settings (value_or ?m ''app'' (PDict [])) = Inr (st_app s)"
    by (rule settings_from_mapping_app)
  then obtain t where t: "value_or ?m ''app'' (PDict []) = PDict t"
    by (auto simp: read_app_settings_iff)
  have over_app: "table_or_absent over ''app''"
  proof (cases "map_of over ''app''")
    case (Some w)
    then have "merged_value (map_of (deep_merge file env) ''app'') w = PDict t"
      using t keyed by (simp add: value_or_def map_of_deep_merge)
    then have "is_table w" by (metis is_table_iff is_table_merged)
    then show ?thesis using Some by (simp add: table_or_absent_def)
  qed (simp add: table_or_absent_def)
  have at: "setting_at ?m [''app'', k] = map_of t k" for k
    using t by (auto simp: value_or_def split: option.splits)
  have layers: "layered [over, env, file] [''app'', k] d = value_or t k d"
    if "\<not> is_table (value_or t k d)" for k d
    using layered_merge [OF keyed over_app environment_keyed [OF env] env_app at] that
    by (simp add: value_or_def)
  have plain: "\<not> is_table (PStr n)" for n by (simp add: is_table_def)
  note a = app [unfolded t read_app_settings_iff pyval.inject]
  have name: "value_or t ''name'' (PStr ''xyberos'') = PStr (as_name (st_app s))"
    and environment: "value_or t ''environment'' (PStr ''development'') = PStr (as_environment (st_app s))"
    and debug: "as_bool (value_or t ''debug'' (PBool False)) ''app.debug'' = Inr (as_debug (st_app s))"
    and timeout: "as_optional_timeout (value_or t ''shutdown_timeout'' PNone) ''app.shutdown_timeout'' =
      Inr (as_shutdown_timeout (st_app s))"
    using a by blast+
  show ?thesis
    using layers [of "''name''" "PStr ''xyberos''"] layers [of "''environment''" "PStr ''development''"]
      layers [of "''debug''" "PBool False"] layers [of "''shutdown_timeout''" PNone]
      as_bool_plain [OF debug] as_optional_timeout_plain [OF timeout]
    by (simp only: name environment debug timeout plain simp_thms)
qed

definition sample_environ :: "(string \<times> string) list" where
  "sample_environ = [(''PATH'', ''/bin''), (''XYBEROS_APP__NAME'', ''from-environment''),
                     (''XYBEROS_APP__DEBUG'', ''on'')]"

definition sample_file :: table where
  "sample_file = [(''app'', PDict [(''name'', PStr ''from-file''), (''environment'', PStr ''staging''),
                                 (''debug'', PBool False)])]"

definition sample_overrides :: table where
  "sample_overrides = [(''app'', PDict [(''name'', PStr ''explicit'')])]"

definition sample_settings :: settings where
  "sample_settings = \<lparr>st_schema_version = 1,
     st_app = \<lparr>as_name = ''explicit'', as_environment = ''staging'', as_debug = True,
              as_shutdown_timeout = None\<rparr>,
     st_plugins = [], st_ai = []\<rparr>"

lemma sample_environ_read:
  "environment_values [] sample_environ =
     Inr [(''app'', PDict [(''name'', PStr ''from-environment''), (''debug'', PStr ''on'')])]"
  by code_simp

lemma sample_loads:
  "load_settings (\<lambda>p. Holds sample_file) None sample_environ (Some sample_overrides) ''/srv'' =
     Inr sample_settings"
  by code_simp

theorem settings_precedence_witness:
  "layered [sample_overrides,
            [(''app'', PDict [(''name'', PStr ''from-environment''), (''debug'', PStr ''on'')])],
            sample_file] [''app'', ''environment''] (PStr ''development'') =
     PStr (as_environment (st_app sample_settings))"
  using settings_precedence [OF sample_loads _ sample_environ_read, of sample_file]
  by (simp add: file_values_def table_or_absent_def is_table_def sample_overrides_def)

text \<open>
  the options of a plugin are those of the last entry of the merged \<open>plugins\<close> table whose name
  is the plugin's up to case. Names are lowered after the layers are merged, so a file that writes
  a name in another case than the environment, whose variables are always lower case, contributes
  nothing: its entry is another key of the merged table, and the environment's entry replaces it.
\<close>

theorem plugin_options_last_spelling:
  assumes "settings_from_mapping t = Inr s" and "map_of t ''plugins'' = Some (PDict plugins)"
  shows "plugin_options s name =
    (case map_of (rev (lowered plugins)) (py_lower name) of Some options \<Rightarrow> options | None \<Rightarrow> [])"
  using settings_from_mapping_sections [OF assms(1)] assms(2)
  by (auto simp: sections_from_mapping_def plugin_options_def section_options_def
    map_of_read_sections [of _ "[]"] split: option.splits)

theorem plugin_options_last_spelling_witness:
  "let file = [(''plugins'', PDict [(''Metrics'', PDict [(''retries'', PInt 2)])])];
       env = [(''plugins'', PDict [(''metrics'', PDict [(''interval'', PStr ''5'')])])]
   in \<exists>s. settings_from_mapping (deep_merge file env) = Inr s \<and>
     plugin_options s ''Metrics'' = [(''interval'', PStr ''5'')]"
proof -
  let ?plugins = "[(''Metrics'', PDict [(''retries'', PInt 2)]),
                   (''metrics'', PDict [(''interval'', PStr ''5'')])]"
  let ?s = "\<lparr>st_schema_version = 1,
     st_app = \<lparr>as_name = ''xyberos'', as_environment = ''development'', as_debug = False,
              as_shutdown_timeout = None\<rparr>,
     st_plugins = [(''metrics'', [(''interval'', PStr ''5'')])], st_ai = []\<rparr>"
  have merged: "deep_merge [(''plugins'', PDict [(''Metrics'', PDict [(''retries'', PInt 2)])])]
      [(''plugins'', PDict [(''metrics'', PDict [(''interval'', PStr ''5'')])])] =
    [(''plugins'', PDict ?plugins)]"
    by code_simp
  have plugins: "map_of [(''plugins'', PDict ?plugins)] ''plugins'' = Some (PDict ?plugins)"
    by simp
  have loads: "settings_from_mapping [(''plugins'', PDict ?plugins)] = Inr ?s"
    by code_simp
  have options: "plugin_options ?s ''Metrics'' = [(''interval'', PStr ''5'')]"
    unfolding plugin_options_last_spelling [OF loads plugins]
    by code_simp
  show ?thesis unfolding Let_def merged using loads options by blast
qed

end
