(* ===== verification/Schema.thy ===== *)
theory Schema
  imports Py_Parse
begin

text \<open>
  \<open>ai/schema.py\<close>: the closed subset of JSON Schema that structured output and tool arguments are
  checked against. A schema is itself a Python value; a schema is checked first, then a payload
  against it. \<open>ro\<close> is the \<open>repr\<close> of an object of a class of its own, which only messages use; such
  an object is no mapping and no sequence. A float is the decimal its text denotes.
\<close>

type_synonym object_repr = "string \<Rightarrow> nat \<Rightarrow> string"
type_synonym members = "(string \<times> pyval) list"

section \<open>Values as text\<close>

definition repr_tuple :: "string list \<Rightarrow> string" where
  "repr_tuple ts = (case ts of [t] \<Rightarrow> ''('' @ t @ '',)'' | _ \<Rightarrow> ''('' @ join '', '' ts @ '')'')"

primrec value_repr :: "object_repr \<Rightarrow> pyval \<Rightarrow> string" where
  "value_repr ro PNone = ''None''"
| "value_repr ro (PBool b) = (if b then ''True'' else ''False'')"
| "value_repr ro (PInt i) = dec_int i"
| "value_repr ro (PFloat t) = t"
| "value_repr ro (PStr s) = py_repr s"
| "value_repr ro (PList xs) = ''['' @ join '', '' (map (value_repr ro) xs) @ '']''"
| "value_repr ro (PTuple xs) = repr_tuple (map (value_repr ro) xs)"
| "value_repr ro (PDict kvs) =
     ''{'' @ join '', '' (map (\<lambda>(k, t). py_repr k @ '': '' @ t) (map (map_prod id (value_repr ro)) kvs)) @ ''}''"
| "value_repr ro (PObject c n) = ro c n"

definition value_str :: "object_repr \<Rightarrow> pyval \<Rightarrow> string" where
  "value_str ro v = (case v of PStr s \<Rightarrow> s | _ \<Rightarrow> value_repr ro v)"

section \<open>Comparing values\<close>

fun float_less :: "pyfloat \<Rightarrow> pyfloat \<Rightarrow> bool" where
  "float_less (Finite x) (Finite y) = (x < y)"
| "float_less (Finite x) (Infinite neg) = (\<not> neg)"
| "float_less (Infinite neg) (Finite y) = neg"
| "float_less (Infinite neg) (Infinite neg') = (neg \<and> \<not> neg')"
| "float_less _ _ = False"

fun float_equal :: "pyfloat \<Rightarrow> pyfloat \<Rightarrow> bool" where
  "float_equal (Finite x) (Finite y) = (x = y)"
| "float_equal (Infinite neg) (Infinite neg') = (neg = neg')"
| "float_equal _ _ = False"

text \<open>\<open>isinstance(v, (int, float))\<close> with its number; a boolean is an integer.\<close>

definition number_of :: "pyval \<Rightarrow> pyfloat option" where
  "number_of v = (case v of
     PBool b \<Rightarrow> Some (Finite (if b then 1 else 0))
   | PInt i \<Rightarrow> Some (Finite (of_int i))
   | PFloat t \<Rightarrow> py_float t
   | _ \<Rightarrow> None)"

definition compare_numbers :: "(pyfloat \<Rightarrow> pyfloat \<Rightarrow> bool) \<Rightarrow> pyval \<Rightarrow> pyval \<Rightarrow> bool" where
  "compare_numbers test v w = (case (number_of v, number_of w) of
     (Some x, Some y) \<Rightarrow> test x y | _ \<Rightarrow> False)"

definition same_elements :: "(pyval \<Rightarrow> bool) list \<Rightarrow> pyval list \<Rightarrow> bool" where
  "same_elements tests ys = list_all2 (\<lambda>test y. test y) tests ys"

definition same_entries :: "(string \<times> (pyval \<Rightarrow> bool)) list \<Rightarrow> members \<Rightarrow> bool" where
  "same_entries tests kvs =
     (length tests = length kvs \<and>
      list_all (\<lambda>(k, test). case map_of kvs k of None \<Rightarrow> False | Some w \<Rightarrow> test w) tests)"

text \<open>\<open>left == right\<close>\<close>

primrec py_equal :: "pyval \<Rightarrow> pyval \<Rightarrow> bool" where
  "py_equal PNone w = (w = PNone)"
| "py_equal (PBool b) w = compare_numbers float_equal (PBool b) w"
| "py_equal (PInt i) w = compare_numbers float_equal (PInt i) w"
| "py_equal (PFloat t) w = compare_numbers float_equal (PFloat t) w"
| "py_equal (PStr s) w = (w = PStr s)"
| "py_equal (PList xs) w =
     (case w of PList ys \<Rightarrow> same_elements (map py_equal xs) ys | _ \<Rightarrow> False)"
| "py_equal (PTuple xs) w =
     (case w of PTuple ys \<Rightarrow> same_elements (map py_equal xs) ys | _ \<Rightarrow> False)"
| "py_equal (PDict kvs) w =
     (case w of PDict kvs' \<Rightarrow> same_entries (map (map_prod id py_equal) kvs) kvs' | _ \<Rightarrow> False)"
| "py_equal (PObject c n) w = (w = PObject c n)"

definition is_bool :: "pyval \<Rightarrow> bool" where
  "is_bool v = (case v of PBool b \<Rightarrow> True | _ \<Rightarrow> False)"

definition same_json_value :: "pyval \<Rightarrow> pyval \<Rightarrow> bool" where
  "same_json_value left right = (is_bool left = is_bool right \<and> py_equal left right)"

section \<open>Keywords\<close>

definition annotation_keywords :: "string list" where
  "annotation_keywords = [''description'', ''title'', ''default'', ''examples'', ''format'']"

definition schema_keywords :: "string list" where
  "schema_keywords = [''type'', ''properties'', ''required'', ''additionalProperties'', ''items'',
     ''enum'', ''minimum'', ''maximum'', ''minLength'', ''maxLength'', ''minItems'', ''maxItems''] @
     annotation_keywords"

definition supported_types :: "string list" where
  "supported_types = [''object'', ''array'', ''string'', ''number'', ''integer'', ''boolean'', ''null'']"

definition size_keywords :: "string list" where
  "size_keywords = [''minLength'', ''maxLength'', ''minItems'', ''maxItems'']"

definition bound_keywords :: "string list" where
  "bound_keywords = [''minimum'', ''maximum'']"

text \<open>\<open>schema.get(key)\<close>\<close>

definition get_key :: "members \<Rightarrow> string \<Rightarrow> pyval" where
  "get_key t k = (case map_of t k of Some v \<Rightarrow> v | None \<Rightarrow> PNone)"

text \<open>\<open>values.get(key, default)\<close>\<close>

definition get_or :: "members \<Rightarrow> string \<Rightarrow> pyval \<Rightarrow> pyval" where
  "get_or t k d = (case map_of t k of Some v \<Rightarrow> v | None \<Rightarrow> d)"

text \<open>\<open>bool(v)\<close>; an object of a class of its own counts as true.\<close>

fun py_true :: "pyval \<Rightarrow> bool" where
  "py_true PNone = False"
| "py_true (PBool b) = b"
| "py_true (PInt i) = (i \<noteq> 0)"
| "py_true (PFloat t) = (py_float t \<noteq> Some (Finite 0))"
| "py_true (PStr s) = (s \<noteq> [])"
| "py_true (PList xs) = (xs \<noteq> [])"
| "py_true (PTuple xs) = (xs \<noteq> [])"
| "py_true (PDict kvs) = (kvs \<noteq> [])"
| "py_true (PObject c n) = True"

text \<open>The items of a sequence that is not a text; and \<open>_sequence\<close>, with none for any other value.\<close>

definition array_of :: "pyval \<Rightarrow> pyval list option" where
  "array_of v = (case v of PList xs \<Rightarrow> Some xs | PTuple xs \<Rightarrow> Some xs | _ \<Rightarrow> None)"

definition sequence_of :: "pyval \<Rightarrow> pyval list" where
  "sequence_of v = (case array_of v of Some xs \<Rightarrow> xs | None \<Rightarrow> [])"

definition object_of :: "pyval \<Rightarrow> members option" where
  "object_of v = (case v of PDict t \<Rightarrow> Some t | _ \<Rightarrow> None)"

definition text_of :: "pyval \<Rightarrow> string option" where
  "text_of v = (case v of PStr s \<Rightarrow> Some s | _ \<Rightarrow> None)"

fun describe_value :: "pyval \<Rightarrow> string" where
  "describe_value PNone = ''null''"
| "describe_value (PBool b) = ''boolean''"
| "describe_value (PInt i) = ''integer''"
| "describe_value (PFloat t) = ''number''"
| "describe_value (PStr s) = ''string''"
| "describe_value (PDict kvs) = ''object''"
| "describe_value (PList xs) = ''array''"
| "describe_value (PTuple xs) = ''array''"
| "describe_value (PObject c n) = c"

definition request_error :: "string \<Rightarrow> exn" where
  "request_error = raised ''AIRequestError''"

definition schema_error :: "string \<Rightarrow> exn" where
  "schema_error = raised ''AISchemaError''"

definition located :: "string \<Rightarrow> string \<Rightarrow> string \<Rightarrow> string" where
  "located location path rest = location @ '' at '' @ path @ rest"

section \<open>Checking a schema\<close>

definition check_known_keywords :: "string \<Rightarrow> string \<Rightarrow> members \<Rightarrow> exn + unit" where
  "check_known_keywords location path t =
     (let unknown = sort (remdups (filter (\<lambda>k. k \<notin> set schema_keywords) (map fst t)));
          supported = sort (filter (\<lambda>k. k \<notin> set annotation_keywords) schema_keywords)
      in refuse_if (unknown \<noteq> []) (request_error (located location path
           ('' uses unsupported keyword(s): '' @ join '', '' unknown @
            ''; supported keywords are: '' @ join '', '' supported))))"

definition supported_type :: "pyval \<Rightarrow> bool" where
  "supported_type v = (case v of PStr s \<Rightarrow> s \<in> set supported_types | _ \<Rightarrow> False)"

definition check_type_keyword :: "object_repr \<Rightarrow> string \<Rightarrow> string \<Rightarrow> pyval \<Rightarrow> exn + unit" where
  "check_type_keyword ro location path v =
     (let candidates = (case v of PStr s \<Rightarrow> Some [v] | _ \<Rightarrow> array_of v)
      in if v = PNone then Inr ()
         else case candidates of
           None \<Rightarrow> Inl (request_error (located location path ''.type must be a name or an array of names''))
         | Some cs \<Rightarrow>
             (case find (\<lambda>c. \<not> supported_type c) cs of
                None \<Rightarrow> Inr ()
              | Some c \<Rightarrow> Inl (request_error (located location path
                  (''.type uses unsupported type '' @ value_repr ro c @ ''; supported types are: '' @
                   join '', '' supported_types)))))"

definition check_enum_keyword :: "string \<Rightarrow> string \<Rightarrow> pyval \<Rightarrow> exn + unit" where
  "check_enum_keyword location path v =
     refuse_if (v \<noteq> PNone \<and> sequence_of v = [])
       (request_error (located location path ''.enum must be a non-empty array''))"

definition check_additional_properties :: "string \<Rightarrow> string \<Rightarrow> pyval \<Rightarrow> exn + unit" where
  "check_additional_properties location path v =
     refuse_if (v \<noteq> PNone \<and> \<not> is_bool v)
       (request_error (located location path ''.additionalProperties must be true or false''))"

definition size_value :: "pyval \<Rightarrow> bool" where
  "size_value v = (case v of PInt i \<Rightarrow> 0 \<le> i | _ \<Rightarrow> False)"

definition check_non_negative_int :: "string \<Rightarrow> string \<Rightarrow> members \<Rightarrow> string \<Rightarrow> exn + unit" where
  "check_non_negative_int location path t keyword =
     (let v = get_key t keyword
      in refuse_if (v \<noteq> PNone \<and> \<not> size_value v) (request_error (located location path
           (''.'' @ keyword @ '' must be a non-negative integer''))))"

definition number_value :: "pyval \<Rightarrow> bool" where
  "number_value v = (case v of PInt i \<Rightarrow> True | PFloat t \<Rightarrow> True | _ \<Rightarrow> False)"

definition check_number :: "string \<Rightarrow> string \<Rightarrow> members \<Rightarrow> string \<Rightarrow> exn + unit" where
  "check_number location path t keyword =
     (let v = get_key t keyword
      in refuse_if (v \<noteq> PNone \<and> \<not> number_value v) (request_error (located location path
           (''.'' @ keyword @ '' must be a number''))))"

fun check_each :: "('a \<Rightarrow> 'e + unit) \<Rightarrow> 'a list \<Rightarrow> 'e + unit" where
  "check_each f [] = Inr ()"
| "check_each f (x # xs) = bindR (f x) (\<lambda>_. check_each f xs)"

definition check_keywords :: "object_repr \<Rightarrow> string \<Rightarrow> string \<Rightarrow> members \<Rightarrow> exn + unit" where
  "check_keywords ro location path t =
     bindR (check_known_keywords location path t) (\<lambda>_.
     bindR (check_type_keyword ro location path (get_key t ''type'')) (\<lambda>_.
     bindR (check_enum_keyword location path (get_key t ''enum'')) (\<lambda>_.
     bindR (check_additional_properties location path (get_key t ''additionalProperties'')) (\<lambda>_.
     bindR (check_each (check_non_negative_int location path t) size_keywords) (\<lambda>_.
     check_each (check_number location path t) bound_keywords)))))"

definition names_property :: "pyval \<Rightarrow> bool" where
  "names_property v = (case v of PStr s \<Rightarrow> s \<noteq> [] | _ \<Rightarrow> False)"

definition undeclared_names :: "pyval list \<Rightarrow> members \<Rightarrow> string list" where
  "undeclared_names required properties =
     sort (remdups (filter (\<lambda>n. n \<notin> fst ` set properties) (List.map_filter text_of required)))"

definition check_required :: "string \<Rightarrow> string \<Rightarrow> pyval \<Rightarrow> pyval \<Rightarrow> exn + unit" where
  "check_required location path required properties =
     (if required = PNone then Inr ()
      else case array_of required of
        None \<Rightarrow> Inl (request_error (located location path ''.required must be an array of names''))
      | Some names \<Rightarrow>
          bindR (refuse_if (\<not> list_all names_property names)
            (request_error (located location path ''.required must name properties''))) (\<lambda>_.
          case properties of
            PDict ps \<Rightarrow> refuse_if (undeclared_names names ps \<noteq> [])
              (request_error (located location path (''.required names undeclared propert(ies): '' @
                 join '', '' (undeclared_names names ps))))
          | _ \<Rightarrow> Inr ()))"

lemma size_map_of: "map_of t k = Some v \<Longrightarrow> size v < size_list (size_prod (\<lambda>_. 0) size) t"
  by (induction t) (auto split: if_splits)

lemma size_get_key: "get_key t k = v \<Longrightarrow> v \<noteq> PNone \<Longrightarrow> size v < size (PDict t)"
  using size_map_of [of t k v] by (auto simp: get_key_def split: option.splits)

lemma size_get_key_less:
  "get_key t k \<noteq> PNone \<Longrightarrow> size (get_key t k) < Suc (size_list (size_prod (\<lambda>_. 0) size) t)"
  using size_get_key [OF refl, of t k] by simp

function check_node :: "object_repr \<Rightarrow> string \<Rightarrow> string \<Rightarrow> pyval \<Rightarrow> exn + unit" and
    check_members :: "object_repr \<Rightarrow> string \<Rightarrow> string \<Rightarrow> members \<Rightarrow> exn + unit" where
  "check_node ro location path schema = (case schema of
     PDict t \<Rightarrow>
       bindR (check_keywords ro location path t) (\<lambda>_.
       bindR (case get_key t ''properties'' of
           PNone \<Rightarrow> Inr ()
         | PDict ps \<Rightarrow> check_members ro location path ps
         | _ \<Rightarrow> Inl (request_error (located location path ''.properties must be an object''))) (\<lambda>_.
       bindR (check_required location path (get_key t ''required'') (get_key t ''properties'')) (\<lambda>_.
       if get_key t ''items'' = PNone then Inr ()
       else check_node ro location (path @ ''[]'') (get_key t ''items''))))
   | v \<Rightarrow> Inl (request_error (located location path ('' must be an object, not '' @ describe_value v))))"
| "check_members ro location path [] = Inr ()"
| "check_members ro location path ((name, child) # rest) =
     (if name = [] then Inl (request_error (located location path ''.properties needs non-empty names''))
      else bindR (check_node ro location (path @ ''.'' @ name) child)
        (\<lambda>_. check_members ro location path rest))"
  by pat_completeness auto

termination
  by (relation "measure (\<lambda>x. case x of Inl (ro, location, path, v) \<Rightarrow> size v
      | Inr (ro, location, path, ps) \<Rightarrow> size_list (size_prod (\<lambda>_. 0) size) ps)")
    (auto dest!: size_get_key simp: size_get_key_less)

declare check_node.simps [simp del]

definition check_schema :: "object_repr \<Rightarrow> string \<Rightarrow> pyval \<Rightarrow> exn + unit" where
  "check_schema ro location schema = check_node ro location ''$'' schema"

section \<open>Checking a payload\<close>

definition matches_type :: "pyval \<Rightarrow> string \<Rightarrow> bool" where
  "matches_type v expected =
     (if expected = ''null'' then v = PNone
      else if expected = ''boolean'' then is_bool v
      else if expected = ''integer'' then (case v of PInt i \<Rightarrow> True | _ \<Rightarrow> False)
      else if expected = ''number'' then number_value v
      else if expected = ''string'' then text_of v \<noteq> None
      else if expected = ''array'' then array_of v \<noteq> None
      else if expected = ''object'' then (case v of PDict t \<Rightarrow> True | _ \<Rightarrow> False)
      else False)"

definition matches_candidate :: "pyval \<Rightarrow> pyval \<Rightarrow> bool" where
  "matches_candidate v c = (case text_of c of Some s \<Rightarrow> matches_type v s | None \<Rightarrow> False)"

definition matches_declared_types :: "pyval \<Rightarrow> pyval \<Rightarrow> bool" where
  "matches_declared_types v declared = (case declared of
     PNone \<Rightarrow> True
   | PStr s \<Rightarrow> matches_type v s
   | _ \<Rightarrow> list_ex (matches_candidate v) (sequence_of declared))"

definition described_types :: "object_repr \<Rightarrow> pyval \<Rightarrow> string" where
  "described_types ro declared = (case declared of
     PNone \<Rightarrow> ''any value''
   | PStr s \<Rightarrow> s
   | _ \<Rightarrow> join '' or '' (map (value_str ro) (sequence_of declared)))"

definition validate_type :: "object_repr \<Rightarrow> string \<Rightarrow> string \<Rightarrow> pyval \<Rightarrow> members \<Rightarrow> exn + unit" where
  "validate_type ro location path v t =
     refuse_if (\<not> matches_declared_types v (get_key t ''type'')) (schema_error (located location path
       ('' must be '' @ described_types ro (get_key t ''type'') @ '', got '' @ describe_value v)))"

definition validate_enum :: "object_repr \<Rightarrow> string \<Rightarrow> string \<Rightarrow> pyval \<Rightarrow> members \<Rightarrow> exn + unit" where
  "validate_enum ro location path v t =
     (let allowed = sequence_of (get_key t ''enum'')
      in refuse_if (allowed \<noteq> [] \<and> \<not> list_ex (same_json_value v) allowed)
           (schema_error (located location path
             ('' must be one of: '' @ join '', '' (map (value_repr ro) allowed) @ ''; got '' @ value_repr ro v))))"

text \<open>A limit of a length is any integer, a boolean too.\<close>

definition limit_of :: "pyval \<Rightarrow> int option" where
  "limit_of v = (case v of PInt i \<Rightarrow> Some i | PBool b \<Rightarrow> Some (if b then 1 else 0) | _ \<Rightarrow> None)"

definition check_size ::
    "object_repr \<Rightarrow> string \<Rightarrow> string \<Rightarrow> members \<Rightarrow> nat \<Rightarrow> string \<Rightarrow> bool \<Rightarrow> string \<Rightarrow> exn + unit" where
  "check_size ro location path t n keyword at_least measure_unit =
     (case limit_of (get_key t keyword) of
        None \<Rightarrow> Inr ()
      | Some limit \<Rightarrow>
          refuse_if (if at_least then int n < limit else limit < int n)
            (schema_error (located location path
              ('' must have '' @ (if at_least then ''at least'' else ''at most'') @ '' '' @
               value_str ro (get_key t keyword) @ '' '' @ measure_unit @ ''(s), got '' @ dec_nat n))))"

definition validate_number :: "object_repr \<Rightarrow> string \<Rightarrow> string \<Rightarrow> pyval \<Rightarrow> members \<Rightarrow> exn + unit" where
  "validate_number ro location path v t =
     bindR (refuse_if (compare_numbers float_less v (get_key t ''minimum''))
       (schema_error (located location path ('' must be at least '' @ value_str ro (get_key t ''minimum'') @
          '', got '' @ value_repr ro v)))) (\<lambda>_.
     refuse_if (compare_numbers (\<lambda>x y. float_less y x) v (get_key t ''maximum''))
       (schema_error (located location path ('' must be at most '' @ value_str ro (get_key t ''maximum'') @
          '', got '' @ value_repr ro v))))"

definition validate_lengths ::
    "object_repr \<Rightarrow> string \<Rightarrow> string \<Rightarrow> members \<Rightarrow> nat \<Rightarrow> string \<Rightarrow> string \<Rightarrow> string \<Rightarrow> exn + unit" where
  "validate_lengths ro location path t n least most measure_unit =
     bindR (check_size ro location path t n least True measure_unit)
       (\<lambda>_. check_size ro location path t n most False measure_unit)"

definition validate_bounds :: "object_repr \<Rightarrow> string \<Rightarrow> string \<Rightarrow> pyval \<Rightarrow> members \<Rightarrow> exn + unit" where
  "validate_bounds ro location path v t =
     bindR (if number_value v then validate_number ro location path v t else Inr ()) (\<lambda>_.
     bindR (case text_of v of
         None \<Rightarrow> Inr ()
       | Some s \<Rightarrow>
           validate_lengths ro location path t (length s) ''minLength'' ''maxLength'' ''character'') (\<lambda>_.
     case array_of v of
       None \<Rightarrow> Inr ()
     | Some xs \<Rightarrow>
         validate_lengths ro location path t (length xs) ''minItems'' ''maxItems'' ''item''))"

text \<open>
  \<open>_validate_object\<close> before and after its walk over the declared properties. A required name that
  is no text is in no object.
\<close>

definition has_member :: "members \<Rightarrow> pyval \<Rightarrow> bool" where
  "has_member vt name = (case text_of name of Some n \<Rightarrow> n \<in> fst ` set vt | None \<Rightarrow> False)"

definition validate_required :: "object_repr \<Rightarrow> string \<Rightarrow> string \<Rightarrow> members \<Rightarrow> members \<Rightarrow> exn + unit" where
  "validate_required ro location path vt t =
     (case find (\<lambda>name. \<not> has_member vt name) (sequence_of (get_key t ''required'')) of
        None \<Rightarrow> Inr ()
      | Some name \<Rightarrow> Inl (schema_error (located location path
          ('' is missing the required property '' @ value_repr ro name))))"

definition declared_properties :: "members \<Rightarrow> members" where
  "declared_properties t = (case get_key t ''properties'' of PDict ps \<Rightarrow> ps | _ \<Rightarrow> [])"

definition validate_additional :: "string \<Rightarrow> string \<Rightarrow> members \<Rightarrow> members \<Rightarrow> exn + unit" where
  "validate_additional location path vt t =
     (let unexpected = sort (filter (\<lambda>n. n \<notin> fst ` set (declared_properties t)) (map fst vt))
      in refuse_if (get_key t ''additionalProperties'' = PBool False \<and> unexpected \<noteq> [])
           (schema_error (located location path
             ('' has unexpected propert(ies): '' @ join '', '' unexpected))))"

definition index_path :: "string \<Rightarrow> nat \<Rightarrow> string" where
  "index_path path n = path @ ''['' @ dec_nat n @ '']''"

lemma object_of_Some [simp]: "object_of v = Some t \<longleftrightarrow> v = PDict t"
  by (simp add: object_of_def split: pyval.split)

lemma size_array_of: "array_of v = Some xs \<Longrightarrow> size_list size xs < size v"
  by (auto simp: array_of_def split: pyval.splits)

function validate_node :: "object_repr \<Rightarrow> string \<Rightarrow> string \<Rightarrow> pyval \<Rightarrow> members \<Rightarrow> exn + unit" and
    validate_items ::
      "object_repr \<Rightarrow> string \<Rightarrow> string \<Rightarrow> nat \<Rightarrow> pyval list \<Rightarrow> members \<Rightarrow> exn + unit" and
    validate_members ::
      "object_repr \<Rightarrow> string \<Rightarrow> string \<Rightarrow> members \<Rightarrow> members \<Rightarrow> exn + unit" where
  "validate_node ro location path v t =
     bindR (validate_type ro location path v t) (\<lambda>_.
     bindR (validate_enum ro location path v t) (\<lambda>_.
     bindR (validate_bounds ro location path v t) (\<lambda>_.
     case object_of v of
       Some vt \<Rightarrow>
         bindR (validate_required ro location path vt t) (\<lambda>_.
         bindR (validate_members ro location path vt (declared_properties t)) (\<lambda>_.
         validate_additional location path vt t))
     | None \<Rightarrow>
         (case array_of v of
            None \<Rightarrow> Inr ()
          | Some xs \<Rightarrow>
              (case object_of (get_key t ''items'') of
                 None \<Rightarrow> Inr ()
               | Some it \<Rightarrow> validate_items ro location path 0 xs it)))))"
| "validate_items ro location path n [] it = Inr ()"
| "validate_items ro location path n (x # xs) it =
     bindR (validate_node ro location (index_path path n) x it)
       (\<lambda>_. validate_items ro location path (n + 1) xs it)"
| "validate_members ro location path vt [] = Inr ()"
| "validate_members ro location path vt ((name, child) # rest) =
     bindR (case map_of vt name of
         None \<Rightarrow> Inr ()
       | Some x \<Rightarrow>
           (case object_of child of
              None \<Rightarrow> Inr ()
            | Some ct \<Rightarrow> validate_node ro location (path @ ''.'' @ name) x ct))
       (\<lambda>_. validate_members ro location path vt rest)"
  by pat_completeness auto

termination
  by (relation "measures [
      \<lambda>x. case x of Inl (ro, location, path, v, t) \<Rightarrow> size v
        | Inr (Inl (ro, location, path, n, xs, it)) \<Rightarrow> size_list size xs
        | Inr (Inr (ro, location, path, vt, ps)) \<Rightarrow> size_list (size_prod (\<lambda>_. 0) size) vt,
      \<lambda>x. case x of Inl _ \<Rightarrow> 0 | Inr (Inl _) \<Rightarrow> 0
        | Inr (Inr (ro, location, path, vt, ps)) \<Rightarrow> length ps]")
    (auto dest!: size_map_of size_array_of)

declare validate_node.simps [simp del]

definition validate_payload :: "object_repr \<Rightarrow> string \<Rightarrow> pyval \<Rightarrow> pyval \<Rightarrow> exn + pyval" where
  "validate_payload ro location payload schema =
     bindR (check_schema ro location schema) (\<lambda>_.
     case object_of schema of
       Some t \<Rightarrow> bindR (validate_node ro location ''$'' payload t) (\<lambda>_. Inr payload)
     | None \<Rightarrow> Inr payload)"

definition describe_schema :: "object_repr \<Rightarrow> members \<Rightarrow> string" where
  "describe_schema ro t = (case get_key t ''type'' of
     PStr s \<Rightarrow> s
   | declared \<Rightarrow>
       (case array_of declared of
          Some xs \<Rightarrow> join '' or '' (map (value_str ro) xs)
        | None \<Rightarrow> if ''properties'' \<in> fst ` set t then ''object'' else ''any''))"

end
