(* ===== verification/Ai_Contracts.thy ===== *)
theory Ai_Contracts
  imports Schema Procedures
begin

text \<open>
  \<open>ai/contracts.py\<close>: messages, tool calls and declarations, requests and responses, with the checks
  their constructors make. Durations and temperatures are reals. An argument whose class a
  constructor checks is a Python value here, the others have their declared types.
\<close>

datatype role = SYSTEM | USER | ASSISTANT | TOOL

fun role_value :: "role \<Rightarrow> string" where
  "role_value SYSTEM = ''system''"
| "role_value USER = ''user''"
| "role_value ASSISTANT = ''assistant''"
| "role_value TOOL = ''tool''"

datatype finish_reason = FR_STOP | FR_LENGTH | FR_TOOL_CALLS | FR_REFUSAL | FR_OTHER

fun finish_value :: "finish_reason \<Rightarrow> string" where
  "finish_value FR_STOP = ''stop''"
| "finish_value FR_LENGTH = ''length''"
| "finish_value FR_TOOL_CALLS = ''tool_calls''"
| "finish_value FR_REFUSAL = ''refusal''"
| "finish_value FR_OTHER = ''other''"

section \<open>Messages and tool calls\<close>

text \<open>\<open>_freeze\<close>: a mapping, copied.\<close>

definition freeze_mapping :: "pyval \<Rightarrow> string \<Rightarrow> exn + members" where
  "freeze_mapping v location = (case object_of v of
     Some t \<Rightarrow> Inr t
   | None \<Rightarrow> Inl (request_error (location @ '' must be a mapping, got '' @ py_type v)))"

definition non_blank_text :: "pyval \<Rightarrow> string option" where
  "non_blank_text v = (case text_of v of Some s \<Rightarrow> if blank s then None else Some s | None \<Rightarrow> None)"

record tool_call =
  tc_name :: string
  tc_arguments :: members
  tc_call_id :: "string option"

definition make_tool_call :: "pyval \<Rightarrow> pyval \<Rightarrow> string option \<Rightarrow> exn + tool_call" where
  "make_tool_call name arguments call_id = (case non_blank_text name of
     None \<Rightarrow> Inl (request_error ''a tool call needs a non-empty tool name'')
   | Some n \<Rightarrow>
       bindR (freeze_mapping arguments (''arguments of tool '' @ py_repr n)) (\<lambda>args.
       Inr \<lparr>tc_name = n, tc_arguments = args, tc_call_id = call_id\<rparr>))"

record message =
  ms_role :: role
  ms_content :: string
  ms_tool_calls :: "tool_call list"
  ms_tool_name :: "string option"

text \<open>A role that is no \<open>Role\<close> is given by the name of its class.\<close>

definition make_message ::
    "string + role \<Rightarrow> pyval \<Rightarrow> tool_call list \<Rightarrow> string option \<Rightarrow> exn + message" where
  "make_message role content calls tool_name = (case role of
     Inl c \<Rightarrow> Inl (request_error (''role must be a Role, got '' @ c))
   | Inr r \<Rightarrow> (case text_of content of
       None \<Rightarrow> Inl (request_error ''message content must be a string'')
     | Some s \<Rightarrow>
         bindR (refuse_if (r = TOOL \<and> or_text tool_name [] = [])
           (request_error ''a tool message must name the tool it answers'')) (\<lambda>_.
         Inr \<lparr>ms_role = r, ms_content = s, ms_tool_calls = calls, ms_tool_name = tool_name\<rparr>)))"

definition system_message :: "string \<Rightarrow> exn + message" where
  "system_message content = make_message (Inr SYSTEM) (PStr content) [] None"

definition user_message :: "string \<Rightarrow> exn + message" where
  "user_message content = make_message (Inr USER) (PStr content) [] None"

definition assistant_message :: "string \<Rightarrow> tool_call list \<Rightarrow> exn + message" where
  "assistant_message content calls = make_message (Inr ASSISTANT) (PStr content) calls None"

definition tool_result_message :: "string \<Rightarrow> string \<Rightarrow> exn + message" where
  "tool_result_message name content = make_message (Inr TOOL) (PStr content) [] (Some name)"

section \<open>Usage, capabilities, health\<close>

record usage =
  us_input :: int
  us_output :: int

definition make_usage :: "int \<Rightarrow> int \<Rightarrow> exn + usage" where
  "make_usage i n = bindR (refuse_if (i < 0 \<or> n < 0) (request_error ''token counts cannot be negative''))
     (\<lambda>_. Inr \<lparr>us_input = i, us_output = n\<rparr>)"

definition no_usage :: usage where
  "no_usage = \<lparr>us_input = 0, us_output = 0\<rparr>"

definition total_tokens :: "usage \<Rightarrow> int" where
  "total_tokens u = us_input u + us_output u"

definition combined :: "usage \<Rightarrow> usage \<Rightarrow> exn + usage" where
  "combined u v = make_usage (us_input u + us_input v) (us_output u + us_output v)"

record capabilities =
  cp_tools :: bool
  cp_structured :: bool
  cp_streaming :: bool
  cp_embeddings :: bool

definition default_capabilities :: capabilities where
  "default_capabilities =
     \<lparr>cp_tools = False, cp_structured = False, cp_streaming = True, cp_embeddings = False\<rparr>"

datatype model_status = READY | UNREACHABLE | MODEL_UNAVAILABLE | UNHEALTHY

record health =
  he_status :: model_status
  he_model :: string
  he_detail :: string
  he_version :: "string option"

definition health_ready :: "health \<Rightarrow> bool" where
  "health_ready h = (he_status h = READY)"

section \<open>Declarations and requests\<close>

record tool_spec =
  sp_name :: string
  sp_description :: string
  sp_parameters :: members

definition make_tool_spec ::
    "object_repr \<Rightarrow> pyval \<Rightarrow> pyval \<Rightarrow> pyval \<Rightarrow> exn + tool_spec" where
  "make_tool_spec ro name description parameters = (case non_blank_text name of
     None \<Rightarrow> Inl (request_error ''a tool specification needs a non-empty name'')
   | Some n \<Rightarrow> (case text_of description of
       None \<Rightarrow> Inl (request_error (''the description of tool '' @ py_repr n @ '' must be a string''))
     | Some d \<Rightarrow>
         bindR (freeze_mapping parameters (''parameters of tool '' @ py_repr n)) (\<lambda>t.
         bindR (check_schema ro (''parameters of tool '' @ py_repr n) (PDict t)) (\<lambda>_.
         Inr \<lparr>sp_name = n, sp_description = d, sp_parameters = t\<rparr>))))"

record chat_request =
  rq_messages :: "message list"
  rq_model :: "string option"
  rq_temperature :: "real option"
  rq_max_tokens :: "int option"
  rq_stop :: "string list"
  rq_schema :: "members option"
  rq_tools :: "tool_spec list"
  rq_timeout :: "real option"

definition check_response_schema :: "object_repr \<Rightarrow> members option \<Rightarrow> exn + unit" where
  "check_response_schema ro schema = (case schema of
     None \<Rightarrow> Inr ()
   | Some t \<Rightarrow> check_schema ro ''response_schema'' (PDict t))"

text \<open>
  The constructor of a request, and \<open>replace\<close> on one, which runs it again; a value in place of a
  message is not modelled, nor is a schema that is no mapping.
\<close>

definition make_chat_request :: "object_repr \<Rightarrow> chat_request \<Rightarrow> exn + chat_request" where
  "make_chat_request ro q =
     bindR (refuse_if (rq_messages q = []) (request_error ''a chat request needs at least one message'')) (\<lambda>_.
     bindR (refuse_if (given (\<lambda>t. \<not> (0 \<le> t \<and> t \<le> 2)) (rq_temperature q))
       (request_error ''temperature must be between 0 and 2'')) (\<lambda>_.
     bindR (refuse_if (given (\<lambda>n. n < 1) (rq_max_tokens q))
       (request_error ''max_tokens must be at least 1'')) (\<lambda>_.
     bindR (refuse_if (given (\<lambda>t. t \<le> 0) (rq_timeout q))
       (request_error ''timeout must be greater than zero'')) (\<lambda>_.
     bindR (check_response_schema ro (rq_schema q)) (\<lambda>_. Inr q)))))"

record chat_response =
  rs_message :: message
  rs_model :: string
  rs_usage :: usage
  rs_finish :: "finish_reason option"
  rs_structured :: pyval
  rs_rounds :: nat

record chat_chunk =
  ck_content :: string
  ck_done :: bool
  ck_model :: "string option"
  ck_usage :: "usage option"

record embedding_request =
  er_inputs :: "pyval list"
  er_model :: "string option"
  er_timeout :: "real option"

definition make_embedding_request :: "embedding_request \<Rightarrow> exn + embedding_request" where
  "make_embedding_request q =
     bindR (refuse_if (er_inputs q = []) (request_error ''an embedding request needs at least one input'')) (\<lambda>_.
     bindR (refuse_if (list_ex (\<lambda>v. case text_of v of None \<Rightarrow> True | Some s \<Rightarrow> s = []) (er_inputs q))
       (request_error ''embedding inputs must be non-empty strings'')) (\<lambda>_.
     bindR (refuse_if (given (\<lambda>t. t \<le> 0) (er_timeout q))
       (request_error ''timeout must be greater than zero'')) (\<lambda>_. Inr q)))"

record embedding_response =
  em_model :: string
  em_embeddings :: "pyfloat list list"
  em_usage :: usage

definition dimensions :: "embedding_response \<Rightarrow> nat option" where
  "dimensions r = (case em_embeddings r of [] \<Rightarrow> None | v # vs \<Rightarrow> Some (length v))"

section \<open>Lemmas\<close>

text \<open>Token counts of a report are never negative, so reports add up.\<close>

definition usage_ok :: "usage \<Rightarrow> bool" where
  "usage_ok u \<longleftrightarrow> 0 \<le> us_input u \<and> 0 \<le> us_output u"

definition add_usage :: "usage \<Rightarrow> usage \<Rightarrow> usage" where
  "add_usage u v = \<lparr>us_input = us_input u + us_input v, us_output = us_output u + us_output v\<rparr>"

lemma combined_ok: "usage_ok u \<Longrightarrow> usage_ok v \<Longrightarrow> combined u v = Inr (add_usage u v) \<and> usage_ok (add_usage u v)"
  by (simp add: combined_def make_usage_def usage_ok_def add_usage_def refuse_if_def)

lemma no_usage_ok [simp]: "usage_ok no_usage"
  by (simp add: usage_ok_def no_usage_def)

end
