(* ===== verification/Tools.thy ===== *)
theory Tools
  imports Ai_Contracts
begin

text \<open>
  \<open>ai/tools.py\<close>: the set of tools a call may use, which is its allowlist. A requested call is looked
  up in the set, its arguments are checked against the tool's declaration, and only then its
  handler runs. Handlers, the audit sink, the clock and the context variables are foreign code
  over an environment; \<open>tw_trace\<close> records what the set handed out, calls of handlers and events, in
  order. A handler gets no access to the set it is called from.
\<close>

datatype tool_event_type = TE_REQUESTED | TE_DENIED | TE_INVALID | TE_SUCCEEDED | TE_FAILED

fun tool_event_value :: "tool_event_type \<Rightarrow> string" where
  "tool_event_value TE_REQUESTED = ''requested''"
| "tool_event_value TE_DENIED = ''denied''"
| "tool_event_value TE_INVALID = ''invalid''"
| "tool_event_value TE_SUCCEEDED = ''succeeded''"
| "tool_event_value TE_FAILED = ''failed''"

record tool_event =
  te_type :: tool_event_type
  te_tool :: string
  te_sequence :: nat
  te_keys :: "string list"
  te_duration :: "real option"
  te_error :: "string option"
  te_correlation :: "string option"

text \<open>\<open>fixed6\<close> is the format \<open>.6f\<close>.\<close>

definition render_tool_event :: "(real \<Rightarrow> string) \<Rightarrow> tool_event \<Rightarrow> string" where
  "render_tool_event fixed6 e = join '' '' (
     [''#'' @ dec_nat (te_sequence e), tool_event_value (te_type e), ''tool='' @ te_tool e] @
     (if te_keys e = [] then [] else [''arguments='' @ join '','' (te_keys e)]) @
     (case te_duration e of None \<Rightarrow> [] | Some d \<Rightarrow> [''duration='' @ fixed6 d]) @
     (case te_error e of None \<Rightarrow> [] | Some t \<Rightarrow> [''error='' @ t]))"

record tool_context =
  tx_call_id :: "string option"
  tx_deadline :: "real option"
  tx_correlation :: "string option"

text \<open>\<open>remaining\<close>, \<open>expired\<close> and \<open>check\<close> at the clock reading \<open>now\<close>.\<close>

definition time_remaining :: "tool_context \<Rightarrow> real \<Rightarrow> real option" where
  "time_remaining c now = map_option (\<lambda>d. max (d - now) 0) (tx_deadline c)"

definition context_expired :: "tool_context \<Rightarrow> real \<Rightarrow> bool" where
  "context_expired c now = given (\<lambda>r. r \<le> 0) (time_remaining c now)"

definition check_context :: "tool_context \<Rightarrow> real \<Rightarrow> exn + unit" where
  "check_context c now = refuse_if (context_expired c now)
     (raised ''AITimeoutError'' ''the tool ran out of time before it finished'')"

section \<open>Tools and results\<close>

text \<open>A handler is given by what it is (\<open>'h\<close>); a value that cannot be called is \<open>None\<close>.\<close>

record 'h tool =
  to_spec :: tool_spec
  to_handler :: 'h

definition tool_error :: "string \<Rightarrow> string \<Rightarrow> exn" where
  "tool_error msg name = Exn (Fw ''AIToolError'') msg (ToolAttr name)"

definition make_tool :: "tool_spec \<Rightarrow> 'h option \<Rightarrow> exn + 'h tool" where
  "make_tool spec handler = (case handler of
     None \<Rightarrow> Inl (tool_error (''tool '' @ py_repr (sp_name spec) @ '' needs a callable handler'') (sp_name spec))
   | Some h \<Rightarrow> Inr \<lparr>to_spec = spec, to_handler = h\<rparr>)"

definition tool_name :: "'h tool \<Rightarrow> string" where
  "tool_name t = sp_name (to_spec t)"

record tool_result =
  tr_tool :: string
  tr_ok :: bool
  tr_value :: pyval
  tr_error_type :: "string option"
  tr_error :: "string option"
  tr_duration :: real

section \<open>The set\<close>

record 'h tool_set =
  ts_tools :: "(string \<times> 'h tool) list"
  ts_audited :: bool
  ts_sequence :: nat

definition empty_tool_set :: "bool \<Rightarrow> 'h tool_set" where
  "empty_tool_set audited = \<lparr>ts_tools = [], ts_audited = audited, ts_sequence = 0\<rparr>"

definition add_tool :: "'h tool_set \<Rightarrow> 'h tool \<Rightarrow> exn + 'h tool_set" where
  "add_tool s t =
     bindR (refuse_if (tool_name t \<in> fst ` set (ts_tools s))
       (tool_error (''tool '' @ py_repr (tool_name t) @ '' is already registered'') (tool_name t))) (\<lambda>_.
     Inr (s\<lparr>ts_tools := dict_set (ts_tools s) (tool_name t) t\<rparr>))"

fun add_tools :: "'h tool_set \<Rightarrow> 'h tool list \<Rightarrow> exn + 'h tool_set" where
  "add_tools s [] = Inr s"
| "add_tools s (t # ts) = bindR (add_tool s t) (\<lambda>s'. add_tools s' ts)"

definition make_tool_set :: "'h tool list \<Rightarrow> bool \<Rightarrow> exn + 'h tool_set" where
  "make_tool_set ts audited = add_tools (empty_tool_set audited) ts"

definition tool_names :: "'h tool_set \<Rightarrow> string list" where
  "tool_names s = map fst (ts_tools s)"

definition tool_specs :: "'h tool_set \<Rightarrow> tool_spec list" where
  "tool_specs s = map (to_spec \<circ> snd) (ts_tools s)"

definition get_tool :: "'h tool_set \<Rightarrow> string \<Rightarrow> 'h tool option" where
  "get_tool s name = map_of (ts_tools s) name"

section \<open>Invoking\<close>

datatype tool_action = Audited tool_event | Called string members

record ('h, 'e) tool_world =
  tw_set :: "'h tool_set"
  tw_env :: 'e
  tw_trace :: "tool_action list"

record ('h, 'e) tool_foreign =
  tf_call :: "'h \<Rightarrow> members \<Rightarrow> tool_context \<Rightarrow> 'e \<Rightarrow> (exn + pyval) \<times> 'e"
  tf_sink :: "tool_event \<Rightarrow> 'e \<Rightarrow> (exn + unit) \<times> 'e"
  tf_clock :: "'e \<Rightarrow> real \<times> 'e"
  tf_deadline :: "'e \<Rightarrow> real option"
  tf_correlation :: "'e \<Rightarrow> string option"
  tf_repr :: object_repr

type_synonym ('h, 'e, 'a) tool_proc = "(('h, 'e) tool_world, exn, 'a) proc"

definition read_clock :: "('h, 'e) tool_foreign \<Rightarrow> ('h, 'e, real) tool_proc" where
  "read_clock tf = (\<lambda>w. case tf_clock tf (tw_env w) of (t, e) \<Rightarrow> (Inr t, w\<lparr>tw_env := e\<rparr>))"

definition emit_tool_event ::
    "('h, 'e) tool_foreign \<Rightarrow> tool_event_type \<Rightarrow> string \<Rightarrow> string list \<Rightarrow> real option \<Rightarrow>
     string option \<Rightarrow> ('h, 'e, unit) tool_proc" where
  "emit_tool_event tf k name keys duration error = (\<lambda>w.
     if \<not> ts_audited (tw_set w) then (Inr (), w)
     else
       let n = ts_sequence (tw_set w) + 1;
           event = \<lparr>te_type = k, te_tool = name, te_sequence = n, te_keys = keys,
                    te_duration = duration, te_error = error, te_correlation = tf_correlation tf (tw_env w)\<rparr>
       in case tf_sink tf event (tw_env w) of (r, e) \<Rightarrow>
            (r, w\<lparr>tw_set := (tw_set w)\<lparr>ts_sequence := n\<rparr>, tw_env := e,
                  tw_trace := tw_trace w @ [Audited event]\<rparr>))"

definition call_handler ::
    "('h, 'e) tool_foreign \<Rightarrow> 'h tool \<Rightarrow> members \<Rightarrow> tool_context \<Rightarrow> ('h, 'e, pyval) tool_proc" where
  "call_handler tf t arguments context = (\<lambda>w.
     case tf_call tf (to_handler t) arguments context (tw_env w) of (r, e) \<Rightarrow>
       (r, w\<lparr>tw_env := e, tw_trace := tw_trace w @ [Called (tool_name t) arguments]\<rparr>))"

definition argument_keys :: "tool_call \<Rightarrow> string list" where
  "argument_keys call = sort (map fst (tc_arguments call))"

definition denied :: "('h, 'e) tool_foreign \<Rightarrow> tool_call \<Rightarrow> ('h, 'e, tool_result) tool_proc" where
  "denied tf call =
     seqA (emit_tool_event tf TE_DENIED (tc_name call) (argument_keys call) None None)
     (bindA (askA (\<lambda>w. Inr (tool_names (tw_set w)))) (\<lambda>names.
      failA (tool_error (''the model asked for tool '' @ py_repr (tc_name call) @
        '', which is not allowed for this call; allowed tools: '' @
        (if join '', '' names = [] then ''none'' else join '', '' names)) (tc_name call))))"

definition check_arguments :: "('h, 'e) tool_foreign \<Rightarrow> 'h tool \<Rightarrow> tool_call \<Rightarrow> exn + pyval" where
  "check_arguments tf t call = validate_payload (tf_repr tf) (''arguments of tool '' @ py_repr (tool_name t))
     (PDict (tc_arguments call)) (PDict (sp_parameters (to_spec t)))"

definition invalid_arguments ::
    "('h, 'e) tool_foreign \<Rightarrow> 'h tool \<Rightarrow> tool_call \<Rightarrow> exn \<Rightarrow> ('h, 'e, tool_result) tool_proc" where
  "invalid_arguments tf t call error =
     (if instance_of error ''AISchemaError'' then
        seqA (emit_tool_event tf TE_INVALID (tool_name t) (argument_keys call) None (Some ''AISchemaError''))
          (retA \<lparr>tr_tool = tool_name t, tr_ok = False, tr_value = PNone,
                 tr_error_type = Some ''AISchemaError'', tr_error = Some (str_of error), tr_duration = 0\<rparr>)
      else failA error)"

definition handler_failed ::
    "('h, 'e) tool_foreign \<Rightarrow> 'h tool \<Rightarrow> tool_call \<Rightarrow> real \<Rightarrow> exn \<Rightarrow> ('h, 'e, tool_result) tool_proc" where
  "handler_failed tf t call started error =
     (if instance_of error ''Exception'' then
        bindA (read_clock tf) (\<lambda>now.
        seqA (emit_tool_event tf TE_FAILED (tool_name t) (argument_keys call) (Some (now - started))
               (Some (type_name (class_of error))))
          (retA \<lparr>tr_tool = tool_name t, tr_ok = False, tr_value = PNone,
                 tr_error_type = Some (type_name (class_of error)), tr_error = Some (str_of error),
                 tr_duration = now - started\<rparr>))
      else failA error)"

definition handler_returned ::
    "('h, 'e) tool_foreign \<Rightarrow> 'h tool \<Rightarrow> tool_call \<Rightarrow> real \<Rightarrow> pyval \<Rightarrow> ('h, 'e, tool_result) tool_proc" where
  "handler_returned tf t call started v =
     bindA (read_clock tf) (\<lambda>now.
     seqA (emit_tool_event tf TE_SUCCEEDED (tool_name t) (argument_keys call) (Some (now - started)) None)
       (retA \<lparr>tr_tool = tool_name t, tr_ok = True, tr_value = v, tr_error_type = None, tr_error = None,
              tr_duration = now - started\<rparr>))"

text \<open>\<open>try: m except ... else ...\<close>: what follows depends on how the call ended.\<close>

definition tryA :: "('w, 'e, 'a) proc \<Rightarrow> ('e \<Rightarrow> ('w, 'e, 'b) proc) \<Rightarrow> ('a \<Rightarrow> ('w, 'e, 'b) proc) \<Rightarrow> ('w, 'e, 'b) proc" where
  "tryA m failed returned = (\<lambda>w. case m w of (Inl e, w') \<Rightarrow> failed e w' | (Inr x, w') \<Rightarrow> returned x w')"

definition context_of :: "('h, 'e) tool_foreign \<Rightarrow> tool_call \<Rightarrow> string option \<Rightarrow> ('h, 'e, tool_context) tool_proc" where
  "context_of tf call call_id = askA (\<lambda>w. Inr
     \<lparr>tx_call_id = (if or_text call_id [] = [] then tc_call_id call else call_id),
      tx_deadline = tf_deadline tf (tw_env w), tx_correlation = tf_correlation tf (tw_env w)\<rparr>)"

definition run_tool ::
    "('h, 'e) tool_foreign \<Rightarrow> 'h tool \<Rightarrow> tool_call \<Rightarrow> string option \<Rightarrow> ('h, 'e, tool_result) tool_proc" where
  "run_tool tf t call call_id =
     bindA (context_of tf call call_id) (\<lambda>context.
     bindA (read_clock tf) (\<lambda>started.
     tryA (call_handler tf t (tc_arguments call) context)
       (handler_failed tf t call started) (handler_returned tf t call started)))"

definition invoke ::
    "('h, 'e) tool_foreign \<Rightarrow> tool_call \<Rightarrow> string option \<Rightarrow> ('h, 'e, tool_result) tool_proc" where
  "invoke tf call call_id =
     seqA (emit_tool_event tf TE_REQUESTED (tc_name call) (argument_keys call) None None)
     (bindA (askA (\<lambda>w. Inr (get_tool (tw_set w) (tc_name call)))) (\<lambda>found.
      case found of
        None \<Rightarrow> denied tf call
      | Some t \<Rightarrow>
          (case check_arguments tf t call of
             Inl error \<Rightarrow> invalid_arguments tf t call error
           | Inr _ \<Rightarrow> run_tool tf t call call_id)))"

fun invoke_all :: "('h, 'e) tool_foreign \<Rightarrow> tool_call list \<Rightarrow> ('h, 'e, tool_result list) tool_proc" where
  "invoke_all tf [] = retA []"
| "invoke_all tf (call # calls) =
     bindA (invoke tf call None) (\<lambda>r. bindA (invoke_all tf calls) (\<lambda>rs. retA (r # rs)))"

text \<open>
  \<open>render\<close>: the result as JSON, with the default separators of \<open>json.dumps\<close>; \<open>dumps\<close> is that function
  with \<open>default=str\<close> and sorted keys.
\<close>

definition error_object :: "tool_result \<Rightarrow> pyval" where
  "error_object r = PDict [
     (''error_type'', case tr_error_type r of None \<Rightarrow> PNone | Some t \<Rightarrow> PStr t),
     (''error'', case tr_error r of None \<Rightarrow> PNone | Some t \<Rightarrow> PStr t)]"

definition render_result :: "(pyval \<Rightarrow> string) \<Rightarrow> tool_result \<Rightarrow> string" where
  "render_result dumps r = dumps (if tr_ok r then tr_value r else error_object r)"

end
