(* ===== verification/Facade.thy ===== *)
theory Facade
  imports Tools
begin

text \<open>
  \<open>ai/facade.py\<close>: what the framework adds to a model provider - capability checks, the time a call
  may take, validation of structured output, the bounded loop of model and tools, usage and the
  logging policy. The provider is foreign code over the environment of the tools; a call that
  \<open>asyncio.wait_for\<close> cuts off, or that runs out of time by itself, ends in \<open>TimeoutError\<close>.
  \<open>aw_trace\<close> records the requests handed to the provider and its answers, \<open>aw_log\<close> the lines logged.
\<close>

section \<open>Logging policy\<close>

record logging_policy =
  lp_capture :: bool
  lp_max_length :: int
  lp_redact :: "string list"

definition make_logging_policy :: "logging_policy \<Rightarrow> exn + logging_policy" where
  "make_logging_policy p = bindR (refuse_if (lp_max_length p < 1)
     (raised ''AIConfigurationError'' ''max_content_length must be at least 1'')) (\<lambda>_. Inr p)"

definition metadata_only :: logging_policy where
  "metadata_only = \<lparr>lp_capture = False, lp_max_length = 200, lp_redact = []\<rparr>"

definition capturing :: "int \<Rightarrow> string list \<Rightarrow> exn + logging_policy" where
  "capturing n secrets = make_logging_policy \<lparr>lp_capture = True, lp_max_length = n, lp_redact = secrets\<rparr>"

text \<open>\<open>content.replace(secret, "[redacted]")\<close>\<close>

definition redact_one :: "string \<Rightarrow> string \<Rightarrow> string" where
  "redact_one content secret =
     (if secret = [] then content else join ''[redacted]'' (split_on secret content))"

definition apply_policy :: "logging_policy \<Rightarrow> string \<Rightarrow> string" where
  "apply_policy p content =
     (let redacted = foldl redact_one content (lp_redact p)
      in if lp_max_length p < int (length redacted)
         then take (nat (lp_max_length p)) redacted @ ''...'' else redacted)"

section \<open>The world of the facade\<close>

text \<open>The arguments of the lines handed to the logger.\<close>

datatype log_line =
    LogCall string string string nat nat bool nat real int int
  | LogPrompt string string
  | LogCompletion string
  | LogEmbed string string nat "nat option" real

datatype ai_action = Asked chat_request | Answered chat_response

record ('h, 'e) ai_world =
  aw_tools :: "('h, 'e) tool_world"
  aw_trace :: "ai_action list"
  aw_log :: "log_line list"

text \<open>
  What the provider has and does: \<open>af_has\<close> says which names it implements, \<open>af_capabilities\<close> is
  \<open>None\<close> when it declares none. A call is given the time it may take, if any, and ends in an
  exception, in a value of another class, given by its name, or in a response.
\<close>

record ('h, 'e) ai_foreign =
  af_tools :: "('h, 'e) tool_foreign"
  af_has :: "string \<Rightarrow> bool"
  af_capabilities :: "capabilities option"
  af_name :: string
  af_model :: string
  af_chat :: "chat_request \<Rightarrow> real option \<Rightarrow> 'e \<Rightarrow> (exn + (string + chat_response)) \<times> 'e"
  af_embed :: "embedding_request \<Rightarrow> real option \<Rightarrow> 'e \<Rightarrow> (exn + (string + embedding_response)) \<times> 'e"
  af_health :: "'e \<Rightarrow> (exn + (string + health)) \<times> 'e"
  af_close :: "('e \<Rightarrow> (exn + unit) \<times> 'e) option"
  af_debug :: "'e \<Rightarrow> bool"
  af_dumps :: "pyval \<Rightarrow> string"
  af_general :: "real \<Rightarrow> string"
  af_policy :: logging_policy

type_synonym ('h, 'e, 'a) ai_proc = "(('h, 'e) ai_world, exn, 'a) proc"

definition env_of :: "('h, 'e) ai_world \<Rightarrow> 'e" where
  "env_of w = tw_env (aw_tools w)"

definition with_env :: "'e \<Rightarrow> ('h, 'e) ai_world \<Rightarrow> ('h, 'e) ai_world" where
  "with_env e w = w\<lparr>aw_tools := (aw_tools w)\<lparr>tw_env := e\<rparr>\<rparr>"

definition on_env :: "('e \<Rightarrow> (exn + 'a) \<times> 'e) \<Rightarrow> ('h, 'e, 'a) ai_proc" where
  "on_env f = (\<lambda>w. case f (env_of w) of (r, e) \<Rightarrow> (r, with_env e w))"

definition on_tools :: "('h, 'e, 'a) tool_proc \<Rightarrow> ('h, 'e, 'a) ai_proc" where
  "on_tools m = (\<lambda>w. case m (aw_tools w) of (r, tw) \<Rightarrow> (r, w\<lparr>aw_tools := tw\<rparr>))"

definition monotonic_now :: "('h, 'e) ai_foreign \<Rightarrow> ('h, 'e, real) ai_proc" where
  "monotonic_now af = on_tools (read_clock (af_tools af))"

definition log_lines :: "log_line list \<Rightarrow> ('h, 'e, unit) ai_proc" where
  "log_lines ls = modA (\<lambda>w. w\<lparr>aw_log := aw_log w @ ls\<rparr>)"

definition record_action :: "ai_action \<Rightarrow> ('h, 'e, unit) ai_proc" where
  "record_action a = modA (\<lambda>w. w\<lparr>aw_trace := aw_trace w @ [a]\<rparr>)"

section \<open>Checks\<close>

definition check_provider :: "('h, 'e) ai_foreign option \<Rightarrow> exn + unit" where
  "check_provider provider = (case provider of
     None \<Rightarrow> Inl (raised ''AIConfigurationError'' ''an AI facade needs a provider'')
   | Some af \<Rightarrow> refuse_if (\<not> af_has af ''chat'' \<and> \<not> af_has af ''embed'')
       (raised ''AIConfigurationError''
         ''an AI provider must implement chat() or embed(), and expose capabilities''))"

definition unsupported :: "string \<Rightarrow> exn" where
  "unsupported = raised ''AIUnsupportedCapabilityError''"

definition provider_capabilities :: "('h, 'e) ai_foreign \<Rightarrow> exn + capabilities" where
  "provider_capabilities af = (case af_capabilities af of
     Some c \<Rightarrow> Inr c
   | None \<Rightarrow> Inl (unsupported
       ''the AI provider does not declare capabilities, so no AI feature can be trusted''))"

definition require_named :: "('h, 'e) ai_foreign \<Rightarrow> string \<Rightarrow> exn + unit" where
  "require_named af name = refuse_if (\<not> af_has af name)
     (unsupported (''the AI provider does not implement '' @ name @ ''()''))"

definition check_request :: "('h, 'e) ai_foreign \<Rightarrow> chat_request \<Rightarrow> exn + unit" where
  "check_request af q =
     bindR (require_named af ''chat'') (\<lambda>_.
     bindR (provider_capabilities af) (\<lambda>c.
     bindR (refuse_if (rq_tools q \<noteq> [] \<and> \<not> cp_tools c) (unsupported
       (''the request offers tools but this model does not claim tool support; declare the '' @
        ''capability on the provider before relying on it''))) (\<lambda>_.
     refuse_if (rq_schema q \<noteq> None \<and> \<not> cp_structured c) (unsupported
       (''the request asks for a response schema but this model does not claim structured '' @
        ''output support; declare the capability on the provider before relying on it'')))))"

section \<open>Time\<close>

definition call_budget :: "('h, 'e) ai_foreign \<Rightarrow> real option \<Rightarrow> ('h, 'e, real option) ai_proc" where
  "call_budget af timeout =
     bindA (askA (\<lambda>w. Inr (tf_deadline (af_tools af) (env_of w)))) (\<lambda>deadline.
     case deadline of
       None \<Rightarrow> retA timeout
     | Some d \<Rightarrow> bindA (monotonic_now af) (\<lambda>now.
         retA (Some (case timeout of
           None \<Rightarrow> max (d - now) 0
         | Some t \<Rightarrow> min t (max (d - now) 0)))))"

definition no_time_left :: "('h, 'e) ai_foreign \<Rightarrow> exn" where
  "no_time_left af = raised ''AITimeoutError''
     (''no time left for the '' @ af_name af @ '' request: its budget was already exhausted'')"

text \<open>
  The handler of a time-out formats the budget, also when there is none, which raises.
\<close>

definition out_of_time :: "('h, 'e) ai_foreign \<Rightarrow> real option \<Rightarrow> exn" where
  "out_of_time af budget = (case budget of
     None \<Rightarrow> raised ''TypeError'' ''unsupported format string passed to NoneType.__format__''
   | Some b \<Rightarrow> raised ''AITimeoutError''
       (''the '' @ af_name af @ '' request exceeded its budget of '' @ af_general af b @ ''s''))"

definition await_budget ::
    "('h, 'e) ai_foreign \<Rightarrow> real option \<Rightarrow> (real option \<Rightarrow> 'e \<Rightarrow> (exn + 'a) \<times> 'e) \<Rightarrow> ('h, 'e, 'a) ai_proc" where
  "await_budget af budget call =
     (if given (\<lambda>b. b \<le> 0) budget then failA (no_time_left af)
      else catchA (on_env (call budget))
        (\<lambda>e. if instance_of e ''TimeoutError'' then Some (failA (out_of_time af budget)) else None))"

section \<open>Chat\<close>

definition wrong_answer :: "('h, 'e) ai_foreign \<Rightarrow> string \<Rightarrow> string \<Rightarrow> exn" where
  "wrong_answer af c expected = raised ''AIInvalidPayloadError''
     (''the '' @ af_name af @ '' adapter returned '' @ c @ '' instead of '' @ expected)"

definition call_provider ::
    "('h, 'e) ai_foreign \<Rightarrow> chat_request \<Rightarrow> real option \<Rightarrow> ('h, 'e, chat_response) ai_proc" where
  "call_provider af q budget =
     bindA (await_budget af budget (\<lambda>b e. af_chat af q b e)) (\<lambda>answer.
     case answer of
       Inl c \<Rightarrow> failA (wrong_answer af c ''a ChatResponse'')
     | Inr response \<Rightarrow> seqA (record_action (Answered response)) (retA response))"

text \<open>The call leaves a mark when it reaches the provider.\<close>

definition ask_provider ::
    "('h, 'e) ai_foreign \<Rightarrow> chat_request \<Rightarrow> real option \<Rightarrow> ('h, 'e, chat_response) ai_proc" where
  "ask_provider af q budget =
     seqA (whenA (\<not> given (\<lambda>b. b \<le> 0) budget) (record_action (Asked q))) (call_provider af q budget)"

definition validated_payload ::
    "('h, 'e) ai_foreign \<Rightarrow> chat_request \<Rightarrow> chat_response \<Rightarrow> exn + pyval option" where
  "validated_payload af q response = (case rq_schema q of
     None \<Rightarrow> Inr None
   | Some schema \<Rightarrow>
       if ms_tool_calls (rs_message response) \<noteq> [] then Inr None
       else (case json_loads (ms_content (rs_message response)) of
         Inl e \<Rightarrow> Inl (raised ''AIInvalidPayloadError''
           (''the model returned content that is not JSON ('' @ str_of e @
            ''); retry the call or adjust the prompt''))
       | Inr payload \<Rightarrow>
           bindR (validate_payload (tf_repr (af_tools af)) ''the model response'' payload (PDict schema))
             (\<lambda>_. Inr (Some payload))))"

definition or_model :: "('h, 'e) ai_foreign \<Rightarrow> string \<Rightarrow> string" where
  "or_model af m = (if m = [] then af_model af else m)"

definition call_lines ::
    "('h, 'e) ai_foreign \<Rightarrow> chat_request \<Rightarrow> chat_response \<Rightarrow> real \<Rightarrow> string \<Rightarrow> log_line list" where
  "call_lines af q response duration outcome =
     LogCall (af_name af) (or_model af (rs_model response)) outcome (length (rq_messages q))
       (length (rq_tools q)) (rq_schema q \<noteq> None) (length (ms_tool_calls (rs_message response)))
       duration (us_input (rs_usage response)) (us_output (rs_usage response)) #
     (if lp_capture (af_policy af)
      then map (\<lambda>m. LogPrompt (role_value (ms_role m)) (apply_policy (af_policy af) (ms_content m)))
             (rq_messages q) @
           [LogCompletion (apply_policy (af_policy af) (ms_content (rs_message response)))]
      else [])"

definition log_call ::
    "('h, 'e) ai_foreign \<Rightarrow> chat_request \<Rightarrow> chat_response \<Rightarrow> real \<Rightarrow> string \<Rightarrow> ('h, 'e, unit) ai_proc" where
  "log_call af q response duration outcome =
     bindA (askA (\<lambda>w. Inr (af_debug af (env_of w)))) (\<lambda>enabled.
     whenA enabled (log_lines (call_lines af q response duration outcome)))"

definition finish_chat ::
    "('h, 'e) ai_foreign \<Rightarrow> chat_request \<Rightarrow> chat_response \<Rightarrow> real \<Rightarrow> ('h, 'e, chat_response) ai_proc" where
  "finish_chat af q response duration =
     (if rs_finish response = Some FR_REFUSAL then
        seqA (log_call af q response duration ''refused'')
          (failA (raised ''AIRefusalError'' (''the model '' @
             (if af_model af = [] then ''<unset>'' else af_model af) @ '' refused the request'')))
      else
        bindA (liftA (validated_payload af q response)) (\<lambda>structured.
        seqA (log_call af q response duration ''ok'')
        (retA (case structured of
           None \<Rightarrow> response
         | Some payload \<Rightarrow> response\<lparr>rs_structured := payload\<rparr>))))"

definition chat :: "('h, 'e) ai_foreign \<Rightarrow> chat_request \<Rightarrow> ('h, 'e, chat_response) ai_proc" where
  "chat af q =
     seqA (liftA (check_request af q))
     (bindA (call_budget af (rq_timeout q)) (\<lambda>budget.
      bindA (monotonic_now af) (\<lambda>started.
      bindA (ask_provider af q budget) (\<lambda>response.
      bindA (monotonic_now af) (\<lambda>now.
      finish_chat af q response (now - started))))))"

definition structured_chat :: "('h, 'e) ai_foreign \<Rightarrow> chat_request \<Rightarrow> ('h, 'e, pyval) ai_proc" where
  "structured_chat af q =
     seqA (liftA (refuse_if (rq_schema q = None) (request_error ''a structured call needs a response_schema'')))
     (bindA (chat af q) (\<lambda>response.
      if rs_structured response = PNone
      then failA (schema_error (''the response carried no structured payload; a response that requests tools is '' @
             ''never validated against a schema''))
      else retA (rs_structured response)))"

section \<open>Embeddings, health, closing\<close>

definition embed :: "('h, 'e) ai_foreign \<Rightarrow> embedding_request \<Rightarrow> ('h, 'e, embedding_response) ai_proc" where
  "embed af q =
     seqA (liftA (require_named af ''embed''))
     (bindA (liftA (provider_capabilities af)) (\<lambda>c.
      seqA (liftA (refuse_if (\<not> cp_embeddings c)
        (unsupported ''no embedding model is configured for this provider'')))
      (bindA (call_budget af (er_timeout q)) (\<lambda>budget.
       bindA (monotonic_now af) (\<lambda>started.
       bindA (await_budget af budget (\<lambda>b e. af_embed af q b e)) (\<lambda>answer.
       case answer of
         Inl c \<Rightarrow> failA (wrong_answer af c ''an EmbeddingResponse'')
       | Inr response \<Rightarrow>
           bindA (monotonic_now af) (\<lambda>now.
           seqA (log_lines [LogEmbed (af_name af) (or_model af (em_model response)) (length (er_inputs q))
                   (dimensions response) (now - started)])
             (retA response))))))))"

definition provider_health :: "('h, 'e) ai_foreign \<Rightarrow> ('h, 'e, health) ai_proc" where
  "provider_health af =
     seqA (liftA (require_named af ''health''))
     (bindA (on_env (af_health af)) (\<lambda>answer.
      case answer of
        Inl c \<Rightarrow> failA (wrong_answer af c ''a ModelHealth'')
      | Inr h \<Rightarrow> retA h))"

definition close_facade :: "('h, 'e) ai_foreign \<Rightarrow> ('h, 'e, unit) ai_proc" where
  "close_facade af = (case af_close af of None \<Rightarrow> retA () | Some close \<Rightarrow> on_env close)"

section \<open>Tools\<close>

definition invoke_tools ::
    "('h, 'e) ai_foreign \<Rightarrow> tool_call list + chat_response \<Rightarrow> ('h, 'e, tool_result list) ai_proc" where
  "invoke_tools af calls = on_tools (invoke_all (af_tools af)
     (case calls of Inl cs \<Rightarrow> cs | Inr response \<Rightarrow> ms_tool_calls (rs_message response)))"

fun result_messages :: "('h, 'e) ai_foreign \<Rightarrow> tool_result list \<Rightarrow> exn + message list" where
  "result_messages af [] = Inr []"
| "result_messages af (r # rs) =
     bindR (tool_result_message (tr_tool r) (render_result (af_dumps af) r)) (\<lambda>m.
     bindR (result_messages af rs) (\<lambda>ms. Inr (m # ms)))"

definition too_many_rounds :: "nat \<Rightarrow> tool_call \<Rightarrow> exn" where
  "too_many_rounds n call = tool_error
     (''the model asked for '' @ py_repr (tc_name call) @ '' after '' @ dec_nat n @
      '' round(s), which is the configured limit; raise max_rounds or move the orchestration into a '' @
      ''workflow'') (tc_name call)"

text \<open>The request of a round: the conversation so far, and the tools of the set.\<close>

definition round_request ::
    "('h, 'e) ai_foreign \<Rightarrow> chat_request \<Rightarrow> message list \<Rightarrow> ('h, 'e, chat_request) ai_proc" where
  "round_request af q messages =
     askA (\<lambda>w. make_chat_request (tf_repr (af_tools af))
       (q\<lparr>rq_messages := messages, rq_tools := tool_specs (tw_set (aw_tools w))\<rparr>))"

fun tool_rounds ::
    "('h, 'e) ai_foreign \<Rightarrow> chat_request \<Rightarrow> nat \<Rightarrow> nat \<Rightarrow> nat \<Rightarrow> message list \<Rightarrow> usage \<Rightarrow>
     ('h, 'e, chat_response) ai_proc" where
  "tool_rounds af q max_rounds 0 n messages used =
     failA (raised ''AssertionError'' ''unreachable: the tool loop always returns or raises'')"
| "tool_rounds af q max_rounds (Suc left) n messages used =
     bindA (round_request af q messages) (\<lambda>current.
     bindA (chat af current) (\<lambda>response.
     bindA (liftA (combined used (rs_usage response))) (\<lambda>used'.
     case ms_tool_calls (rs_message response) of
       [] \<Rightarrow> retA (response\<lparr>rs_usage := used', rs_rounds := n\<rparr>)
     | call # calls \<Rightarrow>
         if n = max_rounds then failA (too_many_rounds max_rounds call)
         else
           bindA (on_tools (invoke_all (af_tools af) (call # calls))) (\<lambda>results.
           bindA (liftA (result_messages af results)) (\<lambda>ms.
           tool_rounds af q max_rounds left (n + 1) (messages @ [rs_message response] @ ms) used')))))"

definition chat_with_tools ::
    "('h, 'e) ai_foreign \<Rightarrow> chat_request \<Rightarrow> int \<Rightarrow> ('h, 'e, chat_response) ai_proc" where
  "chat_with_tools af q max_rounds =
     seqA (liftA (refuse_if (max_rounds < 1) (request_error ''max_rounds must be at least 1'')))
     (bindA (liftA (provider_capabilities af)) (\<lambda>c.
      seqA (liftA (refuse_if (\<not> cp_tools c) (unsupported ''this model does not claim tool support'')))
        (tool_rounds af q (nat max_rounds) (nat max_rounds) 1 (rq_messages q) no_usage)))"

section \<open>Streaming\<close>

text \<open>
  A stream is an asynchronous generator: \<open>stream\<close> checks the request and returns it unstarted, and
  each pull runs it to its next chunk or to its end. \<open>sf_next\<close> is the provider's iterator: it ends,
  raises, or gives a chunk or a value of another class; the time it may take is what is left of the
  budget. When the generator ends or raises, it closes the iterator.
\<close>

datatype stream_end = StreamOver | StreamRaised exn | StreamGave "string + chat_chunk"

record 'e stream_foreign =
  sf_next :: "real option \<Rightarrow> 'e \<Rightarrow> stream_end \<times> 'e"
  sf_close :: "('e \<Rightarrow> (exn + unit) \<times> 'e) option"

datatype stream_state = Unstarted chat_request | Started "real option" "real option" | Ended

definition check_stream :: "('h, 'e) ai_foreign \<Rightarrow> chat_request \<Rightarrow> exn + stream_state" where
  "check_stream af q =
     bindR (refuse_if (rq_tools q \<noteq> []) (request_error ''a streaming request cannot offer tools'')) (\<lambda>_.
     bindR (refuse_if (rq_schema q \<noteq> None)
       (request_error ''a streaming request cannot ask for a response schema'')) (\<lambda>_.
     bindR (require_named af ''stream'') (\<lambda>_.
     bindR (provider_capabilities af) (\<lambda>c.
     bindR (refuse_if (\<not> cp_streaming c) (unsupported ''this model does not claim streaming support'')) (\<lambda>_.
     Inr (Unstarted q))))))"

definition stream_timeout :: "('h, 'e) ai_foreign \<Rightarrow> real option \<Rightarrow> exn" where
  "stream_timeout af budget = raised ''AITimeoutError'' (case budget of
     None \<Rightarrow> ''the '' @ af_name af @ '' stream stopped early''
   | Some b \<Rightarrow> ''the '' @ af_name af @ '' stream exceeded its budget of '' @ af_general af b @ ''s'')"

definition begin_stream ::
    "('h, 'e) ai_foreign \<Rightarrow> chat_request \<Rightarrow> ('h, 'e, real option \<times> real option) ai_proc" where
  "begin_stream af q =
     bindA (call_budget af (rq_timeout q)) (\<lambda>budget.
     case budget of
       None \<Rightarrow> retA (None, None)
     | Some b \<Rightarrow>
         if b \<le> 0 then failA (no_time_left af)
         else bindA (monotonic_now af) (\<lambda>now. retA (Some b, Some (now + b))))"

text \<open>The \<open>finally\<close> of the generator; an exception of \<open>aclose\<close> replaces what was raised.\<close>

definition close_stream :: "'e stream_foreign \<Rightarrow> ('h, 'e, unit) ai_proc" where
  "close_stream sf = (case sf_close sf of None \<Rightarrow> retA () | Some close \<Rightarrow> on_env close)"

definition end_stream ::
    "'e stream_foreign \<Rightarrow> exn option \<Rightarrow> ('h, 'e, chat_chunk option \<times> stream_state) ai_proc" where
  "end_stream sf error =
     seqA (close_stream sf) (case error of None \<Rightarrow> retA (None, Ended) | Some e \<Rightarrow> failA e)"

definition time_left ::
    "('h, 'e) ai_foreign \<Rightarrow> real option \<Rightarrow> ('h, 'e, real option) ai_proc" where
  "time_left af expires = (case expires of
     None \<Rightarrow> retA None
   | Some t \<Rightarrow> bindA (monotonic_now af) (\<lambda>now. retA (Some (t - now))))"

definition pull_started ::
    "('h, 'e) ai_foreign \<Rightarrow> 'e stream_foreign \<Rightarrow> real option \<Rightarrow> real option \<Rightarrow>
     ('h, 'e, chat_chunk option \<times> stream_state) ai_proc" where
  "pull_started af sf budget expires =
     bindA (time_left af expires) (\<lambda>remaining.
     if given (\<lambda>r. r \<le> 0) remaining then end_stream sf (Some (stream_timeout af budget))
     else
       bindA (on_env (\<lambda>e. apfst Inr (sf_next sf remaining e))) (\<lambda>answer.
       case answer of
         StreamOver \<Rightarrow> end_stream sf None
       | StreamRaised e \<Rightarrow>
           end_stream sf (Some (if instance_of e ''TimeoutError'' then stream_timeout af budget else e))
       | StreamGave (Inl c) \<Rightarrow> end_stream sf (Some (raised ''AIInvalidPayloadError''
           (''the '' @ af_name af @ '' adapter streamed '' @ c @ '' instead of a ChatChunk'')))
       | StreamGave (Inr chunk) \<Rightarrow> retA (Some chunk, Started budget expires)))"

definition pull_stream ::
    "('h, 'e) ai_foreign \<Rightarrow> 'e stream_foreign \<Rightarrow> stream_state \<Rightarrow>
     ('h, 'e, chat_chunk option \<times> stream_state) ai_proc" where
  "pull_stream af sf st = (case st of
     Unstarted q \<Rightarrow> bindA (begin_stream af q) (\<lambda>(budget, expires). pull_started af sf budget expires)
   | Started budget expires \<Rightarrow> pull_started af sf budget expires
   | Ended \<Rightarrow> retA (None, Ended))"

text \<open>A consumer that stops early closes the generator where it stands.\<close>

definition abandon_stream :: "'e stream_foreign \<Rightarrow> stream_state \<Rightarrow> ('h, 'e, stream_state) ai_proc" where
  "abandon_stream sf st = (case st of
     Started budget expires \<Rightarrow> seqA (close_stream sf) (retA Ended)
   | _ \<Rightarrow> retA Ended)"

end
