(* ===== verification/Schema_Facts.thy ===== *)
theory Schema_Facts
  imports Schema
begin

text \<open>
  What a schema means, apart from the code that checks it: which values are schemas (\<open>usable\<close>) and
  which payloads conform to one (\<open>conforms\<close>), as inductive predicates. The checks of
  \<open>ai/schema.py\<close> decide exactly these.
\<close>

named_theorems schema_iff \<open>what the single checks of a schema or a payload accept\<close>

section \<open>Specification\<close>

definition type_usable :: "pyval \<Rightarrow> bool" where
  "type_usable v \<longleftrightarrow> v = PNone \<or> (\<exists>s \<in> set supported_types. v = PStr s) \<or>
     (\<exists>names. array_of v = Some (map PStr names) \<and> set names \<subseteq> set supported_types)"

definition required_usable :: "pyval \<Rightarrow> pyval \<Rightarrow> bool" where
  "required_usable r properties \<longleftrightarrow> r = PNone \<or>
     (\<exists>names. array_of r = Some (map PStr names) \<and> [] \<notin> set names \<and>
        (\<forall>ps. properties = PDict ps \<longrightarrow> set names \<subseteq> fst ` set ps))"

inductive usable :: "pyval \<Rightarrow> bool" where
  usable:
  "\<lbrakk>fst ` set t \<subseteq> set schema_keywords;
    type_usable (get_key t ''type'');
    get_key t ''enum'' = PNone \<or> (\<exists>x xs. array_of (get_key t ''enum'') = Some (x # xs));
    get_key t ''additionalProperties'' = PNone \<or> (\<exists>b. get_key t ''additionalProperties'' = PBool b);
    \<forall>k \<in> set size_keywords. get_key t k = PNone \<or> (\<exists>n. get_key t k = PInt (int n));
    \<forall>k \<in> set bound_keywords. get_key t k = PNone \<or> number_value (get_key t k);
    get_key t ''properties'' = PNone \<or>
      (\<exists>ps. get_key t ''properties'' = PDict ps \<and> (\<forall>n c. (n, c) \<in> set ps \<longrightarrow> n \<noteq> [] \<and> usable c));
    required_usable (get_key t ''required'') (get_key t ''properties'');
    get_key t ''items'' = PNone \<or> usable (get_key t ''items'')\<rbrakk>
   \<Longrightarrow> usable (PDict t)"

inductive_simps usable_object_iff: "usable (PDict t)"

definition of_type :: "pyval \<Rightarrow> pyval \<Rightarrow> bool" where
  "of_type v declared \<longleftrightarrow> declared = PNone \<or> (\<exists>s. declared = PStr s \<and> matches_type v s) \<or>
     (\<exists>cs s. array_of declared = Some cs \<and> PStr s \<in> set cs \<and> matches_type v s)"

definition sized :: "nat \<Rightarrow> pyval \<Rightarrow> pyval \<Rightarrow> bool" where
  "sized n least most \<longleftrightarrow>
     (\<forall>i. least = PInt i \<longrightarrow> i \<le> int n) \<and> (\<forall>i. most = PInt i \<longrightarrow> int n \<le> i)"

definition within_bounds :: "pyval \<Rightarrow> members \<Rightarrow> bool" where
  "within_bounds v t \<longleftrightarrow>
     (number_value v \<longrightarrow> \<not> compare_numbers float_less v (get_key t ''minimum'') \<and>
        \<not> compare_numbers (\<lambda>x y. float_less y x) v (get_key t ''maximum'')) \<and>
     (\<forall>s. v = PStr s \<longrightarrow> sized (length s) (get_key t ''minLength'') (get_key t ''maxLength'')) \<and>
     (\<forall>xs. array_of v = Some xs \<longrightarrow>
        sized (length xs) (get_key t ''minItems'') (get_key t ''maxItems''))"

definition has_required :: "members \<Rightarrow> members \<Rightarrow> bool" where
  "has_required vt t \<longleftrightarrow>
     (\<forall>n. PStr n \<in> set (sequence_of (get_key t ''required'')) \<longrightarrow> n \<in> fst ` set vt)"

definition has_no_others :: "members \<Rightarrow> members \<Rightarrow> bool" where
  "has_no_others vt t \<longleftrightarrow>
     (get_key t ''additionalProperties'' = PBool False \<longrightarrow>
        fst ` set vt \<subseteq> fst ` set (declared_properties t))"

inductive conforms :: "pyval \<Rightarrow> pyval \<Rightarrow> bool" where
  conforms:
  "\<lbrakk>of_type v (get_key t ''type'');
    get_key t ''enum'' = PNone \<or>
      (\<exists>c \<in> set (sequence_of (get_key t ''enum'')). same_json_value v c);
    within_bounds v t;
    \<forall>vt. v = PDict vt \<longrightarrow> has_required vt t \<and> has_no_others vt t \<and>
      (\<forall>n c x. (n, c) \<in> set (declared_properties t) \<longrightarrow> map_of vt n = Some x \<longrightarrow> conforms x c);
    \<forall>xs x. array_of v = Some xs \<longrightarrow> get_key t ''items'' \<noteq> PNone \<longrightarrow> x \<in> set xs \<longrightarrow>
      conforms x (get_key t ''items'')\<rbrakk>
   \<Longrightarrow> conforms v (PDict t)"

inductive_simps conforms_iff: "conforms v (PDict t)"

section \<open>The single checks\<close>

lemma check_each_iff [schema_iff]: "check_each f xs = Inr u \<longleftrightarrow> (\<forall>x \<in> set xs. f x = Inr ())"
  by (induction xs) (auto simp: bindR_Inr_iff)

lemma array_of_plain [simp]:
  "array_of PNone = None" "array_of (PStr s) = None" "array_of (PBool b) = None"
  "array_of (PInt i) = None" "array_of (PFloat f) = None" "array_of (PDict t) = None"
  "array_of (PObject c n) = None" "array_of (PList xs) = Some xs" "array_of (PTuple xs) = Some xs"
  by (simp_all add: array_of_def)

lemma map_PStr:
  "(\<forall>x \<in> set xs. \<exists>s. x = PStr s \<and> P s) \<longleftrightarrow> (\<exists>names. xs = map PStr names \<and> (\<forall>s \<in> set names. P s))"
proof
  assume "\<forall>x \<in> set xs. \<exists>s. x = PStr s \<and> P s"
  then obtain f where "\<forall>x \<in> set xs. x = PStr (f x) \<and> P (f x)" by metis
  then have "xs = map PStr (map f xs)" and "\<forall>s \<in> set (map f xs). P s"
    by (simp_all add: map_idI)
  then show "\<exists>names. xs = map PStr names \<and> (\<forall>s \<in> set names. P s)" by blast
qed auto

lemma check_known_keywords_iff [schema_iff]:
  "check_known_keywords location path t = Inr u \<longleftrightarrow> fst ` set t \<subseteq> set schema_keywords"
  by (simp add: check_known_keywords_def Let_def flip: set_empty) auto

lemma supported_type_iff: "supported_type v \<longleftrightarrow> (\<exists>s. v = PStr s \<and> s \<in> set supported_types)"
  by (simp add: supported_type_def split: pyval.split)

lemma unsupported_found:
  "(case find (\<lambda>c. \<not> supported_type c) cs of None \<Rightarrow> Inr () | Some c \<Rightarrow> Inl (e c)) = Inr u \<longleftrightarrow>
     (\<exists>names. cs = map PStr names \<and> set names \<subseteq> set supported_types)"
proof -
  have "find (\<lambda>c. \<not> supported_type c) cs = None \<longleftrightarrow>
      (\<exists>names. cs = map PStr names \<and> set names \<subseteq> set supported_types)"
    using map_PStr [of cs "\<lambda>s. s \<in> set supported_types"]
    by (simp add: find_None_iff supported_type_iff subset_iff Ball_def)
  then show ?thesis by (cases "find (\<lambda>c. \<not> supported_type c) cs") simp_all
qed

lemma check_type_keyword_iff [schema_iff]:
  "check_type_keyword ro location path v = Inr u \<longleftrightarrow> type_usable v"
  by (cases v) (auto simp: check_type_keyword_def type_usable_def unsupported_found Cons_eq_map_conv
    simp del: find.simps)

lemma sequence_of_nonempty: "sequence_of v \<noteq> [] \<longleftrightarrow> (\<exists>x xs. array_of v = Some (x # xs))"
  by (auto simp: sequence_of_def neq_Nil_conv split: option.splits)

lemma check_enum_keyword_iff [schema_iff]:
  "check_enum_keyword location path v = Inr u \<longleftrightarrow> v = PNone \<or> (\<exists>x xs. array_of v = Some (x # xs))"
  by (auto simp: check_enum_keyword_def sequence_of_nonempty)

lemma is_bool_iff: "is_bool v \<longleftrightarrow> (\<exists>b. v = PBool b)"
  by (simp add: is_bool_def split: pyval.split)

lemma check_additional_properties_iff [schema_iff]:
  "check_additional_properties location path v = Inr u \<longleftrightarrow> v = PNone \<or> (\<exists>b. v = PBool b)"
  by (auto simp: check_additional_properties_def is_bool_iff)

lemma size_value_iff: "size_value v \<longleftrightarrow> (\<exists>n. v = PInt (int n))"
  by (auto simp: size_value_def split: pyval.split) (metis nonneg_int_cases)

lemma check_non_negative_int_iff [schema_iff]:
  "check_non_negative_int location path t k = Inr u \<longleftrightarrow>
     get_key t k = PNone \<or> (\<exists>n. get_key t k = PInt (int n))"
  by (auto simp: check_non_negative_int_def size_value_iff)

lemma check_number_iff [schema_iff]:
  "check_number location path t k = Inr u \<longleftrightarrow> get_key t k = PNone \<or> number_value (get_key t k)"
  by (auto simp: check_number_def)

lemma names_property_iff: "names_property v \<longleftrightarrow> (\<exists>s. v = PStr s \<and> s \<noteq> [])"
  by (simp add: names_property_def split: pyval.split)

lemma map_filter_text_of: "List.map_filter text_of (map PStr names) = names"
  by (induction names) (simp_all add: text_of_def List.map_filter_simps)

lemma undeclared_names_iff:
  "undeclared_names (map PStr names) ps = [] \<longleftrightarrow> set names \<subseteq> fst ` set ps"
  by (simp add: undeclared_names_def map_filter_text_of flip: set_empty) auto

lemma check_required_iff [schema_iff]:
  "check_required location path r properties = Inr u \<longleftrightarrow> required_usable r properties"
proof -
  have names: "list_all names_property xs \<longleftrightarrow> (\<exists>names. xs = map PStr names \<and> [] \<notin> set names)" for xs
    by (auto simp: list_all_iff names_property_iff map_PStr)
  show ?thesis
    by (cases properties) (auto simp: check_required_def required_usable_def names undeclared_names_iff
      bindR_Inr_iff split: option.splits)
qed

section \<open>Usable schemas\<close>

lemma usable_object: "usable v \<Longrightarrow> \<exists>t. v = PDict t"
  by (induction rule: usable.induct) simp

lemma check_node_iff:
  "check_node ro location path v = Inr u \<longleftrightarrow> usable v"
  "check_members ro location path ps = Inr u \<longleftrightarrow> (\<forall>n c. (n, c) \<in> set ps \<longrightarrow> n \<noteq> [] \<and> usable c)"
proof (induction ro location path v and ro location path ps arbitrary: u and u
    rule: check_node_check_members.induct)
  case (1 ro location path v)
  show ?case
  proof (cases v)
    case (PDict t)
    note IH = "1.IH" [OF PDict]
    have props: "(case get_key t ''properties'' of PNone \<Rightarrow> Inr () | PDict ps \<Rightarrow> check_members ro location path ps
         | _ \<Rightarrow> Inl (request_error (located location path ''.properties must be an object''))) = Inr u' \<longleftrightarrow>
       get_key t ''properties'' = PNone \<or>
      (\<exists>ps. get_key t ''properties'' = PDict ps \<and> (\<forall>n c. (n, c) \<in> set ps \<longrightarrow> n \<noteq> [] \<and> usable c))" for u'
      using IH(1) by (cases "get_key t ''properties''") auto
    have items: "(if get_key t ''items'' = PNone then Inr ()
         else check_node ro location (path @ ''[]'') (get_key t ''items'')) = Inr u \<longleftrightarrow>
       get_key t ''items'' = PNone \<or> usable (get_key t ''items'')"
      using IH(2) by auto
    show ?thesis
      unfolding PDict check_node.simps [of _ _ _ "PDict t"] pyval.case bindR_Inr_iff props items
        usable_object_iff check_keywords_def
      by (simp add: schema_iff)
  qed (auto simp: check_node.simps dest: usable_object)
next
  case (3 ro location path name child rest)
  then show ?case by (auto simp: bindR_Inr_iff)
qed simp

section \<open>Conforming payloads\<close>

lemma text_of_Some: "text_of v = Some s \<longleftrightarrow> v = PStr s"
  by (simp add: text_of_def split: pyval.split)

lemma get_key_PDict: "get_key t ''properties'' = PDict ps \<Longrightarrow> declared_properties t = ps"
  by (simp add: declared_properties_def)

lemma matches_declared_types_iff:
  "matches_declared_types v d \<longleftrightarrow> of_type v d"
proof -
  have "list_ex (matches_candidate v) cs \<longleftrightarrow> (\<exists>s. PStr s \<in> set cs \<and> matches_type v s)" for cs
    by (auto simp: list_ex_iff matches_candidate_def text_of_Some split: option.splits)
  then show ?thesis
    by (cases d) (simp_all add: matches_declared_types_def of_type_def sequence_of_def)
qed

lemma validate_type_iff [schema_iff]:
  "validate_type ro location path v t = Inr u \<longleftrightarrow> of_type v (get_key t ''type'')"
  by (simp add: validate_type_def matches_declared_types_iff)

lemma validate_enum_iff [schema_iff]:
  assumes "get_key t ''enum'' = PNone \<or> (\<exists>x xs. array_of (get_key t ''enum'') = Some (x # xs))"
  shows "validate_enum ro location path v t = Inr u \<longleftrightarrow>
    get_key t ''enum'' = PNone \<or> (\<exists>c \<in> set (sequence_of (get_key t ''enum'')). same_json_value v c)"
  using assms by (auto simp: validate_enum_def Let_def list_ex_iff sequence_of_def)

lemma check_size_iff:
  assumes "get_key t k = PNone \<or> (\<exists>i. get_key t k = PInt i)"
  shows "check_size ro location path t n k least w = Inr u \<longleftrightarrow>
    (\<forall>i. get_key t k = PInt i \<longrightarrow> (if least then i \<le> int n else int n \<le> i))"
  using assms by (auto simp: check_size_def limit_of_def)

lemma validate_lengths_iff:
  assumes "\<forall>k \<in> set size_keywords. get_key t k = PNone \<or> (\<exists>n. get_key t k = PInt (int n))"
    and "k \<in> set size_keywords" and "k' \<in> set size_keywords"
  shows "validate_lengths ro location path t n k k' w = Inr u \<longleftrightarrow> sized n (get_key t k) (get_key t k')"
proof -
  have size: "get_key t k = PNone \<or> (\<exists>i. get_key t k = PInt i)" if "k \<in> set size_keywords" for k
    using assms(1) that by blast
  show ?thesis unfolding validate_lengths_def bindR_Inr_iff check_size_iff [OF size [OF assms(2)]]
      check_size_iff [OF size [OF assms(3)]] by (simp add: sized_def)
qed

lemma validate_bounds_iff [schema_iff]:
  assumes "\<forall>k \<in> set size_keywords. get_key t k = PNone \<or> (\<exists>n. get_key t k = PInt (int n))"
  shows "validate_bounds ro location path v t = Inr u \<longleftrightarrow> within_bounds v t"
proof -
  have lengths: "validate_lengths ro location path t n ''minLength'' ''maxLength'' w = Inr u' \<longleftrightarrow>
      sized n (get_key t ''minLength'') (get_key t ''maxLength'')"
    and items: "validate_lengths ro location path t n ''minItems'' ''maxItems'' w = Inr u' \<longleftrightarrow>
      sized n (get_key t ''minItems'') (get_key t ''maxItems'')" for n w u'
    by (rule validate_lengths_iff [OF assms]; simp add: size_keywords_def)+
  have number: "validate_number ro location path v t = Inr u' \<longleftrightarrow>
      \<not> compare_numbers float_less v (get_key t ''minimum'') \<and>
      \<not> compare_numbers (\<lambda>x y. float_less y x) v (get_key t ''maximum'')" for v u'
    by (simp add: validate_number_def bindR_Inr_iff)
  show ?thesis
    by (cases v) (simp_all add: validate_bounds_def within_bounds_def number lengths items bindR_Inr_iff
      text_of_def number_value_def)
qed

lemma has_member_iff: "has_member vt v \<longleftrightarrow> (\<exists>n. v = PStr n \<and> n \<in> fst ` set vt)"
  by (cases v) (simp_all add: has_member_def text_of_def)

lemma validate_required_iff [schema_iff]:
  assumes "required_usable (get_key t ''required'') p"
  shows "validate_required ro location path vt t = Inr u \<longleftrightarrow> has_required vt t"
proof -
  obtain names where "sequence_of (get_key t ''required'') = map PStr names"
    using assms by (auto simp: required_usable_def sequence_of_def)
  moreover have "(case find P xs of None \<Rightarrow> Inr () | Some x \<Rightarrow> Inl (e x)) = Inr u \<longleftrightarrow> (\<forall>x \<in> set xs. \<not> P x)"
    for P and xs :: "pyval list" and e :: "pyval \<Rightarrow> exn"
    by (induction xs) simp_all
  ultimately show ?thesis
    by (auto simp: validate_required_def has_required_def has_member_iff)
qed

lemma validate_additional_iff [schema_iff]:
  "validate_additional location path vt t = Inr u \<longleftrightarrow> has_no_others vt t"
  by (simp add: validate_additional_def has_no_others_def Let_def flip: set_empty) auto

lemma declared_usable:
  assumes "usable (PDict t)" and "(n, c) \<in> set (declared_properties t)"
  shows "usable c"
  using assms by (cases "get_key t ''properties''") (auto simp: usable_object_iff declared_properties_def)

lemma items_usable: "usable (PDict t) \<Longrightarrow> get_key t ''items'' \<noteq> PNone \<Longrightarrow> usable (get_key t ''items'')"
  by (simp add: usable_object_iff)

lemma validate_node_iff:
  "usable (PDict t) \<Longrightarrow> validate_node ro location path v t = Inr u \<longleftrightarrow> conforms v (PDict t)"
  "usable (PDict it) \<Longrightarrow>
     validate_items ro location path n xs it = Inr u \<longleftrightarrow> (\<forall>x \<in> set xs. conforms x (PDict it))"
  "\<forall>n c. (n, c) \<in> set ps \<longrightarrow> usable c \<Longrightarrow>
     validate_members ro location path vt ps = Inr u \<longleftrightarrow>
       (\<forall>n c x. (n, c) \<in> set ps \<longrightarrow> map_of vt n = Some x \<longrightarrow> conforms x c)"
proof (induction ro location path v t and ro location path n xs it and ro location path vt ps
    arbitrary: u and u and u rule: validate_node_validate_items_validate_members.induct)
  case (1 ro location path v t)
  note usable = "1.prems"
  note parts = usable [unfolded usable_object_iff]
  have members: "validate_members ro location path vt (declared_properties t) = Inr u' \<longleftrightarrow>
      (\<forall>n c x. (n, c) \<in> set (declared_properties t) \<longrightarrow> map_of vt n = Some x \<longrightarrow> conforms x c)"
    if "object_of v = Some vt" for vt u'
    using "1.IH"(2) [OF that] declared_usable [OF usable] by blast
  have items: "(case object_of (get_key t ''items'') of None \<Rightarrow> Inr ()
        | Some it \<Rightarrow> validate_items ro location path 0 xs it) = Inr u' \<longleftrightarrow>
      (get_key t ''items'' \<noteq> PNone \<longrightarrow> (\<forall>x \<in> set xs. conforms x (get_key t ''items'')))"
    if "object_of v = None" and "array_of v = Some xs" for xs u'
  proof (cases "get_key t ''items'' = PNone")
    case False
    then have items: "usable (get_key t ''items'')" using items_usable usable by blast
    then obtain it where it: "get_key t ''items'' = PDict it" using usable_object by blast
    show ?thesis using "1.IH"(1) [OF that] items by (simp add: it object_of_def)
  qed (simp add: object_of_def)
  have enum: "get_key t ''enum'' = PNone \<or> (\<exists>x xs. array_of (get_key t ''enum'') = Some (x # xs))"
    and size: "\<forall>k \<in> set size_keywords. get_key t k = PNone \<or> (\<exists>n. get_key t k = PInt (int n))"
    and required: "required_usable (get_key t ''required'') (get_key t ''properties'')"
    using parts by blast+
  note simple = validate_enum_iff [OF enum] validate_bounds_iff [OF size]
    validate_required_iff [OF required] validate_type_iff validate_additional_iff
  show ?case
  proof (cases "object_of v")
    case (Some vt)
    then have v: "v = PDict vt" and obj: "object_of (PDict vt) = Some vt" by simp_all
    show ?thesis unfolding v
      by (simp add: validate_node.simps bindR_Inr_iff simple members [OF Some] conforms_iff obj
        del: object_of_Some) blast
  next
    case None
    then have plain: "v \<noteq> PDict vt" for vt by (auto simp: object_of_def)
    show ?thesis
      by (cases "array_of v") (auto simp: validate_node.simps bindR_Inr_iff simple None items [OF None]
        conforms_iff plain)
  qed
next
  case (3 ro location path n x xs it)
  then show ?case by (auto simp: bindR_Inr_iff)
next
  case (5 ro location path vt name child rest)
  then obtain ct where ct: "child = PDict ct" using usable_object by fastforce
  then have "validate_node ro location (path @ ''.'' @ name) x ct = Inr u' \<longleftrightarrow> conforms x child"
    if "map_of vt name = Some x" for x u'
    using "5.IH"(1) [OF that] "5.prems" by (simp add: object_of_def)
  moreover have "validate_members ro location path vt rest = Inr u \<longleftrightarrow>
      (\<forall>n c x. (n, c) \<in> set rest \<longrightarrow> map_of vt n = Some x \<longrightarrow> conforms x c)"
    using "5.IH"(2) "5.prems" by auto
  ultimately show ?case using ct
    by (cases "map_of vt name") (auto simp: bindR_Inr_iff object_of_def)
qed simp_all

section \<open>Which exception is raised\<close>

definition fails_as :: "string \<Rightarrow> exn + 'a \<Rightarrow> bool" where
  "fails_as c r \<longleftrightarrow> (\<forall>e. r = Inl e \<longrightarrow> class_of e = Fw c)"

named_theorems fails \<open>the class of the exceptions the checks raise\<close>

lemma fails_as_Inr [fails]: "fails_as c (Inr x)"
  by (simp add: fails_as_def)

lemma fails_as_bind [fails]:
  "fails_as c m \<Longrightarrow> (\<And>x. m = Inr x \<Longrightarrow> fails_as c (f x)) \<Longrightarrow> fails_as c (bindR m f)"
  by (auto simp: fails_as_def bindR_Inl_iff)

lemma fails_as_refuse [fails]: "class_of e = Fw c \<Longrightarrow> fails_as c (refuse_if b e)"
  by (simp add: fails_as_def)

lemma fails_as_Inl [fails]: "class_of e = Fw c \<Longrightarrow> fails_as c (Inl e)"
  by (simp add: fails_as_def)

lemma error_classes [fails]:
  "class_of (request_error m) = Fw ''AIRequestError''" "class_of (schema_error m) = Fw ''AISchemaError''"
  by (simp_all add: request_error_def schema_error_def)

lemma fails_as_each [fails]: "(\<And>x. fails_as c (f x)) \<Longrightarrow> fails_as c (check_each f xs)"
  by (induction xs) (simp_all add: fails)

lemma check_keywords_fails [fails]: "fails_as ''AIRequestError'' (check_keywords ro location path t)"
  unfolding check_keywords_def check_known_keywords_def check_type_keyword_def check_enum_keyword_def
    check_additional_properties_def check_non_negative_int_def check_number_def Let_def
  by (intro fails) (auto intro!: fails split: option.splits)

lemma check_required_fails [fails]: "fails_as ''AIRequestError'' (check_required location path r p)"
  unfolding check_required_def by (auto intro!: fails split: option.splits pyval.splits)

lemma check_node_fails:
  "fails_as ''AIRequestError'' (check_node ro location path v)"
  "fails_as ''AIRequestError'' (check_members ro location path ps)"
proof (induction ro location path v and ro location path ps rule: check_node_check_members.induct)
  case (1 ro location path v)
  show ?case
  proof (cases v)
    case (PDict t)
    note IH = "1.IH" [OF PDict]
    show ?thesis unfolding PDict check_node.simps [of _ _ _ "PDict t"] pyval.case
      by (intro fails) (auto intro!: fails IH split: pyval.splits)
  qed (simp_all add: check_node.simps fails)
qed (auto intro!: fails)

lemma validation_fails [fails]:
  "fails_as ''AISchemaError'' (validate_type ro location path v t)"
  "fails_as ''AISchemaError'' (validate_enum ro location path v t)"
  "fails_as ''AISchemaError'' (validate_bounds ro location path v t)"
  "fails_as ''AISchemaError'' (validate_required ro location path vt t)"
  "fails_as ''AISchemaError'' (validate_additional location path vt t)"
  unfolding validate_type_def validate_enum_def validate_bounds_def validate_required_def
    validate_additional_def validate_number_def validate_lengths_def check_size_def Let_def
  by (auto intro!: fails split: option.splits)

lemma validate_node_fails:
  "fails_as ''AISchemaError'' (validate_node ro location path v t)"
  "fails_as ''AISchemaError'' (validate_items ro location path n xs it)"
  "fails_as ''AISchemaError'' (validate_members ro location path vt ps)"
proof (induction ro location path v t and ro location path n xs it and ro location path vt ps
    rule: validate_node_validate_items_validate_members.induct)
  case (1 ro location path v t)
  then show ?case unfolding validate_node.simps [of ro location path v t]
    by (auto intro!: fails split: option.splits)
qed (auto intro!: fails split: option.splits)

section \<open>Checking a payload\<close>

lemma check_schema_iff: "check_schema ro location s = Inr u \<longleftrightarrow> usable s"
  by (simp add: check_schema_def check_node_iff)

lemma unusable_rejected:
  assumes "\<not> usable s"
  shows "\<exists>e. validate_payload ro location v s = Inl e \<and> class_of e = Fw ''AIRequestError''"
proof (cases "check_schema ro location s")
  case (Inl e)
  then show ?thesis using check_node_fails(1) [of ro location "''$''" s]
    by (simp add: validate_payload_def check_schema_def fails_as_def)
qed (use assms check_schema_iff in blast)

lemma usable_decided:
  assumes "usable s"
  shows "conforms v s \<Longrightarrow> validate_payload ro location v s = Inr v"
    and "\<not> conforms v s \<Longrightarrow>
      \<exists>e. validate_payload ro location v s = Inl e \<and> class_of e = Fw ''AISchemaError''"
proof -
  obtain t where t: "s = PDict t" using usable_object [OF assms] by blast
  have checked: "check_schema ro location s = Inr ()" using assms by (simp add: check_schema_iff)
  note node = validate_node_iff(1) [of t ro location "''$''" v, OF assms [unfolded t]]
    validate_node_fails(1) [of ro location "''$''" v t]
  show "conforms v s \<Longrightarrow> validate_payload ro location v s = Inr v"
    using node checked by (simp add: validate_payload_def t object_of_def)
  show "\<exists>e. validate_payload ro location v s = Inl e \<and> class_of e = Fw ''AISchemaError''"
    if "\<not> conforms v s"
    using node checked that
    by (cases "validate_node ro location ''$'' v t") (simp_all add: validate_payload_def t object_of_def fails_as_def)
qed

section \<open>Properties\<close>

text \<open>
  C28: \<open>validate_payload\<close> decides the meaning of a schema. It returns the payload, unchanged, exactly
  when the schema is usable and the payload conforms to it at every depth; it raises
  \<open>AIRequestError\<close> exactly when the schema is not usable, whatever the payload; and it raises
  \<open>AISchemaError\<close> exactly when the schema is usable and the payload does not conform. No other
  exception is raised.
\<close>

theorem schema_validation_exact:
  "(validate_payload ro location v s = Inr v \<longleftrightarrow> usable s \<and> conforms v s) \<and>
   ((\<exists>e. validate_payload ro location v s = Inl e \<and> class_of e = Fw ''AIRequestError'') \<longleftrightarrow>
      \<not> usable s) \<and>
   ((\<exists>e. validate_payload ro location v s = Inl e \<and> class_of e = Fw ''AISchemaError'') \<longleftrightarrow>
      usable s \<and> \<not> conforms v s)"
proof (cases "usable s")
  case True
  then show ?thesis
    using usable_decided [OF True, of v ro location] by (cases "conforms v s") auto
next
  case False
  then show ?thesis using unusable_rejected [OF False, of ro location v] by auto
qed

text \<open>Only the outermost value is told a boolean from a number: inside an array they are equal.\<close>

lemma nested_boolean_equals_number:
  "validate_payload (\<lambda>c n. c) ''p'' (PList [PBool True]) (PDict [(''enum'', PList [PList [PInt 1]])]) =
     Inr (PList [PBool True])"
  "\<exists>e. validate_payload (\<lambda>c n. c) ''p'' (PBool True) (PDict [(''enum'', PList [PInt 1])]) = Inl e"
proof -
  have "isl (validate_payload (\<lambda>c n. c) ''p'' (PBool True) (PDict [(''enum'', PList [PInt 1])]))"
    by code_simp
  then show "\<exists>e. validate_payload (\<lambda>c n. c) ''p'' (PBool True) (PDict [(''enum'', PList [PInt 1])]) = Inl e"
    by (auto simp: isl_def)
qed code_simp

text \<open>Not-a-number is above every minimum and below every maximum.\<close>

lemma nan_within_bounds:
  "conforms (PFloat ''nan'') (PDict [(''minimum'', PInt 0), (''maximum'', PInt 1)])"
proof -
  have "py_float ''nan'' = Some NotANumber" by code_simp
  then show ?thesis
    by (auto simp: conforms_iff get_key_def of_type_def within_bounds_def compare_numbers_def number_of_def
      split: option.splits)
qed

end
