(* ===== verification/Tool_Facts.thy ===== *)
theory Tool_Facts
  imports Tools Schema_Facts
begin

text \<open>
  What an invocation does: which handlers it runs, on which arguments, and what it tells the audit
  sink.
\<close>

section \<open>Sets of tools\<close>

text \<open>Every tool stands under its own name, and its declaration holds a usable schema.\<close>

definition tools_ok :: "'h tool_set \<Rightarrow> bool" where
  "tools_ok s \<longleftrightarrow> distinct (map fst (ts_tools s)) \<and>
     (\<forall>(name, t) \<in> set (ts_tools s). tool_name t = name \<and> usable (PDict (sp_parameters (to_spec t))))"

lemma make_tool_spec_usable:
  "make_tool_spec ro name description parameters = Inr spec \<Longrightarrow> usable (PDict (sp_parameters spec))"
  by (auto simp: make_tool_spec_def bindR_Inr_iff check_schema_iff split: option.splits)

lemma add_tool_ok:
  "\<lbrakk>add_tool s t = Inr s'; tools_ok s; usable (PDict (sp_parameters (to_spec t)))\<rbrakk> \<Longrightarrow> tools_ok s'"
  by (auto simp: add_tool_def bindR_Inr_iff tools_ok_def dict_set_new)

lemma make_tool_set_ok:
  assumes "make_tool_set ts audited = Inr s" and "\<forall>t \<in> set ts. usable (PDict (sp_parameters (to_spec t)))"
  shows "tools_ok s"
proof -
  have "add_tools s0 ts = Inr s \<Longrightarrow> tools_ok s0 \<Longrightarrow> tools_ok s" for s0 :: "'a tool_set"
    using assms(2) by (induction ts arbitrary: s0) (auto simp: bindR_Inr_iff intro: add_tool_ok)
  then show ?thesis using assms(1) by (simp add: make_tool_set_def empty_tool_set_def tools_ok_def)
qed

lemma tools_okD:
  "\<lbrakk>tools_ok s; get_tool s name = Some t\<rbrakk> \<Longrightarrow>
   tool_name t = name \<and> usable (PDict (sp_parameters (to_spec t)))"
  by (auto simp: tools_ok_def get_tool_def dest: map_of_SomeD)

definition accepts :: "'h tool \<Rightarrow> members \<Rightarrow> bool" where
  "accepts t arguments \<longleftrightarrow> conforms (PDict arguments) (PDict (sp_parameters (to_spec t)))"

lemma check_arguments_cases:
  assumes "usable (PDict (sp_parameters (to_spec t)))"
  shows "accepts t (tc_arguments call) \<Longrightarrow> check_arguments tf t call = Inr (PDict (tc_arguments call))"
    and "\<not> accepts t (tc_arguments call) \<Longrightarrow>
      \<exists>e. check_arguments tf t call = Inl e \<and> class_of e = Fw ''AISchemaError''"
  using usable_decided [OF assms] by (simp_all add: accepts_def check_arguments_def)

section \<open>The trace\<close>

text \<open>
  As long as the tools of the set are \<open>ts\<close>, the trace only grows, by events and by calls that were
  requested (\<open>calls\<close>), of tools in \<open>ts\<close>, on arguments their declarations accept; and the tools stay.
\<close>

definition allowed_action :: "(string \<times> 'h tool) list \<Rightarrow> tool_call set \<Rightarrow> tool_action \<Rightarrow> bool" where
  "allowed_action ts calls a = (case a of
     Audited e \<Rightarrow> True
   | Called name arguments \<Rightarrow>
       (\<exists>call \<in> calls. tc_name call = name \<and> tc_arguments call = arguments) \<and>
       (case map_of ts name of None \<Rightarrow> False | Some t \<Rightarrow> accepts t arguments))"

definition traces_of ::
    "(string \<times> 'h tool) list \<Rightarrow> tool_call set \<Rightarrow> ('h, 'e) tool_world \<Rightarrow> ('h, 'e) tool_world \<Rightarrow> bool" where
  "traces_of ts calls w w' \<longleftrightarrow> ts_tools (tw_set w) = ts \<longrightarrow>
     ts_tools (tw_set w') = ts \<and>
     (\<exists>tr. tw_trace w' = tw_trace w @ tr \<and> list_all (allowed_action ts calls) tr)"

lemma traces_of_trans: "traces_of ts calls w w' \<Longrightarrow> traces_of ts calls w' w'' \<Longrightarrow> traces_of ts calls w w''"
  by (fastforce simp: traces_of_def)

interpretation tool_trace: procedure_evolution "traces_of ts calls" for ts calls
  by unfold_locales (auto simp: traces_of_def intro: traces_of_trans)

lemma emit_traces: "holds_along (traces_of ts calls) (emit_tool_event tf k name keys d e)"
  by (rule holds_alongI)
    (auto simp: emit_tool_event_def Let_def traces_of_def allowed_action_def split: if_splits prod.splits)

lemma read_clock_traces: "holds_along (traces_of ts calls) (read_clock tf)"
  by (rule holds_alongI) (auto simp: read_clock_def traces_of_def split: prod.splits)

lemma tryA_traces:
  assumes "holds_along (traces_of ts calls) m" and "\<And>e. holds_along (traces_of ts calls) (f e)"
    and "\<And>x. holds_along (traces_of ts calls) (g x)"
  shows "holds_along (traces_of ts calls) (tryA m f g)"
proof (rule holds_alongI)
  fix w r w' assume run: "tryA m f g w = (r, w')"
  obtain r1 w1 where m: "m w = (r1, w1)" by (cases "m w")
  then have "traces_of ts calls w w1" using assms(1) by (simp add: holds_alongD)
  moreover have "traces_of ts calls w1 w'"
    using run m holds_alongD [OF assms(2)] holds_alongD [OF assms(3)]
    by (auto simp: tryA_def split: sum.splits)
  ultimately show "traces_of ts calls w w'" by (rule traces_of_trans)
qed

lemma call_handler_traces:
  assumes "map_of ts (tool_name t) = Some t" and "accepts t (tc_arguments call)"
    and "call \<in> calls" and "tc_name call = tool_name t"
  shows "holds_along (traces_of ts calls) (call_handler tf t (tc_arguments call) context)"
  using assms by (intro holds_alongI)
    (auto simp: call_handler_def traces_of_def allowed_action_def split: prod.splits)

lemmas tool_parts = emit_traces read_clock_traces tryA_traces call_handler_traces
  tool_trace.procedure

lemma run_tool_traces:
  assumes "map_of ts (tool_name t) = Some t" and "accepts t (tc_arguments call)"
    and "call \<in> calls" and "tc_name call = tool_name t"
  shows "holds_along (traces_of ts calls) (run_tool tf t call call_id)"
  unfolding run_tool_def context_of_def handler_failed_def handler_returned_def
  using assms by (intro tool_parts) auto

lemma refusals_trace:
  "holds_along (traces_of ts calls) (denied tf call)"
  "holds_along (traces_of ts calls) (invalid_arguments tf t call error)"
  unfolding denied_def invalid_arguments_def by (intro tool_parts)+

lemma invoke_traces:
  assumes ok: "tools_ok (tw_set w)" and run: "invoke tf call call_id w = (r, w')" and "call \<in> calls"
  shows "traces_of (ts_tools (tw_set w)) calls w w'"
proof -
  let ?R = "traces_of (ts_tools (tw_set w)) calls"
  obtain r1 w1 where m: "emit_tool_event tf TE_REQUESTED (tc_name call) (argument_keys call) None None w = (r1, w1)"
    by fastforce
  have first: "?R w w1" using emit_traces m by (rule holds_alongD)
  then have same: "ts_tools (tw_set w1) = ts_tools (tw_set w)" by (simp add: traces_of_def)
  show ?thesis
  proof (cases r1)
    case (Inl e)
    then show ?thesis using run m first by (simp add: invoke_def seqA_apply)
  next
    case (Inr u)
    show ?thesis
    proof (cases "get_tool (tw_set w) (tc_name call)")
      case None
      then have "denied tf call w1 = (r, w')"
        using run m Inr same by (simp add: invoke_def procA get_tool_def)
      then show ?thesis by (intro traces_of_trans [OF first] holds_alongD [OF refusals_trace(1)])
    next
      case (Some t)
      note t = tools_okD [OF ok Some]
      have rest: "(case check_arguments tf t call of Inl error \<Rightarrow> invalid_arguments tf t call error
           | Inr _ \<Rightarrow> run_tool tf t call call_id) w1 = (r, w')"
        using run m Inr same Some by (simp add: invoke_def procA get_tool_def)
      have "?R w1 w'"
      proof (cases "accepts t (tc_arguments call)")
        case True
        then have "run_tool tf t call call_id w1 = (r, w')"
          using rest t by (simp add: check_arguments_cases(1))
        moreover have "map_of (ts_tools (tw_set w)) (tool_name t) = Some t"
          using Some t by (simp add: get_tool_def)
        ultimately show ?thesis using t
          by (intro holds_alongD [OF run_tool_traces [OF _ True assms(3)]]) auto
      next
        case False
        then obtain e where "check_arguments tf t call = Inl e" using check_arguments_cases(2) t by blast
        then show ?thesis using rest by (intro holds_alongD [OF refusals_trace(2)]) simp
      qed
      then show ?thesis by (rule traces_of_trans [OF first])
    qed
  qed
qed

lemma tools_ok_cong: "ts_tools s = ts_tools s' \<Longrightarrow> tools_ok s = tools_ok s'"
  by (simp add: tools_ok_def)

lemma invoke_all_traces:
  "\<lbrakk>invoke_all tf calls w = (r, w'); tools_ok (tw_set w); set calls \<subseteq> C\<rbrakk> \<Longrightarrow>
   traces_of (ts_tools (tw_set w)) C w w'"
proof (induction calls arbitrary: w r w')
  case Nil
  then show ?case by (simp add: retA_apply traces_of_def)
next
  case (Cons call calls)
  obtain r1 w1 where m: "invoke tf call None w = (r1, w1)" by fastforce
  have first: "traces_of (ts_tools (tw_set w)) C w w1"
    using invoke_traces [OF Cons.prems(2) m] Cons.prems(3) by simp
  then have same: "ts_tools (tw_set w1) = ts_tools (tw_set w)" by (simp add: traces_of_def)
  show ?case
  proof (cases r1)
    case (Inl e)
    then show ?thesis using Cons.prems(1) m first by (simp add: bindA_apply)
  next
    case (Inr x)
    obtain r2 w2 where rest: "invoke_all tf calls w1 = (r2, w2)" by fastforce
    then have "w' = w2" using Cons.prems(1) m Inr by (auto simp: procA split: sum.splits)
    have "traces_of (ts_tools (tw_set w)) C w1 w2"
      using Cons.IH [OF rest] Cons.prems(2,3) tools_ok_cong [OF same] same by simp
    then show ?thesis unfolding \<open>w' = w2\<close> by (rule traces_of_trans [OF first])
  qed
qed

section \<open>Properties\<close>

text \<open>
  C29: however many calls a model asks for, a handler runs only for a requested call of a tool in the
  set, on arguments that conform to the schema of its declaration, and with exactly the requested
  arguments; the set itself stays as it is. This holds for every behaviour of handlers, sink and
  clock, and however the calls end.
\<close>

theorem handlers_run_only_as_declared:
  assumes "tools_ok (tw_set w)" and "invoke_all tf calls w = (r, w')"
  shows "ts_tools (tw_set w') = ts_tools (tw_set w) \<and>
    (\<exists>tr. tw_trace w' = tw_trace w @ tr \<and>
       (\<forall>name arguments. Called name arguments \<in> set tr \<longrightarrow>
          (\<exists>call t. call \<in> set calls \<and> tc_name call = name \<and> tc_arguments call = arguments \<and>
             get_tool (tw_set w) name = Some t \<and>
             conforms (PDict arguments) (PDict (sp_parameters (to_spec t))))))"
proof -
  have "traces_of (ts_tools (tw_set w)) (set calls) w w'"
    using invoke_all_traces [OF assms(2,1)] by simp
  then obtain tr where same: "ts_tools (tw_set w') = ts_tools (tw_set w)"
    and tr: "tw_trace w' = tw_trace w @ tr" "list_all (allowed_action (ts_tools (tw_set w)) (set calls)) tr"
    by (auto simp: traces_of_def)
  show ?thesis
    using tr by (intro conjI [OF same] exI [of _ tr])
      (fastforce simp: list_all_iff allowed_action_def get_tool_def accepts_def split: option.splits)
qed

text \<open>A set with one tool that expects a number called \<open>n\<close>, and a request that gives one.\<close>

definition sample_tool :: "nat tool" where
  "sample_tool = \<lparr>to_spec = \<lparr>sp_name = ''square'', sp_description = [],
     sp_parameters = [(''properties'', PDict [(''n'', PDict [(''type'', PStr ''integer'')])]),
                      (''required'', PList [PStr ''n''])]\<rparr>, to_handler = 0\<rparr>"

definition sample_call :: "string \<Rightarrow> members \<Rightarrow> tool_call" where
  "sample_call name arguments = \<lparr>tc_name = name, tc_arguments = arguments, tc_call_id = None\<rparr>"

definition sample_tools :: "(nat, nat) tool_world" where
  "sample_tools = \<lparr>tw_set = \<lparr>ts_tools = [(''square'', sample_tool)], ts_audited = True, ts_sequence = 4\<rparr>,
     tw_env = 0, tw_trace = []\<rparr>"

definition sample_foreign :: "(nat, nat) tool_foreign" where
  "sample_foreign = \<lparr>tf_call = (\<lambda>h args c e. (Inr (PInt 9), e + 1)), tf_sink = (\<lambda>ev e. (Inr (), e)),
     tf_clock = (\<lambda>e. (0, e)), tf_deadline = (\<lambda>e. None), tf_correlation = (\<lambda>e. None),
     tf_repr = (\<lambda>c n. c)\<rparr>"

lemma sample_tools_ok: "tools_ok (tw_set sample_tools)"
proof -
  have "check_schema (\<lambda>c n. c) [] (PDict (sp_parameters (to_spec sample_tool))) = Inr ()"
    by code_simp
  then have "usable (PDict (sp_parameters (to_spec sample_tool)))" by (simp add: check_schema_iff)
  moreover have "tool_name sample_tool = ''square''" by (simp add: tool_name_def sample_tool_def)
  ultimately show ?thesis by (simp add: tools_ok_def sample_tools_def)
qed

theorem handlers_run_only_as_declared_witness:
  "\<exists>r w'. invoke_all sample_foreign [sample_call ''square'' [(''n'', PInt 3)]] sample_tools = (r, w') \<and>
     ts_tools (tw_set w') = ts_tools (tw_set sample_tools) \<and>
     Called ''square'' [(''n'', PInt 3)] \<in> set (tw_trace w')"
proof -
  let ?run = "invoke_all sample_foreign [sample_call ''square'' [(''n'', PInt 3)]] sample_tools"
  obtain r w' where run: "?run = (r, w')" by fastforce
  have "Called ''square'' [(''n'', PInt 3)] \<in> set (tw_trace (snd ?run))" by code_simp
  then show ?thesis
    using run handlers_run_only_as_declared [OF sample_tools_ok run] by (intro exI [of _ r] exI [of _ w']) simp
qed

section \<open>The audit of one call\<close>

text \<open>What the sink is told of a call, by what became of it; \<open>None\<close> stands for the handler's run.\<close>

definition expected_trail ::
    "'h tool_set \<Rightarrow> tool_call \<Rightarrow> exn + tool_result \<Rightarrow> tool_event_type option list" where
  "expected_trail s call r = Some TE_REQUESTED #
     (case get_tool s (tc_name call) of
        None \<Rightarrow> [Some TE_DENIED]
      | Some t \<Rightarrow>
          if \<not> accepts t (tc_arguments call) then [Some TE_INVALID]
          else None # (case r of
            Inl e \<Rightarrow> []
          | Inr res \<Rightarrow> [Some (if tr_ok res then TE_SUCCEEDED else TE_FAILED)]))"

definition trail :: "tool_action list \<Rightarrow> tool_event_type option list" where
  "trail tr = map (\<lambda>a. case a of Audited e \<Rightarrow> Some (te_type e) | Called n args \<Rightarrow> None) tr"

definition events_of :: "tool_action list \<Rightarrow> tool_event list" where
  "events_of tr = List.map_filter (\<lambda>a. case a of Audited e \<Rightarrow> Some e | Called n args \<Rightarrow> None) tr"

definition expected_end :: "'h tool_set \<Rightarrow> tool_call \<Rightarrow> exn + tool_result \<Rightarrow> bool" where
  "expected_end s call r = (case get_tool s (tc_name call) of
     None \<Rightarrow> (\<exists>e. r = Inl e \<and> class_of e = Fw ''AIToolError'')
   | Some t \<Rightarrow>
       if \<not> accepts t (tc_arguments call)
       then \<exists>res. r = Inr res \<and> \<not> tr_ok res \<and> tr_error_type res = Some ''AISchemaError''
       else (case r of Inl e \<Rightarrow> \<not> instance_of e ''Exception'' | Inr res \<Rightarrow> True))"

text \<open>One event of kind \<open>k\<close> about a call was told, and nothing else happened to the set.\<close>

definition told :: "tool_event_type \<Rightarrow> tool_call \<Rightarrow> ('h, 'e) tool_world \<Rightarrow> ('h, 'e) tool_world \<Rightarrow> bool" where
  "told k call w w' \<longleftrightarrow> ts_tools (tw_set w') = ts_tools (tw_set w) \<and> ts_audited (tw_set w') \<and>
     ts_sequence (tw_set w') = Suc (ts_sequence (tw_set w)) \<and>
     (\<exists>e. tw_trace w' = tw_trace w @ [Audited e] \<and> te_type e = k \<and>
        te_sequence e = Suc (ts_sequence (tw_set w)) \<and>
        te_keys e = argument_keys call \<and> te_tool e = tc_name call)"

definition silent_sink :: "('h, 'e) tool_foreign \<Rightarrow> bool" where
  "silent_sink tf \<longleftrightarrow> (\<forall>ev e. fst (tf_sink tf ev e) = Inr ())"

lemma emit_told:
  assumes "ts_audited (tw_set w)" and "silent_sink tf"
  obtains w' where "emit_tool_event tf k (tc_name call) (argument_keys call) d err w = (Inr (), w')"
    and "told k call w w'"
proof -
  let ?ev = "\<lparr>te_type = k, te_tool = tc_name call, te_sequence = ts_sequence (tw_set w) + 1,
    te_keys = argument_keys call, te_duration = d, te_error = err,
    te_correlation = tf_correlation tf (tw_env w)\<rparr>"
  obtain e' where "tf_sink tf ?ev (tw_env w) = (Inr (), e')"
    using assms(2) by (metis silent_sink_def prod.collapse)
  then show ?thesis using assms(1)
    by (intro that [of "w\<lparr>tw_set := (tw_set w)\<lparr>ts_sequence := ts_sequence (tw_set w) + 1\<rparr>, tw_env := e',
      tw_trace := tw_trace w @ [Audited ?ev]\<rparr>"]) (simp_all add: emit_tool_event_def Let_def told_def)
qed

text \<open>Reading the clock and running a handler touch only the environment and the trace.\<close>

definition quiet :: "('h, 'e) tool_world \<Rightarrow> ('h, 'e) tool_world \<Rightarrow> bool" where
  "quiet w w' \<longleftrightarrow> tw_set w' = tw_set w \<and> tw_trace w' = tw_trace w"

lemma read_clock_quiet: obtains t w' where "read_clock tf w = (Inr t, w')" and "quiet w w'"
  by (cases "tf_clock tf (tw_env w)") (auto simp: read_clock_def quiet_def)

lemma call_handler_world:
  "call_handler tf t args c w = (r, w') \<Longrightarrow>
   tw_set w' = tw_set w \<and> tw_trace w' = tw_trace w @ [Called (tool_name t) args]"
  by (auto simp: call_handler_def split: prod.splits)

lemma run_tool_audited:
  assumes run: "run_tool tf t call call_id w = (r, w')" and "ts_audited (tw_set w)" and "silent_sink tf"
    and name: "tool_name t = tc_name call"
  shows "\<exists>v w1. tw_set v = tw_set w \<and> tw_trace v = tw_trace w @ [Called (tc_name call) (tc_arguments call)] \<and>
    (case r of Inl e \<Rightarrow> w' = v \<and> \<not> instance_of e ''Exception''
     | Inr res \<Rightarrow> quiet v w1 \<and> told (if tr_ok res then TE_SUCCEEDED else TE_FAILED) call w1 w')"
proof -
  obtain started w1 where clock: "read_clock tf w = (Inr started, w1)" and q1: "quiet w w1"
    using read_clock_quiet [of tf w] by blast
  obtain cx where ctx: "context_of tf call call_id w = (Inr cx, w)"
    by (simp add: context_of_def askA_apply)
  obtain r2 w2 where h: "call_handler tf t (tc_arguments call) cx w1 = (r2, w2)" by fastforce
  have w2: "tw_set w2 = tw_set w" "tw_trace w2 = tw_trace w @ [Called (tc_name call) (tc_arguments call)]"
    using call_handler_world [OF h] q1 name by (simp_all add: quiet_def)
  obtain now w3 where clock': "read_clock tf w2 = (Inr now, w3)" and q2: "quiet w2 w3"
    using read_clock_quiet [of tf w2] by blast
  have audited: "ts_audited (tw_set w3)" using assms(2) w2 q2 by (simp add: quiet_def)
  note emits = emit_told [OF audited assms(3)]
  show ?thesis
  proof (cases r2)
    case (Inl e)
    then have ends: "handler_failed tf t call started e w2 = (r, w')"
      using run by (simp add: run_tool_def bindA_apply ctx clock tryA_def h)
    show ?thesis
    proof (cases "instance_of e ''Exception''")
      case True
      obtain w4 where "emit_tool_event tf TE_FAILED (tc_name call) (argument_keys call) (Some (now - started))
          (Some (type_name (class_of e))) w3 = (Inr (), w4)" and "told TE_FAILED call w3 w4"
        using emits by blast
      then show ?thesis using ends True w2 q2 clock' name
        by (intro exI [of _ w2] exI [of _ w3]) (auto simp: handler_failed_def procA)
    next
      case False
      then show ?thesis using ends w2 by (intro exI [of _ w2] exI [of _ w2]) (auto simp: handler_failed_def procA)
    qed
  next
    case (Inr v)
    then have ends: "handler_returned tf t call started v w2 = (r, w')"
      using run by (simp add: run_tool_def bindA_apply ctx clock tryA_def h)
    obtain w4 where "emit_tool_event tf TE_SUCCEEDED (tc_name call) (argument_keys call) (Some (now - started))
        None w3 = (Inr (), w4)" and "told TE_SUCCEEDED call w3 w4"
      using emits by blast
    then show ?thesis using ends w2 q2 clock' name
      by (intro exI [of _ w2] exI [of _ w3]) (auto simp: handler_returned_def procA)
  qed
qed

lemma trail_simps [simp]:
  "trail [] = []" "trail (Audited e # tr) = Some (te_type e) # trail tr"
  "trail (Called n args # tr) = None # trail tr" "trail (tr @ tr') = trail tr @ trail tr'"
  by (simp_all add: trail_def)

lemma events_of_simps [simp]:
  "events_of [] = []" "events_of (Audited e # tr) = e # events_of tr"
  "events_of (Called n args # tr) = events_of tr"
  by (simp_all add: events_of_def List.map_filter_simps)

text \<open>
  C30: the audit of a call is complete and tells what happened. When the set is audited and its sink
  does not raise, a call is told as requested first; then as denied when the tool is not in the
  set, which ends in \<open>AIToolError\<close>; as invalid when the arguments do not conform, which ends in a
  failed result; and otherwise, after the handler ran once, as succeeded or failed as the result
  says. Only an exception that is no \<open>Exception\<close>, a cancellation, leaves a handler's run without a
  second event. The events are numbered in order and carry the names of the arguments, sorted.
\<close>

theorem invocation_audited:
  assumes ok: "tools_ok (tw_set w)" and audited: "ts_audited (tw_set w)" and sink: "silent_sink tf"
    and run: "invoke tf call call_id w = (r, w')"
  shows "expected_end (tw_set w) call r \<and>
    (\<exists>tr. tw_trace w' = tw_trace w @ tr \<and> trail tr = expected_trail (tw_set w) call r \<and>
       map te_sequence (events_of tr) = map (\<lambda>i. ts_sequence (tw_set w) + i) [1 ..< Suc (length (events_of tr))] \<and>
       set (map te_keys (events_of tr)) = {argument_keys call} \<and>
       set (map te_tool (events_of tr)) = {tc_name call})"
proof -
  obtain w1 where e1: "emit_tool_event tf TE_REQUESTED (tc_name call) (argument_keys call) None None w = (Inr (), w1)"
    and t1: "told TE_REQUESTED call w w1"
    using emit_told [OF audited sink] by blast
  have audited1: "ts_audited (tw_set w1)" and same: "ts_tools (tw_set w1) = ts_tools (tw_set w)"
    using t1 by (simp_all add: told_def)
  note second = emit_told [OF audited1 sink]
  have order: "[1 ..< Suc (Suc 0)] = [1]" "[1 ..< Suc (Suc (Suc 0))] = [1, 2]" by (simp_all add: upt_rec)
  show ?thesis
  proof (cases "get_tool (tw_set w) (tc_name call)")
    case None
    obtain w2 where e2: "emit_tool_event tf TE_DENIED (tc_name call) (argument_keys call) None None w1 = (Inr (), w2)"
      and t2: "told TE_DENIED call w1 w2"
      using second by blast
    have "denied tf call w1 = (r, w')" using run e1 None same by (simp add: invoke_def procA get_tool_def)
    then have "w' = w2" and "\<exists>e. r = Inl e \<and> class_of e = Fw ''AIToolError''"
      using e2 by (auto simp: denied_def procA tool_error_def)
    then show ?thesis using t1 t2 None order
      by (auto simp: told_def expected_trail_def expected_end_def)
  next
    case (Some t)
    note t = tools_okD [OF ok Some]
    have rest: "(case check_arguments tf t call of Inl error \<Rightarrow> invalid_arguments tf t call error
         | Inr _ \<Rightarrow> run_tool tf t call call_id) w1 = (r, w')"
      using run e1 Some same by (simp add: invoke_def procA get_tool_def)
    show ?thesis
    proof (cases "accepts t (tc_arguments call)")
      case False
      obtain w2 where e2: "emit_tool_event tf TE_INVALID (tc_name call) (argument_keys call) None
          (Some ''AISchemaError'') w1 = (Inr (), w2)" and t2: "told TE_INVALID call w1 w2"
        using second by blast
      obtain e where e: "check_arguments tf t call = Inl e" "class_of e = Fw ''AISchemaError''"
        using check_arguments_cases(2) t False by blast
      then have "instance_of e ''AISchemaError''" by (simp add: instance_of_def fw_ancestors_def)
      then have "w' = w2" and "\<exists>res. r = Inr res \<and> \<not> tr_ok res \<and> tr_error_type res = Some ''AISchemaError''"
        using rest e e2 t by (auto simp: invalid_arguments_def procA)
      then show ?thesis using t1 t2 Some False order
        by (auto simp: told_def expected_trail_def expected_end_def)
    next
      case True
      have "run_tool tf t call call_id w1 = (r, w')"
        using rest t by (simp add: check_arguments_cases(1) True)
      then obtain v w2 where v: "tw_set v = tw_set w1"
          "tw_trace v = tw_trace w1 @ [Called (tc_name call) (tc_arguments call)]"
        and ends: "case r of Inl e \<Rightarrow> w' = v \<and> \<not> instance_of e ''Exception''
          | Inr res \<Rightarrow> quiet v w2 \<and> told (if tr_ok res then TE_SUCCEEDED else TE_FAILED) call w2 w'"
        using run_tool_audited [OF _ audited1 sink] t by blast
      then show ?thesis using t1 Some True order
        by (cases r) (auto simp: told_def quiet_def expected_trail_def expected_end_def)
    qed
  qed
qed

theorem invocation_audited_witness:
  "trail (tw_trace (snd (invoke sample_foreign (sample_call ''cube'' []) None sample_tools))) =
     [Some TE_REQUESTED, Some TE_DENIED]"
proof -
  obtain r w' where run: "invoke sample_foreign (sample_call ''cube'' []) None sample_tools = (r, w')"
    by fastforce
  have "ts_audited (tw_set sample_tools)" and "silent_sink sample_foreign"
    by (simp_all add: sample_tools_def silent_sink_def sample_foreign_def)
  from invocation_audited [OF sample_tools_ok this run] obtain tr where
      "tw_trace w' = tw_trace sample_tools @ tr"
    and "trail tr = expected_trail (tw_set sample_tools) (sample_call ''cube'' []) r"
    by blast
  moreover have "get_tool (tw_set sample_tools) ''cube'' = None" and "tw_trace sample_tools = []"
    by (simp_all add: get_tool_def sample_tools_def)
  ultimately show ?thesis unfolding run by (simp add: expected_trail_def sample_call_def)
qed

end
