(* ===== verification/Facade_Facts.thy ===== *)
theory Facade_Facts
  imports Facade Tool_Facts
begin

text \<open>
  What a call of the facade does to the provider and the tools: which requests reach the provider,
  what its answers become, and how long the loop of model and tools can go on.
\<close>

section \<open>What stays\<close>

text \<open>The provider is not asked, and the set of tools and its trace stay.\<close>

definition undisturbed :: "('h, 'e) ai_world \<Rightarrow> ('h, 'e) ai_world \<Rightarrow> bool" where
  "undisturbed w w' \<longleftrightarrow> aw_trace w' = aw_trace w \<and> tw_set (aw_tools w') = tw_set (aw_tools w) \<and>
     tw_trace (aw_tools w') = tw_trace (aw_tools w)"

interpretation ai_frame: procedure_evolution undisturbed
  by unfold_locales (auto simp: undisturbed_def)

lemma on_env_undisturbed: "holds_along undisturbed (on_env f)"
  by (rule holds_alongI) (auto simp: on_env_def undisturbed_def with_env_def split: prod.splits)

lemma monotonic_now_undisturbed: "holds_along undisturbed (monotonic_now af)"
  by (rule holds_alongI)
    (auto simp: monotonic_now_def on_tools_def read_clock_def undisturbed_def split: prod.splits)

lemma log_undisturbed: "holds_along undisturbed (log_lines ls)"
  by (rule holds_alongI) (auto simp: log_lines_def modA_apply undisturbed_def)

lemmas framed = on_env_undisturbed monotonic_now_undisturbed log_undisturbed
  ai_frame.procedure ai_frame.catchA

lemma call_budget_undisturbed: "holds_along undisturbed (call_budget af t)"
proof -
  have "holds_along undisturbed (case d of None \<Rightarrow> retA t | Some d \<Rightarrow> bindA (monotonic_now af) (\<lambda>now.
         retA (Some (case t of None \<Rightarrow> max (d - now) 0 | Some t \<Rightarrow> min t (max (d - now) 0)))))" for d
    by (cases d) (auto intro!: framed)
  then show ?thesis unfolding call_budget_def by (intro framed)
qed

lemma await_budget_undisturbed: "holds_along undisturbed (await_budget af b call)"
  unfolding await_budget_def by (intro framed) (auto split: if_splits intro: framed)

lemma call_budget_returns: "\<exists>b w'. call_budget af t w = (Inr b, w') \<and> undisturbed w w'"
proof -
  obtain r w' where run: "call_budget af t w = (r, w')" by fastforce
  moreover have "isl r = False"
    using run by (auto simp: call_budget_def procA monotonic_now_def on_tools_def read_clock_def
      split: option.splits prod.splits)
  ultimately show ?thesis
    using holds_alongD [OF call_budget_undisturbed run] by (cases r) auto
qed

lemma monotonic_now_returns: "\<exists>t w'. monotonic_now af w = (Inr t, w') \<and> undisturbed w w'"
proof -
  obtain r w' where run: "monotonic_now af w = (r, w')" by fastforce
  moreover have "isl r = False"
    using run by (auto simp: monotonic_now_def on_tools_def read_clock_def split: prod.splits)
  ultimately show ?thesis
    using holds_alongD [OF monotonic_now_undisturbed run] by (cases r) auto
qed

section \<open>One call\<close>

text \<open>What an answer of the provider becomes.\<close>

definition chat_result :: "('h, 'e) ai_foreign \<Rightarrow> chat_request \<Rightarrow> chat_response \<Rightarrow> exn + chat_response" where
  "chat_result af q response =
     (if rs_finish response = Some FR_REFUSAL
      then Inl (raised ''AIRefusalError'' (''the model '' @
             (if af_model af = [] then ''<unset>'' else af_model af) @ '' refused the request''))
      else bindR (validated_payload af q response) (\<lambda>structured.
        Inr (case structured of
          None \<Rightarrow> response | Some payload \<Rightarrow> response\<lparr>rs_structured := payload\<rparr>)))"

lemma log_call_returns: "\<exists>w'. log_call af q response d outcome w = (Inr (), w') \<and> undisturbed w w'"
  by (simp add: log_call_def procA log_lines_def undisturbed_def)

lemma finish_chat_result:
  "\<exists>w'. finish_chat af q response d w = (chat_result af q response, w') \<and> undisturbed w w'"
proof (cases "rs_finish response = Some FR_REFUSAL")
  case True
  obtain w' where "log_call af q response d ''refused'' w = (Inr (), w')" "undisturbed w w'"
    using log_call_returns by blast
  then show ?thesis using True by (simp add: finish_chat_def chat_result_def procA)
next
  case False
  show ?thesis
  proof (cases "validated_payload af q response")
    case (Inl e)
    then show ?thesis using False by (simp add: finish_chat_def chat_result_def procA undisturbed_def)
  next
    case (Inr p)
    obtain w' where "log_call af q response d ''ok'' w = (Inr (), w')" "undisturbed w w'"
      using log_call_returns by blast
    then show ?thesis using False Inr by (simp add: finish_chat_def chat_result_def procA)
  qed
qed

lemma undisturbed_trans: "undisturbed w w' \<Longrightarrow> undisturbed w' w'' \<Longrightarrow> undisturbed w w''"
  by (simp add: undisturbed_def)

text \<open>Asked requests and answers are all that a call adds; the tools stay.\<close>

definition asked_and :: "ai_action list \<Rightarrow> ('h, 'e) ai_world \<Rightarrow> ('h, 'e) ai_world \<Rightarrow> bool" where
  "asked_and tr w w' \<longleftrightarrow> aw_trace w' = aw_trace w @ tr \<and> tw_set (aw_tools w') = tw_set (aw_tools w) \<and>
     tw_trace (aw_tools w') = tw_trace (aw_tools w)"

lemma asked_and_simps:
  "undisturbed w w' = asked_and [] w w'"
  by (simp add: asked_and_def undisturbed_def)

lemma asked_and_trans: "asked_and tr w w' \<Longrightarrow> asked_and tr' w' w'' \<Longrightarrow> asked_and (tr @ tr') w w''"
  by (simp add: asked_and_def)

lemma ask_provider_trace:
  assumes "ask_provider af q b w = (r, w')"
  shows "(\<exists>e. r = Inl e \<and> (asked_and [] w w' \<or> asked_and [Asked q] w w')) \<or>
    (\<exists>response. r = Inr response \<and> asked_and [Asked q, Answered response] w w')"
proof -
  let ?w1 = "if given (\<lambda>b. b \<le> 0) b then w else w\<lparr>aw_trace := aw_trace w @ [Asked q]\<rparr>"
  have mark: "asked_and (if given (\<lambda>b. b \<le> 0) b then [] else [Asked q]) w ?w1"
    by (simp add: asked_and_def)
  have run: "call_provider af q b ?w1 = (r, w')"
    using assms by (auto simp: ask_provider_def seqA_apply whenA_apply record_action_def modA_apply)
  obtain r2 w2 where aw: "await_budget af b (\<lambda>b e. af_chat af q b e) ?w1 = (r2, w2)" by fastforce
  have frame: "asked_and [] ?w1 w2"
    using holds_alongD [OF await_budget_undisturbed aw] by (simp only: asked_and_simps)
  have both: "asked_and (if given (\<lambda>b. b \<le> 0) b then [] else [Asked q]) w w2"
    using asked_and_trans [OF mark frame] by simp
  show ?thesis
  proof (cases r2)
    case (Inl e)
    then show ?thesis using run aw both by (auto simp: call_provider_def bindA_apply split: if_splits)
  next
    case (Inr answer)
    then have live: "\<not> given (\<lambda>b. b \<le> 0) b" using aw by (auto simp: await_budget_def failA_apply)
    show ?thesis
    proof (cases answer)
      case (Inl c)
      then show ?thesis using run aw both Inr live
        by (auto simp: call_provider_def bindA_apply failA_apply)
    next
      case (Inr response)
      have "r = Inr response" and "w' = w2\<lparr>aw_trace := aw_trace w2 @ [Answered response]\<rparr>"
        using run aw \<open>r2 = Inr answer\<close> Inr
        by (auto simp: call_provider_def procA record_action_def)
      then show ?thesis using both live by (simp add: asked_and_def)
    qed
  qed
qed

lemma chat_trace:
  assumes "chat af q w = (r, w')"
  shows "(\<exists>e. r = Inl e \<and> (asked_and [] w w' \<or> asked_and [Asked q] w w')) \<or>
    (check_request af q = Inr () \<and>
     (\<exists>response. r = chat_result af q response \<and> asked_and [Asked q, Answered response] w w'))"
proof (cases "check_request af q")
  case (Inl e)
  then show ?thesis using assms by (auto simp: chat_def procA asked_and_def)
next
  case (Inr u)
  obtain b w1 where b: "call_budget af (rq_timeout q) w = (Inr b, w1)" and u1: "undisturbed w w1"
    using call_budget_returns by blast
  obtain t w2 where t: "monotonic_now af w1 = (Inr t, w2)" and u2: "undisturbed w1 w2"
    using monotonic_now_returns by blast
  obtain r3 w3 where ask: "ask_provider af q b w2 = (r3, w3)" by fastforce
  have before: "asked_and [] w w2" using undisturbed_trans [OF u1 u2] by (simp only: asked_and_simps)
  have step: "asked_and tr w2 w3 \<Longrightarrow> asked_and tr w w3" for tr
    using asked_and_trans [OF before] by simp
  show ?thesis
  proof (cases r3)
    case (Inl e)
    then have "r = Inl e" and "w' = w3" using assms \<open>check_request af q = Inr u\<close> b t ask
      by (simp_all add: chat_def procA)
    then show ?thesis using ask_provider_trace [OF ask] Inl step by auto
  next
    case (Inr response)
    then have asked: "asked_and [Asked q, Answered response] w w3"
      using ask_provider_trace [OF ask] step by auto
    obtain now w4 where now: "monotonic_now af w3 = (Inr now, w4)" and u4: "undisturbed w3 w4"
      using monotonic_now_returns by blast
    obtain w5 where ends: "finish_chat af q response (now - t) w4 = (chat_result af q response, w5)"
      and u5: "undisturbed w4 w5"
      using finish_chat_result by blast
    have "r = chat_result af q response" and "w' = w5"
      using assms \<open>check_request af q = Inr u\<close> b t ask Inr now ends by (simp_all add: chat_def procA)
    moreover have "asked_and [Asked q, Answered response] w w5"
      using asked_and_trans [OF asked, of "[]" w5] undisturbed_trans [OF u4 u5]
      by (simp only: asked_and_simps append_Nil2)
    ultimately show ?thesis using \<open>check_request af q = Inr u\<close> by auto
  qed
qed

end
