(* ===== verification/Facade_Properties.thy ===== *)
theory Facade_Properties
  imports Facade_Facts
begin

text \<open>
  The loop of model and tools, what \<open>chat\<close> guarantees of structured output, and two ways the facade
  fails where it should not.
\<close>

section \<open>The loop of model and tools\<close>

definition asked :: "ai_action list \<Rightarrow> chat_request list" where
  "asked tr = List.map_filter (\<lambda>a. case a of Asked q \<Rightarrow> Some q | Answered r \<Rightarrow> None) tr"

definition answers :: "ai_action list \<Rightarrow> chat_response list" where
  "answers tr = List.map_filter (\<lambda>a. case a of Asked q \<Rightarrow> None | Answered r \<Rightarrow> Some r) tr"

definition requested_calls :: "ai_action list \<Rightarrow> tool_call set" where
  "requested_calls tr = (\<Union>r \<in> set (answers tr). set (ms_tool_calls (rs_message r)))"

definition total_usage :: "usage \<Rightarrow> chat_response list \<Rightarrow> usage" where
  "total_usage u rs = foldl (\<lambda>u r. add_usage u (rs_usage r)) u rs"

lemma trace_simps [simp]:
  "asked [] = []" "asked (Asked q # tr) = q # asked tr" "asked (Answered r # tr) = asked tr"
  "answers [] = []" "answers (Asked q # tr) = answers tr" "answers (Answered r # tr) = r # answers tr"
  by (simp_all add: asked_def answers_def List.map_filter_simps)

lemma trace_append [simp]:
  "asked (tr @ tr') = asked tr @ asked tr'" "answers (tr @ tr') = answers tr @ answers tr'"
  by (induction tr) (auto split: ai_action.splits simp: asked_def answers_def List.map_filter_def)

lemma requested_calls_append: "requested_calls (tr @ tr') = requested_calls tr \<union> requested_calls tr'"
  by (simp add: requested_calls_def)

lemma allowed_mono:
  "\<lbrakk>list_all (allowed_action ts C) tr; C \<subseteq> D\<rbrakk> \<Longrightarrow> list_all (allowed_action ts D) tr"
proof -
  have "allowed_action ts C a \<Longrightarrow> C \<subseteq> D \<Longrightarrow> allowed_action ts D a" for a
    by (cases a) (auto simp: allowed_action_def)
  then show "\<lbrakk>list_all (allowed_action ts C) tr; C \<subseteq> D\<rbrakk> \<Longrightarrow> list_all (allowed_action ts D) tr"
    by (auto simp: list_all_iff)
qed

lemma combined_Inr: "combined u v = Inr s \<Longrightarrow> s = add_usage u v"
  by (auto simp: combined_def make_usage_def bindR_Inr_iff add_usage_def)

lemma chat_result_Inr:
  "chat_result af q response = Inr final \<Longrightarrow>
   rs_message final = rs_message response \<and> rs_usage final = rs_usage response"
  by (auto simp: chat_result_def bindR_Inr_iff split: if_splits option.splits)

text \<open>
  What a run of the loop adds: at most \<open>n\<close> requests, each offering the tools of the set; calls of
  handlers that the answers requested and the set allows; and, when it returns, an answer without
  tool calls, with the usage of all answers.
\<close>

definition loop_result :: "usage \<Rightarrow> nat \<Rightarrow> ai_action list \<Rightarrow> exn + chat_response \<Rightarrow> bool" where
  "loop_result used n tr r = (case r of
     Inl e \<Rightarrow> True
   | Inr final \<Rightarrow> ms_tool_calls (rs_message final) = [] \<and>
       rs_rounds final + 1 = n + length (asked tr) \<and> rs_usage final = total_usage used (answers tr))"

definition loop_adds ::
    "nat \<Rightarrow> usage \<Rightarrow> ('h, 'e) ai_world \<Rightarrow> exn + chat_response \<Rightarrow> nat \<Rightarrow> ('h, 'e) ai_world \<Rightarrow> bool" where
  "loop_adds left used w r n w' \<longleftrightarrow>
     ts_tools (tw_set (aw_tools w')) = ts_tools (tw_set (aw_tools w)) \<and>
     (\<exists>tr tt. aw_trace w' = aw_trace w @ tr \<and> tw_trace (aw_tools w') = tw_trace (aw_tools w) @ tt \<and>
        length (asked tr) \<le> left \<and>
        (\<forall>q \<in> set (asked tr). rq_tools q = tool_specs (tw_set (aw_tools w))) \<and>
        list_all (allowed_action (ts_tools (tw_set (aw_tools w))) (requested_calls tr)) tt \<and>
        loop_result used n tr r)"

lemma loop_result_simps [simp]:
  "loop_result used n tr (Inl e)"
  "loop_result used n tr (Inr final) \<longleftrightarrow> ms_tool_calls (rs_message final) = [] \<and>
     rs_rounds final + 1 = n + length (asked tr) \<and> rs_usage final = total_usage used (answers tr)"
  by (simp_all add: loop_result_def)

lemma tool_specs_cong: "ts_tools s = ts_tools s' \<Longrightarrow> tool_specs s = tool_specs s'"
  by (simp add: tool_specs_def)

lemma loop_adds_stop: "loop_adds left used w (Inl e) n w"
  by (auto simp: loop_adds_def intro!: exI [of _ "[]"])

lemma loop_adds_round:
  assumes asked: "asked_and [Asked x, Answered y] w w1" and specs: "rq_tools x = tool_specs (tw_set (aw_tools w))"
    and tools: "aw_trace w2 = aw_trace w1"
      "traces_of (ts_tools (tw_set (aw_tools w1))) (set (ms_tool_calls (rs_message y))) (aw_tools w1) (aw_tools w2)"
    and rest: "loop_adds left (add_usage used (rs_usage y)) w2 r (n + 1) w'"
  shows "loop_adds (Suc left) used w r n w'"
proof -
  let ?ts = "ts_tools (tw_set (aw_tools w))"
  let ?C = "set (ms_tool_calls (rs_message y))"
  obtain tt where ts2: "ts_tools (tw_set (aw_tools w2)) = ?ts"
    and tt: "tw_trace (aw_tools w2) = tw_trace (aw_tools w) @ tt" "list_all (allowed_action ?ts ?C) tt"
    using tools(2) asked by (auto simp: traces_of_def asked_and_def)
  obtain tr tt' where end_tools: "ts_tools (tw_set (aw_tools w')) = ?ts"
    and tr: "aw_trace w' = aw_trace w2 @ tr" "tw_trace (aw_tools w') = tw_trace (aw_tools w2) @ tt'"
      "length (asked tr) \<le> left" "\<forall>q \<in> set (asked tr). rq_tools q = tool_specs (tw_set (aw_tools w))"
      "list_all (allowed_action ?ts (requested_calls tr)) tt'"
    and fin: "loop_result (add_usage used (rs_usage y)) (n + 1) tr r"
    using rest ts2 tool_specs_cong [OF ts2] unfolding loop_adds_def by auto
  let ?tr = "[Asked x, Answered y] @ tr"
  have calls: "requested_calls ?tr = ?C \<union> requested_calls tr" by (auto simp: requested_calls_def)
  have "list_all (allowed_action ?ts (requested_calls ?tr)) (tt @ tt')"
    using tt(2) tr(5) calls by (auto intro: allowed_mono)
  moreover have "aw_trace w' = aw_trace w @ ?tr" using tr(1) tools(1) asked by (simp add: asked_and_def)
  moreover have "tw_trace (aw_tools w') = tw_trace (aw_tools w) @ (tt @ tt')" using tr(2) tt(1) by simp
  ultimately show ?thesis unfolding loop_adds_def using end_tools tr(3,4) specs fin
    by (intro conjI exI [of _ ?tr] exI [of _ "tt @ tt'"]) (auto simp: total_usage_def loop_result_def split: sum.splits)
qed

lemma tool_rounds_adds:
  "\<lbrakk>tool_rounds af q m left n messages used w = (r, w'); tools_ok (tw_set (aw_tools w))\<rbrakk> \<Longrightarrow>
   loop_adds left used w r n w'"
proof (induction left arbitrary: n messages used w r w')
  case 0
  then show ?case by (auto simp: failA_apply loop_adds_stop)
next
  case (Suc left)
  note run = Suc.prems(1) and ok = Suc.prems(2)
  show ?case
  proof (cases "fst (round_request af q messages w)")
    case (Inl e)
    then show ?thesis using run by (auto simp: round_request_def procA loop_adds_stop)
  next
    case (Inr x)
    then have first: "round_request af q messages w = (Inr x, w)"
      and specs: "rq_tools x = tool_specs (tw_set (aw_tools w))"
      by (auto simp: round_request_def askA_apply make_chat_request_def bindR_Inr_iff)
    obtain r1 w1 where c: "chat af x w = (r1, w1)" by fastforce
    show ?thesis
    proof (cases r1)
      case (Inl e)
      then have "r = Inl e" and "w' = w1" using run first c by (simp_all add: procA)
      moreover obtain tr where "asked_and tr w w1" and "tr \<in> {[], [Asked x]} \<or> (\<exists>y. tr = [Asked x, Answered y])"
        using chat_trace [OF c] by blast
      ultimately show ?thesis using specs
        by (auto simp: loop_adds_def asked_and_def intro!: exI [of _ "[]"])
    next
      case (Inr response)
      then obtain y where y: "asked_and [Asked x, Answered y] w w1" and "chat_result af x y = Inr response"
        using chat_trace [OF c] by auto
      then have same: "rs_message response = rs_message y" "rs_usage response = rs_usage y"
        using chat_result_Inr by blast+
      have ok1: "tools_ok (tw_set (aw_tools w1))" using y ok by (simp add: asked_and_def)
      have unchanged: "traces_of ts C (aw_tools w1) (aw_tools w1)" for ts C
        by (simp add: traces_of_def)
      note stop = loop_adds_round [OF y specs refl unchanged loop_adds_stop]
      show ?thesis
      proof (cases "combined used (rs_usage response)")
        case (Inl e)
        then show ?thesis using run first c \<open>r1 = Inr response\<close> stop by (auto simp: procA)
      next
        case (Inr used')
        then have used: "used' = add_usage used (rs_usage y)" using combined_Inr same by simp
        show ?thesis
        proof (cases "ms_tool_calls (rs_message response)")
          case Nil
          then have "r = Inr (response\<lparr>rs_usage := used', rs_rounds := n\<rparr>)" and "w' = w1"
            using run first c \<open>r1 = Inr response\<close> Inr by (simp_all add: procA)
          then show ?thesis using y specs used Nil
            by (auto simp: loop_adds_def asked_and_def total_usage_def intro!: exI [of _ "[Asked x, Answered y]"])
        next
          case (Cons call calls)
          have after: "(if n = m then failA (too_many_rounds m call) else
              bindA (on_tools (invoke_all (af_tools af) (call # calls))) (\<lambda>results.
              bindA (liftA (result_messages af results)) (\<lambda>ms.
              tool_rounds af q m left (n + 1) (messages @ [rs_message response] @ ms) used'))) w1 = (r, w')"
            using run first c \<open>r1 = Inr response\<close> Inr Cons by (simp add: procA)
          show ?thesis
          proof (cases "n = m")
            case True
            then show ?thesis using after stop by (auto simp: failA_apply)
          next
            case False
            obtain r2 tw2 where tools: "invoke_all (af_tools af) (call # calls) (aw_tools w1) = (r2, tw2)"
              by fastforce
            let ?w2 = "w1\<lparr>aw_tools := tw2\<rparr>"
            have traced: "traces_of (ts_tools (tw_set (aw_tools w1))) (set (ms_tool_calls (rs_message y)))
                (aw_tools w1) (aw_tools ?w2)"
              using invoke_all_traces [OF tools ok1 order_refl] Cons same by simp
            then have "ts_tools (tw_set tw2) = ts_tools (tw_set (aw_tools w1))" by (simp add: traces_of_def)
            then have ok2: "tools_ok (tw_set (aw_tools ?w2))" using ok1 tools_ok_cong by fastforce
            note next_round = loop_adds_round [OF y specs _ traced]
            show ?thesis
            proof (cases "bindR r2 (result_messages af)")
              case (Inl e)
              then have "r = Inl e" and "w' = ?w2"
                using after False tools by (auto simp: procA on_tools_def bindR_Inl_iff)
              then show ?thesis using next_round [OF _ loop_adds_stop] by simp
            next
              case (Inr ms)
              then have "tool_rounds af q m left (n + 1) (messages @ [rs_message response] @ ms) used' ?w2 = (r, w')"
                using after False tools by (auto simp: procA on_tools_def bindR_Inr_iff)
              from Suc.IH [OF this ok2] show ?thesis using next_round used by simp
            qed
          qed
        qed
      qed
    qed
  qed
qed

section \<open>Properties\<close>

text \<open>
  C31: the loop of model and tools is bounded and keeps to the allowlist. However the provider, the
  handlers and the sink behave, and however the loop ends, the provider is asked at most
  \<open>max_rounds\<close> times, always offered exactly the tools of the set, and every handler that ran was
  asked for by an answer of the model, is in the set, and got arguments its declaration accepts.
  When the loop returns, the answer asks for no tool, its \<open>rounds\<close> is the number of requests made
  and its usage is the sum over all the answers.
\<close>

theorem tool_loop_bounded:
  assumes "chat_with_tools af q max_rounds w = (r, w')" and "tools_ok (tw_set (aw_tools w))"
  shows "\<exists>tr tt. aw_trace w' = aw_trace w @ tr \<and> tw_trace (aw_tools w') = tw_trace (aw_tools w) @ tt \<and>
    length (asked tr) \<le> nat max_rounds \<and>
    (\<forall>x \<in> set (asked tr). rq_tools x = tool_specs (tw_set (aw_tools w))) \<and>
    list_all (allowed_action (ts_tools (tw_set (aw_tools w))) (requested_calls tr)) tt \<and>
    (\<forall>final. r = Inr final \<longrightarrow> ms_tool_calls (rs_message final) = [] \<and>
       rs_rounds final = length (asked tr) \<and> rs_usage final = total_usage no_usage (answers tr))"
proof -
  have "loop_adds (nat max_rounds) no_usage w r 1 w'"
  proof (cases "tool_rounds af q (nat max_rounds) (nat max_rounds) 1 (rq_messages q) no_usage w = (r, w')")
    case True
    then show ?thesis using tool_rounds_adds assms(2) by blast
  next
    case False
    then have "\<exists>e. r = Inl e \<and> w' = w"
      using assms(1) by (auto simp: chat_with_tools_def procA split: sum.splits if_splits)
    then show ?thesis using loop_adds_stop by blast
  qed
  then obtain tr tt where adds: "aw_trace w' = aw_trace w @ tr"
      "tw_trace (aw_tools w') = tw_trace (aw_tools w) @ tt" "length (asked tr) \<le> nat max_rounds"
      "\<forall>x \<in> set (asked tr). rq_tools x = tool_specs (tw_set (aw_tools w))"
      "list_all (allowed_action (ts_tools (tw_set (aw_tools w))) (requested_calls tr)) tt"
    and fin: "loop_result no_usage 1 tr r"
    unfolding loop_adds_def by auto
  have "\<forall>final. r = Inr final \<longrightarrow> ms_tool_calls (rs_message final) = [] \<and>
       rs_rounds final = length (asked tr) \<and> rs_usage final = total_usage no_usage (answers tr)"
    using fin by auto
  with adds show ?thesis by blast
qed

lemma chat_answered:
  assumes "chat af q w = (Inr response, w')"
  obtains y where "chat_result af q y = Inr response" and "asked_and [Asked q, Answered y] w w'"
    and "check_request af q = Inr ()" and "rs_message response = rs_message y"
proof -
  obtain y where y: "Inr response = chat_result af q y" "asked_and [Asked q, Answered y] w w'"
      "check_request af q = Inr ()"
    using chat_trace [OF assms] by auto
  show ?thesis by (rule that [OF y(1) [symmetric] y(2,3)]) (use chat_result_Inr [OF y(1) [symmetric]] in simp)
qed

lemma chat_result_structured:
  assumes "chat_result af q y = Inr response" and "rq_schema q = Some schema"
    and "ms_tool_calls (rs_message response) = []"
  shows "json_loads (ms_content (rs_message response)) = Inr (rs_structured response) \<and>
    conforms (rs_structured response) (PDict schema)"
proof -
  have "rs_message response = rs_message y" using chat_result_Inr [OF assms(1)] by simp
  then obtain payload where "json_loads (ms_content (rs_message y)) = Inr payload"
    and valid: "\<exists>z. validate_payload (tf_repr (af_tools af)) ''the model response'' payload (PDict schema) = Inr z"
    and "response = y\<lparr>rs_structured := payload\<rparr>"
    using assms by (auto simp: chat_result_def validated_payload_def bindR_Inr_iff split: if_splits sum.splits)
  moreover have "conforms payload (PDict schema)"
    using valid usable_decided(2) unusable_rejected by (metis sum.distinct(1))
  ultimately show ?thesis by simp
qed

text \<open>
  C32: a response that carries structured output conforms to the schema that was asked for. When a
  call with a response schema returns an answer that requests no tools, the model claims
  structured output, the answer's text is JSON, and \<open>structured\<close> is the value it reads as, which
  conforms to the schema; the raw message of the model is kept.
\<close>

theorem structured_output_conforms:
  assumes "chat af q w = (Inr response, w')" and "rq_schema q = Some schema"
    and "ms_tool_calls (rs_message response) = []"
  shows "json_loads (ms_content (rs_message response)) = Inr (rs_structured response) \<and>
    conforms (rs_structured response) (PDict schema) \<and>
    (\<exists>c. af_capabilities af = Some c \<and> cp_structured c) \<and>
    (\<exists>answer. aw_trace w' = aw_trace w @ [Asked q, Answered answer] \<and>
       rs_message answer = rs_message response)"
proof -
  obtain y where y: "chat_result af q y = Inr response" and trace: "asked_and [Asked q, Answered y] w w'"
    and checked: "check_request af q = Inr ()" and same: "rs_message response = rs_message y"
    using chat_answered [OF assms(1)] .
  have "\<exists>c. af_capabilities af = Some c \<and> cp_structured c"
    using checked assms(2) by (auto simp: check_request_def provider_capabilities_def bindR_Inr_iff
      split: option.splits)
  then show ?thesis using chat_result_structured [OF y assms(2,3)] trace same by (auto simp: asked_and_def)
qed

text \<open>
  A provider that asks for the sample tool once and then answers with a JSON number, in an
  environment that counts its calls.
\<close>

definition plain_message :: "string \<Rightarrow> tool_call list \<Rightarrow> message" where
  "plain_message content calls = \<lparr>ms_role = ASSISTANT, ms_content = content, ms_tool_calls = calls, ms_tool_name = None\<rparr>"

definition sample_response :: "string \<Rightarrow> tool_call list \<Rightarrow> chat_response" where
  "sample_response content calls = \<lparr>rs_message = plain_message content calls, rs_model = ''m'',
     rs_usage = \<lparr>us_input = 2, us_output = 3\<rparr>, rs_finish = Some FR_STOP, rs_structured = PNone, rs_rounds = 1\<rparr>"

definition sample_request :: "members option \<Rightarrow> chat_request" where
  "sample_request schema = \<lparr>rq_messages = [\<lparr>ms_role = USER, ms_content = ''hi'', ms_tool_calls = [], ms_tool_name = None\<rparr>],
     rq_model = None, rq_temperature = None, rq_max_tokens = None, rq_stop = [], rq_schema = schema,
     rq_tools = [], rq_timeout = None\<rparr>"

definition sample_provider ::
    "(chat_request \<Rightarrow> real option \<Rightarrow> nat \<Rightarrow> (exn + (string + chat_response)) \<times> nat) \<Rightarrow> (nat, nat) ai_foreign" where
  "sample_provider answer = \<lparr>af_tools = sample_foreign, af_has = (\<lambda>n. True),
     af_capabilities = Some \<lparr>cp_tools = True, cp_structured = True, cp_streaming = True, cp_embeddings = False\<rparr>,
     af_name = ''sample'', af_model = ''m'', af_chat = answer, af_embed = (\<lambda>q b e. (Inr (Inl ''int''), e)),
     af_health = (\<lambda>e. (Inr (Inl ''int''), e)), af_close = None, af_debug = (\<lambda>e. False), af_dumps = (\<lambda>v. ''9''),
     af_general = (\<lambda>x. []), af_policy = metadata_only\<rparr>"

definition sample_world :: "(nat, nat) ai_world" where
  "sample_world = \<lparr>aw_tools = sample_tools, aw_trace = [], aw_log = []\<rparr>"

definition asks_once :: "chat_request \<Rightarrow> real option \<Rightarrow> nat \<Rightarrow> (exn + (string + chat_response)) \<times> nat" where
  "asks_once q b e = (Inr (Inr (if e = 0
     then sample_response [] [sample_call ''square'' [(''n'', PInt 3)]]
     else sample_response ''9'' [])), e)"

theorem tool_loop_bounded_witness:
  "\<exists>final w'. chat_with_tools (sample_provider asks_once) (sample_request None) 3 sample_world = (Inr final, w') \<and>
     ms_content (rs_message final) = ''9'' \<and> rs_rounds final = 2 \<and> length (asked (aw_trace w')) \<le> 3"
proof -
  let ?run = "chat_with_tools (sample_provider asks_once) (sample_request None) 3 sample_world"
  have ends: "case fst ?run of Inl e \<Rightarrow> False
      | Inr final \<Rightarrow> ms_content (rs_message final) = ''9'' \<and> rs_rounds final = 2"
    by code_simp
  obtain r w' where run: "?run = (r, w')" by fastforce
  have "tools_ok (tw_set (aw_tools sample_world))" using sample_tools_ok by (simp add: sample_world_def)
  from tool_loop_bounded [OF run this] have "length (asked (aw_trace w')) \<le> 3"
    by (auto simp: sample_world_def)
  then show ?thesis using run ends by (cases r) auto
qed

theorem structured_output_conforms_witness:
  "\<exists>response w'. chat (sample_provider (\<lambda>q b e. (Inr (Inr (sample_response ''9'' [])), e)))
     (sample_request (Some [(''type'', PStr ''integer'')])) sample_world = (Inr response, w') \<and>
     conforms (rs_structured response) (PDict [(''type'', PStr ''integer'')])"
proof -
  let ?run = "chat (sample_provider (\<lambda>q b e. (Inr (Inr (sample_response ''9'' [])), e)))
     (sample_request (Some [(''type'', PStr ''integer'')])) sample_world"
  have ends: "case fst ?run of Inl e \<Rightarrow> False | Inr response \<Rightarrow> ms_tool_calls (rs_message response) = []"
    by code_simp
  obtain r w' where run: "?run = (r, w')" by fastforce
  then obtain response where r: "r = Inr response" "ms_tool_calls (rs_message response) = []"
    using ends by (cases r) simp_all
  have "rq_schema (sample_request (Some [(''type'', PStr ''integer'')])) = Some [(''type'', PStr ''integer'')]"
    by (simp add: sample_request_def)
  from structured_output_conforms [OF run [unfolded r(1)] this r(2)] show ?thesis using run r by blast
qed

text \<open>
  a structured call refuses a valid payload that is \<open>null\<close>. Whenever \<open>chat\<close> returns an answer
  whose text reads as null to a request with a schema, null conforms to that schema, and yet the
  structured call raises \<open>AISchemaError\<close>, as if the response had carried no payload.
\<close>

theorem structured_null_refused:
  assumes "chat af q w = (Inr response, w')" and "rq_schema q = Some schema"
    and "ms_tool_calls (rs_message response) = []"
    and "json_loads (ms_content (rs_message response)) = Inr PNone"
  shows "conforms PNone (PDict schema) \<and>
    (\<exists>e. structured_chat af q w = (Inl e, w') \<and> class_of e = Fw ''AISchemaError'')"
proof -
  obtain y where y: "chat_result af q y = Inr response" using chat_answered [OF assms(1)] .
  from chat_result_structured [OF y assms(2,3)] assms(4)
  have "rs_structured response = PNone" and "conforms PNone (PDict schema)" by auto
  then show ?thesis using assms(1,2) by (simp add: structured_chat_def procA schema_error_def)
qed

theorem structured_null_refused_witness:
  "\<exists>e w'. structured_chat (sample_provider (\<lambda>q b e. (Inr (Inr (sample_response ''null'' [])), e)))
     (sample_request (Some [(''type'', PStr ''null'')])) sample_world = (Inl e, w') \<and>
     class_of e = Fw ''AISchemaError''"
proof -
  let ?q = "sample_request (Some [(''type'', PStr ''null'')])"
  let ?run = "chat (sample_provider (\<lambda>q b e. (Inr (Inr (sample_response ''null'' [])), e))) ?q sample_world"
  have ends: "case fst ?run of Inl e \<Rightarrow> False | Inr response \<Rightarrow> ms_tool_calls (rs_message response) = [] \<and>
      json_loads (ms_content (rs_message response)) = Inr PNone"
    by code_simp
  obtain r w' where run: "?run = (r, w')" by fastforce
  then obtain response where r: "r = Inr response" "ms_tool_calls (rs_message response) = []"
      "json_loads (ms_content (rs_message response)) = Inr PNone"
    using ends by (cases r) simp_all
  have schema: "rq_schema ?q = Some [(''type'', PStr ''null'')]" by (simp add: sample_request_def)
  from structured_null_refused [OF run [unfolded r(1)] schema r(2,3)] show ?thesis by blast
qed

text \<open>
  a provider that runs out of time by itself, when the call has no budget, is reported as a
  \<open>TypeError\<close>: the handler formats the missing budget as a number. No \<open>AITimeoutError\<close>, which is
  retryable, is raised.
\<close>

theorem untimed_timeout_raises_type_error:
  assumes "check_request af q = Inr ()" and "rq_timeout q = None"
    and "\<forall>e. tf_deadline (af_tools af) e = None"
    and "\<forall>e. \<exists>x. fst (af_chat af q None e) = Inl x \<and> instance_of x ''TimeoutError''"
  shows "\<exists>w'. chat af q w = (Inl (raised ''TypeError''
    ''unsupported format string passed to NoneType.__format__''), w')"
proof -
  have b: "call_budget af (rq_timeout q) w = (Inr None, w)"
    using assms(2,3) by (simp add: call_budget_def procA)
  obtain t w1 where t: "monotonic_now af w = (Inr t, w1)" using monotonic_now_returns by blast
  let ?w2 = "w1\<lparr>aw_trace := aw_trace w1 @ [Asked q]\<rparr>"
  obtain x e' where "af_chat af q None (env_of ?w2) = (Inl x, e')" and "instance_of x ''TimeoutError''"
    using assms(4) by (metis prod.collapse)
  then have "ask_provider af q None w1 =
      (Inl (raised ''TypeError'' ''unsupported format string passed to NoneType.__format__''), with_env e' ?w2)"
    by (simp add: ask_provider_def call_provider_def await_budget_def out_of_time_def catchA_def on_env_def
      procA record_action_def)
  then show ?thesis using assms(1) b t by (simp add: chat_def procA)
qed

theorem untimed_timeout_raises_type_error_witness:
  "\<exists>w'. chat (sample_provider (\<lambda>q b e. (Inl (raised ''TimeoutError'' []), e))) (sample_request None) sample_world =
     (Inl (raised ''TypeError'' ''unsupported format string passed to NoneType.__format__''), w')"
proof (rule untimed_timeout_raises_type_error)
  show "check_request (sample_provider (\<lambda>q b e. (Inl (raised ''TimeoutError'' []), e))) (sample_request None) = Inr ()"
    by code_simp
qed (simp_all add: sample_request_def sample_provider_def sample_foreign_def instance_of_def fw_ancestors_def)

end
