(* ===== verification/Sessions.thy ===== *)
theory Sessions
  imports Schema Procedures
begin

text \<open>
  \<open>http/sessions.py\<close>: sessions behind a signed cookie. A session is a dictionary with flags; the
  middleware loads one for a request and writes it back when the response starts. The keyed digest
  (\<open>mac\<close>, its text in URL-safe base 64), the random ids and the parsing of the request are
  parameters; what the application does is a sequence of changes to the session and of messages.
\<close>

section \<open>The signed cookie\<close>

type_synonym digest = "string \<Rightarrow> string \<Rightarrow> string"

text \<open>\<open>s.rpartition(".")\<close>\<close>

definition rpartition_dot :: "string \<Rightarrow> string \<times> string \<times> string" where
  "rpartition_dot s =
     (let last = rev (takeWhile (\<lambda>c. c \<noteq> CHR ''.'') (rev s))
      in if CHR ''.'' \<notin> set s then ([], [], s)
         else (take (length s - length last - 1) s, ''.'', last))"

definition is_ascii :: "string \<Rightarrow> bool" where
  "is_ascii s = list_all (\<lambda>c. of_char c < (128 :: nat)) s"

text \<open>\<open>hmac.compare_digest\<close> on texts, which refuses any character beyond ASCII.\<close>

definition compare_digest :: "string \<Rightarrow> string \<Rightarrow> exn + bool" where
  "compare_digest a b =
     (if is_ascii a \<and> is_ascii b then Inr (a = b)
      else Inl (raised ''TypeError'' ''comparing strings with non-ASCII characters is not supported''))"

definition signed_id :: "digest \<Rightarrow> string \<Rightarrow> string \<Rightarrow> string" where
  "signed_id mac secret sid = sid @ ''.'' @ mac secret sid"

definition verified_id :: "digest \<Rightarrow> string \<Rightarrow> string \<Rightarrow> exn + string option" where
  "verified_id mac secret cookie =
     (case rpartition_dot cookie of (sid, separator, signature) \<Rightarrow>
        if separator = [] \<or> sid = [] \<or> signature = [] then Inr None
        else bindR (compare_digest signature (mac secret sid))
               (\<lambda>same. Inr (if same then Some sid else None)))"

section \<open>A session\<close>

record session =
  se_data :: members
  se_stored :: bool
  se_modified :: bool
  se_id :: "string option"

definition make_session :: "members option \<Rightarrow> session" where
  "make_session data = \<lparr>se_data = (case data of None \<Rightarrow> [] | Some d \<Rightarrow> d), se_stored = (data \<noteq> None),
     se_modified = False, se_id = None\<rparr>"

definition session_is_new :: "session \<Rightarrow> bool" where
  "session_is_new s = (\<not> se_stored s)"

definition session_is_empty :: "session \<Rightarrow> bool" where
  "session_is_empty s = (se_data s = [])"

definition stored_as :: "string \<Rightarrow> session \<Rightarrow> session" where
  "stored_as sid s = s\<lparr>se_id := Some sid, se_stored := True, se_modified := False\<rparr>"

text \<open>The changes a handler can make; a key that is not there raises, and nothing changes.\<close>

datatype session_change = SetItem string pyval | DelItem string | ClearAll

fun change_session :: "session_change \<Rightarrow> session \<Rightarrow> exn + session" where
  "change_session (SetItem k v) s = Inr (s\<lparr>se_data := dict_set (se_data s) k v, se_modified := True\<rparr>)"
| "change_session (DelItem k) s =
     (if k \<in> fst ` set (se_data s)
      then Inr (s\<lparr>se_data := filter (\<lambda>(k', v). k' \<noteq> k) (se_data s), se_modified := True\<rparr>)
      else Inl (raised ''KeyError'' (py_repr k)))"
| "change_session ClearAll s =
     Inr (s\<lparr>se_data := [], se_modified := (se_modified s \<or> se_data s \<noteq> [])\<rparr>)"

section \<open>Stores\<close>

text \<open>The protocol of a store: each operation may raise.\<close>

record 's store_ops =
  so_load :: "string \<Rightarrow> ('s, exn, members option) proc"
  so_save :: "string \<Rightarrow> members \<Rightarrow> int \<Rightarrow> ('s, exn, unit) proc"
  so_delete :: "string \<Rightarrow> ('s, exn, unit) proc"

text \<open>The store in memory; \<open>mm_clock\<close> are the readings of its clock, \<open>mm_ticks\<close> how many were taken.\<close>

record memory_store =
  mm_max :: nat
  mm_data :: "(string \<times> members \<times> real) list"
  mm_clock :: "nat \<Rightarrow> real"
  mm_ticks :: nat

definition make_memory_store :: "int \<Rightarrow> (nat \<Rightarrow> real) \<Rightarrow> exn + memory_store" where
  "make_memory_store n clock =
     bindR (refuse_if (n < 1) (raised ''ConfigurationError'' ''max_sessions must be at least 1'')) (\<lambda>_.
     Inr \<lparr>mm_max = nat n, mm_data = [], mm_clock = clock, mm_ticks = 0\<rparr>)"

definition store_clock :: "(memory_store, exn, real) proc" where
  "store_clock = (\<lambda>m. (Inr (mm_clock m (mm_ticks m)), m\<lparr>mm_ticks := mm_ticks m + 1\<rparr>))"

definition drop_key :: "string \<Rightarrow> (string \<times> 'v) list \<Rightarrow> (string \<times> 'v) list" where
  "drop_key k d = filter (\<lambda>(k', v). k' \<noteq> k) d"

definition update_data ::
    "((string \<times> members \<times> real) list \<Rightarrow> (string \<times> members \<times> real) list) \<Rightarrow> (memory_store, exn, unit) proc" where
  "update_data f = modA (\<lambda>m. m\<lparr>mm_data := f (mm_data m)\<rparr>)"

definition memory_load :: "string \<Rightarrow> (memory_store, exn, members option) proc" where
  "memory_load sid =
     bindA (askA (\<lambda>m. Inr (map_of (mm_data m) sid))) (\<lambda>entry.
     case entry of
       None \<Rightarrow> retA None
     | Some (data, expires) \<Rightarrow>
         bindA store_clock (\<lambda>now.
         if expires \<le> now then seqA (update_data (drop_key sid)) (retA None)
         else retA (Some data)))"

definition evict_expired :: "(memory_store, exn, unit) proc" where
  "evict_expired = bindA store_clock (\<lambda>now. update_data (filter (\<lambda>(sid, data, expires). now < expires)))"

text \<open>The loop that drops the oldest sessions until there is room.\<close>

fun make_room :: "nat \<Rightarrow> string \<Rightarrow> (string \<times> 'v) list \<Rightarrow> (string \<times> 'v) list" where
  "make_room n sid [] = []"
| "make_room n sid (e # es) =
     (if n \<le> length (e # es) \<and> sid \<notin> fst ` set (e # es) then make_room n sid es else e # es)"

definition memory_save :: "string \<Rightarrow> members \<Rightarrow> int \<Rightarrow> (memory_store, exn, unit) proc" where
  "memory_save sid data max_age =
     seqA evict_expired
     (seqA (modA (\<lambda>m. m\<lparr>mm_data := make_room (mm_max m) sid (mm_data m)\<rparr>))
     (bindA store_clock (\<lambda>now. update_data (\<lambda>d. dict_set d sid (data, now + of_int max_age)))))"

definition memory_delete :: "string \<Rightarrow> (memory_store, exn, unit) proc" where
  "memory_delete sid = update_data (drop_key sid)"

definition memory_ops :: "memory_store store_ops" where
  "memory_ops = \<lparr>so_load = memory_load, so_save = memory_save, so_delete = memory_delete\<rparr>"

section \<open>The middleware\<close>

record session_config =
  sc_secret :: string
  sc_cookie :: string
  sc_max_age :: int
  sc_path :: string
  sc_samesite :: string
  sc_secure :: bool

definition make_session_config :: "session_config \<Rightarrow> exn + session_config" where
  "make_session_config c =
     bindR (refuse_if (sc_secret c = []) (raised ''ConfigurationError'' ''session secret must not be empty'')) (\<lambda>_.
     bindR (refuse_if (sc_max_age c < 1)
       (raised ''ConfigurationError'' ''max_age must be at least 1 second'')) (\<lambda>_. Inr c))"

definition session_cookie_header :: "session_config \<Rightarrow> string \<Rightarrow> int \<Rightarrow> string" where
  "session_cookie_header c v max_age = join ''; '' (
     [sc_cookie c @ ''='' @ v, ''path='' @ sc_path c, ''Max-Age='' @ dec_int max_age, ''httponly'',
      ''samesite='' @ sc_samesite c] @ (if sc_secure c then [''secure''] else []))"

text \<open>
  The world of a request: the store, the ids \<open>secrets.token_urlsafe\<close> gives, the session on the
  scope, and the messages sent. A message that starts a response carries its \<open>Set-Cookie\<close> headers.
\<close>

datatype http_message = ResponseStart "string list" | OtherMessage string

record 's session_world =
  sw_store :: 's
  sw_tokens :: "nat \<Rightarrow> string"
  sw_drawn :: nat
  sw_session :: session
  sw_sent :: "http_message list"

type_synonym ('s, 'a) session_proc = "('s session_world, exn, 'a) proc"

definition on_store :: "('s, exn, 'a) proc \<Rightarrow> ('s, 'a) session_proc" where
  "on_store m = (\<lambda>w. case m (sw_store w) of (r, s) \<Rightarrow> (r, w\<lparr>sw_store := s\<rparr>))"

definition draw_token :: "('s, string) session_proc" where
  "draw_token = (\<lambda>w. (Inr (sw_tokens w (sw_drawn w)), w\<lparr>sw_drawn := sw_drawn w + 1\<rparr>))"

definition set_session :: "session \<Rightarrow> ('s, unit) session_proc" where
  "set_session s = modA (\<lambda>w. w\<lparr>sw_session := s\<rparr>)"

definition load_session ::
    "digest \<Rightarrow> session_config \<Rightarrow> 's store_ops \<Rightarrow> (string \<Rightarrow> string option) \<Rightarrow> ('s, session) session_proc" where
  "load_session mac c ops cookies = (case cookies (sc_cookie c) of
     None \<Rightarrow> retA (make_session None)
   | Some cookie \<Rightarrow>
       bindA (liftA (verified_id mac (sc_secret c) cookie)) (\<lambda>verified.
       case verified of
         None \<Rightarrow> retA (make_session None)
       | Some sid \<Rightarrow>
           bindA (on_store (so_load ops sid)) (\<lambda>data.
           case data of
             None \<Rightarrow> retA (make_session None)
           | Some d \<Rightarrow> retA (stored_as sid (make_session (Some d))))))"

definition forget_session ::
    "session_config \<Rightarrow> 's store_ops \<Rightarrow> string \<Rightarrow> ('s, string list) session_proc" where
  "forget_session c ops sid =
     seqA (on_store (so_delete ops sid)) (retA [session_cookie_header c [] 0])"

definition save_session ::
    "digest \<Rightarrow> session_config \<Rightarrow> 's store_ops \<Rightarrow> session \<Rightarrow> string \<Rightarrow> ('s, string list) session_proc" where
  "save_session mac c ops s sid =
     seqA (on_store (so_save ops sid (se_data s) (sc_max_age c)))
     (seqA (set_session (stored_as sid s))
       (retA [session_cookie_header c (signed_id mac (sc_secret c) sid) (sc_max_age c)]))"

text \<open>The headers \<open>_persist\<close> appends to the response.\<close>

definition persist_session ::
    "digest \<Rightarrow> session_config \<Rightarrow> 's store_ops \<Rightarrow> ('s, string list) session_proc" where
  "persist_session mac c ops =
     bindA (askA (\<lambda>w. Inr (sw_session w))) (\<lambda>s.
     if session_is_empty s then
       (case se_id s of None \<Rightarrow> retA [] | Some sid \<Rightarrow> forget_session c ops sid)
     else case se_id s of
       None \<Rightarrow> bindA draw_token (save_session mac c ops s)
     | Some sid \<Rightarrow> if se_modified s then save_session mac c ops s sid else retA [])"

definition send_message :: "http_message \<Rightarrow> ('s, unit) session_proc" where
  "send_message msg = modA (\<lambda>w. w\<lparr>sw_sent := sw_sent w @ [msg]\<rparr>)"

definition capture :: "digest \<Rightarrow> session_config \<Rightarrow> 's store_ops \<Rightarrow> http_message \<Rightarrow> ('s, unit) session_proc" where
  "capture mac c ops msg = (case msg of
     ResponseStart headers \<Rightarrow>
       bindA (persist_session mac c ops) (\<lambda>added. send_message (ResponseStart (headers @ added)))
   | OtherMessage b \<Rightarrow> send_message msg)"

text \<open>What the application does to the session and sends; it may go on after a change that raised.\<close>

datatype app_action = Changes session_change | Sends http_message

definition perform_change :: "session_change \<Rightarrow> ('s, unit) session_proc" where
  "perform_change ch = modA (\<lambda>w. case change_session ch (sw_session w) of
     Inl e \<Rightarrow> w | Inr s \<Rightarrow> w\<lparr>sw_session := s\<rparr>)"

fun perform_actions ::
    "digest \<Rightarrow> session_config \<Rightarrow> 's store_ops \<Rightarrow> app_action list \<Rightarrow> ('s, unit) session_proc" where
  "perform_actions mac c ops [] = retA ()"
| "perform_actions mac c ops (Changes ch # as) = seqA (perform_change ch) (perform_actions mac c ops as)"
| "perform_actions mac c ops (Sends msg # as) = seqA (capture mac c ops msg) (perform_actions mac c ops as)"

definition handle_request ::
    "digest \<Rightarrow> session_config \<Rightarrow> 's store_ops \<Rightarrow> (string \<Rightarrow> string option) \<Rightarrow> app_action list \<Rightarrow>
     ('s, unit) session_proc" where
  "handle_request mac c ops cookies actions =
     bindA (load_session mac c ops cookies) (\<lambda>s.
     seqA (set_session s) (perform_actions mac c ops actions))"

definition get_session :: "session option \<Rightarrow> exn + session" where
  "get_session on_scope = (case on_scope of
     Some s \<Rightarrow> Inr s
   | None \<Rightarrow> Inl (raised ''ConfigurationError''
       (''no session on this request: pass SessionMiddleware in '' @
        ''HttpAdapter(app, middleware=(Middleware(SessionMiddleware, store=..., secret=...),))'')))"

end
