(* ===== verification/Session_Facts.thy ===== *)
theory Session_Facts
  imports Sessions
begin

text \<open>
  Which cookies are accepted, what a store answers and how large it gets, and which requests the
  origin check refuses.
\<close>

section \<open>Signed cookies\<close>

text \<open>The URL-safe base 64 text of a digest: not empty, ASCII, and without a dot.\<close>

definition digest_ok :: "digest \<Rightarrow> bool" where
  "digest_ok mac \<longleftrightarrow> (\<forall>secret sid. mac secret sid \<noteq> [] \<and> is_ascii (mac secret sid) \<and> CHR ''.'' \<notin> set (mac secret sid))"

lemma rpartition_dot_last:
  assumes "CHR ''.'' \<notin> set b"
  shows "rpartition_dot (a @ CHR ''.'' # b) = (a, ''.'', b)"
proof -
  have "takeWhile (\<lambda>c. c \<noteq> CHR ''.'') (rev b @ CHR ''.'' # rev a) = rev b"
    using assms by (subst takeWhile_append2) auto
  then show ?thesis by (simp add: rpartition_dot_def)
qed

lemma rpartition_dot_cases:
  obtains "CHR ''.'' \<notin> set s" and "rpartition_dot s = ([], [], s)"
  | a b where "s = a @ CHR ''.'' # b" and "CHR ''.'' \<notin> set b" and "rpartition_dot s = (a, ''.'', b)"
proof (cases "CHR ''.'' \<in> set s")
  case True
  then obtain a b where "s = a @ CHR ''.'' # b" and "CHR ''.'' \<notin> set b"
    by (metis split_list_last)
  then show ?thesis using rpartition_dot_last that(2) by metis
next
  case False
  then show ?thesis using that(1) by (simp add: rpartition_dot_def)
qed

lemma verified_signed:
  assumes "digest_ok mac"
  shows "verified_id mac secret (signed_id mac secret sid) = Inr (if sid = [] then None else Some sid)"
proof -
  have m: "mac secret sid \<noteq> []" "is_ascii (mac secret sid)" "CHR ''.'' \<notin> set (mac secret sid)"
    using assms by (auto simp: digest_ok_def)
  have "rpartition_dot (signed_id mac secret sid) = (sid, ''.'', mac secret sid)"
    using rpartition_dot_last [OF m(3)] by (simp add: signed_id_def)
  then show ?thesis using m by (simp add: verified_id_def compare_digest_def)
qed

lemma verified_id_accepts:
  assumes "digest_ok mac"
  shows "verified_id mac secret cookie = Inr (Some sid) \<longleftrightarrow> sid \<noteq> [] \<and> cookie = signed_id mac secret sid"
proof
  assume "verified_id mac secret cookie = Inr (Some sid)"
  then show "sid \<noteq> [] \<and> cookie = signed_id mac secret sid"
    by (cases rule: rpartition_dot_cases [of cookie])
      (auto simp: verified_id_def compare_digest_def signed_id_def split: if_splits)
qed (use verified_signed [OF assms, of secret sid] in auto)

lemma verified_id_raises:
  assumes "digest_ok mac"
  shows "verified_id mac secret cookie = Inl e \<longleftrightarrow>
    (\<exists>a b. cookie = a @ CHR ''.'' # b \<and> CHR ''.'' \<notin> set b \<and> a \<noteq> [] \<and> \<not> is_ascii b) \<and>
    e = raised ''TypeError'' ''comparing strings with non-ASCII characters is not supported''"
proof (cases rule: rpartition_dot_cases [of cookie])
  case 1
  then show ?thesis by (auto simp: verified_id_def)
next
  case (2 a b)
  have "(\<exists>a b. cookie = a @ CHR ''.'' # b \<and> CHR ''.'' \<notin> set b \<and> a \<noteq> [] \<and> \<not> is_ascii b) \<longleftrightarrow> a \<noteq> [] \<and> \<not> is_ascii b"
    using 2 rpartition_dot_last by (metis prod.inject)
  moreover have "is_ascii (mac secret a)" "is_ascii []" using assms by (simp_all add: digest_ok_def is_ascii_def)
  ultimately show ?thesis using 2 by (auto simp: verified_id_def compare_digest_def)
qed

section \<open>The contract of a store\<close>

text \<open>
  \<open>held s sid\<close> is what the store \<open>s\<close> keeps under an id. A load answers that or nothing; no operation
  makes up data, moves it to another id or brings back what was deleted.
\<close>

locale session_store =
  fixes ops :: "'s store_ops" and held :: "'s \<Rightarrow> string \<Rightarrow> members option" and ok :: "'s \<Rightarrow> bool"
  assumes load_ok: "ok s \<Longrightarrow> so_load ops sid s = (x, s') \<Longrightarrow> ok s'"
    and save_ok: "ok s \<Longrightarrow> so_save ops sid d n s = (y, s') \<Longrightarrow> ok s'"
    and delete_ok: "ok s \<Longrightarrow> so_delete ops sid s = (y, s') \<Longrightarrow> ok s'"
    and load_answers: "ok s \<Longrightarrow> so_load ops sid s = (Inr r, s') \<Longrightarrow> r = None \<or> r = held s sid"
    and load_keeps: "ok s \<Longrightarrow> so_load ops sid s = (x, s') \<Longrightarrow> held s' k = None \<or> held s' k = held s k"
    and save_keeps: "ok s \<Longrightarrow> so_save ops sid d n s = (Inr (), s') \<Longrightarrow>
      held s' k = None \<or> held s' k = (if k = sid then Some d else held s k)"
    and delete_keeps: "ok s \<Longrightarrow> so_delete ops sid s = (Inr (), s') \<Longrightarrow>
      held s' k = None \<or> (held s' k = held s k \<and> k \<noteq> sid)"
    and returns: "\<exists>r. fst (so_load ops sid s) = Inr r" "fst (so_save ops sid d n s) = Inr ()"
      "fst (so_delete ops sid s) = Inr ()"

text \<open>Calls on a store, in any order, as requests that run side by side make them.\<close>

datatype store_call = CLoad string | CSave string members int | CDelete string

text \<open>The data of the last save under an id that no delete of the id follows.\<close>

fun last_saved :: "store_call list \<Rightarrow> string \<Rightarrow> members option \<Rightarrow> members option" where
  "last_saved [] sid d = d"
| "last_saved (CLoad k # cs) sid d = last_saved cs sid d"
| "last_saved (CSave k x n # cs) sid d = last_saved cs sid (if k = sid then Some x else d)"
| "last_saved (CDelete k # cs) sid d = last_saved cs sid (if k = sid then None else d)"

fun run_calls :: "'s store_ops \<Rightarrow> store_call list \<Rightarrow> 's \<Rightarrow> 's" where
  "run_calls ops [] s = s"
| "run_calls ops (CLoad k # cs) s = run_calls ops cs (snd (so_load ops k s))"
| "run_calls ops (CSave k x n # cs) s = run_calls ops cs (snd (so_save ops k x n s))"
| "run_calls ops (CDelete k # cs) s = run_calls ops cs (snd (so_delete ops k s))"

context session_store
begin

lemmas ok_after =
  load_ok [OF _ prod.collapse [symmetric]] save_ok [OF _ prod.collapse [symmetric]]
  delete_ok [OF _ prod.collapse [symmetric]]

lemma calls_ok: "ok s \<Longrightarrow> ok (run_calls ops cs s)"
proof (induction cs arbitrary: s)
  case (Cons c cs)
  then show ?case by (cases c) (simp_all add: ok_after)
qed simp

lemma held_last_saved:
  "\<lbrakk>ok s; held s sid = None \<or> held s sid = d\<rbrakk> \<Longrightarrow>
    held (run_calls ops cs s) sid = None \<or> held (run_calls ops cs s) sid = last_saved cs sid d"
proof (induction cs arbitrary: s d)
  case Nil
  then show ?case by simp
next
  case (Cons c cs)
  note ok = Cons.prems(1)
  show ?case
  proof (cases c)
    case (CLoad k)
    obtain x s' where run: "so_load ops k s = (x, s')" by fastforce
    have "held s' sid = None \<or> held s' sid = d" using load_keeps [OF ok run, of sid] Cons.prems(2) by auto
    then show ?thesis using Cons.IH [OF load_ok [OF ok run]] CLoad run by simp
  next
    case (CSave k x n)
    obtain s' where run: "so_save ops k x n s = (Inr (), s')"
      using returns(2) [of k x n s] by (cases "so_save ops k x n s") auto
    have "held s' sid = None \<or> held s' sid = (if k = sid then Some x else d)"
      using save_keeps [OF ok run, of sid] Cons.prems(2) by auto
    then show ?thesis using Cons.IH [OF save_ok [OF ok run]] CSave run by simp
  next
    case (CDelete k)
    obtain s' where run: "so_delete ops k s = (Inr (), s')"
      using returns(3) [of k s] by (cases "so_delete ops k s") auto
    have "held s' sid = None \<or> held s' sid = (if k = sid then None else d)"
      using delete_keeps [OF ok run, of sid] Cons.prems(2) by auto
    then show ?thesis using Cons.IH [OF delete_ok [OF ok run]] CDelete run by simp
  qed
qed

lemma load_last_saved:
  assumes "ok s" and "held s sid = None"
    and "so_load ops sid (run_calls ops cs s) = (Inr r, s')"
  shows "r = None \<or> r = last_saved cs sid None"
  using held_last_saved [OF assms(1), of sid None cs] load_answers [OF calls_ok [OF assms(1)] assms(3)]
    assms(2) by auto

end

section \<open>The store in memory\<close>

definition memory_held :: "memory_store \<Rightarrow> string \<Rightarrow> members option" where
  "memory_held m sid = map_option fst (map_of (mm_data m) sid)"

definition memory_ok :: "memory_store \<Rightarrow> bool" where
  "memory_ok m \<longleftrightarrow> 0 < mm_max m \<and> distinct (map fst (mm_data m)) \<and> length (mm_data m) \<le> mm_max m"

lemma map_of_filter_cases:
  assumes "distinct (map fst d)"
  shows "map_of (filter P d) k = None \<or> map_of (filter P d) k = map_of d k"
proof (cases "map_of (filter P d) k")
  case (Some v)
  then have "(k, v) \<in> set d" by (auto dest: map_of_SomeD)
  then show ?thesis using Some assms by (simp add: map_of_is_SomeI)
qed simp

lemma drop_key_ok:
  assumes "memory_ok m" and "mm_max m' = mm_max m" and "mm_data m' = drop_key k (mm_data m)"
  shows "memory_ok m'"
  using assms by (auto simp: memory_ok_def drop_key_def distinct_map_filter intro: order_trans [OF length_filter_le])

lemma map_of_drop_key: "map_of (drop_key k d) k' = (if k' = k then None else map_of d k')"
  unfolding drop_key_def by (induction d) auto

lemma make_room_suffix: "\<exists>dropped. d = dropped @ make_room n sid d"
  by (induction d) (auto, metis append_Cons)

lemma make_room_length:
  "0 < n \<Longrightarrow> length (make_room n sid d) < n \<or> (sid \<in> fst ` set (make_room n sid d) \<and> length (make_room n sid d) \<le> length d)"
  by (induction d) auto

lemma make_room_distinct: "distinct (map fst d) \<Longrightarrow> distinct (map fst (make_room n sid d))"
  by (metis distinct_append make_room_suffix map_append)

lemma make_room_map_of:
  assumes "distinct (map fst d)"
  shows "map_of (make_room n sid d) k = None \<or> map_of (make_room n sid d) k = map_of d k"
proof (cases "map_of (make_room n sid d) k")
  case (Some v)
  then have "(k, v) \<in> set d" using make_room_suffix [of d n sid] by (metis UnCI map_of_SomeD set_append)
  then show ?thesis using Some assms by (simp add: map_of_is_SomeI)
qed simp

lemma memory_load_effect:
  assumes "memory_load sid m = (x, m')"
  shows "(x = Inr None \<or> x = Inr (memory_held m sid)) \<and> mm_max m' = mm_max m \<and>
    (mm_data m' = mm_data m \<or> mm_data m' = drop_key sid (mm_data m))"
  using assms
  by (auto simp: memory_load_def procA store_clock_def update_data_def memory_held_def
    split: option.splits if_splits)

definition live :: "memory_store \<Rightarrow> (string \<times> members \<times> real) list" where
  "live m = filter (\<lambda>(sid, data, expires). mm_clock m (mm_ticks m) < expires) (mm_data m)"

lemma memory_save_effect:
  "memory_save sid d n m = (Inr (), m\<lparr>mm_ticks := mm_ticks m + 2, mm_data :=
     dict_set (make_room (mm_max m) sid (live m)) sid (d, mm_clock m (mm_ticks m + 1) + of_int n)\<rparr>)"
  by (simp add: memory_save_def evict_expired_def procA store_clock_def update_data_def live_def)

lemma live_facts:
  "memory_ok m \<Longrightarrow> distinct (map fst (live m))" "memory_ok m \<Longrightarrow> length (live m) \<le> mm_max m"
  by (auto simp: live_def memory_ok_def distinct_map_filter intro: order_trans [OF length_filter_le])

lemma memory_save_ok:
  assumes "memory_ok m" and "memory_save sid d n m = (y, m')"
  shows "memory_ok m'"
proof -
  let ?r = "make_room (mm_max m) sid (live m)"
  have m': "m' = m\<lparr>mm_ticks := mm_ticks m + 2, mm_data :=
      dict_set ?r sid (d, mm_clock m (mm_ticks m + 1) + of_int n)\<rparr>"
    using assms(2) memory_save_effect [of sid d n m] by simp
  have "distinct (map fst ?r)" using make_room_distinct live_facts(1) [OF assms(1)] .
  moreover have "0 < mm_max m" using assms(1) by (simp add: memory_ok_def)
  have "length (dict_set ?r sid (d, t)) \<le> mm_max m" for t
  proof -
    have "length (dict_set ?r sid (d, t)) = length ?r + (if sid \<in> fst ` set ?r then 0 else 1)"
      using arg_cong [OF keys_dict_set [of ?r sid "(d, t)"], of length] by simp
    then show ?thesis
      using make_room_length [OF \<open>0 < mm_max m\<close>, of sid "live m"] live_facts(2) [OF assms(1)] by auto
  qed
  ultimately show ?thesis using \<open>0 < mm_max m\<close> by (simp add: m' memory_ok_def keys_dict_set)
qed

lemma memory_held_cases:
  assumes "map_of d' k = None \<or> map_of d' k = map_of (mm_data m) k" and "mm_data m' = d'"
  shows "memory_held m' k = None \<or> memory_held m' k = memory_held m k"
  using assms by (auto simp: memory_held_def)

interpretation memory: session_store memory_ops memory_held memory_ok
proof (unfold_locales, goal_cases)
  case (1 s sid x s')
  then show ?case using memory_load_effect [of sid s x s'] drop_key_ok [of s s' sid]
    by (auto simp: memory_ops_def memory_ok_def)
next
  case (2 s sid d n y s')
  then show ?case using memory_save_ok by (simp add: memory_ops_def)
next
  case (3 s sid y s')
  then show ?case using drop_key_ok [of s s' sid]
    by (auto simp: memory_ops_def memory_delete_def update_data_def modA_apply)
next
  case (4 s sid r s')
  then show ?case using memory_load_effect [of sid s "Inr r" s'] by (auto simp: memory_ops_def)
next
  case (5 s sid x s' k)
  then show ?case using memory_load_effect [of sid s x s'] map_of_drop_key [of sid "mm_data s" k]
    by (auto simp: memory_ops_def memory_held_def)
next
  case (6 s sid d n s' k)
  then have "s' = s\<lparr>mm_ticks := mm_ticks s + 2, mm_data := dict_set (make_room (mm_max s) sid (live s)) sid
      (d, mm_clock s (mm_ticks s + 1) + of_int n)\<rparr>"
    using memory_save_effect [of sid d n s] by (simp add: memory_ops_def)
  moreover have "map_of (make_room (mm_max s) sid (live s)) k = None \<or>
      map_of (make_room (mm_max s) sid (live s)) k = map_of (mm_data s) k"
    using make_room_map_of [OF live_facts(1) [OF 6(1)], of "mm_max s" sid k]
      map_of_filter_cases [of "mm_data s" _ k] 6(1)
    unfolding live_def memory_ok_def by metis
  ultimately show ?case by (auto simp: memory_held_def)
next
  case (7 s sid s' k)
  then show ?case using map_of_drop_key [of sid "mm_data s" k]
    by (auto simp: memory_ops_def memory_delete_def update_data_def modA_apply memory_held_def split: if_splits)
next
  case (8 sid s)
  obtain x s' where "memory_load sid s = (x, s')" by fastforce
  then show ?case using memory_load_effect [of sid s x s'] by (auto simp: memory_ops_def)
next
  case (9 sid d n s)
  then show ?case by (simp add: memory_ops_def memory_save_effect)
next
  case (10 sid s)
  then show ?case by (simp add: memory_ops_def memory_delete_def update_data_def modA_apply)
qed

lemma calls_keep_limit: "mm_max (run_calls memory_ops cs m) = mm_max m"
proof (induction cs arbitrary: m)
  case (Cons c cs)
  have "mm_max (snd (memory_load k m)) = mm_max m" for k
    using memory_load_effect [of k m] by (cases "memory_load k m") auto
  then show ?case using Cons.IH
    by (cases c) (simp_all add: memory_ops_def memory_save_effect memory_delete_def update_data_def modA_apply)
qed simp

lemma fresh_memory:
  assumes "make_memory_store n clock = Inr m"
  shows "memory_ok m" and "memory_held m sid = None" and "mm_max m = nat n"
  using assms by (auto simp: make_memory_store_def refuse_if_def memory_ok_def memory_held_def split: if_splits)

lemma make_room_drops_one:
  assumes "length d \<le> n" and "0 < n"
  shows "make_room n sid d = (if length d = n \<and> sid \<notin> fst ` set d then tl d else d)"
  using assms by (cases d; cases "tl d") auto

lemma memory_reads_back:
  assumes "memory_save sid d age m = (y, m')" and "memory_load sid m' = (x, m'')"
  shows "x = Inr (if mm_clock m (mm_ticks m + 1) + of_int age \<le> mm_clock m (mm_ticks m + 2) then None else Some d)"
  using assms
  by (auto simp: memory_save_effect memory_load_def procA store_clock_def update_data_def map_of_dict_set
    split: if_splits)

section \<open>The store in memory: its properties\<close>

text \<open>
  C33: whatever is called on a fresh store and in whatever order, a load answers nothing or the data
  of the last save under that very id, when no delete followed it; and the store never holds more
  sessions than it was allowed.
\<close>

theorem session_store_integrity:
  assumes "make_memory_store n clock = Inr m"
    and "memory_load sid (run_calls memory_ops cs m) = (Inr r, m')"
  shows "(r = None \<or> r = last_saved cs sid None) \<and>
    length (mm_data (run_calls memory_ops cs m)) \<le> nat n"
proof
  show "r = None \<or> r = last_saved cs sid None"
    using memory.load_last_saved [OF fresh_memory(1,2) [OF assms(1)], of sid cs r m'] assms(2)
    by (simp add: memory_ops_def)
  show "length (mm_data (run_calls memory_ops cs m)) \<le> nat n"
    using memory.calls_ok [OF fresh_memory(1) [OF assms(1)], of cs] fresh_memory(3) [OF assms(1)]
      calls_keep_limit [of cs m] by (simp add: memory_ok_def)
qed

definition sample_store :: memory_store where
  "sample_store = \<lparr>mm_max = 1, mm_data = [], mm_clock = real, mm_ticks = 0\<rparr>"

definition sample_calls :: "store_call list" where
  "sample_calls = [CSave ''b'' [] 9, CSave ''a'' [(''k'', PNone)] 9]"

lemma session_store_integrity_witness:
  "fst (memory_load ''a'' (run_calls memory_ops sample_calls sample_store)) \<in> {Inr None, Inr (Some [(''k'', PNone)])} \<and>
   length (mm_data (run_calls memory_ops sample_calls sample_store)) \<le> nat 1"
proof -
  let ?s = "run_calls memory_ops sample_calls sample_store"
  have m: "make_memory_store 1 real = Inr sample_store"
    by (simp add: make_memory_store_def refuse_if_def sample_store_def)
  obtain r m' where l: "memory_load ''a'' ?s = (Inr r, m')"
    using memory.returns(1) [of "''a''" ?s] by (cases "memory_load ''a'' ?s") (auto simp: memory_ops_def)
  show ?thesis using session_store_integrity [OF m l] l by (auto simp: sample_calls_def)
qed

text \<open>
  A save into the store in memory loses no session it need not lose. Afterwards a load of the id
  answers the data just saved, for as long as its age allows; every other session whose time is not
  over is as it was, but for the first of the table when the store is full and the id is new to it.
\<close>

theorem session_save_loses_little:
  assumes "memory_ok m" and "memory_save sid d age m = (y, m')" and "memory_load sid m' = (x, m'')"
  shows "x = Inr (if mm_clock m (mm_ticks m + 1) + of_int age \<le> mm_clock m (mm_ticks m + 2) then None else Some d) \<and>
    (\<forall>k. k \<noteq> sid \<longrightarrow> map_of (mm_data m') k = map_of
       (if length (live m) = mm_max m \<and> sid \<notin> fst ` set (live m) then tl (live m) else live m) k)"
proof
  show "x = Inr (if mm_clock m (mm_ticks m + 1) + of_int age \<le> mm_clock m (mm_ticks m + 2) then None else Some d)"
    by (rule memory_reads_back [OF assms(2,3)])
  have room: "make_room (mm_max m) sid (live m) =
      (if length (live m) = mm_max m \<and> sid \<notin> fst ` set (live m) then tl (live m) else live m)"
    using live_facts(2) [OF assms(1)] assms(1) by (intro make_room_drops_one) (simp_all add: memory_ok_def)
  have m': "m' = m\<lparr>mm_ticks := mm_ticks m + 2, mm_data := dict_set (make_room (mm_max m) sid (live m)) sid
      (d, mm_clock m (mm_ticks m + 1) + of_int age)\<rparr>"
    using assms(2) memory_save_effect [of sid d age m] by simp
  show "\<forall>k. k \<noteq> sid \<longrightarrow> map_of (mm_data m') k = map_of
       (if length (live m) = mm_max m \<and> sid \<notin> fst ` set (live m) then tl (live m) else live m) k"
    unfolding m' room by (simp add: map_of_dict_set)
qed

definition full_store :: memory_store where
  "full_store = \<lparr>mm_max = 2, mm_data = [(''a'', [], 9), (''b'', [], 8)], mm_clock = real, mm_ticks = 0\<rparr>"

lemma session_save_loses_little_witness:
  "fst (memory_load ''c'' (snd (memory_save ''c'' [] 5 full_store))) = Inr (Some []) \<and>
   map_of (mm_data (snd (memory_save ''c'' [] 5 full_store))) ''a'' = None"
proof -
  obtain y m' where s: "memory_save ''c'' [] 5 full_store = (y, m')" by fastforce
  obtain x m'' where l: "memory_load ''c'' m' = (x, m'')" by fastforce
  have "memory_ok full_store" by (simp add: memory_ok_def full_store_def)
  from session_save_loses_little [OF this s l] s l show ?thesis
    by (simp add: full_store_def live_def)
qed

section \<open>Signed cookies: their properties\<close>

text \<open>
  C34: the middleware takes a session id from a cookie only when the cookie is that id with the digest
  the secret gives it, and a cookie it signed gives its id back. Any other cookie gives no id, or the
  \<open>TypeError\<close> of the comparison when the text after the last dot is not ASCII.
\<close>

theorem cookie_verification_exact:
  assumes "digest_ok mac"
  shows "(verified_id mac secret cookie = Inr (Some sid) \<longleftrightarrow> sid \<noteq> [] \<and> cookie = signed_id mac secret sid) \<and>
    (verified_id mac secret cookie = Inl e \<longleftrightarrow>
      (\<exists>a b. cookie = a @ CHR ''.'' # b \<and> CHR ''.'' \<notin> set b \<and> a \<noteq> [] \<and> \<not> is_ascii b) \<and>
      e = raised ''TypeError'' ''comparing strings with non-ASCII characters is not supported'')"
  using verified_id_accepts [OF assms] verified_id_raises [OF assms] by simp

definition sample_mac :: digest where
  "sample_mac = (\<lambda>secret sid. ''sx'')"

lemma cookie_verification_exact_witness:
  "verified_id sample_mac ''s'' ''id.y'' \<noteq> Inr (Some ''id'') \<and> verified_id sample_mac ''s'' ''id.sx'' = Inr (Some ''id'')"
proof -
  have ok: "digest_ok sample_mac" by (simp add: digest_ok_def is_ascii_def sample_mac_def)
  show ?thesis
    using cookie_verification_exact [OF ok, of "''s''" "''id.y''" "''id''"]
      cookie_verification_exact [OF ok, of "''s''" "''id.sx''" "''id''"]
    by (simp add: signed_id_def sample_mac_def)
qed

text \<open>
  C35: a session survives the round trip through the browser. What a response saved is what a later
  request loads, under the same id, when the browser returns the cookie it was given, nothing else
  touched the store in between and the age is not over by the store's clock.
\<close>

theorem session_round_trip:
  assumes "digest_ok mac" and "sid \<noteq> []"
    and save: "save_session mac c memory_ops s sid w = (r, w1)"
    and store: "sw_store v = sw_store w1"
    and time: "mm_clock (sw_store w) (mm_ticks (sw_store w) + 2) <
      mm_clock (sw_store w) (mm_ticks (sw_store w) + 1) + of_int (sc_max_age c)"
    and cookie: "cookies (sc_cookie c) = Some (signed_id mac (sc_secret c) sid)"
  shows "r = Inr [session_cookie_header c (signed_id mac (sc_secret c) sid) (sc_max_age c)] \<and>
    fst (load_session mac c memory_ops cookies v) = Inr (stored_as sid (make_session (Some (se_data s))))"
proof -
  obtain m1 where saved: "memory_save sid (se_data s) (sc_max_age c) (sw_store w) = (Inr (), m1)"
    using memory_save_effect by metis
  then have w1: "w1 = w\<lparr>sw_store := m1, sw_session := stored_as sid s\<rparr>"
    and r: "r = Inr [session_cookie_header c (signed_id mac (sc_secret c) sid) (sc_max_age c)]"
    using save by (auto simp: save_session_def procA on_store_def set_session_def memory_ops_def)
  obtain x m2 where load: "memory_load sid m1 = (x, m2)" by fastforce
  have "x = Inr (Some (se_data s))" using memory_reads_back [OF saved load] time by simp
  then show ?thesis using r load store w1 cookie verified_signed [OF assms(1), of "sc_secret c" sid] assms(2)
    by (simp add: load_session_def procA on_store_def memory_ops_def)
qed

definition sample_config :: session_config where
  "sample_config = \<lparr>sc_secret = ''s'', sc_cookie = ''sid'', sc_max_age = 5, sc_path = ''/'', sc_samesite = ''lax'',
     sc_secure = False\<rparr>"

definition sample_world :: "memory_store session_world" where
  "sample_world = \<lparr>sw_store = sample_store, sw_tokens = (\<lambda>i. ''t''), sw_drawn = 0,
     sw_session = make_session None, sw_sent = []\<rparr>"

lemma session_round_trip_witness:
  "fst (load_session sample_mac sample_config memory_ops (\<lambda>name. Some ''t.sx'')
     (snd (save_session sample_mac sample_config memory_ops (make_session (Some [(''k'', PNone)])) ''t'' sample_world))) =
   Inr (stored_as ''t'' (make_session (Some [(''k'', PNone)])))"
proof -
  obtain r w1 where s: "save_session sample_mac sample_config memory_ops
      (make_session (Some [(''k'', PNone)])) ''t'' sample_world = (r, w1)" by fastforce
  have "digest_ok sample_mac" by (simp add: digest_ok_def is_ascii_def sample_mac_def)
  from session_round_trip [OF this _ s refl, of "\<lambda>name. Some ''t.sx''"] s show ?thesis
    by (simp add: sample_world_def sample_store_def sample_config_def signed_id_def sample_mac_def make_session_def)
qed

end
