(* ===== verification/Urls.thy ===== *)
theory Urls
  imports Py_Parse
begin

text \<open>
  \<open>urlsplit\<close> of the standard library, as far as the code uses it: the scheme and the network location
  of an address, and the user and password in it. \<open>odd_netloc\<close> stands for the checks it makes on a
  bracketed or non-ASCII host, which raise \<open>ValueError\<close>.
\<close>

text \<open>\<open>urlsplit(url)\<close>, as far as its scheme and its network location.\<close>

definition url_clean :: "string \<Rightarrow> string" where
  "url_clean url = filter (\<lambda>c. of_char c \<notin> {9, 10, 13 :: nat})
     (dropWhile (\<lambda>c. of_char c \<le> (32 :: nat)) url)"

definition ascii_letter :: "char \<Rightarrow> bool" where
  "ascii_letter c = (let n = of_char c :: nat in (65 \<le> n \<and> n \<le> 90) \<or> (97 \<le> n \<and> n \<le> 122))"

definition scheme_char :: "char \<Rightarrow> bool" where
  "scheme_char c = (ascii_letter c \<or> is_digit c \<or> c \<in> {CHR ''+'', CHR ''-'', CHR ''.''})"

definition split_scheme :: "string \<Rightarrow> string \<times> string" where
  "split_scheme url =
     (let before = takeWhile (\<lambda>c. c \<noteq> CHR '':'') url
      in if length before < length url \<and> before \<noteq> [] \<and> ascii_letter (hd before) \<and>
            list_all scheme_char before
         then (py_lower before, drop (length before + 1) url) else ([], url))"

definition url_netloc :: "string \<Rightarrow> string" where
  "url_netloc rest = (if take 2 rest = ''//''
     then takeWhile (\<lambda>c. c \<notin> {CHR ''/'', CHR ''?'', CHR ''#''}) (drop 2 rest) else [])"

definition urlsplit :: "(string \<Rightarrow> bool) \<Rightarrow> string \<Rightarrow> exn + string \<times> string" where
  "urlsplit odd_netloc url =
     (case split_scheme (url_clean url) of (scheme, rest) \<Rightarrow>
        let netloc = url_netloc rest
        in bindR (refuse_if ((CHR ''['' \<in> set netloc) \<noteq> (CHR '']'' \<in> set netloc))
             (raised ''ValueError'' ''Invalid IPv6 URL'')) (\<lambda>_.
           bindR (refuse_if (odd_netloc netloc) (raised ''ValueError'' ''invalid netloc'')) (\<lambda>_.
           Inr (scheme, netloc))))"

text \<open>\<open>parts.username or parts.password\<close>, as a truth value.\<close>

definition has_credentials :: "string \<Rightarrow> bool" where
  "has_credentials netloc =
     (CHR ''@'' \<in> set netloc \<and>
      (let userinfo = rev (drop 1 (dropWhile (\<lambda>c. c \<noteq> CHR ''@'') (rev netloc)));
           username = takeWhile (\<lambda>c. c \<noteq> CHR '':'') userinfo
       in username \<noteq> [] \<or> 1 < length userinfo))"

end
