(* ===== verification/Csrf.thy ===== *)
theory Csrf
  imports Sessions Urls
begin

text \<open>
  \<open>http/csrf.py\<close>: the middleware that refuses state-changing requests from other sites. A request is
  its method, scheme, headers by lower-case name and cookies.
\<close>

section \<open>Origins\<close>

definition origin_of :: "(string \<Rightarrow> bool) \<Rightarrow> string \<Rightarrow> exn + string option" where
  "origin_of odd_netloc url =
     bindR (urlsplit odd_netloc url) (\<lambda>(scheme, netloc).
     Inr (if scheme = [] \<or> netloc = [] then None
          else Some (py_lower scheme @ ''://'' @ py_lower netloc)))"

record http_request =
  hr_method :: string
  hr_scheme :: string
  hr_headers :: "(string \<times> string) list"
  hr_cookies :: "(string \<times> string) list"

definition header :: "http_request \<Rightarrow> string \<Rightarrow> string option" where
  "header r name = map_of (hr_headers r) (py_lower name)"

definition request_origin :: "(string \<Rightarrow> bool) \<Rightarrow> http_request \<Rightarrow> exn + string option" where
  "request_origin odd_netloc r =
     (if or_text (header r ''origin'') [] \<noteq> [] then origin_of odd_netloc (or_text (header r ''origin'') [])
      else if or_text (header r ''referer'') [] \<noteq> [] then origin_of odd_netloc (or_text (header r ''referer'') [])
      else Inr None)"

definition own_origin :: "http_request \<Rightarrow> string" where
  "own_origin r = py_lower (hr_scheme r) @ ''://'' @
     py_lower (case header r ''host'' of None \<Rightarrow> [] | Some h \<Rightarrow> h)"

section \<open>The middleware\<close>

record csrf_config =
  cf_cookie :: string
  cf_header :: string
  cf_require_token :: bool
  cf_trusted :: "string list"
  cf_max_age :: int
  cf_path :: string
  cf_samesite :: string
  cf_secure :: bool

text \<open>\<open>origin.rstrip("/").lower()\<close>\<close>

definition trusted_origin :: "string \<Rightarrow> string" where
  "trusted_origin s = py_lower (rev (dropWhile (\<lambda>c. c = CHR ''/'') (rev s)))"

definition make_csrf_config :: "csrf_config \<Rightarrow> exn + csrf_config" where
  "make_csrf_config c =
     bindR (refuse_if (cf_max_age c < 1)
       (raised ''ConfigurationError'' ''max_age must be at least 1 second'')) (\<lambda>_.
     Inr (c\<lparr>cf_trusted := map trusted_origin (cf_trusted c)\<rparr>))"

definition safe_methods :: "string list" where
  "safe_methods = [''GET'', ''HEAD'', ''OPTIONS'', ''TRACE'']"

definition csrf_error :: "string \<Rightarrow> exn" where
  "csrf_error = raised ''CSRFError''"

definition check_token :: "csrf_config \<Rightarrow> http_request \<Rightarrow> string \<Rightarrow> exn + unit" where
  "check_token c r token = (case header r (cf_header c) of
     Some presented \<Rightarrow>
       bindR (compare_digest presented token) (\<lambda>same.
       refuse_if (\<not> same) (csrf_error ''the CSRF token does not match the one issued to this browser''))
   | None \<Rightarrow> refuse_if (cf_require_token c)
       (csrf_error (''this request must present a '' @ cf_header c @ '' header'')))"

definition check_origin :: "(string \<Rightarrow> bool) \<Rightarrow> csrf_config \<Rightarrow> http_request \<Rightarrow> exn + unit" where
  "check_origin odd_netloc c r =
     bindR (request_origin odd_netloc r) (\<lambda>origin.
     case origin of
       None \<Rightarrow> Inr ()
     | Some o1 \<Rightarrow> refuse_if (o1 \<notin> set (cf_trusted c) \<and> o1 \<noteq> own_origin r)
         (csrf_error (''this request came from '' @ py_repr o1 @ '', which is not this application'')))"

definition check_csrf :: "(string \<Rightarrow> bool) \<Rightarrow> csrf_config \<Rightarrow> http_request \<Rightarrow> string \<Rightarrow> exn + unit" where
  "check_csrf odd_netloc c r token =
     bindR (check_token c r token) (\<lambda>_. check_origin odd_netloc c r)"

definition request_token :: "csrf_config \<Rightarrow> http_request \<Rightarrow> string \<Rightarrow> string" where
  "request_token c r fresh = or_text (map_of (hr_cookies r) (cf_cookie c)) fresh"

definition csrf_cookie_header :: "csrf_config \<Rightarrow> string \<Rightarrow> string" where
  "csrf_cookie_header c token = join ''; '' (
     [cf_cookie c @ ''='' @ token, ''path='' @ cf_path c, ''Max-Age='' @ dec_int (cf_max_age c),
      ''samesite='' @ cf_samesite c] @ (if cf_secure c then [''secure''] else []))"

text \<open>
  What the middleware does with a request: it is refused, or passed on with a token on its scope
  and with the cookie to be set on its response, if any. \<open>fresh\<close> is what \<open>token_urlsafe\<close> gives.
\<close>

definition csrf_middleware ::
    "(string \<Rightarrow> bool) \<Rightarrow> csrf_config \<Rightarrow> http_request \<Rightarrow> string \<Rightarrow> exn + string \<times> string list" where
  "csrf_middleware odd_netloc c r fresh =
     (let token = request_token c r fresh
      in bindR (if py_upper (hr_method r) \<in> set safe_methods then Inr ()
                else check_csrf odd_netloc c r token) (\<lambda>_.
         Inr (token, if map_of (hr_cookies r) (cf_cookie c) = None then [csrf_cookie_header c token] else [])))"

definition get_csrf_token :: "string option \<Rightarrow> exn + string" where
  "get_csrf_token on_scope = (case on_scope of
     Some t \<Rightarrow> Inr t
   | None \<Rightarrow> Inl (raised ''ConfigurationError''
       (''no CSRF token on this request: pass CSRFMiddleware in '' @
        ''HttpAdapter(app, middleware=(Middleware(CSRFMiddleware),))'')))"

end
