(* ===== verification/Csrf_Facts.thy ===== *)
theory Csrf_Facts
  imports Csrf
begin

text \<open>
  Which state-changing requests the middleware of \<open>http/csrf.py\<close> lets through.
\<close>

section \<open>Origins\<close>

text \<open>A scheme and a host as a browser writes them: no separator of a URL, nothing to strip.\<close>

definition plain_scheme :: "string \<Rightarrow> bool" where
  "plain_scheme s \<longleftrightarrow> s \<noteq> [] \<and> list_all ascii_letter s"

definition plain_host :: "string \<Rightarrow> bool" where
  "plain_host h \<longleftrightarrow> h \<noteq> [] \<and>
     list_all (\<lambda>c. (32 :: nat) < of_char c \<and> c \<notin> {CHR ''/'', CHR ''?'', CHR ''#'', CHR ''['', CHR '']''}) h"

lemma ascii_letter_plain:
  assumes "ascii_letter c"
  shows "(32 :: nat) < of_char c" and "c \<noteq> CHR '':''" and "scheme_char c"
  using assms by (auto simp: ascii_letter_def scheme_char_def Let_def)

lemma url_clean_plain:
  assumes "list_all (\<lambda>c. (32 :: nat) < of_char c) url"
  shows "url_clean url = url"
proof -
  have drop: "dropWhile (\<lambda>c. of_char c \<le> (32 :: nat)) url = url" using assms by (cases url) auto
  have "filter (\<lambda>c. of_char c \<notin> {9, 10, 13 :: nat}) url = url"
    using assms by (intro filter_True) (auto simp: list_all_iff)
  then show ?thesis by (simp add: url_clean_def drop)
qed

lemma split_scheme_plain:
  assumes "plain_scheme s"
  shows "split_scheme (s @ '':'' @ rest) = (py_lower s, rest)"
proof -
  have "takeWhile (\<lambda>c. c \<noteq> CHR '':'') (s @ CHR '':'' # rest) = s"
    using assms by (subst takeWhile_append2) (auto simp: plain_scheme_def list_all_iff dest: ascii_letter_plain(2))
  moreover have "ascii_letter (hd s)" "list_all scheme_char s"
    using assms by (auto simp: plain_scheme_def list_all_iff ascii_letter_plain(3))
  ultimately show ?thesis using assms by (simp add: split_scheme_def plain_scheme_def Let_def)
qed

lemma url_netloc_plain: "plain_host h \<Longrightarrow> url_netloc (''//'' @ h) = h"
  by (auto simp: url_netloc_def plain_host_def list_all_iff takeWhile_eq_all_conv)

lemma origin_of_plain:
  assumes "plain_scheme s" and "plain_host h" and "\<not> odd_netloc h"
  shows "origin_of odd_netloc (s @ ''://'' @ h) = Inr (Some (py_lower s @ ''://'' @ py_lower h))"
proof -
  have "url_clean (s @ '':'' @ ''//'' @ h) = s @ '':'' @ ''//'' @ h"
    using assms(1,2) by (intro url_clean_plain)
      (auto simp: plain_scheme_def plain_host_def list_all_iff dest: ascii_letter_plain(1))
  then have "urlsplit odd_netloc (s @ ''://'' @ h) = Inr (py_lower s, h)"
    using split_scheme_plain [OF assms(1), of "''//'' @ h"] url_netloc_plain [OF assms(2)] assms(2,3)
    by (auto simp: urlsplit_def refuse_if_def plain_host_def list_all_iff)
  moreover have "py_lower s \<noteq> []" "h \<noteq> []" using assms by (auto simp: plain_scheme_def plain_host_def py_lower_def)
  ultimately show ?thesis by (simp add: origin_of_def)
qed

section \<open>Decisions\<close>

lemma check_token_iff:
  "check_token c r token = Inr () \<longleftrightarrow> (case header r (cf_header c) of
     None \<Rightarrow> \<not> cf_require_token c | Some p \<Rightarrow> p = token \<and> is_ascii p)"
  by (auto simp: check_token_def compare_digest_def refuse_if_def split: option.splits)

lemma check_origin_iff:
  "check_origin odd_netloc c r = Inr () \<longleftrightarrow> request_origin odd_netloc r = Inr None \<or>
     (\<exists>origin. request_origin odd_netloc r = Inr (Some origin) \<and> (origin \<in> set (cf_trusted c) \<or> origin = own_origin r))"
  by (cases "request_origin odd_netloc r") (auto simp: check_origin_def refuse_if_def split: option.splits)

lemma check_csrf_iff:
  "check_csrf odd_netloc c r token = Inr () \<longleftrightarrow>
    check_token c r token = Inr () \<and> check_origin odd_netloc c r = Inr ()"
  by (cases "check_token c r token") (auto simp: check_csrf_def)

lemma csrf_middleware_unsafe:
  assumes "py_upper (hr_method r) \<notin> set safe_methods"
  shows "(\<exists>x. csrf_middleware odd_netloc c r fresh = Inr x) \<longleftrightarrow>
    check_csrf odd_netloc c r (request_token c r fresh) = Inr ()"
  using assms by (cases "check_csrf odd_netloc c r (request_token c r fresh)") (auto simp: csrf_middleware_def Let_def)

lemma request_origin_plain:
  assumes "header r ''origin'' = Some (s @ ''://'' @ h)" and "plain_scheme s" and "plain_host h" and "\<not> odd_netloc h"
  shows "request_origin odd_netloc r = Inr (Some (py_lower s @ ''://'' @ py_lower h))"
  using assms origin_of_plain [of s h odd_netloc] by (simp add: request_origin_def or_text_def)

lemma lowered_origin: "py_lower (s @ ''://'' @ h) = py_lower s @ ''://'' @ py_lower h"
  by (simp add: py_lower_def py_lower_char_def)

lemma own_origin_host: "header r ''host'' = Some own \<Longrightarrow> own_origin r = py_lower (hr_scheme r @ ''://'' @ own)"
  unfolding own_origin_def lowered_origin by simp

lemma trusted_of:
  assumes "make_csrf_config c0 = Inr c"
  shows "origin \<in> set (cf_trusted c) \<longleftrightarrow> (\<exists>t \<in> set (cf_trusted c0). trusted_origin t = origin)"
  using assms by (auto simp: make_csrf_config_def refuse_if_def split: if_splits)

text \<open>
  C36: a state-changing request of a browser that names its origin is let through exactly when that
  origin is the one the request was addressed to, or a trusted one, whatever the case of its letters,
  and when the token it presents is the one of its cookie, or it presents none and need not.
\<close>

theorem csrf_decision_exact:
  assumes "py_upper (hr_method r) \<notin> set safe_methods"
    and "header r ''origin'' = Some (s @ ''://'' @ h)"
    and "plain_scheme s" and "plain_host h" and "\<not> odd_netloc h"
    and "make_csrf_config c0 = Inr c" and "header r ''host'' = Some own"
  shows "(\<exists>x. csrf_middleware odd_netloc c r fresh = Inr x) \<longleftrightarrow>
    ((\<exists>t \<in> set (cf_trusted c0). trusted_origin t = py_lower (s @ ''://'' @ h)) \<or>
     py_lower (s @ ''://'' @ h) = py_lower (hr_scheme r @ ''://'' @ own)) \<and>
    (case header r (cf_header c) of
       None \<Rightarrow> \<not> cf_require_token c | Some p \<Rightarrow> p = request_token c r fresh \<and> is_ascii p)"
  unfolding csrf_middleware_unsafe [OF assms(1)] check_csrf_iff check_token_iff check_origin_iff
    request_origin_plain [of r s h odd_netloc, OF assms(2) assms(3) assms(4) assms(5)]
    trusted_of [OF assms(6)] own_origin_host [OF assms(7)] lowered_origin
  by auto

definition sample_csrf :: csrf_config where
  "sample_csrf = \<lparr>cf_cookie = ''xyberos_csrf'', cf_header = ''X-CSRF-Token'', cf_require_token = False,
     cf_trusted = [], cf_max_age = 60, cf_path = ''/'', cf_samesite = ''lax'', cf_secure = False\<rparr>"

definition sample_post :: "string \<Rightarrow> http_request" where
  "sample_post origin = \<lparr>hr_method = ''post'', hr_scheme = ''https'',
     hr_headers = [(''host'', ''App.Example''), (''origin'', origin)], hr_cookies = []\<rparr>"

lemma sample_csrf_made: "make_csrf_config sample_csrf = Inr sample_csrf"
  by (simp add: make_csrf_config_def refuse_if_def sample_csrf_def)

lemma post_headers:
  "header (sample_post v) ''origin'' = Some v" "header (sample_post v) (cf_header sample_csrf) = None"
  "\<not> cf_require_token sample_csrf" "cf_trusted sample_csrf = []" "header (sample_post v) ''host'' = Some ''App.Example''" "hr_scheme (sample_post v) = ''https''"
  "hr_cookies (sample_post v) = []"
  by (simp_all add: sample_post_def sample_csrf_def header_def py_lower_def py_lower_char_def)

lemma post_method: "py_upper (hr_method (sample_post v)) \<notin> set safe_methods"
  by (simp add: sample_post_def) code_simp

lemma post_scheme: "plain_scheme ''https''" "py_lower ''https'' = ''https''"
  by code_simp+

lemma csrf_decision_exact_witness:
  "(\<exists>x. csrf_middleware (\<lambda>h. False) sample_csrf (sample_post (''https'' @ ''://'' @ ''App.example'')) ''t'' = Inr x) \<and>
   (\<nexists>x. csrf_middleware (\<lambda>h. False) sample_csrf (sample_post (''https'' @ ''://'' @ ''evil.example'')) ''t'' = Inr x)"
proof -
  have d: "(\<exists>x. csrf_middleware (\<lambda>h. False) sample_csrf (sample_post (''https'' @ ''://'' @ h)) ''t'' = Inr x) \<longleftrightarrow>
      py_lower h = py_lower ''App.Example''" if "plain_host h" for h
    using csrf_decision_exact [where r = "sample_post (''https'' @ ''://'' @ h)" and s = "''https''" and h = h
      and c = sample_csrf and odd_netloc = "\<lambda>h. False" and fresh = "''t''", OF _ _ _ _ _ sample_csrf_made]
      that post_method post_scheme
    by (simp add: post_headers lowered_origin [of "''https''", simplified])
  have "py_lower ''App.Example'' = ''app.example''" "py_lower ''App.example'' = ''app.example''" "py_lower ''evil.example'' \<noteq> ''app.example''"
    "plain_host ''App.example''" "plain_host ''evil.example''"
    by code_simp+
  with d show ?thesis using d [of "''App.example''"] d [of "''evil.example''"] by simp
qed

text \<open>
  an origin without a host passes as no origin at all. A state-changing request whose \<open>Origin\<close> is
  \<open>null\<close>, as a browser sends it from a sandboxed page of any site, is let through when it presents no
  token and the configuration does not ask for one, whatever origins are trusted.
\<close>

theorem opaque_origin_passes:
  assumes "header r ''origin'' = Some ''null''" and "header r (cf_header c) = None"
    and "\<not> cf_require_token c" and "\<not> odd_netloc []"
  shows "\<exists>issued. csrf_middleware odd_netloc c r fresh = Inr (request_token c r fresh, issued)"
proof -
  have "origin_of odd_netloc ''null'' = Inr None"
    using assms(4) by (simp add: origin_of_def urlsplit_def url_clean_def split_scheme_def url_netloc_def refuse_if_def)
  then have "request_origin odd_netloc r = Inr None"
    using assms(1) by (simp add: request_origin_def or_text_def)
  then have "check_csrf odd_netloc c r token = Inr ()" for token
    using assms(2,3) by (simp add: check_csrf_iff check_token_iff check_origin_iff)
  then show ?thesis by (simp add: csrf_middleware_def Let_def)
qed

lemma opaque_origin_passes_witness:
  "fst (projr (csrf_middleware (\<lambda>h. False) sample_csrf (sample_post ''null'') ''t'')) = ''t''"
  using opaque_origin_passes [OF post_headers(1,2,3), of "\<lambda>h. False" "''t''"]
  by (auto simp: request_token_def post_headers(7) or_text_def)

end
