(* ===== verification/Ollama.thy ===== *)
theory Ollama
  imports Facade Settings Urls
begin

text \<open>
  \<open>ai/ollama.py\<close>: the adapter of a model service. What it sends, how it reads what comes back, and
  how it names what went wrong. The HTTP client is foreign code over an environment; a request ends
  in a time-out, in another error of the client, in any other exception, or in a response. Floats
  of the settings are those of \<open>float()\<close>, and their texts are parameters.
\<close>

section \<open>Versions\<close>

definition ai_config_error :: "string \<Rightarrow> exn" where
  "ai_config_error = raised ''AIConfigurationError''"

definition minimum_supported :: string where
  "minimum_supported = ''0.5.0''"

text \<open>\<open>str.isdigit\<close> also holds for raised digits, which \<open>int\<close> refuses.\<close>

definition py_isdigit :: "string \<Rightarrow> bool" where
  "py_isdigit s = (s \<noteq> [] \<and> list_all (\<lambda>c. is_digit c \<or> of_char c \<in> {178, 179, 185 :: nat}) s)"

definition not_an_int :: "string \<Rightarrow> exn" where
  "not_an_int s = raised ''ValueError'' (''invalid literal for int() with base 10: '' @ py_repr s)"

definition int_part :: "string \<Rightarrow> exn + int" where
  "int_part s = (case py_int s of Some i \<Rightarrow> Inr i | None \<Rightarrow> Inl (not_an_int s))"

definition version_head :: "string \<Rightarrow> string" where
  "version_head v = py_strip (takeWhile (\<lambda>c. c \<noteq> CHR ''+'') (takeWhile (\<lambda>c. c \<noteq> CHR ''-'') v))"

definition version_tuple :: "string \<Rightarrow> exn + int list option" where
  "version_tuple v =
     (let parts = split_on ''.'' (version_head v)
      in if \<not> list_all py_isdigit parts then Inr None
         else bindR (sequenceR (map int_part parts)) (\<lambda>ns. Inr (Some ns)))"

fun tuple_less :: "int list \<Rightarrow> int list \<Rightarrow> bool" where
  "tuple_less xs [] = False"
| "tuple_less [] (y # ys) = True"
| "tuple_less (x # xs) (y # ys) = (x < y \<or> (x = y \<and> tuple_less xs ys))"

definition version_is_below :: "string \<Rightarrow> string \<Rightarrow> exn + bool" where
  "version_is_below reported lowest =
     bindR (version_tuple reported) (\<lambda>left.
     bindR (version_tuple lowest) (\<lambda>right.
     Inr (case (left, right) of (Some l, Some r) \<Rightarrow> tuple_less l r | _ \<Rightarrow> False)))"

definition validate_version :: "pyval \<Rightarrow> string \<Rightarrow> exn + string" where
  "validate_version v label =
     (case non_blank_text v of
        None \<Rightarrow> Inl (ai_config_error (label @ '' must be a non-empty version such as '' @ minimum_supported))
      | Some s \<Rightarrow>
          bindR (version_tuple (py_strip s)) (\<lambda>parts.
          if parts = None then Inl (ai_config_error (label @ '' must be a dotted numeric version such as '' @
            minimum_supported @ '', got '' @ py_repr s))
          else Inr (py_strip s)))"

section \<open>Settings\<close>

definition default_base_url :: string where
  "default_base_url = ''http://127.0.0.1:11434''"

definition reserved_option_keys :: "string list" where
  "reserved_option_keys =
     [''model'', ''messages'', ''stream'', ''format'', ''tools'', ''keep_alive'', ''options'', ''input'']"

definition ollama_setting_keys :: "string list" where
  "ollama_setting_keys = [''model'', ''base_url'', ''embedding_model'', ''timeout'', ''connect_timeout'',
     ''tools'', ''structured_output'', ''streaming'', ''minimum_version'', ''options'']"

definition validate_base_url :: "(string \<Rightarrow> bool) \<Rightarrow> pyval \<Rightarrow> exn + string" where
  "validate_base_url odd_netloc v = (case non_blank_text v of
     None \<Rightarrow> Inl (ai_config_error ''base_url must be a non-empty URL'')
   | Some url \<Rightarrow>
       bindR (urlsplit odd_netloc url) (\<lambda>(scheme, netloc).
       bindR (refuse_if (has_credentials netloc) (ai_config_error
         (''base_url must not embed credentials, because they would reach logs and error messages''))) (\<lambda>_.
       bindR (refuse_if (scheme \<notin> {''http'', ''https''} \<or> netloc = []) (ai_config_error
         (''base_url must be an http(s) URL with a host, for example '' @ default_base_url))) (\<lambda>_. Inr url))))"

definition not_serializable :: "string \<Rightarrow> exn" where
  "not_serializable c = raised ''TypeError'' (''Object of type '' @ c @ '' is not JSON serializable'')"

definition freeze_options :: "pyval \<Rightarrow> exn + members" where
  "freeze_options v = (case object_of v of
     None \<Rightarrow> Inl (ai_config_error ''options must be a table/object'')
   | Some t \<Rightarrow>
       let reserved = sort (remdups (filter (\<lambda>k. k \<in> set reserved_option_keys) (map fst t))) in
       bindR (refuse_if (reserved \<noteq> []) (ai_config_error (''options must not set reserved key(s): '' @
         join '', '' reserved @ ''; the adapter owns those fields so a setting cannot rewrite the request''))) (\<lambda>_.
       bindR (refuse_if (list_ex blank (map fst t))
         (ai_config_error ''options keys must be non-empty strings'')) (\<lambda>_.
       case json_dumps not_serializable (PDict t) of
         Inl e \<Rightarrow> Inl (ai_config_error (''options must be JSON-serializable: '' @ str_of e))
       | Inr text \<Rightarrow> Inr t)))"

record ollama_args =
  oa_model :: pyval
  oa_base_url :: pyval
  oa_embedding :: "string option"
  oa_timeout :: "pyfloat option"
  oa_connect :: "pyfloat option"
  oa_tools :: bool
  oa_structured :: bool
  oa_streaming :: bool
  oa_minimum :: pyval
  oa_options :: pyval

record ollama_settings =
  os_model :: string
  os_base_url :: string
  os_embedding :: "string option"
  os_timeout :: "pyfloat option"
  os_connect :: "pyfloat option"
  os_tools :: bool
  os_structured :: bool
  os_streaming :: bool
  os_minimum :: string
  os_options :: members

record ollama_repr =
  or_netloc :: "string \<Rightarrow> bool"
  or_float :: "pyfloat \<Rightarrow> string"

definition model_hint :: string where
  "model_hint = ''Xyberos never chooses a model for you, so set it in configuration, for example '' @
     ''XYBEROS_AI__OLLAMA__MODEL=llama3.2''"

definition check_seconds :: "ollama_repr \<Rightarrow> string \<Rightarrow> pyfloat option \<Rightarrow> exn + unit" where
  "check_seconds orp label v = (case v of
     None \<Rightarrow> Inr ()
   | Some x \<Rightarrow> refuse_if (float_not_positive x)
       (ai_config_error (label @ '' must be greater than zero, got '' @ or_float orp x)))"

text \<open>\<open>text.rstrip("/")\<close>\<close>

definition rstrip_slash :: "string \<Rightarrow> string" where
  "rstrip_slash s = rev (dropWhile (\<lambda>c. c = CHR ''/'') (rev s))"

definition make_ollama_settings :: "ollama_repr \<Rightarrow> ollama_args \<Rightarrow> exn + ollama_settings" where
  "make_ollama_settings orp a = (case non_blank_text (oa_model a) of
     None \<Rightarrow> Inl (ai_config_error (''an Ollama adapter needs an explicit model: '' @ model_hint))
   | Some model \<Rightarrow>
       bindR (validate_base_url (or_netloc orp) (oa_base_url a)) (\<lambda>url.
       bindR (validate_version (oa_minimum a) ''minimum_version'') (\<lambda>minimum.
       bindR (check_seconds orp ''timeout'' (oa_timeout a)) (\<lambda>_.
       bindR (check_seconds orp ''connect_timeout'' (oa_connect a)) (\<lambda>_.
       bindR (refuse_if (given blank (oa_embedding a))
         (ai_config_error ''embedding_model must be a non-empty model name'')) (\<lambda>_.
       bindR (freeze_options (oa_options a)) (\<lambda>options.
       Inr \<lparr>os_model = model, os_base_url = rstrip_slash url, os_embedding = oa_embedding a,
         os_timeout = oa_timeout a, os_connect = oa_connect a, os_tools = oa_tools a,
         os_structured = oa_structured a, os_streaming = oa_streaming a, os_minimum = minimum,
         os_options = options\<rparr>)))))))"

definition ollama_capabilities :: "ollama_settings \<Rightarrow> capabilities" where
  "ollama_capabilities s = \<lparr>cp_tools = os_tools s, cp_structured = os_structured s,
     cp_streaming = os_streaming s, cp_embeddings = (os_embedding s \<noteq> None)\<rparr>"

section \<open>Settings from a table\<close>

definition text_setting :: "pyval \<Rightarrow> string \<Rightarrow> exn + string" where
  "text_setting v location =
     (if v = PNone then Inr []
      else case non_blank_text v of
        None \<Rightarrow> Inl (ai_config_error (location @ '' must be a non-empty string''))
      | Some s \<Rightarrow> Inr s)"

definition optional_text_setting :: "pyval \<Rightarrow> string \<Rightarrow> exn + string option" where
  "optional_text_setting v location =
     (if v = PNone then Inr None else bindR (text_setting v location) (\<lambda>s. Inr (Some s)))"

text \<open>\<open>except ConfigurationError\<close>, raised again as the error of this package.\<close>

definition as_ai_error :: "exn + 'a \<Rightarrow> exn + 'a" where
  "as_ai_error r = (case r of
     Inl e \<Rightarrow> Inl (if instance_of e ''ConfigurationError'' then ai_config_error (str_of e) else e)
   | Inr x \<Rightarrow> Inr x)"

definition optional_number :: "pyval \<Rightarrow> string \<Rightarrow> real \<Rightarrow> exn + pyfloat option" where
  "optional_number v location dflt = (case v of
     PNone \<Rightarrow> Inr (Some (Finite dflt))
   | PInt i \<Rightarrow> as_ai_error (bindR (as_float v location) (\<lambda>x. Inr (Some x)))
   | PFloat t \<Rightarrow> as_ai_error (bindR (as_float v location) (\<lambda>x. Inr (Some x)))
   | PStr s \<Rightarrow> as_ai_error (bindR (as_float v location) (\<lambda>x. Inr (Some x)))
   | _ \<Rightarrow> Inl (ai_config_error (location @ '' must be a number'')))"

definition flag_setting :: "pyval \<Rightarrow> string \<Rightarrow> bool \<Rightarrow> exn + bool" where
  "flag_setting v location dflt = (case v of
     PNone \<Rightarrow> Inr dflt
   | PBool b \<Rightarrow> as_ai_error (as_bool v location)
   | PStr s \<Rightarrow> as_ai_error (as_bool v location)
   | PInt i \<Rightarrow> as_ai_error (as_bool v location)
   | _ \<Rightarrow> Inl (ai_config_error (location @ '' must be true or false'')))"

definition read_ollama_args :: "members \<Rightarrow> string \<Rightarrow> exn + ollama_args" where
  "read_ollama_args t location =
     (let loc = (\<lambda>k. location @ ''.'' @ k) in
      bindR (refuse_if (object_of (get_or t ''options'' (PDict [])) = None)
        (ai_config_error (loc ''options'' @ '' must be a table/object''))) (\<lambda>_.
      bindR (text_setting (get_key t ''model'') (loc ''model'')) (\<lambda>model.
      bindR (text_setting (get_or t ''base_url'' (PStr default_base_url)) (loc ''base_url'')) (\<lambda>url.
      bindR (optional_text_setting (get_key t ''embedding_model'') (loc ''embedding_model'')) (\<lambda>embedding.
      bindR (optional_number (get_key t ''timeout'') (loc ''timeout'') 60) (\<lambda>timeout.
      bindR (optional_number (get_key t ''connect_timeout'') (loc ''connect_timeout'') 5) (\<lambda>connect.
      bindR (flag_setting (get_key t ''tools'') (loc ''tools'') False) (\<lambda>tools.
      bindR (flag_setting (get_key t ''structured_output'') (loc ''structured_output'') False) (\<lambda>structured.
      bindR (flag_setting (get_key t ''streaming'') (loc ''streaming'') True) (\<lambda>streaming.
      bindR (text_setting (get_or t ''minimum_version'' (PStr minimum_supported)) (loc ''minimum_version'')) (\<lambda>minimum.
      Inr \<lparr>oa_model = PStr model, oa_base_url = PStr url, oa_embedding = embedding, oa_timeout = timeout,
        oa_connect = connect, oa_tools = tools, oa_structured = structured, oa_streaming = streaming,
        oa_minimum = PStr minimum, oa_options = get_or t ''options'' (PDict [])\<rparr>)))))))))))"

definition ollama_settings_from :: "ollama_repr \<Rightarrow> pyval \<Rightarrow> string \<Rightarrow> exn + ollama_settings" where
  "ollama_settings_from orp v location = (case object_of v of
     None \<Rightarrow> Inl (ai_config_error (location @ '' must be a table/object''))
   | Some t \<Rightarrow>
       let unknown = sort (remdups (filter (\<lambda>k. k \<notin> set ollama_setting_keys) (map fst t))) in
       bindR (refuse_if (unknown \<noteq> []) (ai_config_error (location @ '' has unknown setting(s): '' @
         join '', '' unknown @ ''; supported settings are: '' @ join '', '' (sort ollama_setting_keys)))) (\<lambda>_.
       bindR (refuse_if (\<not> py_true (get_key t ''model''))
         (ai_config_error (location @ ''.model is required: '' @ model_hint))) (\<lambda>_.
       bindR (read_ollama_args t location) (make_ollama_settings orp))))"

end
