(* ===== verification/Ollama_Client.thy ===== *)
theory Ollama_Client
  imports Ollama
begin

text \<open>
  \<open>OllamaProvider\<close> of \<open>ai/ollama.py\<close>: requests, replies, streams, health, and the client it owns.
\<close>

section \<open>The HTTP client\<close>

text \<open>
  How a request of the client ends without a response: a \<open>TimeoutException\<close> or another \<open>HTTPError\<close>,
  each given by the name of its class, or anything else. A stream has the lines that arrive and what
  ends them; \<open>hp_json\<close> is what \<open>response.json()\<close> gives. \<open>hf_open\<close> constructs a client, which may raise;
  \<open>hf_limit\<close> is what \<open>json.loads\<close> raises on a text beyond the interpreter's limits, as \<open>RecursionError\<close>
  on one nested too deep and \<open>ValueError\<close> on one with an integer of too many digits.
\<close>

datatype http_failure = TimedOut string | HttpError string | OtherFailure exn

record http_response =
  hp_status :: int
  hp_text :: string
  hp_json :: "exn + pyval"

record http_stream =
  hs_response :: http_response
  hs_lines :: "string list"
  hs_failure :: "http_failure option"

datatype http_client = InjectedClient | OwnClient nat

record 'e http_foreign =
  hf_open :: "ollama_settings \<Rightarrow> 'e \<Rightarrow> (exn + unit) \<times> 'e"
  hf_post :: "http_client \<Rightarrow> string \<Rightarrow> pyval \<Rightarrow> 'e \<Rightarrow> (http_failure + http_response) \<times> 'e"
  hf_get :: "http_client \<Rightarrow> string \<Rightarrow> 'e \<Rightarrow> (http_failure + http_response) \<times> 'e"
  hf_stream :: "http_client \<Rightarrow> string \<Rightarrow> pyval \<Rightarrow> 'e \<Rightarrow> (http_failure + http_stream) \<times> 'e"
  hf_close :: "http_client \<Rightarrow> 'e \<Rightarrow> (exn + unit) \<times> 'e"
  hf_number :: "real \<Rightarrow> string"
  hf_repr :: object_repr
  hf_limit :: "string \<Rightarrow> exn option"

text \<open>The adapter; \<open>ol_opened\<close> counts the clients it made, \<open>ol_closed\<close> lists those it closed.\<close>

record 'e ollama =
  ol_settings :: ollama_settings
  ol_http :: "http_client option"
  ol_owns :: bool
  ol_version :: "string option"
  ol_opened :: nat
  ol_closed :: "http_client list"
  ol_env :: 'e

type_synonym ('e, 'a) ollama_proc = "('e ollama, exn, 'a) proc"

definition make_ollama :: "ollama_settings \<Rightarrow> bool \<Rightarrow> 'e \<Rightarrow> 'e ollama" where
  "make_ollama s injected e = \<lparr>ol_settings = s, ol_http = (if injected then Some InjectedClient else None),
     ol_owns = (\<not> injected), ol_version = None, ol_opened = 0, ol_closed = [], ol_env = e\<rparr>"

definition settings_of :: "('e, ollama_settings) ollama_proc" where
  "settings_of = askA (\<lambda>w. Inr (ol_settings w))"

definition on_http :: "('e \<Rightarrow> 'a \<times> 'e) \<Rightarrow> ('e, 'a) ollama_proc" where
  "on_http f = (\<lambda>w. case f (ol_env w) of (x, e) \<Rightarrow> (Inr x, w\<lparr>ol_env := e\<rparr>))"

definition get_client :: "'e http_foreign \<Rightarrow> ('e, http_client) ollama_proc" where
  "get_client hf = (\<lambda>w. case ol_http w of
     Some c \<Rightarrow> (Inr c, w)
   | None \<Rightarrow> (case hf_open hf (ol_settings w) (ol_env w) of
       (Inl x, e) \<Rightarrow> (Inl x, w\<lparr>ol_env := e\<rparr>)
     | (Inr u, e) \<Rightarrow> (Inr (OwnClient (ol_opened w)),
         w\<lparr>ol_http := Some (OwnClient (ol_opened w)), ol_owns := True, ol_opened := ol_opened w + 1,
           ol_env := e\<rparr>)))"

definition close_ollama :: "'e http_foreign \<Rightarrow> ('e, unit) ollama_proc" where
  "close_ollama hf = (\<lambda>w. case ol_http w of
     None \<Rightarrow> (Inr (), w)
   | Some c \<Rightarrow>
       if \<not> ol_owns w then (Inr (), w)
       else bindA (on_http (hf_close hf c)) liftA (w\<lparr>ol_http := None, ol_closed := ol_closed w @ [c]\<rparr>))"

section \<open>Naming what went wrong\<close>

text \<open>\<open>p in s\<close> for texts.\<close>

fun has_text :: "string \<Rightarrow> string \<Rightarrow> bool" where
  "has_text p [] = (p = [])"
| "has_text p (c # cs) = (starts_with (c # cs) p \<or> has_text p cs)"

definition transport_error :: "string \<Rightarrow> exn" where
  "transport_error = raised ''AITransportError''"

definition invalid_payload :: "string \<Rightarrow> exn" where
  "invalid_payload = raised ''AIInvalidPayloadError''"

definition model_not_found :: "ollama_settings \<Rightarrow> string \<Rightarrow> exn" where
  "model_not_found s detail = raised ''AIModelNotFoundError''
     (''the model '' @ py_repr (os_model s) @ '' is not available on the Ollama service ('' @ detail @
      ''); pull it yourself or configure another model'')"

definition error_text :: "http_response \<Rightarrow> string" where
  "error_text r = (let text = py_strip (hp_text r) in if text = [] then ''no detail'' else take 200 text)"

definition raise_for_status :: "ollama_settings \<Rightarrow> http_response \<Rightarrow> string \<Rightarrow> exn + unit" where
  "raise_for_status s r path =
     (let detail = error_text r; status = hp_status r; answered = dec_int status
      in if status < 400 then Inr ()
         else Inl (
           if status = 429 then raised ''AIRateLimitError''
             (''Ollama rate limited the call to '' @ path @ '': '' @ detail)
           else if status = 404 \<and> has_text ''not found'' (py_lower detail) then model_not_found s detail
           else if 500 \<le> status then transport_error
             (''Ollama answered '' @ answered @ '' for '' @ path @ '': '' @ detail)
           else request_error (''Ollama rejected the call to '' @ path @ '' with '' @ answered @ '': '' @ detail)))"

definition raise_for_error_field :: "object_repr \<Rightarrow> ollama_settings \<Rightarrow> members \<Rightarrow> exn + unit" where
  "raise_for_error_field ro s data =
     (if get_key data ''error'' = PNone then Inr ()
      else
        let text = value_str ro (get_key data ''error''); lowered = py_lower text
        in Inl (
          if has_text ''not found'' lowered then model_not_found s text
          else if has_text ''rate limit'' lowered \<or> has_text ''too many requests'' lowered then
            raised ''AIRateLimitError'' (''Ollama rate limited the request: '' @ text)
          else if list_ex (\<lambda>word. has_text word lowered) [''loading'', ''try again'', ''unavailable'', ''timeout'']
            then transport_error (''Ollama is temporarily unavailable: '' @ text)
          else request_error (''Ollama reported an error it cannot retry: '' @ text)))"

definition post_failure :: "string \<Rightarrow> http_failure \<Rightarrow> exn" where
  "post_failure path f = (case f of
     TimedOut n \<Rightarrow> raised ''AITimeoutError'' (''the Ollama call to '' @ path @ '' timed out'')
   | HttpError n \<Rightarrow> transport_error (''the Ollama service is unreachable: '' @ n)
   | OtherFailure e \<Rightarrow> e)"

definition stream_failure :: "http_failure \<Rightarrow> exn" where
  "stream_failure f = (case f of
     TimedOut n \<Rightarrow> raised ''AITimeoutError'' ''the Ollama stream timed out''
   | HttpError n \<Rightarrow> transport_error (''the Ollama service became unreachable during the stream: '' @ n)
   | OtherFailure e \<Rightarrow> e)"

text \<open>\<open>json.loads\<close> of an interpreter with limits, and what \<open>except ValueError\<close> leaves of its errors.\<close>

type_synonym json_limit = "string \<Rightarrow> exn option"

definition loads_within :: "json_limit \<Rightarrow> string \<Rightarrow> exn + pyval" where
  "loads_within limit text = (case limit text of Some e \<Rightarrow> Inl e | None \<Rightarrow> json_loads text)"

definition unless_value_error :: "exn \<Rightarrow> exn \<Rightarrow> exn" where
  "unless_value_error e replacement = (if instance_of e ''ValueError'' then replacement else e)"

definition decode_object :: "json_limit \<Rightarrow> string \<Rightarrow> string \<Rightarrow> exn + members" where
  "decode_object limit text source = (case loads_within limit text of
     Inl e \<Rightarrow> Inl (unless_value_error e (invalid_payload (source @ '' is not JSON: '' @ str_of e)))
   | Inr v \<Rightarrow> (case object_of v of
       None \<Rightarrow> Inl (invalid_payload (source @ '' is '' @ py_type v @ '' instead of an object''))
     | Some t \<Rightarrow> Inr t))"

text \<open>\<open>_safe_json\<close>, which takes a \<open>ValueError\<close> and any other value for an empty object.\<close>

definition safe_json :: "http_response \<Rightarrow> exn + members" where
  "safe_json r = (case hp_json r of
     Inl e \<Rightarrow> if instance_of e ''ValueError'' then Inr [] else Inl e
   | Inr v \<Rightarrow> Inr (case object_of v of Some t \<Rightarrow> t | None \<Rightarrow> []))"

section \<open>Requests\<close>

definition chat_path :: string where "chat_path = ''/api/chat''"
definition embed_path :: string where "embed_path = ''/api/embed''"
definition show_path :: string where "show_path = ''/api/show''"
definition version_path :: string where "version_path = ''/api/version''"

definition call_payload :: "tool_call \<Rightarrow> pyval" where
  "call_payload call = PDict [(''function'', PDict
     [(''name'', PStr (tc_name call)), (''arguments'', PDict (tc_arguments call))])]"

definition message_payload :: "message \<Rightarrow> pyval" where
  "message_payload m = PDict ([(''role'', PStr (role_value (ms_role m))), (''content'', PStr (ms_content m))] @
     (if ms_tool_calls m = [] then [] else [(''tool_calls'', PList (map call_payload (ms_tool_calls m)))]))"

definition tool_payload :: "tool_spec \<Rightarrow> pyval" where
  "tool_payload t = PDict [(''type'', PStr ''function''), (''function'', PDict
     [(''name'', PStr (sp_name t)), (''description'', PStr (sp_description t)),
      (''parameters'', PDict (sp_parameters t))])]"

definition set_given :: "string \<Rightarrow> pyval option \<Rightarrow> members \<Rightarrow> members" where
  "set_given k v t = (case v of None \<Rightarrow> t | Some x \<Rightarrow> dict_set t k x)"

definition chat_options :: "(real \<Rightarrow> string) \<Rightarrow> ollama_settings \<Rightarrow> chat_request \<Rightarrow> members" where
  "chat_options number s q =
     set_given ''stop'' (if rq_stop q = [] then None else Some (PList (map PStr (rq_stop q))))
     (set_given ''num_predict'' (map_option PInt (rq_max_tokens q))
     (set_given ''temperature'' (map_option (\<lambda>t. PFloat (number t)) (rq_temperature q)) (os_options s)))"

definition chat_payload :: "(real \<Rightarrow> string) \<Rightarrow> ollama_settings \<Rightarrow> chat_request \<Rightarrow> bool \<Rightarrow> pyval" where
  "chat_payload number s q stream =
     (let options = chat_options number s q in
      PDict ([(''model'', PStr (or_text (rq_model q) (os_model s))),
              (''messages'', PList (map message_payload (rq_messages q))), (''stream'', PBool stream)] @
        (if options = [] then [] else [(''options'', PDict options)]) @
        (case rq_schema q of None \<Rightarrow> [] | Some t \<Rightarrow> [(''format'', PDict t)]) @
        (if rq_tools q = [] then [] else [(''tools'', PList (map tool_payload (rq_tools q)))])))"

section \<open>Replies\<close>

definition token_count :: "pyval \<Rightarrow> int" where
  "token_count v = (case v of PInt i \<Rightarrow> if 0 \<le> i then i else 0 | _ \<Rightarrow> 0)"

definition reply_usage :: "members \<Rightarrow> exn + usage" where
  "reply_usage data = make_usage (token_count (get_key data ''prompt_eval_count''))
     (token_count (get_key data ''eval_count''))"

definition reply_model :: "members \<Rightarrow> string \<Rightarrow> string" where
  "reply_model data alt = or_text (text_of (get_key data ''model'')) alt"

definition tool_arguments :: "json_limit \<Rightarrow> pyval \<Rightarrow> string \<Rightarrow> exn + members" where
  "tool_arguments limit raw name =
     (if raw = PNone then Inr []
      else
        bindR (case raw of
            PStr s \<Rightarrow> (case loads_within limit s of
              Inl e \<Rightarrow> Inl (unless_value_error e (invalid_payload
                (''Ollama returned tool arguments for '' @ py_repr name @ '' that are not JSON'')))
            | Inr v \<Rightarrow> Inr v)
          | _ \<Rightarrow> Inr raw) (\<lambda>v.
        case object_of v of
          None \<Rightarrow> Inl (invalid_payload (''the arguments of tool '' @ py_repr name @ '' must be an object''))
        | Some t \<Rightarrow> Inr t))"

definition read_tool_call :: "json_limit \<Rightarrow> pyval \<Rightarrow> exn + tool_call" where
  "read_tool_call limit item = (case object_of item of
     None \<Rightarrow> Inl (invalid_payload ''every Ollama tool call must be an object'')
   | Some t \<Rightarrow> (case object_of (get_key t ''function'') of
       None \<Rightarrow> Inl (invalid_payload ''every Ollama tool call needs a function object'')
     | Some f \<Rightarrow>
         if or_text (text_of (get_key f ''name'')) [] = []
         then Inl (invalid_payload ''every Ollama tool call needs a function name'')
         else
           bindR (tool_arguments limit (get_key f ''arguments'') (or_text (text_of (get_key f ''name'')) [])) (\<lambda>args.
           make_tool_call (get_key f ''name'') (PDict args) None)))"

definition read_tool_calls :: "json_limit \<Rightarrow> pyval \<Rightarrow> exn + tool_call list" where
  "read_tool_calls limit raw =
     (if raw = PNone then Inr []
      else case array_of raw of
        None \<Rightarrow> Inl (invalid_payload ''Ollama tool_calls must be an array'')
      | Some items \<Rightarrow> sequenceR (map (read_tool_call limit) items))"

definition read_finish :: "members \<Rightarrow> tool_call list \<Rightarrow> finish_reason option" where
  "read_finish data calls =
     (let reason = get_key data ''done_reason''
      in if calls \<noteq> [] then Some FR_TOOL_CALLS
         else if reason = PNone then None
         else if reason = PStr ''stop'' then Some FR_STOP
         else if reason = PStr ''length'' then Some FR_LENGTH
         else Some FR_OTHER)"

definition read_chat_response :: "json_limit \<Rightarrow> ollama_settings \<Rightarrow> members \<Rightarrow> exn + chat_response" where
  "read_chat_response limit s data = (case object_of (get_key data ''message'') of
     None \<Rightarrow> Inl (invalid_payload (''the '' @ chat_path @ '' response has no message object''))
   | Some t \<Rightarrow> (case text_of (get_or t ''content'' (PStr [])) of
       None \<Rightarrow> Inl (invalid_payload ''the Ollama message content is not a string'')
     | Some content \<Rightarrow>
         bindR (read_tool_calls limit (get_key t ''tool_calls'')) (\<lambda>calls.
         bindR (assistant_message content calls) (\<lambda>m.
         bindR (reply_usage data) (\<lambda>u.
         Inr \<lparr>rs_message = m, rs_model = reply_model data (os_model s), rs_usage = u,
           rs_finish = read_finish data calls, rs_structured = PNone, rs_rounds = 1\<rparr>)))))"

definition read_number :: "pyval \<Rightarrow> exn + pyfloat" where
  "read_number v =
     (let refused = Inl (invalid_payload ''Ollama returned a non-numeric embedding value'')
      in case v of
        PInt i \<Rightarrow> float_of_int i
      | PFloat t \<Rightarrow> (case py_float t of Some x \<Rightarrow> Inr x | None \<Rightarrow> refused)
      | _ \<Rightarrow> refused)"

definition read_vector :: "pyval \<Rightarrow> exn + pyfloat list" where
  "read_vector item = (case array_of item of
     None \<Rightarrow> Inl (invalid_payload ''every Ollama embedding must be an array of numbers'')
   | Some xs \<Rightarrow> sequenceR (map read_number xs))"

definition read_embeddings :: "members \<Rightarrow> nat \<Rightarrow> string \<Rightarrow> exn + embedding_response" where
  "read_embeddings data inputs model = (case array_of (get_key data ''embeddings'') of
     None \<Rightarrow> Inl (invalid_payload (''the '' @ embed_path @ '' response carries no embeddings''))
   | Some items \<Rightarrow>
       bindR (refuse_if (items = [])
         (invalid_payload (''the '' @ embed_path @ '' response carries no embeddings''))) (\<lambda>_.
       bindR (sequenceR (map read_vector items)) (\<lambda>vectors.
       bindR (refuse_if (length vectors \<noteq> inputs) (invalid_payload (''Ollama returned '' @
         dec_nat (length vectors) @ '' embedding(s) for '' @ dec_nat inputs @ '' input(s)''))) (\<lambda>_.
       bindR (make_usage (token_count (get_key data ''prompt_eval_count'')) 0) (\<lambda>u.
       Inr \<lparr>em_model = reply_model data model, em_embeddings = vectors, em_usage = u\<rparr>)))))"

section \<open>Calls\<close>

definition ollama_unsupported :: "string \<Rightarrow> exn" where
  "ollama_unsupported = raised ''AIUnsupportedCapabilityError''"

definition require_supported :: "ollama_settings \<Rightarrow> chat_request \<Rightarrow> exn + unit" where
  "require_supported s q =
     bindR (refuse_if (rq_tools q \<noteq> [] \<and> \<not> os_tools s) (ollama_unsupported
       (''the Ollama model '' @ py_repr (os_model s) @ '' is not configured with tool support; '' @
        ''set tools = true for this model once you have confirmed the model supports them''))) (\<lambda>_.
     refuse_if (rq_schema q \<noteq> None \<and> \<not> os_structured s) (ollama_unsupported
       (''the Ollama model '' @ py_repr (os_model s) @ '' is not configured with structured '' @
        ''output support; set structured_output = true once you have confirmed the model honours a JSON schema'')))"

definition lowest_message :: "ollama_settings \<Rightarrow> string \<Rightarrow> string" where
  "lowest_message s reported = ''Ollama '' @ reported @ '' is older than the supported minimum '' @ os_minimum s @
     '': structured output, tool calling, and batch embeddings are only verified against that floor or newer. '' @
     ''Upgrade Ollama, or lower minimum_version deliberately and accept that Xyberos does not test against it''"

definition refuse_unsupported_service :: "('e, unit) ollama_proc" where
  "refuse_unsupported_service = bindA (askA Inr) (\<lambda>w. liftA (case ol_version w of
     None \<Rightarrow> Inr ()
   | Some reported \<Rightarrow>
       bindR (version_is_below reported (os_minimum (ol_settings w))) (\<lambda>below.
       refuse_if below (ai_config_error (lowest_message (ol_settings w) reported)))))"

definition ollama_post :: "'e http_foreign \<Rightarrow> string \<Rightarrow> pyval \<Rightarrow> ('e, members) ollama_proc" where
  "ollama_post hf path payload =
     bindA (get_client hf) (\<lambda>c.
     bindA settings_of (\<lambda>s.
     bindA (on_http (hf_post hf c path payload)) (\<lambda>answer.
     case answer of
       Inl f \<Rightarrow> failA (post_failure path f)
     | Inr r \<Rightarrow> liftA (
         bindR (raise_for_status s r path) (\<lambda>_.
         bindR (decode_object (hf_limit hf) (hp_text r) (''the '' @ path @ '' response'')) (\<lambda>data.
         bindR (raise_for_error_field (hf_repr hf) s data) (\<lambda>_. Inr data)))))))"

definition ollama_chat :: "'e http_foreign \<Rightarrow> chat_request \<Rightarrow> ('e, chat_response) ollama_proc" where
  "ollama_chat hf q =
     bindA settings_of (\<lambda>s.
     seqA (liftA (require_supported s q))
     (seqA refuse_unsupported_service
     (bindA (ollama_post hf chat_path (chat_payload (hf_number hf) s q False)) (\<lambda>data.
      liftA (read_chat_response (hf_limit hf) s data)))))"

definition ollama_embed :: "'e http_foreign \<Rightarrow> embedding_request \<Rightarrow> ('e, embedding_response) ollama_proc" where
  "ollama_embed hf q =
     bindA settings_of (\<lambda>s.
     let model = or_text (er_model q) (or_text (os_embedding s) [])
     in seqA (liftA (refuse_if (model = []) (ai_config_error
          (''no embedding model is configured; set embedding_model on the Ollama settings, for '' @
           ''example XYBEROS_AI__OLLAMA__EMBEDDING_MODEL=nomic-embed-text''))))
        (seqA refuse_unsupported_service
        (bindA (ollama_post hf embed_path (PDict [(''model'', PStr model), (''input'', PList (er_inputs q))])) (\<lambda>data.
         liftA (read_embeddings data (length (er_inputs q)) model)))))"

section \<open>Health\<close>

definition service_version :: "'e http_foreign \<Rightarrow> http_client \<Rightarrow> ('e, string option) ollama_proc" where
  "service_version hf c =
     bindA (on_http (hf_get hf c version_path)) (\<lambda>answer. liftA (case answer of
       Inl (OtherFailure e) \<Rightarrow> Inl e
     | Inl f \<Rightarrow> Inr None
     | Inr r \<Rightarrow>
         if 400 \<le> hp_status r then Inr None
         else bindR (safe_json r) (\<lambda>data.
           Inr (Some (or_text (text_of (get_key data ''version'')) ''unknown'')))))"

definition reported_capabilities :: "object_repr \<Rightarrow> members \<Rightarrow> string list option" where
  "reported_capabilities ro data = map_option (map (value_str ro)) (array_of (get_key data ''capabilities''))"

definition capability_mismatch :: "ollama_settings \<Rightarrow> string list option \<Rightarrow> string" where
  "capability_mismatch s reported = (case reported of
     None \<Rightarrow> []
   | Some names \<Rightarrow>
       if os_tools s \<and> ''tools'' \<notin> set names
       then ''this adapter is configured with tools = true, but the model reports these capabilities: '' @
         or_text (Some (join '', '' names)) ''none''
       else [])"

definition health_report :: "ollama_settings \<Rightarrow> model_status \<Rightarrow> string \<Rightarrow> string option \<Rightarrow> health" where
  "health_report s status detail version =
     \<lparr>he_status = status, he_model = os_model s, he_detail = detail, he_version = version\<rparr>"

definition inspected :: "object_repr \<Rightarrow> ollama_settings \<Rightarrow> string \<Rightarrow> http_response \<Rightarrow> exn + health" where
  "inspected ro s version r =
     (if hp_status r = 404 then Inr (health_report s MODEL_UNAVAILABLE
        (''the model '' @ py_repr (os_model s) @ '' is not available on this service; pull it yourself or '' @
         ''configure another model, because Xyberos never pulls models'') (Some version))
      else if 400 \<le> hp_status r then Inr (health_report s UNHEALTHY
        (''Ollama answered '' @ dec_int (hp_status r) @ '' for '' @ show_path) (Some version))
      else bindR (safe_json r) (\<lambda>data.
        let mismatch = capability_mismatch s (reported_capabilities ro data)
        in Inr (health_report s (if mismatch = [] then READY else UNHEALTHY) mismatch (Some version))))"

definition inspect_model ::
    "'e http_foreign \<Rightarrow> http_client \<Rightarrow> string \<Rightarrow> ('e, health) ollama_proc" where
  "inspect_model hf c version =
     bindA settings_of (\<lambda>s.
     bindA (on_http (hf_post hf c show_path (PDict [(''model'', PStr (os_model s))]))) (\<lambda>answer.
     case answer of
       Inl (OtherFailure e) \<Rightarrow> failA e
     | Inl (TimedOut n) \<Rightarrow> retA (health_report s UNHEALTHY
         (''the model could not be inspected ('' @ n @ '')'') (Some version))
     | Inl (HttpError n) \<Rightarrow> retA (health_report s UNHEALTHY
         (''the model could not be inspected ('' @ n @ '')'') (Some version))
     | Inr r \<Rightarrow> liftA (inspected (hf_repr hf) s version r)))"

definition ollama_health :: "'e http_foreign \<Rightarrow> ('e, health) ollama_proc" where
  "ollama_health hf =
     bindA (get_client hf) (\<lambda>c.
     bindA settings_of (\<lambda>s.
     bindA (service_version hf c) (\<lambda>found.
     case found of
       None \<Rightarrow> retA (health_report s UNREACHABLE
         (''the Ollama service at '' @ os_base_url s @ '' did not answer '' @ version_path) None)
     | Some version \<Rightarrow>
         seqA (modA (\<lambda>w. w\<lparr>ol_version := Some version\<rparr>))
         (bindA (liftA (version_is_below version (os_minimum s))) (\<lambda>below.
          if below then retA (health_report s UNHEALTHY (lowest_message s version) (Some version))
          else inspect_model hf c version)))))"

section \<open>Streams\<close>

text \<open>A stream is checked when it is asked for, sent when it is first pulled, and then read line by line.\<close>

datatype ollama_stream = StreamAsked chat_request | StreamOpen "string list" "http_failure option" | StreamEnded

definition ollama_stream_of :: "chat_request \<Rightarrow> ('e, ollama_stream) ollama_proc" where
  "ollama_stream_of q =
     bindA settings_of (\<lambda>s.
     seqA (liftA (require_supported s q))
     (seqA (liftA (refuse_if (\<not> os_streaming s) (ollama_unsupported
        (''the Ollama model '' @ py_repr (os_model s) @ '' is configured with streaming = false; '' @
         ''enable it once you have confirmed the model supports streaming''))))
     (seqA refuse_unsupported_service
     (seqA (liftA (refuse_if (rq_tools q \<noteq> []) (request_error ''an Ollama streaming request cannot offer tools'')))
     (seqA (liftA (refuse_if (rq_schema q \<noteq> None)
        (request_error ''an Ollama streaming request cannot ask for a response schema'')))
       (retA (StreamAsked q)))))))"

definition line_content :: "members \<Rightarrow> exn + string" where
  "line_content data = (case object_of (get_key data ''message'') of
     None \<Rightarrow> Inr []
   | Some t \<Rightarrow> (case text_of (get_or t ''content'' (PStr [])) of
       None \<Rightarrow> Inl (invalid_payload ''Ollama streamed a message whose content is not a string'')
     | Some content \<Rightarrow> Inr content))"

definition stream_chunk ::
    "json_limit \<Rightarrow> object_repr \<Rightarrow> ollama_settings \<Rightarrow> string \<Rightarrow> exn + chat_chunk option" where
  "stream_chunk limit ro s line =
     (if py_strip line = [] then Inr None
      else
        bindR (decode_object limit (py_strip line) (''a streamed line from '' @ chat_path)) (\<lambda>data.
        bindR (raise_for_error_field ro s data) (\<lambda>_.
        bindR (line_content data) (\<lambda>content.
        let finished = (get_key data ''done'' = PBool True)
        in bindR (if finished then bindR (reply_usage data) (\<lambda>u. Inr (Some u)) else Inr None) (\<lambda>u.
           Inr (Some \<lparr>ck_content = content, ck_done = finished,
             ck_model = Some (reply_model data (os_model s)), ck_usage = u\<rparr>))))))"

fun next_chunk ::
    "json_limit \<Rightarrow> object_repr \<Rightarrow> ollama_settings \<Rightarrow> string list \<Rightarrow> http_failure option \<Rightarrow>
     exn + chat_chunk option \<times> ollama_stream" where
  "next_chunk limit ro s [] failure = (case failure of
     None \<Rightarrow> Inr (None, StreamEnded) | Some f \<Rightarrow> Inl (stream_failure f))"
| "next_chunk limit ro s (line # lines) failure =
     bindR (stream_chunk limit ro s line) (\<lambda>chunk.
     case chunk of
       None \<Rightarrow> next_chunk limit ro s lines failure
     | Some c \<Rightarrow> Inr (Some c, StreamOpen lines failure))"

text \<open>A refused stream is read to its end first, which may fail by itself.\<close>

definition refused_stream :: "ollama_settings \<Rightarrow> http_stream \<Rightarrow> exn + unit" where
  "refused_stream s st =
     (if 400 \<le> hp_status (hs_response st)
      then (case hs_failure st of
        Some f \<Rightarrow> Inl (stream_failure f)
      | None \<Rightarrow> raise_for_status s (hs_response st) chat_path)
      else Inr ())"

definition pull_ollama ::
    "'e http_foreign \<Rightarrow> ollama_stream \<Rightarrow> ('e, chat_chunk option \<times> ollama_stream) ollama_proc" where
  "pull_ollama hf st = (case st of
     StreamEnded \<Rightarrow> retA (None, StreamEnded)
   | StreamOpen lines failure \<Rightarrow> bindA settings_of (\<lambda>s. liftA (next_chunk (hf_limit hf) (hf_repr hf) s lines failure))
   | StreamAsked q \<Rightarrow>
       bindA settings_of (\<lambda>s.
       bindA (get_client hf) (\<lambda>c.
       bindA (on_http (hf_stream hf c chat_path (chat_payload (hf_number hf) s q True))) (\<lambda>answer.
       case answer of
         Inl f \<Rightarrow> failA (stream_failure f)
       | Inr body \<Rightarrow>
           seqA (liftA (refused_stream s body))
             (liftA (next_chunk (hf_limit hf) (hf_repr hf) s (hs_lines body) (hs_failure body)))))))"

end
