(* ===== verification/Ollama_Facts.thy ===== *)
theory Ollama_Facts
  imports Ollama_Client
begin

text \<open>
  What the adapter raises, what it reads back of what it wrote, and the clients it opens and closes.
\<close>

section \<open>Which errors a computation may raise\<close>

definition fails_as :: "('e \<Rightarrow> bool) \<Rightarrow> 'e + 'a \<Rightarrow> bool" where
  "fails_as P r \<longleftrightarrow> (\<forall>e. r = Inl e \<longrightarrow> P e)"

named_theorems fails \<open>rules for what a computation raises\<close>

lemma fails_Inr [fails]: "fails_as P (Inr x)"
  by (simp add: fails_as_def)

lemma fails_Inl [fails]: "P e \<Longrightarrow> fails_as P (Inl e)"
  by (simp add: fails_as_def)

lemma fails_bindR [fails]: "fails_as P r \<Longrightarrow> (\<And>x. r = Inr x \<Longrightarrow> fails_as P (f x)) \<Longrightarrow> fails_as P (bindR r f)"
  by (cases r) (simp_all add: fails_as_def)

lemma fails_refuse_if [fails]: "P e \<Longrightarrow> fails_as P (refuse_if b e)"
  by (simp add: fails_as_def refuse_if_def)

lemma fails_if [fails]: "(b \<Longrightarrow> fails_as P r) \<Longrightarrow> (\<not> b \<Longrightarrow> fails_as P r') \<Longrightarrow> fails_as P (if b then r else r')"
  by simp

lemma fails_sequenceR [fails]: "(\<And>r. r \<in> set rs \<Longrightarrow> fails_as P r) \<Longrightarrow> fails_as P (sequenceR rs)"
  by (induction rs) (auto intro!: fails)

lemma fails_option [fails]:
  "(v = None \<Longrightarrow> fails_as P r) \<Longrightarrow> (\<And>x. v = Some x \<Longrightarrow> fails_as P (f x)) \<Longrightarrow>
    fails_as P (case v of None \<Rightarrow> r | Some x \<Rightarrow> f x)"
  by (cases v) simp_all

section \<open>Errors of the adapter\<close>

definition ai_error :: "exn \<Rightarrow> bool" where
  "ai_error e \<longleftrightarrow> instance_of e ''AIError''"

lemma ai_bases:
  "fw_bases ''AIConfigurationError'' = [''AIError'']" "fw_bases ''AIRequestError'' = [''AIError'']"
  "fw_bases ''AITransportError'' = [''AIError'', ''TransientError'']"
  "fw_bases ''AITimeoutError'' = [''AITransportError'']" "fw_bases ''AIRateLimitError'' = [''AITransportError'']"
  "fw_bases ''AIInvalidPayloadError'' = [''AITransportError'']" "fw_bases ''AIModelNotFoundError'' = [''AIError'']"
  "fw_bases ''AIUnsupportedCapabilityError'' = [''AIError'']"
  by (simp_all add: fw_bases_def python_classes_def xyberos_classes_def)

lemma ai_classes:
  "''AIError'' \<in> set (fw_ancestors ''AIConfigurationError'')" "''AIError'' \<in> set (fw_ancestors ''AIRequestError'')"
  "''AIError'' \<in> set (fw_ancestors ''AITransportError'')" "''AIError'' \<in> set (fw_ancestors ''AITimeoutError'')"
  "''AIError'' \<in> set (fw_ancestors ''AIRateLimitError'')" "''AIError'' \<in> set (fw_ancestors ''AIInvalidPayloadError'')"
  "''AIError'' \<in> set (fw_ancestors ''AIModelNotFoundError'')"
  "''AIError'' \<in> set (fw_ancestors ''AIUnsupportedCapabilityError'')"
  unfolding fw_ancestors_def by (simp_all add: fw_up_def ai_bases)

lemma ai_errors [fails, simp]:
  "ai_error (ai_config_error m)" "ai_error (request_error m)" "ai_error (transport_error m)"
  "ai_error (invalid_payload m)" "ai_error (ollama_unsupported m)" "ai_error (model_not_found s m)"
  "ai_error (raised ''AITimeoutError'' m)" "ai_error (raised ''AIRateLimitError'' m)"
  by (simp_all add: ai_error_def instance_of_def ai_config_error_def request_error_def transport_error_def
    invalid_payload_def ollama_unsupported_def model_not_found_def ai_classes)

text \<open>
  The adapter raises errors of its own, \<open>ai_error\<close>, and lets through what \<open>json.loads\<close> raises beyond
  \<open>ValueError\<close> on a text the interpreter does not read.
\<close>

definition unreadable :: "json_limit \<Rightarrow> exn \<Rightarrow> bool" where
  "unreadable limit e \<longleftrightarrow> (\<exists>text. limit text = Some e \<and> \<not> instance_of e ''ValueError'')"

definition ai_or_unreadable :: "json_limit \<Rightarrow> exn \<Rightarrow> bool" where
  "ai_or_unreadable limit e \<longleftrightarrow> ai_error e \<or> unreadable limit e"

lemma fails_mono: "fails_as ai_error r \<Longrightarrow> fails_as (ai_or_unreadable limit) r"
  by (auto simp: fails_as_def ai_or_unreadable_def)

lemma ai_or: "ai_error e \<Longrightarrow> ai_or_unreadable limit e"
  by (simp add: ai_or_unreadable_def)

lemmas ai_errors_or [fails] = ai_errors [THEN ai_or]

lemma json_loads_value_error: "json_loads text = Inl e \<Longrightarrow> instance_of e ''ValueError''"
  by (auto simp: json_loads_def instance_of_def fw_ancestors_def split: option.splits prod.splits if_splits)

lemma loads_within_error:
  "loads_within limit text = Inl e \<Longrightarrow> ai_error f \<Longrightarrow> ai_or_unreadable limit (unless_value_error e f)"
  by (auto simp: loads_within_def unless_value_error_def ai_or_unreadable_def unreadable_def
    dest: json_loads_value_error split: option.splits)

lemma status_fails [fails]: "fails_as ai_error (raise_for_status s r path)"
  by (auto simp: raise_for_status_def Let_def intro!: fails)

lemma field_fails [fails]: "fails_as ai_error (raise_for_error_field ro s data)"
  by (auto simp: raise_for_error_field_def Let_def intro!: fails)

lemma supported_fails [fails]: "fails_as ai_error (require_supported s q)"
  by (auto simp: require_supported_def intro!: fails)

lemma make_tool_call_fails [fails]: "fails_as ai_error (make_tool_call name args i)"
  by (auto simp: make_tool_call_def freeze_mapping_def intro!: fails)

lemma make_usage_fails [fails]: "fails_as ai_error (make_usage i n)"
  by (auto simp: make_usage_def intro!: fails)

lemma make_message_fails [fails]: "fails_as ai_error (make_message r content calls name)"
  by (auto simp: make_message_def intro!: fails split: sum.splits)

lemmas ai_fails = status_fails field_fails make_tool_call_fails make_usage_fails make_message_fails

lemma decode_fails [fails]: "fails_as (ai_or_unreadable limit) (decode_object limit text source)"
  by (auto simp: decode_object_def intro!: fails loads_within_error split: sum.splits)

lemma arguments_fail [fails]: "fails_as (ai_or_unreadable limit) (tool_arguments limit raw name)"
  by (auto simp: tool_arguments_def intro!: fails loads_within_error split: pyval.splits sum.splits)

lemma read_tool_call_fails [fails]: "fails_as (ai_or_unreadable limit) (read_tool_call limit item)"
  by (auto simp: read_tool_call_def intro!: fails ai_fails [THEN fails_mono])

lemma read_tool_calls_fails [fails]: "fails_as (ai_or_unreadable limit) (read_tool_calls limit raw)"
  by (auto simp: read_tool_calls_def intro!: fails)

lemma read_chat_response_fails [fails]: "fails_as (ai_or_unreadable limit) (read_chat_response limit s data)"
  by (auto simp: read_chat_response_def assistant_message_def reply_usage_def
    intro!: fails ai_fails [THEN fails_mono])

lemma stream_chunk_fails [fails]: "fails_as (ai_or_unreadable limit) (stream_chunk limit ro s line)"
  by (auto simp: stream_chunk_def line_content_def reply_usage_def Let_def
    intro!: fails ai_fails [THEN fails_mono])

text \<open>The versions at hand can be compared.\<close>

definition comparable :: "string \<Rightarrow> bool" where
  "comparable v \<longleftrightarrow> (\<exists>p. version_tuple v = Inr p)"

lemma validated_version_comparable:
  assumes "validate_version v label = Inr s"
  shows "comparable s"
  using assms
  by (auto simp: validate_version_def comparable_def bindR_Inr_iff split: option.splits if_splits)

lemma settings_version_comparable: "make_ollama_settings orp a = Inr s \<Longrightarrow> comparable (os_minimum s)"
  by (auto simp: make_ollama_settings_def bindR_Inr_iff split: option.splits dest: validated_version_comparable)

lemma below_fails [fails]:
  "comparable v \<Longrightarrow> comparable u \<Longrightarrow> fails_as P (version_is_below v u)"
  by (auto simp: version_is_below_def comparable_def fails_as_def)

section \<open>Errors of a call\<close>

lemma refuse_service_error:
  assumes "comparable (os_minimum (ol_settings w))" and "\<forall>v. ol_version w = Some v \<longrightarrow> comparable v"
  shows "snd (refuse_unsupported_service w) = w \<and> fails_as ai_error (fst (refuse_unsupported_service w))"
  using assms by (auto simp: refuse_unsupported_service_def procA intro!: fails)

text \<open>
  What escapes a call in state \<open>w\<close> that ends in \<open>w'\<close>: what the constructor of the HTTP client raised,
  what its \<open>post\<close> raised that is no \<open>HTTPError\<close>, or what reading a text raised that is no \<open>ValueError\<close>.
\<close>

definition escapes :: "'e http_foreign \<Rightarrow> string \<Rightarrow> pyval \<Rightarrow> 'e ollama \<Rightarrow> 'e ollama \<Rightarrow> exn \<Rightarrow> bool" where
  "escapes hf path payload w w' e \<longleftrightarrow>
     ol_http w = None \<and> hf_open hf (ol_settings w) (ol_env w) = (Inl e, ol_env w') \<or>
     (\<exists>c env. hf_post hf c path payload env = (Inl (OtherFailure e), ol_env w')) \<or>
     (\<exists>text. hf_limit hf text = Some e \<and> \<not> instance_of e ''ValueError'')"

lemma escapes_unreadable: "ai_or_unreadable (hf_limit hf) e \<Longrightarrow> ai_error e \<or> escapes hf path payload w w' e"
  by (auto simp: ai_or_unreadable_def unreadable_def escapes_def)

lemma get_client_error:
  "get_client hf w = (Inl e, w') \<Longrightarrow> escapes hf path payload w w' e"
  by (auto simp: get_client_def escapes_def split: option.splits prod.splits sum.splits)

lemma post_error:
  assumes run: "ollama_post hf path payload w = (Inl e, w')"
  shows "ai_error e \<or> escapes hf path payload w w' e"
proof (cases "get_client hf w")
  case (Pair r w1)
  show ?thesis
  proof (cases r)
    case (Inl e')
    then show ?thesis using run Pair get_client_error [of hf w e w' path payload]
        by (auto simp: ollama_post_def procA)
  next
    case (Inr c)
    obtain x env where p: "hf_post hf c path payload (ol_env w1) = (x, env)" by fastforce
    show ?thesis
    proof (cases x)
      case (Inl f)
      then have "e = post_failure path f" "ol_env w' = env"
        using run Pair Inr p by (auto simp: ollama_post_def procA settings_of_def on_http_def)
      then show ?thesis using p Inl by (cases f) (auto simp: post_failure_def escapes_def)
    next
      case (Inr r')
      let ?answer = "bindR (raise_for_status (ol_settings w1) r' path) (\<lambda>_.
          bindR (decode_object (hf_limit hf) (hp_text r') (''the '' @ path @ '' response'')) (\<lambda>data.
          bindR (raise_for_error_field (hf_repr hf) (ol_settings w1) data) (\<lambda>_. Inr data)))"
      have "fails_as (ai_or_unreadable (hf_limit hf)) ?answer"
        by (intro fails ai_fails [THEN fails_mono])
      moreover have "?answer = Inl e"
        using run Pair \<open>r = Inr c\<close> p Inr by (simp add: ollama_post_def procA settings_of_def on_http_def)
      ultimately show ?thesis using escapes_unreadable by (metis fails_as_def)
    qed
  qed
qed

text \<open>
  C37: a chat through the adapter returns or raises one of the framework's errors for models, but for
  three kinds of exceptions that pass through it as they are: what the constructor of its HTTP client
  raised, what the client's \<open>post\<close> raised that is no \<open>HTTPError\<close>, and what \<open>json.loads\<close> raised that is
  no \<open>ValueError\<close>, as on a reply nested too deep. The version the service reported, if any, is one
  that can be compared.
\<close>

theorem ollama_errors_normalised:
  assumes "make_ollama_settings orp a = Inr (ol_settings w)"
    and "\<forall>v. ol_version w = Some v \<longrightarrow> comparable v"
    and "ollama_chat hf q w = (Inl e, w')"
  shows "instance_of e ''AIError'' \<or>
    ol_http w = None \<and> hf_open hf (ol_settings w) (ol_env w) = (Inl e, ol_env w') \<or>
    (\<exists>c env. hf_post hf c chat_path (chat_payload (hf_number hf) (ol_settings w) q False) env =
      (Inl (OtherFailure e), ol_env w')) \<or>
    (\<exists>text. hf_limit hf text = Some e \<and> \<not> instance_of e ''ValueError'')"
proof -
  let ?s = "ol_settings w" and ?payload = "chat_payload (hf_number hf) (ol_settings w) q False"
  have refuse: "snd (refuse_unsupported_service w) = w" "fails_as ai_error (fst (refuse_unsupported_service w))"
    using refuse_service_error settings_version_comparable [OF assms(1)] assms(2) by blast+
  obtain r where r: "refuse_unsupported_service w = (r, w)" "fails_as ai_error r"
    using refuse by (metis fst_conv prod.collapse)
  have "ai_error e \<or> escapes hf chat_path ?payload w w' e"
  proof (cases "(require_supported ?s q, r)")
    case (Pair supported refused)
    show ?thesis
    proof (cases supported; cases refused)
      fix u u' assume ok: "supported = Inr u" "refused = Inr u'"
      obtain x w2 where p: "ollama_post hf chat_path ?payload w = (x, w2)" by fastforce
      have run: "(case x of Inl e' \<Rightarrow> (Inl e', w2)
          | Inr data \<Rightarrow> (read_chat_response (hf_limit hf) ?s data, w2)) = (Inl e, w')"
        using assms(3) r ok Pair p by (auto simp: ollama_chat_def procA settings_of_def split: sum.splits)
      show ?thesis
      proof (cases x)
        case (Inl e')
        then show ?thesis using run p post_error [of hf chat_path ?payload w e w'] by auto
      next
        case (Inr data)
        then show ?thesis using run read_chat_response_fails [of "hf_limit hf" ?s data]
            escapes_unreadable [of hf e chat_path ?payload w w']
          by (auto simp: fails_as_def)
      qed
    qed (use assms(3) r Pair supported_fails [of ?s q] in
        \<open>auto simp: ollama_chat_def procA settings_of_def fails_as_def\<close>)
  qed
  then show ?thesis by (simp add: ai_error_def escapes_def)
qed

definition sample_args :: ollama_args where
  "sample_args = \<lparr>oa_model = PStr ''llama'', oa_base_url = PStr ''http://host/'', oa_embedding = None,
     oa_timeout = None, oa_connect = None, oa_tools = False, oa_structured = False, oa_streaming = True,
     oa_minimum = PStr ''0.5.0'', oa_options = PDict []\<rparr>"

definition sample_ollama :: ollama_settings where
  "sample_ollama = \<lparr>os_model = ''llama'', os_base_url = ''http://host'', os_embedding = None, os_timeout = None,
     os_connect = None, os_tools = False, os_structured = False, os_streaming = True, os_minimum = ''0.5.0'',
     os_options = []\<rparr>"

definition sample_http :: "unit http_foreign" where
  "sample_http = \<lparr>hf_open = (\<lambda>s e. (Inr (), e)), hf_post = (\<lambda>c path p e. (Inr \<lparr>hp_status = 503, hp_text = ''busy'', hp_json = Inr PNone\<rparr>, e)),
     hf_get = (\<lambda>c path e. (Inl (TimedOut ''ReadTimeout''), e)), hf_stream = (\<lambda>c path p e. (Inl (HttpError ''ReadError''), e)),
     hf_close = (\<lambda>c e. (Inr (), e)), hf_number = (\<lambda>x. ''0.5''), hf_repr = (\<lambda>c n. c),
     hf_limit = (\<lambda>text. None)\<rparr>"

definition sample_question :: chat_request where
  "sample_question = \<lparr>rq_messages = [\<lparr>ms_role = USER, ms_content = ''hi'', ms_tool_calls = [], ms_tool_name = None\<rparr>],
     rq_model = None, rq_temperature = None, rq_max_tokens = None, rq_stop = [], rq_schema = None, rq_tools = [],
     rq_timeout = None\<rparr>"

lemma sample_ollama_made:
  "make_ollama_settings \<lparr>or_netloc = (\<lambda>n. False), or_float = (\<lambda>x. [])\<rparr> sample_args = Inr sample_ollama"
proof -
  have url: "urlsplit (\<lambda>n. False) ''http://host/'' = Inr (''http'', ''host'')" "\<not> has_credentials ''host''"
    by (simp_all add: urlsplit_def url_clean_def split_scheme_def url_netloc_def refuse_if_def has_credentials_def
      ascii_letter_def scheme_char_def py_lower_def py_lower_char_def Let_def)
  have given_texts: "non_blank_text (PStr ''llama'') = Some ''llama''" "non_blank_text (PStr ''http://host/'') = Some ''http://host/''"
    by code_simp+
  have version: "validate_version (PStr ''0.5.0'') ''minimum_version'' = Inr ''0.5.0''"
    by code_simp
  have options: "freeze_options (PDict []) = Inr []"
    by (simp add: freeze_options_def object_of_def refuse_if_def encode_object_def)
  show ?thesis
    by (simp add: make_ollama_settings_def sample_args_def sample_ollama_def validate_base_url_def given_texts url version options
      refuse_if_def check_seconds_def given_def rstrip_slash_def)
qed

lemma ollama_errors_normalised_witness:
  "\<exists>e. fst (ollama_chat sample_http sample_question (make_ollama sample_ollama True ())) = Inl e \<and> instance_of e ''AIError''"
proof -
  let ?w = "make_ollama sample_ollama True ()"
  have "case ollama_chat sample_http sample_question ?w of (r, w') \<Rightarrow> \<exists>e. r = Inl e"
    by (simp add: ollama_chat_def ollama_post_def procA settings_of_def on_http_def get_client_def make_ollama_def
      require_supported_def refuse_unsupported_service_def refuse_if_def sample_ollama_def sample_question_def
      sample_http_def raise_for_status_def)
  then obtain e w' where run: "ollama_chat sample_http sample_question ?w = (Inl e, w')" by (auto split: prod.splits)
  have made: "make_ollama_settings \<lparr>or_netloc = (\<lambda>n. False), or_float = (\<lambda>x. [])\<rparr> sample_args = Inr (ol_settings ?w)"
    using sample_ollama_made by (simp add: make_ollama_def)
  have "instance_of e ''AIError''"
    using ollama_errors_normalised [OF made _ run] by (simp add: make_ollama_def sample_http_def)
  then show ?thesis using run by auto
qed

text \<open>
  A reply nested deeper than the interpreter reads ends the chat in the \<open>RecursionError\<close> itself, for
  any adapter that already has its client and did not see a service that is too old.
\<close>

lemma deep_reply_escapes:
  assumes "ol_http w = Some c" and "ol_version w = None" and "require_supported (ol_settings w) q = Inr ()"
    and "hf_post hf c chat_path (chat_payload (hf_number hf) (ol_settings w) q False) (ol_env w) = (Inr r, env)"
    and "hp_status r < 400" and "hf_limit hf (hp_text r) = Some (raised ''RecursionError'' m)"
  shows "fst (ollama_chat hf q w) = Inl (raised ''RecursionError'' m)"
proof -
  have "\<not> derives (Fw ''RecursionError'') (Fw ''ValueError'')" by code_simp
  then have "\<not> instance_of (raised ''RecursionError'' m) ''ValueError''" by (simp add: instance_of_def del: derives.simps)
  then show ?thesis using assms
    by (simp add: ollama_chat_def ollama_post_def procA settings_of_def on_http_def get_client_def
      refuse_unsupported_service_def raise_for_status_def decode_object_def loads_within_def unless_value_error_def)
qed

section \<open>Versions\<close>

lemma short_release_is_below: "version_is_below ''0.5'' ''0.5.0'' = Inr True"
  by code_simp

text \<open>A raised digit passes \<open>isdigit\<close> and is refused by \<open>int\<close>.\<close>

lemma raised_digit_not_comparable: "\<not> comparable (''0.5'' @ [char_of (178 :: nat)])"
proof -
  have "case version_tuple (''0.5'' @ [char_of (178 :: nat)]) of Inl e \<Rightarrow> True | Inr p \<Rightarrow> False" by code_simp
  then show ?thesis by (auto simp: comparable_def)
qed

section \<open>Reading back what was written\<close>

lemma read_tool_call_payload:
  "\<not> blank (tc_name c) \<Longrightarrow> read_tool_call limit (call_payload c) = Inr (c\<lparr>tc_call_id := None\<rparr>)"
  by (cases "tc_name c = []")
    (auto simp: read_tool_call_def call_payload_def object_of_def get_key_def text_of_def or_text_def tool_arguments_def
      make_tool_call_def non_blank_text_def freeze_mapping_def blank_def)

lemma read_tool_calls_payload:
  assumes "\<forall>c \<in> set calls. \<not> blank (tc_name c)"
  shows "read_tool_calls limit (PList (map call_payload calls)) = Inr (map (\<lambda>c. c\<lparr>tc_call_id := None\<rparr>) calls)"
proof -
  have "map (read_tool_call limit) (map call_payload calls) = map Inr (map (\<lambda>c. c\<lparr>tc_call_id := None\<rparr>) calls)"
    using assms by (simp add: read_tool_call_payload)
  then show ?thesis unfolding read_tool_calls_def array_of_def by (simp add: sequenceR_Inr_iff)
qed

text \<open>
  C38: an answer of the model goes into the next request in a form the adapter reads back as the same
  answer: same text, same calls in the same order with the same arguments, but for the ids of the
  calls, which the service does not carry.
\<close>

theorem answer_round_trip:
  assumes "ms_role m = ASSISTANT" and "ms_tool_name m = None" and "\<forall>c \<in> set (ms_tool_calls m). \<not> blank (tc_name c)"
  shows "\<exists>r. read_chat_response limit s ((''message'', message_payload m) # data) = Inr r \<and>
    rs_message r = m\<lparr>ms_tool_calls := map (\<lambda>c. c\<lparr>tc_call_id := None\<rparr>) (ms_tool_calls m)\<rparr> \<and>
    (ms_tool_calls m \<noteq> [] \<longrightarrow> rs_finish r = Some FR_TOOL_CALLS)"
proof -
  let ?calls = "map (\<lambda>c. c\<lparr>tc_call_id := None\<rparr>) (ms_tool_calls m)"
  obtain t where t: "message_payload m = PDict t" and content: "get_or t ''content'' (PStr []) = PStr (ms_content m)"
    and calls: "get_key t ''tool_calls'' = (if ms_tool_calls m = [] then PNone else PList (map call_payload (ms_tool_calls m)))"
    by (simp add: message_payload_def get_or_def get_key_def)
  let ?d = "(''message'', message_payload m) # data"
  have read: "read_tool_calls limit (get_key t ''tool_calls'') = Inr ?calls"
    using read_tool_calls_payload [OF assms(3)] by (simp add: calls) (simp add: read_tool_calls_def)
  have found: "object_of (get_key ?d ''message'') = Some t" by (simp add: get_key_def t object_of_def)
  have made: "assistant_message (ms_content m) ?calls = Inr (m\<lparr>ms_tool_calls := ?calls\<rparr>)"
    using assms(1,2) by (cases m) (simp add: assistant_message_def make_message_def text_of_def refuse_if_def)
  obtain u where "reply_usage ?d = Inr u"
    by (cases "reply_usage ?d")
      (auto simp: reply_usage_def make_usage_def refuse_if_def token_count_def split: pyval.splits if_splits)
  then show ?thesis by (simp add: read_chat_response_def found content text_of_def read made read_finish_def)
qed

definition sample_answer :: message where
  "sample_answer = \<lparr>ms_role = ASSISTANT, ms_content = [], ms_tool_calls = [\<lparr>tc_name = ''find'',
     tc_arguments = [(''q'', PInt 1)], tc_call_id = Some ''7''\<rparr>], ms_tool_name = None\<rparr>"

lemma answer_round_trip_witness:
  "\<exists>r. read_chat_response (hf_limit sample_http) sample_ollama [(''message'', message_payload sample_answer)] = Inr r \<and>
    rs_finish r = Some FR_TOOL_CALLS"
proof -
  have "\<not> blank ''find''" by code_simp
  then show ?thesis using answer_round_trip [of sample_answer "hf_limit sample_http" sample_ollama "[]"] by (auto simp: sample_answer_def)
qed

section \<open>Clients opened and closed\<close>

definition own_open :: "'e ollama \<Rightarrow> http_client list" where
  "own_open w = (case ol_http w of Some (OwnClient n) \<Rightarrow> [OwnClient n] | _ \<Rightarrow> [])"

definition clients_ok :: "'e ollama \<Rightarrow> bool" where
  "clients_ok w \<longleftrightarrow> distinct (ol_closed w @ own_open w) \<and>
     set (ol_closed w @ own_open w) = OwnClient ` {..<ol_opened w} \<and>
     (\<forall>c. ol_http w = Some c \<longrightarrow> ol_owns w = (c \<noteq> InjectedClient))"

definition clients_kept :: "'e ollama \<Rightarrow> 'e ollama \<Rightarrow> bool" where
  "clients_kept w w' \<longleftrightarrow> (clients_ok w \<longrightarrow> clients_ok w' \<and>
     (ol_http w = Some InjectedClient \<longleftrightarrow> ol_http w' = Some InjectedClient) \<and>
     (ol_http w = Some InjectedClient \<longrightarrow> ol_opened w' = ol_opened w))"

interpretation clients: procedure_evolution clients_kept
  by unfold_locales (auto simp: clients_kept_def)

lemma clients_frame:
  "clients_ok (w\<lparr>ol_env := e\<rparr>) = clients_ok w" "clients_ok (w\<lparr>ol_version := v\<rparr>) = clients_ok w"
  by (simp_all add: clients_ok_def own_open_def)

lemma on_http_clients: "holds_along clients_kept (on_http f)"
  by (rule holds_alongI) (auto simp: on_http_def clients_kept_def clients_frame split: prod.splits)

lemma get_client_clients: "holds_along clients_kept (get_client hf)"
proof (rule holds_alongI)
  fix w r w' assume run: "get_client hf w = (r, w')"
  show "clients_kept w w'"
  proof (cases "ol_http w")
    case None
    then show ?thesis using run
      by (auto simp: get_client_def clients_kept_def clients_ok_def own_open_def less_Suc_eq image_iff
        split: prod.splits sum.splits)
  next
    case (Some c)
    then show ?thesis using run by (auto simp: get_client_def clients_kept_def)
  qed
qed

lemma close_clients: "holds_along clients_kept (close_ollama hf)"
proof (rule holds_alongI)
  fix w r w' assume run: "close_ollama hf w = (r, w')"
  show "clients_kept w w'"
  proof (cases "ol_http w")
    case None
    then show ?thesis using run by (auto simp: close_ollama_def clients_kept_def)
  next
    case (Some c)
    then show ?thesis using run
      by (cases c) (auto simp: close_ollama_def clients_kept_def clients_ok_def own_open_def procA on_http_def
        split: if_splits prod.splits)
  qed
qed

lemmas client_rules = clients.procedure on_http_clients get_client_clients close_clients

lemma asks_clients:
  "holds_along clients_kept settings_of" "holds_along clients_kept refuse_unsupported_service"
  by (auto simp: settings_of_def refuse_unsupported_service_def intro!: clients.procedure)

lemma version_clients: "holds_along clients_kept (modA (\<lambda>w. w\<lparr>ol_version := v\<rparr>))"
  by (rule clients.modA) (auto simp: clients_kept_def clients_frame)

lemma post_clients: "holds_along clients_kept (ollama_post hf path payload)"
  unfolding ollama_post_def by (intro client_rules asks_clients) (auto split: sum.split intro: client_rules)

lemma chat_clients: "holds_along clients_kept (ollama_chat hf q)"
  unfolding ollama_chat_def by (intro client_rules asks_clients post_clients)

lemma embed_clients: "holds_along clients_kept (ollama_embed hf q)"
  unfolding ollama_embed_def Let_def by (intro client_rules asks_clients post_clients)

lemma inspect_clients: "holds_along clients_kept (inspect_model hf c v)"
  unfolding inspect_model_def
  by (intro client_rules asks_clients) (auto split: sum.split http_failure.split intro: client_rules)

lemma health_clients: "holds_along clients_kept (ollama_health hf)"
  unfolding ollama_health_def service_version_def
  by (intro client_rules asks_clients)
    (auto split: option.split intro!: client_rules version_clients inspect_clients)

lemma pull_clients: "holds_along clients_kept (pull_ollama hf st)"
  by (cases st) (auto simp: pull_ollama_def split: sum.split intro!: client_rules asks_clients)

text \<open>What an application does with an adapter, one operation after another.\<close>

datatype ollama_op = OpChat chat_request | OpEmbed embedding_request | OpHealth | OpPull ollama_stream | OpClose

fun ollama_after :: "'e http_foreign \<Rightarrow> ollama_op list \<Rightarrow> 'e ollama \<Rightarrow> 'e ollama" where
  "ollama_after hf [] w = w"
| "ollama_after hf (OpChat q # ops) w = ollama_after hf ops (snd (ollama_chat hf q w))"
| "ollama_after hf (OpEmbed q # ops) w = ollama_after hf ops (snd (ollama_embed hf q w))"
| "ollama_after hf (OpHealth # ops) w = ollama_after hf ops (snd (ollama_health hf w))"
| "ollama_after hf (OpPull st # ops) w = ollama_after hf ops (snd (pull_ollama hf st w))"
| "ollama_after hf (OpClose # ops) w = ollama_after hf ops (snd (close_ollama hf w))"

lemma kept_by: "holds_along clients_kept m \<Longrightarrow> clients_kept w (snd (m w))"
  by (rule holds_alongD [OF _ prod.collapse [symmetric]])

lemma clients_after: "clients_kept w (ollama_after hf ops w)"
proof (induction ops arbitrary: w)
  case Nil
  then show ?case by (simp add: clients_kept_def)
next
  case (Cons op ops)
  show ?case
  proof (cases op)
    case (OpChat q)
    then show ?thesis using clients.trans [OF kept_by [OF chat_clients] Cons.IH] by simp
  next
    case (OpEmbed q)
    then show ?thesis using clients.trans [OF kept_by [OF embed_clients] Cons.IH] by simp
  next
    case OpHealth
    then show ?thesis using clients.trans [OF kept_by [OF health_clients] Cons.IH] by simp
  next
    case (OpPull st)
    then show ?thesis using clients.trans [OF kept_by [OF pull_clients] Cons.IH] by simp
  next
    case OpClose
    then show ?thesis using clients.trans [OF kept_by [OF close_clients] Cons.IH] by simp
  qed
qed

lemma close_leaves_none:
  assumes "clients_ok w"
  shows "own_open (snd (close_ollama hf w)) = []"
proof (cases "ol_http w")
  case None
  then show ?thesis by (simp add: close_ollama_def own_open_def)
next
  case (Some c)
  then show ?thesis using assms
    by (cases c; cases "hf_close hf c (ol_env w)") (simp_all add: close_ollama_def own_open_def clients_ok_def procA on_http_def)
qed

text \<open>
  C39: an adapter closes exactly the clients it made, each once, and never the one it was given: after
  any operations and a closing one, what it closed is what it made, without repetition, and an
  adapter with a client of its caller made and closed none.
\<close>

theorem own_clients_closed_once:
  shows "let w = snd (close_ollama hf (ollama_after hf ops (make_ollama s injected e)))
    in set (ol_closed w) = OwnClient ` {..<ol_opened w} \<and> distinct (ol_closed w) \<and>
       length (ol_closed w) = ol_opened w \<and> (if injected then ol_closed w = [] else ol_http w = None)"
proof -
  let ?new = "make_ollama s injected e"
  let ?u = "ollama_after hf ops ?new"
  let ?w = "snd (close_ollama hf ?u)"
  have new: "clients_ok ?new" by (simp add: clients_ok_def make_ollama_def own_open_def)
  have kept: "clients_kept ?new ?u" "clients_kept ?new ?w"
    using clients_after [where w = ?new and hf = hf and ops = ops] kept_by [OF close_clients, where w = ?u] by (auto simp: clients_kept_def)
  have ok: "clients_ok ?u" "clients_ok ?w" using kept new by (auto simp: clients_kept_def)
  have given_client: "injected \<Longrightarrow> ol_http ?w = Some InjectedClient \<and> ol_opened ?w = 0"
    using kept(2) new by (auto simp: clients_kept_def make_ollama_def)
  have own_client: "\<not> injected \<Longrightarrow> ol_http ?w \<noteq> Some InjectedClient"
    using kept(2) new by (simp add: clients_kept_def make_ollama_def)
  have none: "own_open ?w = []"
    by (rule close_leaves_none [OF ok(1)])
  then have closed: "set (ol_closed ?w) = OwnClient ` {..<ol_opened ?w}" "distinct (ol_closed ?w)"
    using ok(2) by (auto simp: clients_ok_def)
  have count: "length (ol_closed ?w) = ol_opened ?w"
    using distinct_card [OF closed(2)] closed(1) by (simp add: card_image inj_on_def)
  have "\<not> injected \<Longrightarrow> ol_http ?w = None"
    using own_client none by (auto simp: own_open_def split: option.splits http_client.splits)
  then have "if injected then ol_closed ?w = [] else ol_http ?w = None"
    using given_client count by (cases injected) simp_all
  with closed count show ?thesis unfolding Let_def by blast
qed

end
