(* ===== verification/Spec2Isabelle.thy ===== *)
theory Spec2Isabelle
  imports Journal_Properties Payload_Values Cancellation Worker_Turn Attempt_Ledger Executor_Properties App_Properties Settings_Properties Facade_Properties Session_Facts Csrf_Facts Ollama_Facts
begin

text \<open>
  A model of xyberos, a Python framework whose core is a workflow engine: definitions of steps and
  edges, an in-process executor, and a durable engine that keeps executions in an SQLite journal
  and lets competing workers advance them under leases. All paths below are under
  \<open>src/src/xyberos/\<close>. The package \<open>durable\<close> and the parts of \<open>execution\<close> it uses come first, the
  parts around them after.

  How the parts interact. A definition is built and validated (\<open>execution/models.py\<close>,
  \<open>execution/validation.py\<close>) and then either run in process (\<open>execution/executor.py\<close>) or submitted
  to the journal (\<open>durable/store.py\<close>). A worker (\<open>durable/worker.py\<close>) claims the oldest claimable
  execution, which takes its lease under a larger fencing token, asks the scheduler
  (\<open>durable/scheduler.py\<close>) for the next action on the persisted states and outputs, runs at most
  one step, records what happened in one transaction and lets go. Every write of a worker is
  guarded by its lease. Recovery (\<open>durable/recovery.py\<close>) claims executions whose lease ran out and
  decides what an interrupted attempt means.

  Theories and what they model, with the program's names kept.
  \<^item> \<open>Prelude\<close>, \<open>Procedures\<close>, \<open>Py_Text\<close>: transactions (a raised one rolls back), procedures (a raised
    one keeps what it did), relations kept by both, the locales \<open>evolution\<close> and
    \<open>procedure_evolution\<close> that compose such facts, strings and \<open>repr\<close>.
  \<^item> \<open>Errors\<close>: the class hierarchy of \<open>errors.py\<close> and \<open>isinstance\<close>; \<open>fw_ancestors\<close> goes five rounds
    up, no chain of classes being longer.
  \<^item> \<open>Json\<close>, \<open>Json_Roundtrip\<close>, \<open>Codec_Properties\<close>: Python values, the JSON text of a payload, and
    reading it back; the reader's fuel is the length of the text, each call consuming a character.
  \<^item> \<open>Payload_Values\<close>: \<open>_dump\<close> on values with keys of any kind and derived classes, and what \<open>_load\<close> then
    gives back; on payloads with text keys it is the \<open>dump\<close> the store's operations use.
  \<^item> \<open>Iso_Time\<close>: \<open>to_iso\<close> and \<open>from_iso\<close> of \<open>durable/journal.py\<close>; instants are microseconds.
  \<^item> \<open>Policies\<close>, \<open>Cancellation\<close>: \<open>execution/policies.py\<close>: back-off, retry, tokens in a store.
  \<^item> \<open>Workflow_Model\<close>, \<open>Validation\<close>, \<open>Kahn\<close>: definitions and \<open>validate_workflow\<close>; the queue loop that
    validation and the executor share runs on fuel one above the number of steps, which
    \<open>kahn_total\<close> shows to be enough.
  \<^item> \<open>Executor\<close>, \<open>Executor_Facts\<close>, \<open>Executor_Invariant\<close>, \<open>Executor_Properties\<close>:
    \<open>execution/executor.py\<close>, \<open>events.py\<close>, \<open>direct.py\<close>: attempts, retries, events, the queue loop and
    the invariant that relates a run to the scheduler's rules.
  \<^item> \<open>Durable_Models\<close>: \<open>durable/models.py\<close>, with the transition tables.
  \<^item> \<open>Journal_Db\<close>, \<open>Store\<close>, \<open>Store_Inspect\<close>: the tables of the journal as a record of maps and lists,
    and every operation of \<open>JournalStore\<close> as a transaction on it; an SQL statement is a helper
    definition whose condition is the statement's \<open>WHERE\<close>.
  \<^item> \<open>Store_Facts\<close>, \<open>Journal_Run\<close>, \<open>Fencing\<close>, \<open>Journal_History\<close>, \<open>Attempt_Ledger\<close>,
    \<open>Journal_Sample\<close>, \<open>Journal_Properties\<close>: what every operation keeps, the step relation of a
    journal used by any number of clients (\<open>store_step\<close>, \<open>runs\<close>, \<open>reachable\<close>), and its invariants.
  \<^item> \<open>Scheduler\<close>, \<open>Definition_Properties\<close>: \<open>plan_next\<close> and its declarative specification \<open>plan_spec\<close>.
  \<^item> \<open>Recovery\<close>, \<open>Worker\<close>, \<open>Worker_History\<close>, \<open>Worker_Properties\<close>: recovery and the worker as
    procedures over the journal and a stream of clock readings; the loop that applies skips is
    bounded by the number of steps plus one, which \<open>skip_loop_bound_suffices\<close> shows to be enough.
    The serving loop has no bound in the code and runs on fuel; \<open>serve_returns\<close> shows it returns
    once its halting event is set.
  \<^item> \<open>Worker_Turn\<close>: what one turn of a worker reports against what the journal then holds, by triples
    \<open>leads\<close> over the branches of \<open>run_once\<close>.
  \<^item> \<open>Providers\<close>, \<open>Provider_Facts\<close>: the provider registry and the validation of its graph
    (\<open>runtime/dependencies.py\<close>), against a declarative \<open>graph_ok\<close>.
  \<^item> \<open>Py_Parse\<close>, \<open>Settings\<close>, \<open>Routes\<close>: the texts and numbers Python reads, the settings
    (\<open>config.py\<close>) and the routes (\<open>routing.py\<close>).
  \<^item> \<open>Settings_Facts\<close>, \<open>Settings_Properties\<close>: what the merged layers of settings hold at a path of keys.
  \<^item> \<open>Plugins\<close>, \<open>Plugin_Facts\<close>: plugins, their configuration and their registry (\<open>plugins\<close>).
  \<^item> \<open>App\<close>, \<open>App_Facts\<close>, \<open>App_Run\<close>, \<open>App_Properties\<close>: the application (\<open>app.py\<close>): composing,
    resolving and releasing instances, its lifecycle as a step relation (\<open>app_step\<close>, \<open>app_runs\<close>,
    \<open>app_reachable\<close>) and the invariant \<open>app_ok\<close>. The depth of nested constructions is bounded by
    \<open>fo_limit\<close>, the interpreter's own limit, and \<open>ready_application_resolves\<close> shows that the number
    of providers is enough.
  \<^item> \<open>Schema\<close>, \<open>Schema_Facts\<close>: the JSON Schema subset of \<open>ai/schema.py\<close>, against the inductive
    predicates \<open>usable\<close> and \<open>conforms\<close>.
  \<^item> \<open>Ai_Contracts\<close>, \<open>Tools\<close>, \<open>Tool_Facts\<close>: messages, requests and responses (\<open>ai/contracts.py\<close>), the
    allowlist of tools and what an invocation does (\<open>ai/tools.py\<close>). A world with a ghost trace
    records the handlers run and the events told.
  \<^item> \<open>Facade\<close>, \<open>Facade_Facts\<close>, \<open>Facade_Properties\<close>: \<open>ai/facade.py\<close> over a provider that is a
    parameter: budgets, structured output, the loop of model and tools, streams pull by pull. The
    loop recurses on the rounds that are left, \<open>max_rounds\<close> at first, as the code's \<open>range\<close> does.
  \<^item> \<open>Sessions\<close>, \<open>Session_Facts\<close>: \<open>http/sessions.py\<close>: signed cookies, the store in memory and the
    middleware, over the locale \<open>session_store\<close> of what a store promises.
  \<^item> \<open>Csrf\<close>, \<open>Csrf_Facts\<close>: \<open>http/csrf.py\<close>: origins, tokens and which requests pass.
  \<^item> \<open>Urls\<close>, \<open>Ollama\<close>, \<open>Ollama_Client\<close>, \<open>Ollama_Facts\<close>: \<open>ai/ollama.py\<close>: the settings of the adapter of
    a model service, what it sends, how it reads replies, streams and errors, and the HTTP clients it
    owns, over a client that is a parameter.

  Modelling decisions. Strings are lists of code points below 256; durations are reals and payload
  floats are their texts; NaN and the infinities are left out, and so are the interpreter's limits on
  nesting and on the digits of an integer in \<open>json_dumps\<close> and \<open>json_loads\<close> (the adapter of \<open>Ollama_Client\<close>
  has them as a parameter, \<open>Payload_Values\<close> the digits). SHA-256, the texts of floats, the
  answers of \<open>issubclass\<close> and the bodies of steps are parameters; where a theorem needs something
  of them it is a hypothesis (no collision on two texts, float texts that read back, attempts that
  touch the journal only through the store). Rows that tie on their submission time are taken in
  the order of insertion, which SQL leaves open. A transaction is atomic, as SQLite's immediate
  transactions are. \<open>asyncio.TimeoutError\<close> is the builtin one. \<open>fail_step\<close> hands its own clock
  reading to the time-out it may delegate to.

  Not modelled: opening, migrating and closing database files, HTTP and child-process transports,
  the command line, and the test doubles, which are input and output or support
  for tests; the manifest lists each part.
\<close>

end
